(* ===== verification/Prelude.thy ===== *)
theory Prelude
  imports Main "HOL-Library.Word"
begin

text \<open>
  Shared vocabulary of the development: the names of Go's basic types, the helpers on sums and
  lists the components use, and the theorem collections their lemmas go into.

  A Go \<open>string\<close> is a sequence of bytes, and so is Isabelle's \<open>string\<close> (a list of the 256
  characters): \<open>length\<close> counts bytes exactly as Go's \<open>len\<close> does. A \<open>[]byte\<close> with binary
  contents is a list of \<open>8 word\<close>. Go's fixed-width integers keep their width.
  A pair \<open>(value, error)\<close> is a sum with the error on the left.
\<close>

type_synonym byte = "8 word"
type_synonym bytes = "8 word list"
type_synonym u32 = "32 word"
type_synonym int64 = "64 word"

text \<open>Instants (\<open>time.Time\<close>, \<open>timestamptz\<close>) and durations count microseconds.\<close>

type_synonym time = int
type_synonym duration = int

text \<open>A \<open>uuid.UUID\<close> is its 16 bytes read as one number.\<close>

type_synonym uuid = nat

named_theorems frame_simps "what an operation leaves unchanged"
named_theorems row_simps "effect of a table operation on the rows it writes"
named_theorems prog_simps "unfolding of programs and their runs"

subsection \<open>Results: an error or a value\<close>

abbreviation Err :: "'e \<Rightarrow> 'e + 'a" where "Err \<equiv> Inl"
abbreviation Ok :: "'a \<Rightarrow> 'e + 'a" where "Ok \<equiv> Inr"

text \<open>\<open>if err != nil { return err }\<close>, the shape of nearly every call in the code.\<close>

definition and_then :: "'e + 'a \<Rightarrow> ('a \<Rightarrow> 'e + 'b) \<Rightarrow> 'e + 'b" where
  "and_then r k = (case r of Inl e \<Rightarrow> Inl e | Inr a \<Rightarrow> k a)"

lemma and_then_simps [simp]:
  "and_then (Inl e) k = Inl e"
  "and_then (Inr a) k = k a"
  by (simp_all add: and_then_def)

lemma and_then_eq_Inr: "and_then r k = Inr b \<longleftrightarrow> (\<exists>a. r = Inr a \<and> k a = Inr b)"
  by (cases r) auto

text \<open>A conversion applied to every row of a result, stopping at the first error.\<close>

fun traverse :: "('a \<Rightarrow> 'e + 'b) \<Rightarrow> 'a list \<Rightarrow> 'e + 'b list" where
  "traverse f [] = Inr []"
| "traverse f (x # xs) = and_then (f x) (\<lambda>y. and_then (traverse f xs) (\<lambda>ys. Inr (y # ys)))"

lemma traverse_Inr_iff: "traverse f xs = Inr ys \<longleftrightarrow> list_all2 (\<lambda>x y. f x = Inr y) xs ys"
proof (induction xs arbitrary: ys)
  case Nil
  then show ?case by auto
next
  case (Cons x xs)
  then show ?case by (cases ys) (auto simp: and_then_eq_Inr)
qed

lemma traverse_length: "traverse f xs = Inr ys \<Longrightarrow> length ys = length xs"
  by (auto simp: traverse_Inr_iff dest: list_all2_lengthD)

lemma traverse_total: "(\<And>x. x \<in> set xs \<Longrightarrow> f x = Inr (g x)) \<Longrightarrow> traverse f xs = Inr (map g xs)"
  by (induction xs) auto

subsection \<open>Lists as tables\<close>

text \<open>The first row satisfying a condition, and an update of every row satisfying one.\<close>

definition update_where :: "('a \<Rightarrow> bool) \<Rightarrow> ('a \<Rightarrow> 'a) \<Rightarrow> 'a list \<Rightarrow> 'a list" where
  "update_where c f rows = map (\<lambda>r. if c r then f r else r) rows"

lemma update_where_simps [simp]:
  "update_where c f [] = []"
  "update_where c f (r # rows) = (if c r then f r else r) # update_where c f rows"
  by (simp_all add: update_where_def)

lemma length_update_where [simp]: "length (update_where c f rows) = length rows"
  by (simp add: update_where_def)

lemma set_update_where: "set (update_where c f rows) = (\<lambda>r. if c r then f r else r) ` set rows"
  by (simp add: update_where_def)

lemma map_update_where [simp]:
  "(\<And>r. g (f r) = g r) \<Longrightarrow> map g (update_where c f rows) = map g rows"
  by (simp add: update_where_def)

lemma update_where_id: "(\<And>r. r \<in> set rows \<Longrightarrow> \<not> c r) \<Longrightarrow> update_where c f rows = rows"
  by (induction rows) auto

lemma find_in_set: "find c rows = Some r \<Longrightarrow> r \<in> set rows \<and> c r"
  by (auto simp: find_Some_iff in_set_conv_nth)

lemma distinct_map_inj: "distinct (map g rows) \<Longrightarrow> r \<in> set rows \<Longrightarrow> r' \<in> set rows \<Longrightarrow>
    g r = g r' \<Longrightarrow> r = r'"
  by (auto simp: distinct_map dest: inj_onD)

lemma find_unique:
  assumes "distinct (map g rows)" "r \<in> set rows" "g r = k"
  shows "find (\<lambda>r. g r = k) rows = Some r"
proof -
  have "find (\<lambda>r. g r = k) rows \<noteq> None"
    using assms(2,3) by (auto simp: find_None_iff)
  then obtain r' where r': "find (\<lambda>r. g r = k) rows = Some r'" by auto
  then have "r' \<in> set rows" "g r' = k" by (auto dest: find_in_set)
  with assms have "r' = r" by (auto dest: distinct_map_inj)
  with r' show ?thesis by simp
qed

end
