(* ===== verification/GoStrings.thy ===== *)
theory GoStrings
  imports Prelude "HOL-Library.Char_ord" "HOL-Library.List_Lexorder" "HOL-Library.Signed_Division"
begin

text \<open>
  The functions of Go's \<open>strings\<close>, \<open>strconv\<close> and \<open>fmt\<close> packages that the service calls, on
  byte strings: trimming (with the UTF-8 encodings of every Unicode space), prefixes, folding,
  splitting, and decimal integers with Go's range checks. Component theories use them by name.
\<close>

abbreviation code_of :: "char \<Rightarrow> nat" where "code_of c \<equiv> of_char c"

subsection \<open>White space and trimming\<close>

text \<open>
  \<open>unicode.IsSpace\<close>: tab, LF, VT, FF, CR, space, U+0085, U+00A0, U+1680, U+2000..U+200A,
  U+2028, U+2029, U+202F, U+205F and U+3000, in UTF-8 one, two and three bytes long.
\<close>

definition space1 :: "char \<Rightarrow> bool" where
  "space1 a \<longleftrightarrow> (9 \<le> code_of a \<and> code_of a \<le> 13) \<or> code_of a = 32"

definition space2 :: "char \<Rightarrow> char \<Rightarrow> bool" where
  "space2 a b \<longleftrightarrow> code_of a = 194 \<and> (code_of b = 133 \<or> code_of b = 160)"

definition space3 :: "char \<Rightarrow> char \<Rightarrow> char \<Rightarrow> bool" where
  "space3 a b c \<longleftrightarrow>
     (code_of a = 225 \<and> code_of b = 154 \<and> code_of c = 128) \<or>
     (code_of a = 226 \<and> code_of b = 128 \<and>
        ((128 \<le> code_of c \<and> code_of c \<le> 138) \<or> code_of c = 168 \<or> code_of c = 169 \<or> code_of c = 175)) \<or>
     (code_of a = 226 \<and> code_of b = 129 \<and> code_of c = 159) \<or>
     (code_of a = 227 \<and> code_of b = 128 \<and> code_of c = 128)"

text \<open>Bytes of the white space rune a string starts with (0 if it starts with none).\<close>

fun space_prefix :: "string \<Rightarrow> nat" where
  "space_prefix (a # b # c # s) =
     (if space1 a then 1 else if space2 a b then 2 else if space3 a b c then 3 else 0)"
| "space_prefix [a, b] = (if space1 a then 1 else if space2 a b then 2 else 0)"
| "space_prefix [a] = (if space1 a then 1 else 0)"
| "space_prefix [] = 0"

text \<open>The same for the last rune, on the reversed string.\<close>

fun space_suffix :: "string \<Rightarrow> nat" where
  "space_suffix (c # b # a # s) =
     (if space1 c then 1 else if space2 b c then 2 else if space3 a b c then 3 else 0)"
| "space_suffix [b, a] = (if space1 b then 1 else if space2 a b then 2 else 0)"
| "space_suffix [a] = (if space1 a then 1 else 0)"
| "space_suffix [] = 0"

lemma space_prefix_le: "space_prefix s \<le> length s"
  by (induction s rule: space_prefix.induct) auto

lemma space_suffix_le: "space_suffix s \<le> length s"
  by (induction s rule: space_suffix.induct) auto

function trim_left :: "string \<Rightarrow> string" where
  "trim_left s = (if space_prefix s = 0 then s else trim_left (drop (space_prefix s) s))"
  by pat_completeness auto
termination
proof (relation "measure length", goal_cases)
  case 1 show ?case by simp
next
  case (2 s)
  have "space_prefix s \<le> length s" by (rule space_prefix_le)
  with 2 show ?case by simp
qed

function trim_rev :: "string \<Rightarrow> string" where
  "trim_rev s = (if space_suffix s = 0 then s else trim_rev (drop (space_suffix s) s))"
  by pat_completeness auto
termination
proof (relation "measure length", goal_cases)
  case 1 show ?case by simp
next
  case (2 s)
  have "space_suffix s \<le> length s" by (rule space_suffix_le)
  with 2 show ?case by simp
qed

declare trim_left.simps [simp del] trim_rev.simps [simp del]

text \<open>\<open>strings.TrimSpace\<close>\<close>

definition trim_space :: "string \<Rightarrow> string" where
  "trim_space s = rev (trim_rev (rev (trim_left s)))"

lemma space_prefix_trim_left: "space_prefix (trim_left s) = 0"
proof (induction s rule: trim_left.induct)
  case (1 s)
  then show ?case by (cases "space_prefix s = 0") (simp_all add: trim_left.simps [of s])
qed

lemma space_suffix_trim_rev: "space_suffix (trim_rev s) = 0"
proof (induction s rule: trim_rev.induct)
  case (1 s)
  then show ?case by (cases "space_suffix s = 0") (simp_all add: trim_rev.simps [of s])
qed

lemma trim_left_fix: "space_prefix s = 0 \<Longrightarrow> trim_left s = s"
  by (simp add: trim_left.simps)

lemma trim_rev_fix: "space_suffix s = 0 \<Longrightarrow> trim_rev s = s"
  by (simp add: trim_rev.simps)

lemma trim_left_suffix: "\<exists>p. s = p @ trim_left s"
proof (induction s rule: trim_left.induct)
  case (1 s)
  show ?case
  proof (cases "space_prefix s = 0")
    case True
    then show ?thesis by (simp add: trim_left_fix)
  next
    case False
    with 1 obtain p where "drop (space_prefix s) s = p @ trim_left (drop (space_prefix s) s)"
      by blast
    with False have "s = (take (space_prefix s) s @ p) @ trim_left s"
      by (metis append.assoc append_take_drop_id trim_left.simps)
    then show ?thesis by blast
  qed
qed

lemma trim_rev_suffix: "\<exists>p. s = p @ trim_rev s"
proof (induction s rule: trim_rev.induct)
  case (1 s)
  show ?case
  proof (cases "space_suffix s = 0")
    case True
    then show ?thesis by (simp add: trim_rev_fix)
  next
    case False
    with 1 obtain p where "drop (space_suffix s) s = p @ trim_rev (drop (space_suffix s) s)"
      by blast
    with False have "s = (take (space_suffix s) s @ p) @ trim_rev s"
      by (metis append.assoc append_take_drop_id trim_rev.simps)
    then show ?thesis by blast
  qed
qed

lemma trim_space_substring: "\<exists>p q. s = p @ trim_space s @ q"
proof -
  obtain p where "s = p @ trim_left s" using trim_left_suffix by blast
  moreover obtain q where "rev (trim_left s) = q @ trim_rev (rev (trim_left s))"
    using trim_rev_suffix by blast
  then have "trim_left s = trim_space s @ rev q"
    unfolding trim_space_def by (metis rev_append rev_rev_ident)
  ultimately show ?thesis by metis
qed

lemma length_trim_space: "length (trim_space s) \<le> length s"
proof -
  obtain p q where "s = p @ trim_space s @ q" using trim_space_substring by blast
  then have "length s = length p + (length (trim_space s) + length q)"
    by (metis length_append)
  then show ?thesis by simp
qed

lemma space_prefix_append: "space_prefix p > 0 \<Longrightarrow> space_prefix (p @ q) > 0"
proof (induction p rule: space_prefix.induct)
  case (3 a)
  then show ?case by (cases "(a # q)" rule: space_prefix.cases) (auto split: if_splits)
next
  case (2 a b)
  then show ?case by (cases q) (auto split: if_splits)
qed (auto split: if_splits)

lemma space_prefix_trim_space: "space_prefix (trim_space s) = 0"
proof -
  obtain q where "rev (trim_left s) = q @ trim_rev (rev (trim_left s))"
    using trim_rev_suffix by blast
  then have "trim_left s = trim_space s @ rev q"
    unfolding trim_space_def by (metis rev_append rev_rev_ident)
  with space_prefix_trim_left [of s] show ?thesis
    using space_prefix_append [of "trim_space s" "rev q"] by (cases "space_prefix (trim_space s)") auto
qed

lemma trim_space_idem [simp]: "trim_space (trim_space s) = trim_space s"
proof -
  have "trim_left (trim_space s) = trim_space s"
    by (rule trim_left_fix [OF space_prefix_trim_space])
  moreover have "trim_rev (rev (trim_space s)) = rev (trim_space s)"
    by (rule trim_rev_fix) (simp add: trim_space_def space_suffix_trim_rev)
  ultimately show ?thesis by (simp add: trim_space_def [of "trim_space s"])
qed

lemma trim_space_Nil [simp]: "trim_space [] = []"
  by (simp add: trim_space_def trim_left.simps trim_rev.simps)

lemma trim_space_fix: "space_prefix s = 0 \<Longrightarrow> space_suffix (rev s) = 0 \<Longrightarrow> trim_space s = s"
  by (simp add: trim_space_def trim_left_fix trim_rev_fix)

text \<open>Text of plain ASCII characters other than spaces has nothing to trim.\<close>

definition plain_char :: "char \<Rightarrow> bool" where
  "plain_char c \<longleftrightarrow> \<not> space1 c \<and> code_of c < 128"

lemma plain_char_not_space:
  "plain_char a \<Longrightarrow> \<not> space1 a \<and> \<not> space2 a b \<and> \<not> space3 a b c"
  "plain_char c \<Longrightarrow> \<not> space1 c \<and> \<not> space2 b c \<and> \<not> space3 a b c"
  by (simp_all add: plain_char_def space2_def space3_def)

lemma space_prefix_plain: "\<forall>c \<in> set s. plain_char c \<Longrightarrow> space_prefix s = 0"
  by (cases s rule: space_prefix.cases) (simp_all add: plain_char_not_space)

lemma space_suffix_plain: "\<forall>c \<in> set s. plain_char c \<Longrightarrow> space_suffix s = 0"
  by (cases s rule: space_suffix.cases) (simp_all add: plain_char_not_space)

lemma trim_space_plain: "\<forall>c \<in> set s. plain_char c \<Longrightarrow> trim_space s = s"
  by (intro trim_space_fix space_prefix_plain space_suffix_plain) simp_all

subsection \<open>Prefixes, suffixes, cutsets\<close>

definition has_prefix :: "string \<Rightarrow> string \<Rightarrow> bool" where
  "has_prefix s p \<longleftrightarrow> take (length p) s = p"

definition trim_prefix :: "string \<Rightarrow> string \<Rightarrow> string" where
  "trim_prefix s p = (if has_prefix s p then drop (length p) s else s)"

definition has_suffix :: "string \<Rightarrow> string \<Rightarrow> bool" where
  "has_suffix s p \<longleftrightarrow> has_prefix (rev s) (rev p)"

definition trim_suffix :: "string \<Rightarrow> string \<Rightarrow> string" where
  "trim_suffix s p = (if has_suffix s p then take (length s - length p) s else s)"

text \<open>\<open>strings.TrimRight\<close> and \<open>strings.Trim\<close> with a cutset of one ASCII character\<close>

definition trim_right_char :: "char \<Rightarrow> string \<Rightarrow> string" where
  "trim_right_char c s = rev (dropWhile (\<lambda>x. x = c) (rev s))"

definition trim_char :: "char \<Rightarrow> string \<Rightarrow> string" where
  "trim_char c s = trim_right_char c (dropWhile (\<lambda>x. x = c) s)"

lemma has_prefix_append [simp]: "has_prefix (p @ s) p"
  by (simp add: has_prefix_def)

lemma has_prefixD: "has_prefix s p \<Longrightarrow> s = p @ drop (length p) s"
  by (metis append_take_drop_id has_prefix_def)

lemma trim_prefix_append [simp]: "trim_prefix (p @ s) p = s"
  by (simp add: trim_prefix_def)

lemma has_suffix_append [simp]: "has_suffix (s @ p) p"
  by (simp add: has_suffix_def)

lemma trim_suffix_append [simp]: "trim_suffix (s @ p) p = s"
  by (simp add: trim_suffix_def)

lemma set_trim_char: "set (trim_char c s) \<subseteq> set s"
  by (auto simp: trim_char_def trim_right_char_def dest!: set_dropWhileD)

lemma length_trim_char: "length (trim_char c s) \<le> length s"
proof -
  have "length (trim_char c s) \<le> length (dropWhile (\<lambda>x. x = c) s)"
    unfolding trim_char_def trim_right_char_def
    by (metis length_dropWhile_le length_rev)
  also have "\<dots> \<le> length s" by (rule length_dropWhile_le)
  finally show ?thesis .
qed

lemma last_trim_right_char: "trim_right_char c s \<noteq> [] \<Longrightarrow> last (trim_right_char c s) \<noteq> c"
  using hd_dropWhile [of "\<lambda>x. x = c" "rev s"] by (simp add: trim_right_char_def last_rev)

lemma hd_trim_right_char: "trim_right_char c s \<noteq> [] \<Longrightarrow> hd (trim_right_char c s) = hd s"
proof -
  assume ne: "trim_right_char c s \<noteq> []"
  have "rev s = takeWhile (\<lambda>x. x = c) (rev s) @ dropWhile (\<lambda>x. x = c) (rev s)" by simp
  then have "s = trim_right_char c s @ rev (takeWhile (\<lambda>x. x = c) (rev s))"
    unfolding trim_right_char_def by (metis rev_append rev_rev_ident)
  with ne show ?thesis by (metis hd_append2)
qed

lemma trim_char_ends:
  assumes "trim_char c s \<noteq> []"
  shows "hd (trim_char c s) \<noteq> c" "last (trim_char c s) \<noteq> c"
proof -
  show "last (trim_char c s) \<noteq> c"
    using assms unfolding trim_char_def by (rule last_trim_right_char)
  from assms have "hd (trim_char c s) = hd (dropWhile (\<lambda>x. x = c) s)"
    unfolding trim_char_def by (rule hd_trim_right_char)
  moreover from assms have "dropWhile (\<lambda>x. x = c) s \<noteq> []"
    unfolding trim_char_def trim_right_char_def by (metis dropWhile.simps(1) rev.simps(1))
  ultimately show "hd (trim_char c s) \<noteq> c"
    using hd_dropWhile [of "\<lambda>x. x = c" s] by simp
qed

lemma dropWhile_hd_fix: "s \<noteq> [] \<Longrightarrow> \<not> P (hd s) \<Longrightarrow> dropWhile P s = s"
  by (cases s) auto

lemma trim_char_fix: "s \<noteq> [] \<Longrightarrow> hd s \<noteq> c \<Longrightarrow> last s \<noteq> c \<Longrightarrow> trim_char c s = s"
  by (simp add: trim_char_def trim_right_char_def dropWhile_hd_fix hd_rev)

lemma trim_right_char_nonempty: "x \<in> set s \<Longrightarrow> x \<noteq> c \<Longrightarrow> trim_right_char c s \<noteq> []"
  by (auto simp: trim_right_char_def)

lemma trim_char_nonempty: "x \<in> set s \<Longrightarrow> x \<noteq> c \<Longrightarrow> trim_char c s \<noteq> []"
proof -
  assume x: "x \<in> set s" "x \<noteq> c"
  then have "x \<in> set (dropWhile (\<lambda>y. y = c) s)" by (induction s) auto
  from this x(2) show ?thesis unfolding trim_char_def by (rule trim_right_char_nonempty)
qed

end
