(* ===== verification/GoNumbers.thy ===== *)
theory GoNumbers
  imports GoStrings
begin

text \<open>
  Decimal integers (\<open>strconv.ParseInt\<close>, \<open>strconv.FormatInt\<close>, \<open>fmt\<close>'s \<open>%d\<close> and \<open>%02d\<close>), splitting
  at a separator and ASCII case folding, with the round trip of the decimal notation.
\<close>

subsection \<open>Decimal notation\<close>

definition digit_char :: "nat \<Rightarrow> char" where
  "digit_char d = char_of (48 + d)"

definition digit_val :: "char \<Rightarrow> nat option" where
  "digit_val c = (if 48 \<le> code_of c \<and> code_of c \<le> 57 then Some (code_of c - 48) else None)"

fun dec :: "nat \<Rightarrow> string" where
  "dec n = (if n < 10 then [digit_char n] else dec (n div 10) @ [digit_char (n mod 10)])"

declare dec.simps [simp del]

fun digits_val :: "nat \<Rightarrow> string \<Rightarrow> nat option" where
  "digits_val acc [] = Some acc"
| "digits_val acc (c # s) =
     (case digit_val c of None \<Rightarrow> None | Some d \<Rightarrow> digits_val (10 * acc + d) s)"

lemma digit_val_digit_char [simp]: "d < 10 \<Longrightarrow> digit_val (digit_char d) = Some d"
  by (simp add: digit_val_def digit_char_def)

lemma digits_val_append:
  "digits_val acc (s @ t) = (case digits_val acc s of None \<Rightarrow> None | Some a \<Rightarrow> digits_val a t)"
  by (induction s arbitrary: acc) (auto split: option.splits)

lemma digits_val_dec: "digits_val 0 (dec n) = Some n"
proof (induction n rule: dec.induct)
  case (1 n)
  show ?case
  proof (cases "n < 10")
    case True
    then show ?thesis by (simp add: dec.simps [of n])
  next
    case False
    with 1 show ?thesis by (simp add: dec.simps [of n] digits_val_append)
  qed
qed

lemma digits_val_dec_acc: "digits_val acc (dec n) = Some (acc * 10 ^ length (dec n) + n)"
proof (induction n arbitrary: acc rule: dec.induct)
  case (1 n)
  show ?case
  proof (cases "n < 10")
    case True
    then show ?thesis by (simp add: dec.simps [of n])
  next
    case False
    with 1 show ?thesis
      by (simp add: dec.simps [of n] digits_val_append algebra_simps)
  qed
qed

lemma dec_nonempty [simp]: "dec n \<noteq> []"
  by (simp add: dec.simps)

definition is_digit :: "char \<Rightarrow> bool" where
  "is_digit c \<longleftrightarrow> 48 \<le> code_of c \<and> code_of c \<le> 57"

lemma is_digit_digit_char: "d < 10 \<Longrightarrow> is_digit (digit_char d)"
  by (simp add: is_digit_def digit_char_def)

lemma dec_digits: "c \<in> set (dec n) \<Longrightarrow> is_digit c"
proof (induction n rule: dec.induct)
  case (1 n)
  then show ?case
    by (cases "n < 10") (auto simp: dec.simps [of n] is_digit_digit_char)
qed

text \<open>\<open>strconv.FormatInt(i, 10)\<close>\<close>

definition format_int :: "int \<Rightarrow> string" where
  "format_int i = (if i < 0 then CHR ''-'' # dec (nat (- i)) else dec (nat i))"

text \<open>\<open>strconv.ParseInt(s, 10, bits)\<close>: an optional sign, digits only, and the range check.\<close>

definition parse_int :: "nat \<Rightarrow> string \<Rightarrow> int option" where
  "parse_int bits s =
     (case s of
        [] \<Rightarrow> None
      | c # r \<Rightarrow>
          (let neg = (c = CHR ''-'');
               d = (if c = CHR ''+'' \<or> c = CHR ''-'' then r else s)
           in if d = [] then None
              else case digits_val 0 d of
                     None \<Rightarrow> None
                   | Some n \<Rightarrow>
                       if neg then (if n \<le> 2 ^ (bits - 1) then Some (- int n) else None)
                       else (if n < 2 ^ (bits - 1) then Some (int n) else None)))"

lemma digit_not_sign: "is_digit c \<Longrightarrow> c \<noteq> CHR ''-'' \<and> c \<noteq> CHR ''+'' \<and> c \<noteq> CHR ''.''"
  by (auto simp: is_digit_def)

lemma parse_int_dec: "n < 2 ^ (bits - 1) \<Longrightarrow> parse_int bits (dec n) = Some (int n)"
proof -
  assume n: "n < 2 ^ (bits - 1)"
  obtain c r where cr: "dec n = c # r" by (cases "dec n") auto
  then have "is_digit c" using dec_digits [of c n] by simp
  with n cr digits_val_dec [of n] show ?thesis
    by (simp add: parse_int_def digit_not_sign Let_def)
qed

lemma parse_format_int:
  assumes "- (2 ^ (bits - 1)) \<le> i" "i < 2 ^ (bits - 1)"
  shows "parse_int bits (format_int i) = Some i"
proof (cases "i < 0")
  case True
  with assms have "nat (- i) \<le> 2 ^ (bits - 1)" by (simp add: nat_le_iff)
  with True show ?thesis
    by (simp add: format_int_def parse_int_def Let_def digits_val_dec)
next
  case False
  with assms have "nat i < 2 ^ (bits - 1)" by (simp add: nat_less_iff)
  with False show ?thesis by (simp add: format_int_def parse_int_dec)
qed

lemma int_pow2_bounds: "- int n < 2 ^ k" "- (2 ^ k) \<le> int n"
  by (rule le_less_trans [of _ 0], simp_all) (rule order_trans [of _ 0], simp_all)

lemma parse_int_range:
  assumes "parse_int bits s = Some i"
  shows "- (2 ^ (bits - 1)) \<le> i \<and> i < 2 ^ (bits - 1)"
  using assms
  by (auto simp: parse_int_def Let_def int_pow2_bounds
           split: list.splits if_splits option.splits)

subsection \<open>Splitting and folding\<close>

text \<open>\<open>strings.Split(s, sep)\<close> for a one-byte separator\<close>

fun split_char :: "char \<Rightarrow> string \<Rightarrow> string list" where
  "split_char c [] = [[]]"
| "split_char c (x # s) =
     (if x = c then [] # split_char c s
      else case split_char c s of [] \<Rightarrow> [[x]] | p # ps \<Rightarrow> (x # p) # ps)"

text \<open>\<open>strings.SplitN(s, sep, 2)\<close>: what precedes the first separator, and the rest if it occurs.\<close>

definition split_n2 :: "char \<Rightarrow> string \<Rightarrow> string \<times> string option" where
  "split_n2 c s =
     (let p = takeWhile (\<lambda>x. x \<noteq> c) s
      in (p, if c \<in> set s then Some (drop (Suc (length p)) s) else None))"

lemma split_n2_none: "c \<notin> set s \<Longrightarrow> split_n2 c s = (s, None)"
proof -
  assume a: "c \<notin> set s"
  then have "takeWhile (\<lambda>x. x \<noteq> c) s = s" by (induction s) auto
  with a show ?thesis by (simp add: split_n2_def)
qed

lemma split_n2_some: "c \<notin> set p \<Longrightarrow> split_n2 c (p @ c # s) = (p, Some s)"
proof -
  assume a: "c \<notin> set p"
  then have "takeWhile (\<lambda>x. x \<noteq> c) (p @ c # s) = p"
    by (induction p) auto
  then show ?thesis by (simp add: split_n2_def)
qed

text \<open>Lower case of an ASCII letter, and \<open>strings.EqualFold\<close> on ASCII text without \<open>k\<close> and \<open>s\<close>
  (the only letters that fold to characters beyond ASCII).\<close>

definition ascii_lower :: "char \<Rightarrow> char" where
  "ascii_lower c = (if 65 \<le> code_of c \<and> code_of c \<le> 90 then char_of (code_of c + 32) else c)"

text \<open>
  \<open>strings.ToLower\<close>, as far as ASCII results go: besides \<open>A\<close>..\<open>Z\<close>, the Kelvin sign (E2 84 AA)
  becomes \<open>k\<close> and the dotted capital I (C4 B0) becomes \<open>i\<close>; every other character beyond ASCII
  stays beyond ASCII and is left as it is, since no caller looks at those bytes.
\<close>

fun to_lower :: "string \<Rightarrow> string" where
  "to_lower (a # b # c # s) =
     (if code_of a = 226 \<and> code_of b = 132 \<and> code_of c = 170 then CHR ''k'' # to_lower s
      else if code_of a = 196 \<and> code_of b = 176 then CHR ''i'' # to_lower (c # s)
      else ascii_lower a # to_lower (b # c # s))"
| "to_lower [a, b] =
     (if code_of a = 196 \<and> code_of b = 176 then ''i'' else [ascii_lower a, ascii_lower b])"
| "to_lower [a] = [ascii_lower a]"
| "to_lower [] = []"

definition equal_fold :: "string \<Rightarrow> string \<Rightarrow> bool" where
  "equal_fold s t \<longleftrightarrow> map ascii_lower s = map ascii_lower t"

text \<open>
  \<open>strconv.Quote\<close>, the verb \<open>%q\<close>: quotes, backslashes and control characters are escaped; the
  bytes of characters beyond ASCII stay (such a character is taken to be printable and valid).
\<close>

definition hex_digit_char :: "nat \<Rightarrow> char" where
  "hex_digit_char d = (if d < 10 then digit_char d else char_of (87 + d))"

definition quote_char :: "char \<Rightarrow> string" where
  "quote_char c =
     (let n = code_of c; esc = (\<lambda>x. [char_of (92 :: nat), x]) in
      if n = 34 \<or> n = 92 then esc c
      else if n = 7 then esc CHR ''a'' else if n = 8 then esc CHR ''b''
      else if n = 12 then esc CHR ''f'' else if n = 10 then esc CHR ''n''
      else if n = 13 then esc CHR ''r'' else if n = 9 then esc CHR ''t''
      else if n = 11 then esc CHR ''v''
      else if n < 32 \<or> n = 127 then
        esc CHR ''x'' @ [hex_digit_char (n div 16), hex_digit_char (n mod 16)]
      else [c])"

definition go_quote :: "string \<Rightarrow> string" where
  "go_quote s = [char_of (34 :: nat)] @ concat (map quote_char s) @ [char_of (34 :: nat)]"

end
