(* ===== verification/Errors.thy ===== *)
theory Errors
  imports GoNumbers
begin

text \<open>
  Go error values. A package's sentinel errors are the constructors of \<open>sentinel\<close>;
  \<open>fmt.Errorf\<close> with \<open>%w\<close> wraps an error before or after a text; a PostgreSQL error carries its
  SQLSTATE code, a provider failure its normalized code (\<open>internal/providers/errors.go\<close>), and any
  other failure of a library (network, context, random source) is an opaque text.
  \<open>errors.Is\<close> and \<open>errors.As\<close> look through the wrapping, \<open>Error()\<close> renders it.
\<close>

subsection \<open>Provider failures: internal/providers/errors.go\<close>

datatype error_code = CodeInvalidRequest | CodeAuthFailed | CodeUnavailable | CodeTimeout
  | CodeStateUnknown

fun error_code_text :: "error_code \<Rightarrow> string" where
  "error_code_text CodeInvalidRequest = ''INVALID_REQUEST''"
| "error_code_text CodeAuthFailed = ''PROVIDER_AUTH_FAILED''"
| "error_code_text CodeUnavailable = ''PROVIDER_UNAVAILABLE''"
| "error_code_text CodeTimeout = ''PROVIDER_TIMEOUT''"
| "error_code_text CodeStateUnknown = ''PAYMENT_STATE_UNKNOWN''"

record provider_error =
  pe_code :: error_code
  pe_http_status :: int
  pe_message :: string
  pe_retryable :: bool

definition provider_error_text :: "provider_error \<Rightarrow> string" where
  "provider_error_text e =
     ''provider: '' @ error_code_text (pe_code e) @ '' (http '' @ format_int (pe_http_status e)
       @ ''): '' @ pe_message e"

subsection \<open>Error values\<close>

datatype sentinel =
    PErrValidation | PErrNotFound | PErrIdempotencyConflict | PErrActiveAttemptExists
  | PErrOrderAlreadySucceeded | PErrNoProviderAccount | PErrIllegalTransition | PErrIdempotencyRace
  | AErrNotFound | AErrUnauthorized | AErrConflict | AErrValidation
  | SErrInvalidKey | SErrCiphertextShort | SErrUnsupportedVer | SErrUnknownKeyID | SErrDecrypt
  | SErrInvalidURL
  | ErrNullValue | ErrNoRows

fun sentinel_text :: "sentinel \<Rightarrow> string" where
  "sentinel_text PErrValidation = ''payments: validation failed''"
| "sentinel_text PErrNotFound = ''payments: not found''"
| "sentinel_text PErrIdempotencyConflict = ''payments: idempotency conflict''"
| "sentinel_text PErrActiveAttemptExists =
     ''payments: an unfinished attempt already exists for this order''"
| "sentinel_text PErrOrderAlreadySucceeded = ''payments: order already paid''"
| "sentinel_text PErrNoProviderAccount = ''payments: no active provider account''"
| "sentinel_text PErrIllegalTransition = ''payments: illegal status transition''"
| "sentinel_text PErrIdempotencyRace = ''payments: idempotency key claimed concurrently''"
| "sentinel_text AErrNotFound = ''applications: not found''"
| "sentinel_text AErrUnauthorized = ''applications: unauthorized''"
| "sentinel_text AErrConflict = ''applications: conflict''"
| "sentinel_text AErrValidation = ''applications: validation failed''"
| "sentinel_text SErrInvalidKey = ''security: master key must be 32 bytes''"
| "sentinel_text SErrCiphertextShort = ''security: ciphertext is truncated''"
| "sentinel_text SErrUnsupportedVer = ''security: unsupported envelope version''"
| "sentinel_text SErrUnknownKeyID = ''security: no key matches ciphertext key id''"
| "sentinel_text SErrDecrypt = ''security: decryption failed''"
| "sentinel_text SErrInvalidURL = ''security: invalid url''"
| "sentinel_text ErrNullValue = ''database: unexpected NULL''"
| "sentinel_text ErrNoRows = ''no rows in result set''"

datatype go_err =
    Sentinel sentinel
  | Suffixed go_err string      \<comment> \<open>\<open>fmt.Errorf("%w: text", err)\<close>\<close>
  | Prefixed string go_err      \<comment> \<open>\<open>fmt.Errorf("text: %w", err)\<close>\<close>
  | PgError string string       \<comment> \<open>SQLSTATE code and message\<close>
  | ProviderErr provider_error
  | Opaque string

fun error_text :: "go_err \<Rightarrow> string" where
  "error_text (Sentinel s) = sentinel_text s"
| "error_text (Suffixed e msg) = error_text e @ '': '' @ msg"
| "error_text (Prefixed msg e) = msg @ '': '' @ error_text e"
| "error_text (PgError code msg) = msg"
| "error_text (ProviderErr p) = provider_error_text p"
| "error_text (Opaque msg) = msg"

text \<open>\<open>errors.Is(err, sentinel)\<close>\<close>

fun err_is :: "go_err \<Rightarrow> sentinel \<Rightarrow> bool" where
  "err_is (Sentinel t) s = (t = s)"
| "err_is (Suffixed e _) s = err_is e s"
| "err_is (Prefixed _ e) s = err_is e s"
| "err_is (PgError _ _) s = False"
| "err_is (ProviderErr _) s = False"
| "err_is (Opaque _) s = False"

text \<open>\<open>errors.As\<close> into a \<open>*pgconn.PgError\<close> with code 23505 (both services have this helper).\<close>

fun is_unique_violation :: "go_err \<Rightarrow> bool" where
  "is_unique_violation (PgError code _) = (code = ''23505'')"
| "is_unique_violation (Suffixed e _) = is_unique_violation e"
| "is_unique_violation (Prefixed _ e) = is_unique_violation e"
| "is_unique_violation (Sentinel _) = False"
| "is_unique_violation (ProviderErr _) = False"
| "is_unique_violation (Opaque _) = False"

text \<open>\<open>providers.AsError\<close>, \<open>CodeOf\<close> and \<open>Definitive\<close>\<close>

fun as_provider_error :: "go_err \<Rightarrow> provider_error option" where
  "as_provider_error (ProviderErr p) = Some p"
| "as_provider_error (Suffixed e _) = as_provider_error e"
| "as_provider_error (Prefixed _ e) = as_provider_error e"
| "as_provider_error (Sentinel _) = None"
| "as_provider_error (PgError _ _) = None"
| "as_provider_error (Opaque _) = None"

definition code_of_error :: "go_err \<Rightarrow> error_code" where
  "code_of_error e = (case as_provider_error e of Some p \<Rightarrow> pe_code p | None \<Rightarrow> CodeStateUnknown)"

definition definitive :: "error_code \<Rightarrow> bool" where
  "definitive code \<longleftrightarrow> code = CodeInvalidRequest \<or> code = CodeAuthFailed"

text \<open>An error belongs to at most one sentinel, and a wrapped error keeps its own.\<close>

lemma err_is_unique: "err_is e s \<Longrightarrow> err_is e t \<Longrightarrow> s = t"
  by (induction e) auto

lemma definitive_has_provider_error:
  "definitive (code_of_error e) \<Longrightarrow> \<exists>p. as_provider_error e = Some p"
  by (auto simp: code_of_error_def definitive_def split: option.splits)

end
