(* ===== verification/Yookassa.thy ===== *)
theory Yookassa
  imports Errors
begin

text \<open>
  The provider contract (\<open>internal/providers/provider.go\<close>) and the YooKassa adapter
  (\<open>internal/providers/yookassa/client.go\<close>, \<open>payments.go\<close>): amounts, status mapping, the
  normalization of every transport outcome, and the two API calls as a request to send and a
  function of the outcome. The network is the outcome argument; decoding a JSON response and
  building an \<open>http.Request\<close> are parameters (record \<open>yk_env\<close>). \<open>json.Marshal\<close> cannot fail on the
  request body, which holds strings, booleans and a map of strings only.
\<close>

subsection \<open>internal/providers/provider.go\<close>

datatype provider_status = ProvPending | ProvSucceeded | ProvCanceled

type_synonym metadata = "(string \<times> string) list"

record create_request =
  req_amount :: int64
  req_currency :: string
  req_description :: string
  req_return_url :: string
  req_metadata :: metadata
  req_idempotency_key :: string

record provider_payment =
  pp_id :: string
  pp_status :: provider_status
  pp_checkout_url :: string
  pp_paid :: bool
  pp_amount :: int64
  pp_currency :: string

subsection \<open>API payloads\<close>

record api_amount =
  amount_value :: string
  amount_currency :: string

record api_payment =
  api_id :: string
  api_status :: string
  api_paid :: bool
  api_amount :: api_amount
  api_confirmation :: "string option"   \<comment> \<open>\<open>confirmation.confirmation_url\<close>, if there is a confirmation\<close>

record create_body =
  body_amount :: api_amount
  body_capture :: bool
  body_confirmation_type :: string
  body_return_url :: string
  body_description :: string
  body_metadata :: metadata

record yk_client =
  base_url :: string
  shop_id :: string
  secret_key :: string

record wire_request =
  wire_method :: string
  wire_url :: string
  wire_auth :: "string \<times> string"
  wire_idempotence_key :: "string option"
  wire_body :: "create_body option"

text \<open>What the transport gives back: a failure (with whether it was a timeout, an expired deadline
  or a cancellation), or a status code and a body.\<close>

datatype transport =
    NetFail bool string
  | HttpResp int string

record yk_env =
  request_error :: "string \<Rightarrow> string option"    \<comment> \<open>\<open>http.NewRequestWithContext\<close> refusing a URL\<close>
  decode_payment :: "string \<Rightarrow> string + api_payment"
  decode_error :: "string \<Rightarrow> (string \<times> string) option"

subsection \<open>Amounts\<close>

definition int64_of :: "int \<Rightarrow> int64" where "int64_of i = word_of_int i"

definition go_div :: "int64 \<Rightarrow> int64 \<Rightarrow> int64" where
  "go_div a b = int64_of (sint a sdiv sint b)"

definition go_rem :: "int64 \<Rightarrow> int64 \<Rightarrow> int64" where
  "go_rem a b = int64_of (sint a smod sint b)"

text \<open>\<open>fmt.Sprintf("%02d", i)\<close>\<close>

definition pad2 :: "int \<Rightarrow> string" where
  "pad2 i = (let s = format_int i in if length s < 2 then CHR ''0'' # s else s)"

definition format_amount_minor :: "int64 \<Rightarrow> string" where
  "format_amount_minor minor =
     (let neg = sint minor < 0;
          m = (if neg then - minor else minor)
      in (if neg then ''-'' else []) @ format_int (sint (go_div m 100)) @ ''.''
           @ pad2 (sint (go_rem m 100)))"

definition invalid_amount :: "string \<Rightarrow> go_err" where
  "invalid_amount value = Opaque (''invalid amount '' @ go_quote value)"

definition parse_amount_minor :: "string \<Rightarrow> go_err + int64" where
  "parse_amount_minor value =
     (case split_n2 CHR ''.'' (trim_space value) of (whole, frac) \<Rightarrow>
        (case parse_int 64 whole of
           None \<Rightarrow> Inl (invalid_amount value)
         | Some rubles \<Rightarrow>
             (case frac of
                None \<Rightarrow> Inr (int64_of rubles * 100)
              | Some f \<Rightarrow>
                  let f1 = (if length f = 1 then f @ ''0'' else f);
                      f2 = (if length f1 > 2 then take 2 f1 else f1)
                  in (case parse_int 64 f2 of
                        None \<Rightarrow> Inl (invalid_amount value)
                      | Some kopecks \<Rightarrow> Inr (int64_of rubles * 100 + int64_of kopecks)))))"

lemma sint_int64_of: "- (2 ^ 63) \<le> i \<Longrightarrow> i < 2 ^ 63 \<Longrightarrow> sint (int64_of i) = i"
  by (simp add: int64_of_def signed_of_int signed_take_bit_int_eq_self)

lemma int64_of_sint [simp]: "int64_of (sint m) = m"
  by (simp add: int64_of_def)

lemma int64_of_linear: "int64_of a * 100 + int64_of b = int64_of (a * 100 + b)"
  by (simp add: int64_of_def)

lemma format_amount_nonneg:
  assumes "0 \<le> sint m"
  shows "format_amount_minor m = dec (nat (sint m div 100)) @ ''.'' @ pad2 (sint m mod 100)"
proof -
  have u: "sint m < 2 ^ 63" using sint_less [of m] by simp
  have "sint m sdiv sint (100 :: int64) = sint m div 100"
    "sint m smod sint (100 :: int64) = sint m mod 100"
    using assms by (auto simp: signed_divide_int_def signed_modulo_int_def sgn_if)
  moreover have "sint (int64_of (sint m div 100)) = sint m div 100"
    "sint (int64_of (sint m mod 100)) = sint m mod 100"
    using assms u pos_mod_bound [of 100 "sint m"] by (intro sint_int64_of; simp)+
  ultimately have "sint (go_div m 100) = sint m div 100" "sint (go_rem m 100) = sint m mod 100"
    by (simp_all add: go_div_def go_rem_def)
  with assms show ?thesis by (simp add: format_amount_minor_def Let_def format_int_def)
qed

lemma pad2_small:
  assumes "0 \<le> k" "k < 100"
  shows "length (pad2 k) = 2" "parse_int 64 (pad2 k) = Some k" "\<forall>c \<in> set (pad2 k). is_digit c"
proof -
  obtain n where n: "k = int n" "n < 100" using assms by (metis nonneg_int_cases of_nat_less_numeral_iff)
  have f: "format_int k = dec n" by (simp add: format_int_def n)
  have "length (pad2 k) = 2 \<and> parse_int 64 (pad2 k) = Some k \<and> (\<forall>c \<in> set (pad2 k). is_digit c)"
  proof (cases "n < 10")
    case True
    then have p: "pad2 k = [CHR ''0'', digit_char n]"
      by (simp add: pad2_def f dec.simps)
    have "digit_val CHR ''0'' = Some 0" by (simp add: digit_val_def)
    with p True n show ?thesis
      by (simp add: parse_int_def Let_def is_digit_digit_char) (simp add: is_digit_def)
  next
    case False
    with n have p: "dec n = [digit_char (n div 10), digit_char (n mod 10)]"
      by (simp add: dec.simps [of n] dec.simps [of "n div 10"])
    then have "pad2 k = dec n" by (simp add: pad2_def f)
    moreover have "parse_int 64 (dec n) = Some (int n)"
      by (rule parse_int_dec) (use n in simp)
    moreover have "\<forall>c \<in> set (dec n). is_digit c" by (auto dest: dec_digits)
    ultimately show ?thesis using p n by simp
  qed
  then show "length (pad2 k) = 2" "parse_int 64 (pad2 k) = Some k" "\<forall>c \<in> set (pad2 k). is_digit c"
    by simp_all
qed

lemma plain_amount_chars: "is_digit c \<or> c = CHR ''.'' \<Longrightarrow> plain_char c"
  by (auto simp: plain_char_def space1_def is_digit_def)

text \<open>Every non-negative amount survives the trip through the provider's decimal notation.\<close>

lemma parse_format_amount:
  assumes "0 \<le> sint m"
  shows "parse_amount_minor (format_amount_minor m) = Inr m"
proof -
  let ?n = "sint m"
  let ?w = "dec (nat (?n div 100))" and ?f = "pad2 (?n mod 100)"
  have fmt: "format_amount_minor m = ?w @ CHR ''.'' # ?f"
    using format_amount_nonneg [OF assms] by simp
  have f: "length ?f = 2" "parse_int 64 ?f = Some (?n mod 100)" "\<forall>c \<in> set ?f. is_digit c"
    by (rule pad2_small; simp)+
  have "trim_space (?w @ CHR ''.'' # ?f) = ?w @ CHR ''.'' # ?f"
    by (rule trim_space_plain) (use f(3) in \<open>auto dest: dec_digits intro: plain_amount_chars\<close>)
  moreover have "CHR ''.'' \<notin> set ?w"
    using dec_digits digit_not_sign by blast
  ultimately have split: "split_n2 CHR ''.'' (trim_space (format_amount_minor m)) = (?w, Some ?f)"
    by (simp add: fmt split_n2_some)
  have "?n < 2 ^ 63" using sint_less [of m] by simp
  then have "nat (?n div 100) < 2 ^ (64 - 1)" by simp
  then have w: "parse_int 64 ?w = Some (int (nat (?n div 100)))" by (rule parse_int_dec)
  have "int64_of (?n div 100) * 100 + int64_of (?n mod 100) = int64_of (?n div 100 * 100 + ?n mod 100)"
    by (rule int64_of_linear)
  also have "\<dots> = m" by simp
  finally have "int64_of (?n div 100) * 100 + int64_of (?n mod 100) = m" .
  moreover have "0 \<le> ?n div 100" using assms by (simp add: pos_imp_zdiv_nonneg_iff)
  ultimately show ?thesis
    using split w f assms by (simp add: parse_amount_minor_def Let_def)
qed

text \<open>
  The sign of an amount between -99 and -1 is lost on the way back: its whole part is written
  \<open>-0\<close>, which parses to 0. (The service sends positive amounts only.)
\<close>

lemma parse_format_amount_negative:
  assumes "-100 < sint m" "sint m < 0"
  shows "parse_amount_minor (format_amount_minor m) = Inr (- m)"
proof -
  have s: "sint (- m) = - sint m"
    using sint_int64_of [of "- sint m"] assms by (simp add: int64_of_def)
  let ?k = "- sint m"
  have "sint (- m) sdiv sint (100 :: int64) = 0" "sint (- m) smod sint (100 :: int64) = ?k"
    using assms by (auto simp: s signed_divide_int_def signed_modulo_int_def sgn_if)
  moreover have "sint (int64_of ?k) = ?k" using assms by (intro sint_int64_of) auto
  ultimately have "format_amount_minor m = CHR ''-'' # dec 0 @ CHR ''.'' # pad2 ?k"
    using assms by (simp add: format_amount_minor_def Let_def go_div_def go_rem_def format_int_def
        int64_of_def del: sint_0)
  moreover have "digit_char 0 = CHR ''0''" by code_simp
  then have "dec 0 = ''0''" by (simp add: dec.simps)
  ultimately have fmt: "format_amount_minor m = ''-0'' @ CHR ''.'' # pad2 ?k" by simp
  have f: "length (pad2 ?k) = 2" "parse_int 64 (pad2 ?k) = Some ?k" "\<forall>c \<in> set (pad2 ?k). is_digit c"
    using assms by (intro pad2_small; simp)+
  have "plain_char CHR ''-''" by (simp add: plain_char_def space1_def)
  then have trim: "trim_space (''-0'' @ CHR ''.'' # pad2 ?k) = ''-0'' @ CHR ''.'' # pad2 ?k"
    by (intro trim_space_plain) (use f(3) in \<open>auto simp: is_digit_def intro: plain_amount_chars\<close>)
  have "split_n2 CHR ''.'' (''-0'' @ CHR ''.'' # pad2 ?k) = (''-0'', Some (pad2 ?k))"
    by (rule split_n2_some) simp
  with trim have split:
    "split_n2 CHR ''.'' (trim_space (format_amount_minor m)) = (''-0'', Some (pad2 ?k))"
    by (simp only: fmt)
  have "parse_int 64 ''-0'' = Some 0"
    by (simp add: parse_int_def Let_def digit_val_def)
  with split f show ?thesis
    by (simp add: parse_amount_minor_def Let_def int64_of_def)
qed

text \<open>The decimal notation of any whole number of rubles of an \<open>int64\<close> and two digits of kopecks: the
  amount read is their sum modulo \<open>2 ^ 64\<close>.\<close>

definition decimal_amount :: "int \<Rightarrow> int \<Rightarrow> string" where
  "decimal_amount rubles kopecks = format_int rubles @ ''.'' @ pad2 kopecks"

lemma parse_decimal_amount:
  assumes "0 \<le> r" "r < 2 ^ 63" "0 \<le> k" "k < 100"
  shows "parse_amount_minor (decimal_amount r k) = Inr (int64_of (100 * r + k))"
proof -
  let ?w = "dec (nat r)" and ?f = "pad2 k"
  have form: "decimal_amount r k = ?w @ CHR ''.'' # ?f" using assms(1) by (simp add: decimal_amount_def format_int_def)
  have f: "length ?f = 2" "parse_int 64 ?f = Some k" "\<forall>c \<in> set ?f. is_digit c"
    using assms(3,4) by (rule pad2_small)+
  have "trim_space (?w @ CHR ''.'' # ?f) = ?w @ CHR ''.'' # ?f"
    by (rule trim_space_plain) (use f(3) in \<open>auto dest: dec_digits intro: plain_amount_chars\<close>)
  moreover have "CHR ''.'' \<notin> set ?w" using dec_digits digit_not_sign by blast
  ultimately have split: "split_n2 CHR ''.'' (trim_space (decimal_amount r k)) = (?w, Some ?f)"
    by (simp add: form split_n2_some)
  have "nat r < 2 ^ (64 - 1)" using assms(2) by (simp add: nat_less_iff)
  then have w: "parse_int 64 ?w = Some (int (nat r))" by (rule parse_int_dec)
  show ?thesis
    using split w f assms(1) by (simp add: parse_amount_minor_def Let_def int64_of_linear mult.commute)
qed

lemma sint_int64_of_wrap: "sint (int64_of i) = (i + 2 ^ 63) mod 2 ^ 64 - 2 ^ 63"
  by (simp add: int64_of_def signed_of_int signed_take_bit_eq_take_bit_shift take_bit_eq_mod)

end
