(* ===== verification/PaymentStates.thy ===== *)
theory PaymentStates
  imports Errors Yookassa
begin

text \<open>
  The payment state machine (\<open>internal/payments/state_machine.go\<close>) and the enumerations and limits
  of \<open>internal/payments/models.go\<close>. Go's \<open>Status\<close> is a string; the \<open>CHECK\<close> constraint of the column
  leaves the six values below, which is the datatype used throughout.
\<close>

datatype status = StatusCreated | StatusCreating | StatusCreationUnknown | StatusPending
  | StatusSucceeded | StatusCanceled

fun status_text :: "status \<Rightarrow> string" where
  "status_text StatusCreated = ''created''"
| "status_text StatusCreating = ''creating''"
| "status_text StatusCreationUnknown = ''creation_unknown''"
| "status_text StatusPending = ''pending''"
| "status_text StatusSucceeded = ''succeeded''"
| "status_text StatusCanceled = ''canceled''"

definition terminal :: "status \<Rightarrow> bool" where
  "terminal s \<longleftrightarrow> s = StatusSucceeded \<or> s = StatusCanceled"

datatype operation_type = OperationCreatePayment | OperationGetPayment | OperationCreateRefund

fun operation_type_text :: "operation_type \<Rightarrow> string" where
  "operation_type_text OperationCreatePayment = ''create_payment''"
| "operation_type_text OperationGetPayment = ''get_payment''"
| "operation_type_text OperationCreateRefund = ''create_refund''"

datatype operation_status = OperationPending | OperationInProgress | OperationSucceeded
  | OperationFailed | OperationUnknown | OperationNeedsReview

definition MaxOrderIDLen :: nat where "MaxOrderIDLen = 128"
definition MaxDescriptionLen :: nat where "MaxDescriptionLen = 128"
definition MaxMetadataKeys :: nat where "MaxMetadataKeys = 20"
definition MaxMetadataKeyLen :: nat where "MaxMetadataKeyLen = 40"
definition MaxMetadataValLen :: nat where "MaxMetadataValLen = 64"
definition MaxListLimit :: int where "MaxListLimit = 100"
definition DefaultListLimit :: int where "DefaultListLimit = 20"

lemmas limit_defs = MaxOrderIDLen_def MaxDescriptionLen_def MaxMetadataKeys_def
  MaxMetadataKeyLen_def MaxMetadataValLen_def MaxListLimit_def DefaultListLimit_def

subsection \<open>Transitions\<close>

fun allowed_transitions :: "status \<Rightarrow> status list" where
  "allowed_transitions StatusCreated = [StatusCreating, StatusCanceled]"
| "allowed_transitions StatusCreating = [StatusPending, StatusCreationUnknown, StatusCanceled]"
| "allowed_transitions StatusCreationUnknown = [StatusPending, StatusSucceeded, StatusCanceled]"
| "allowed_transitions StatusPending = [StatusSucceeded, StatusCanceled]"
| "allowed_transitions StatusSucceeded = []"
| "allowed_transitions StatusCanceled = []"

definition can_transition :: "status \<Rightarrow> status \<Rightarrow> bool" where
  "can_transition from to \<longleftrightarrow> to \<in> set (allowed_transitions from)"

text \<open>The arrow of the message is the character U+2192.\<close>

definition arrow_text :: string where
  "arrow_text = map char_of [226 :: nat, 134, 146]"

definition validate_transition :: "status \<Rightarrow> status \<Rightarrow> go_err option" where
  "validate_transition from to =
     (if can_transition from to then None
      else Some (Suffixed (Sentinel PErrIllegalTransition)
        (status_text from @ '' '' @ arrow_text @ '' '' @ status_text to)))"

text \<open>\<open>internalStatus\<close> (\<open>validation.go\<close>); \<open>None\<close> is its empty status.\<close>

fun internal_status :: "provider_status \<Rightarrow> status option" where
  "internal_status ProvPending = Some StatusPending"
| "internal_status ProvSucceeded = Some StatusSucceeded"
| "internal_status ProvCanceled = Some StatusCanceled"

subsection \<open>The enumeration as a library type\<close>

instantiation status :: enum
begin

definition "enum_status = [StatusCreated, StatusCreating, StatusCreationUnknown, StatusPending,
  StatusSucceeded, StatusCanceled]"

definition "enum_all_status P \<longleftrightarrow> P StatusCreated \<and> P StatusCreating \<and> P StatusCreationUnknown \<and>
  P StatusPending \<and> P StatusSucceeded \<and> P StatusCanceled"

definition "enum_ex_status P \<longleftrightarrow> P StatusCreated \<or> P StatusCreating \<or> P StatusCreationUnknown \<or>
  P StatusPending \<or> P StatusSucceeded \<or> P StatusCanceled"

instance
proof
  show all: "UNIV = set (enum_class.enum :: status list)"
    by (auto simp: enum_status_def intro: status.exhaust)
  show "distinct (enum_class.enum :: status list)" by (simp add: enum_status_def)
  fix P :: "status \<Rightarrow> bool"
  show "enum_class.enum_all P \<longleftrightarrow> Ball UNIV P"
    by (simp add: all enum_status_def enum_all_status_def)
  show "enum_class.enum_ex P \<longleftrightarrow> Bex UNIV P"
    by (simp add: all enum_status_def enum_ex_status_def)
qed

end

instantiation status :: linorder
begin

fun status_rank :: "status \<Rightarrow> nat" where
  "status_rank StatusCreated = 0"
| "status_rank StatusCreating = 1"
| "status_rank StatusCreationUnknown = 2"
| "status_rank StatusPending = 3"
| "status_rank StatusSucceeded = 4"
| "status_rank StatusCanceled = 5"

definition "s \<le> t \<longleftrightarrow> status_rank s \<le> status_rank t"
definition "s < t \<longleftrightarrow> status_rank s < status_rank t"

instance
proof
  fix s t u :: status
  show "s < t \<longleftrightarrow> s \<le> t \<and> \<not> t \<le> s" by (auto simp: less_eq_status_def less_status_def)
  show "s \<le> s" by (simp add: less_eq_status_def)
  show "s \<le> t \<Longrightarrow> t \<le> u \<Longrightarrow> s \<le> u" by (simp add: less_eq_status_def)
  show "s \<le> t \<Longrightarrow> t \<le> s \<Longrightarrow> s = t"
    by (cases s; cases t) (simp_all add: less_eq_status_def)
  show "s \<le> t \<or> t \<le> s" by (auto simp: less_eq_status_def)
qed

end

subsection \<open>Facts about the machine\<close>

text \<open>Every transition goes up in the order of declaration: payments never move backwards.\<close>

lemma can_transition_less: "can_transition s t \<Longrightarrow> s < t"
  by (cases s; cases t) (simp_all add: can_transition_def less_status_def)

lemma can_transition_irrefl [simp]: "\<not> can_transition s s"
  using can_transition_less by blast

lemma terminal_iff_no_transition: "terminal s \<longleftrightarrow> (\<forall>t. \<not> can_transition s t)"
  by (cases s) (auto simp: terminal_def can_transition_def)

lemma terminal_simps [simp]:
  "terminal StatusSucceeded" "terminal StatusCanceled"
  "\<not> terminal StatusCreated" "\<not> terminal StatusCreating" "\<not> terminal StatusCreationUnknown"
  "\<not> terminal StatusPending"
  by (simp_all add: terminal_def)

text \<open>What a payment may have become after any number of legal steps.\<close>

definition may_become :: "status \<Rightarrow> status \<Rightarrow> bool" where
  "may_become = can_transition\<^sup>*\<^sup>*"

lemma may_become_refl [simp]: "may_become s s"
  by (simp add: may_become_def)

lemma may_become_trans: "may_become s t \<Longrightarrow> may_become t u \<Longrightarrow> may_become s u"
  by (simp add: may_become_def)

lemma may_become_step: "can_transition s t \<Longrightarrow> may_become s t"
  by (simp add: may_become_def)

lemma may_become_terminal: "may_become s t \<Longrightarrow> terminal s \<Longrightarrow> t = s"
  by (auto simp: may_become_def terminal_iff_no_transition elim: converse_rtranclpE)

lemma may_become_le: "may_become s t \<Longrightarrow> s \<le> t"
  unfolding may_become_def
  by (induction rule: rtranclp_induct) (auto dest: can_transition_less)

lemma may_become_pending: "may_become StatusPending t \<Longrightarrow> t = StatusPending \<or> terminal t"
  unfolding may_become_def
  by (erule converse_rtranclpE)
     (auto simp: can_transition_def terminal_def dest: may_become_terminal [unfolded may_become_def])

end
