(* ===== verification/JsonText.thy ===== *)
theory JsonText
  imports Errors
begin

text \<open>
  Text as the standard library and PostgreSQL see it: UTF-8 sequences (\<open>unicode/utf8\<close>), the
  encoding of strings, numbers and string maps by \<open>encoding/json\<close>, and the length limits of
  \<open>varchar(n)\<close> columns. A Go \<open>map[string]string\<close> that is not nil is an association list in
  increasing key order, the order in which \<open>json.Marshal\<close> writes it.

  An encoder is \<open>delimited\<close> when its output shows where it ends; such encoders compose, and the
  encoding of a whole document is injective because each of its parts is delimited.
\<close>

subsection \<open>UTF-8\<close>

definition in_range :: "nat \<Rightarrow> nat \<Rightarrow> char \<Rightarrow> bool" where
  "in_range lo hi c \<longleftrightarrow> lo \<le> code_of c \<and> code_of c \<le> hi"

abbreviation "cont \<equiv> in_range 128 191"

text \<open>The length of the character at the start of a text; 0 if there is no valid one.\<close>

fun rune_len :: "string \<Rightarrow> nat" where
  "rune_len [] = 0"
| "rune_len (a # s) =
     (if code_of a < 128 then 1
      else if in_range 194 223 a then (case s of b # _ \<Rightarrow> if cont b then 2 else 0 | _ \<Rightarrow> 0)
      else if in_range 224 239 a then
        (case s of b # c # _ \<Rightarrow>
           if in_range (if code_of a = 224 then 160 else 128) (if code_of a = 237 then 159 else 191) b
              \<and> cont c then 3 else 0
         | _ \<Rightarrow> 0)
      else if in_range 240 244 a then
        (case s of b # c # d # _ \<Rightarrow>
           if in_range (if code_of a = 240 then 144 else 128) (if code_of a = 244 then 143 else 191) b
              \<and> cont c \<and> cont d then 4 else 0
         | _ \<Rightarrow> 0)
      else 0)"

lemma rune_len_le: "rune_len s \<le> length s"
  by (induction s rule: rune_len.induct) (auto split: list.splits)

declare rune_len.simps(2) [simp del]

text \<open>A text as a sequence of characters; a byte that starts none stands alone.\<close>

function segments :: "string \<Rightarrow> string list" where
  "segments [] = []"
| "segments (c # s) =
     (let n = max 1 (rune_len (c # s)) in take n (c # s) # segments (drop n (c # s)))"
  by pat_completeness auto
termination
  by (relation "measure length") (auto simp: max_def)

declare segments.simps(2) [simp del]

lemma concat_segments [simp]: "concat (segments s) = s"
  by (induction s rule: segments.induct) (simp_all add: segments.simps(2) Let_def)

definition utf8_valid :: "string \<Rightarrow> bool" where
  "utf8_valid s \<longleftrightarrow> list_all (\<lambda>p. rune_len p \<noteq> 0) (segments s)"

definition char_count :: "string \<Rightarrow> nat" where
  "char_count s = length (segments s)"

lemma char_count_le: "char_count s \<le> length s"
  unfolding char_count_def
proof (induction s rule: segments.induct)
  case (2 c s)
  define n where "n = max 1 (rune_len (c # s))"
  then have n: "1 \<le> n" "n \<le> length (c # s)" using rune_len_le [of "c # s"] by auto
  have "length (segments (drop n (c # s))) \<le> length (drop n (c # s))"
    using "2.IH" n_def by blast
  moreover have "segments (c # s) = take n (c # s) # segments (drop n (c # s))"
    by (simp add: segments.simps(2) Let_def n_def)
  ultimately show ?case using n by simp
qed simp

lemma rune_len_take:
  assumes "rune_len s = n" "n \<noteq> 0"
  shows "rune_len (take n s) = n"
  using assms
  by (induction s rule: rune_len.induct) (auto simp: rune_len.simps(2) split: list.splits if_splits)

lemma rune_bytes:
  assumes "rune_len p = length p" "length p \<noteq> 1" "c \<in> set p"
  shows "128 \<le> code_of c"
  using assms
  by (induction p rule: rune_len.induct) (auto simp: rune_len.simps(2) in_range_def split: list.splits if_splits)

text \<open>\<open>varchar(n)\<close>: text must be valid UTF-8 without NUL and have at most \<open>n\<close> characters, where
  surplus blanks at the end are cut off silently.\<close>

definition pg_text :: "string \<Rightarrow> bool" where
  "pg_text s \<longleftrightarrow> utf8_valid s \<and> char_of (0 :: nat) \<notin> set s"

definition pg_text_error :: go_err where
  "pg_text_error = PgError ''22021'' ''invalid byte sequence for encoding''"

definition pg_value :: "string \<Rightarrow> go_err + string" where
  "pg_value s = (if pg_text s then Inr s else Inl pg_text_error)"

definition varchar :: "nat \<Rightarrow> string \<Rightarrow> go_err + string" where
  "varchar n s =
     (if \<not> pg_text s then Inl pg_text_error
      else if char_count s \<le> n then Inr s
      else if list_all (\<lambda>p. p = '' '') (drop n (segments s)) then Inr (concat (take n (segments s)))
      else Inl (PgError ''22001'' ''value too long for type character varying''))"

lemma varchar_fits: "pg_text s \<Longrightarrow> length s \<le> n \<Longrightarrow> varchar n s = Inr s"
  using char_count_le [of s] by (simp add: varchar_def)

subsection \<open>JSON strings\<close>

abbreviation backslash :: char where "backslash \<equiv> char_of (92 :: nat)"
abbreviation dquote :: char where "dquote \<equiv> char_of (34 :: nat)"

definition json_ascii :: "char \<Rightarrow> string" where
  "json_ascii c =
     (let n = code_of c in
      if n = 34 \<or> n = 92 then [backslash, c]
      else if n = 8 then [backslash, CHR ''b''] else if n = 12 then [backslash, CHR ''f'']
      else if n = 10 then [backslash, CHR ''n''] else if n = 13 then [backslash, CHR ''r'']
      else if n = 9 then [backslash, CHR ''t'']
      else if n < 32 \<or> n = 38 \<or> n = 60 \<or> n = 62 then
        [backslash, CHR ''u'', CHR ''0'', CHR ''0'', hex_digit_char (n div 16), hex_digit_char (n mod 16)]
      else [c])"

definition json_segment :: "string \<Rightarrow> string" where
  "json_segment p =
     (if rune_len p = 0 then backslash # ''ufffd''
      else if length p = 1 then json_ascii (hd p)
      else if p = map char_of [226 :: nat, 128, 168] then backslash # ''u2028''
      else if p = map char_of [226 :: nat, 128, 169] then backslash # ''u2029''
      else p)"

definition json_string :: "string \<Rightarrow> string" where
  "json_string s = dquote # concat (map json_segment (segments s)) @ [dquote]"

text \<open>A reader of such strings, up to the closing quote.\<close>

definition hex_digit_val :: "char \<Rightarrow> nat" where
  "hex_digit_val c = (if code_of c < 97 then code_of c - 48 else code_of c - 87)"

definition json_unit :: "char \<Rightarrow> char \<Rightarrow> char \<Rightarrow> char \<Rightarrow> string" where
  "json_unit a b x y =
     (if [a, b, x, y] = ''2028'' then map char_of [226 :: nat, 128, 168]
      else if [a, b, x, y] = ''2029'' then map char_of [226 :: nat, 128, 169]
      else [char_of (16 * hex_digit_val x + hex_digit_val y)])"

definition json_unescape :: "char \<Rightarrow> char" where
  "json_unescape e =
     (if e = CHR ''b'' then char_of (8 :: nat) else if e = CHR ''f'' then char_of (12 :: nat)
      else if e = CHR ''n'' then char_of (10 :: nat) else if e = CHR ''r'' then char_of (13 :: nat)
      else if e = CHR ''t'' then char_of (9 :: nat) else e)"

fun json_scan :: "string \<Rightarrow> (string \<times> string) option" where
  "json_scan [] = None"
| "json_scan (c # s) =
     (if code_of c = 34 then Some ([], s)
      else if code_of c = 92 then
        (case s of
           [] \<Rightarrow> None
         | e # s' \<Rightarrow>
             if e = CHR ''u'' then
               (case s' of
                  a # b # x # y # t \<Rightarrow> map_option (apfst ((@) (json_unit a b x y))) (json_scan t)
                | _ \<Rightarrow> None)
             else map_option (apfst ((#) (json_unescape e))) (json_scan s'))
      else map_option (apfst ((#) c)) (json_scan s))"

declare json_scan.simps(2) [simp del]

lemma code_of_char [simp]: "n < 256 \<Longrightarrow> code_of (char_of n) = n"
  by simp

lemma hex_digit_val_char [simp]: "d < 16 \<Longrightarrow> hex_digit_val (hex_digit_char d) = d"
  by (auto simp: hex_digit_val_def hex_digit_char_def digit_char_def)

lemma json_scan_raw:
  "(\<And>c. c \<in> set p \<Longrightarrow> 128 \<le> code_of c) \<Longrightarrow>
     json_scan (p @ r) = map_option (apfst ((@) p)) (json_scan r)"
proof (induction p)
  case Nil
  then show ?case by (cases "json_scan r") auto
next
  case (Cons c p)
  have "code_of c \<noteq> 34" "code_of c \<noteq> 92" using Cons.prems [of c] by auto
  with Cons show ?case by (cases "json_scan r") (auto simp: json_scan.simps(2))
qed

lemma json_scan_ascii:
  "code_of c < 128 \<Longrightarrow> json_scan (json_ascii c @ r) = map_option (apfst ((#) c)) (json_scan r)"
proof -
  assume c: "code_of c < 128"
  have bs: "json_scan (backslash # e # r) = map_option (apfst ((#) (json_unescape e))) (json_scan r)"
    if "e \<noteq> CHR ''u''" for e r
    using that by (simp add: json_scan.simps(2))
  have e: "char_of n = c" if "code_of c = n" for n using that by auto
  consider "code_of c = 34 \<or> code_of c = 92" | "code_of c \<in> {8, 12, 10, 13, 9}"
    | "code_of c < 32 \<or> code_of c = 38 \<or> code_of c = 60 \<or> code_of c = 62"
      "code_of c \<notin> {8, 12, 10, 13, 9}"
    | "code_of c \<noteq> 34" "code_of c \<noteq> 92" "\<not> code_of c < 32" "code_of c \<noteq> 38" "code_of c \<noteq> 60"
      "code_of c \<noteq> 62"
    by auto
  then show ?thesis
  proof cases
    case 1
    then have "c \<noteq> CHR ''u''" "json_unescape c = c" by (auto simp: json_unescape_def)
    with 1 show ?thesis by (simp add: json_ascii_def Let_def bs)
  next
    case 2
    then show ?thesis
      by (elim insertE) (simp_all add: json_ascii_def Let_def bs json_unescape_def e)
  next
    case 3
    let ?n = "code_of c"
    have "?n div 16 < 16" "?n mod 16 < 16" using c by simp_all
    then have "json_unit CHR ''0'' CHR ''0'' (hex_digit_char (?n div 16)) (hex_digit_char (?n mod 16)) = [c]"
      by (simp add: json_unit_def e)
    moreover have "(@) [c] = (#) c" by auto
    ultimately show ?thesis using 3 by (auto simp: json_ascii_def Let_def json_scan.simps(2))
  next
    case 4
    then show ?thesis by (auto simp: json_ascii_def Let_def json_scan.simps(2))
  qed
qed

lemma json_scan_segment:
  assumes "rune_len p = length p" "p \<noteq> []"
  shows "json_scan (json_segment p @ r) = map_option (apfst ((@) p)) (json_scan r)"
proof (cases "length p = 1")
  case True
  with assms obtain c where c: "p = [c]" by (cases p) auto
  with assms have "code_of c < 128"
    by (auto simp: rune_len.simps(2) split: if_splits)
  from json_scan_ascii [OF this, of r] assms c show ?thesis
    by (cases "json_scan r") (auto simp: json_segment_def)
next
  case False
  have "json_scan (json_segment p @ r) = map_option (apfst ((@) p)) (json_scan r)"
    if "json_segment p = p"
    using json_scan_raw [of p r] rune_bytes [OF assms(1) False] that by auto
  moreover have "json_scan (json_segment p @ r) = map_option (apfst ((@) p)) (json_scan r)"
    if "json_segment p = backslash # ''u2028'' \<and> p = map char_of [226 :: nat, 128, 168] \<or>
        json_segment p = backslash # ''u2029'' \<and> p = map char_of [226 :: nat, 128, 169]"
    using that by (auto simp: json_scan.simps(2) json_unit_def)
  ultimately show ?thesis
    using assms False by (auto simp: json_segment_def split: if_splits)
qed

lemma json_scan_string:
  "utf8_valid s \<Longrightarrow> json_scan (concat (map json_segment (segments s)) @ dquote # r) = Some (s, r)"
  unfolding utf8_valid_def
proof (induction s rule: segments.induct)
  case 1
  then show ?case by (simp add: json_scan.simps(2))
next
  case (2 c s)
  define n where "n = max 1 (rune_len (c # s))"
  have seg: "segments (c # s) = take n (c # s) # segments (drop n (c # s))"
    by (simp add: segments.simps(2) Let_def n_def)
  have nz: "rune_len (c # s) \<noteq> 0"
  proof
    assume z: "rune_len (c # s) = 0"
    then have "take n (c # s) = [c]" "\<not> code_of c < 128"
      by (auto simp: n_def rune_len.simps(2) split: if_splits)
    with 2 seg show False by (auto simp: rune_len.simps(2) split: if_splits)
  qed
  then have n: "n = rune_len (c # s)" "n \<noteq> 0" by (auto simp: n_def)
  then have p: "rune_len (take n (c # s)) = length (take n (c # s))"
    using rune_len_take [of "c # s" n] rune_len_le [of "c # s"] by simp
  have "json_scan (concat (map json_segment (segments (drop n (c # s)))) @ dquote # r) =
      Some (drop n (c # s), r)"
    using "2.IH" [of n] "2.prems" seg by (simp add: n_def)
  with json_scan_segment [OF p] n seg show ?case by simp
qed

subsection \<open>Delimited encoders\<close>

locale delimited =
  fixes valid :: "'a \<Rightarrow> bool" and enc :: "'a \<Rightarrow> string"
  assumes delimited: "valid x \<Longrightarrow> valid y \<Longrightarrow> enc x @ r = enc y @ r' \<Longrightarrow> x = y \<and> r = r'"
begin

lemma injective: "valid x \<Longrightarrow> valid y \<Longrightarrow> enc x = enc y \<Longrightarrow> x = y"
  using delimited [of x y "[]" "[]"] by simp

end

interpretation json_str: delimited utf8_valid json_string
proof
  fix x y r r'
  assume v: "utf8_valid x" "utf8_valid y" and e: "json_string x @ r = json_string y @ r'"
  from e have "json_scan (concat (map json_segment (segments x)) @ dquote # r) =
      json_scan (concat (map json_segment (segments y)) @ dquote # r')"
    by (simp add: json_string_def)
  with v show "x = y \<and> r = r'" by (simp add: json_scan_string)
qed

text \<open>A member of a map, and maps as a whole: \<open>{}\<close>, or members separated by commas.\<close>

type_synonym go_map = "(string \<times> string) list"

definition json_member :: "string \<times> string \<Rightarrow> string" where
  "json_member kv = json_string (fst kv) @ '':'' @ json_string (snd kv)"

fun json_members :: "go_map \<Rightarrow> string" where
  "json_members [] = ''}''"
| "json_members (kv # m) = '','' @ json_member kv @ json_members m"

fun json_map :: "go_map \<Rightarrow> string" where
  "json_map [] = ''{}''"
| "json_map (kv # m) = ''{'' @ json_member kv @ json_members m"

definition valid_member :: "string \<times> string \<Rightarrow> bool" where
  "valid_member kv \<longleftrightarrow> utf8_valid (fst kv) \<and> utf8_valid (snd kv)"

definition valid_map :: "go_map \<Rightarrow> bool" where
  "valid_map m \<longleftrightarrow> list_all valid_member m"

lemma valid_map_simps [simp]:
  "valid_map []"
  "valid_map (kv # m) \<longleftrightarrow> valid_member kv \<and> valid_map m"
  by (simp_all add: valid_map_def)

interpretation json_mem: delimited valid_member json_member
proof
  fix x y r r'
  assume v: "valid_member x" "valid_member y" and "json_member x @ r = json_member y @ r'"
  then have "json_string (fst x) @ '':'' @ json_string (snd x) @ r =
      json_string (fst y) @ '':'' @ json_string (snd y) @ r'"
    by (simp add: json_member_def)
  then have k: "fst x = fst y \<and> '':'' @ json_string (snd x) @ r = '':'' @ json_string (snd y) @ r'"
    using v unfolding valid_member_def by (intro json_str.delimited) simp_all
  then have "snd x = snd y \<and> r = r'"
    using v unfolding valid_member_def by (intro json_str.delimited) simp_all
  with k show "x = y \<and> r = r'" by (simp add: prod_eq_iff)
qed

lemma json_member_not_brace: "json_member kv @ s \<noteq> CHR ''}'' # t"
proof -
  have "dquote \<noteq> CHR ''}''" by code_simp
  then show ?thesis by (simp add: json_member_def json_string_def)
qed

interpretation json_mems: delimited valid_map json_members
proof
  show "x = y \<and> r = r'" if "valid_map x" "valid_map y" "json_members x @ r = json_members y @ r'"
    for x y r r'
    using that
  proof (induction x arbitrary: y)
    case Nil
    then show ?case by (cases y) auto
  next
    case (Cons kv x)
    then obtain kv' y' where y: "y = kv' # y'" by (cases y) auto
    with Cons.prems have "kv = kv' \<and> json_members x @ r = json_members y' @ r'"
      by (intro json_mem.delimited) auto
    with Cons y show ?case by auto
  qed
qed

interpretation json_obj: delimited valid_map json_map
proof
  fix x y r r'
  assume v: "valid_map x" "valid_map y" and e: "json_map x @ r = json_map y @ r'"
  show "x = y \<and> r = r'"
  proof (cases x)
    case Nil
    show ?thesis
    proof (cases y)
      case (Cons b y')
      with e Nil json_member_not_brace [of b "json_members y' @ r'" r] show ?thesis by simp
    qed (use e Nil in simp)
  next
    case x: (Cons a x')
    obtain b y' where y: "y = b # y'"
      using e x json_member_not_brace [of a "json_members x' @ r" r'] by (cases y) simp_all
    with x v e have "a = b \<and> json_members x' @ r = json_members y' @ r'"
      by (intro json_mem.delimited) auto
    moreover from this have "x' = y' \<and> r = r'"
      using v x y by (intro json_mems.delimited) auto
    ultimately show ?thesis using x y by simp
  qed
qed

end
