(* ===== verification/Schema.thy ===== *)
theory Schema
  imports PaymentStates JsonText "HOL-Library.Multiset"
begin

text \<open>
  The rows of the database (\<open>internal/database/sqlcgen/models.go\<close>) and the constraints the
  migrations put on them. A column that is \<open>NOT NULL\<close> has a plain type, a nullable one an option;
  \<open>pgtype.UUID\<close> and \<open>pgtype.Timestamptz\<close> values scanned from a \<open>NOT NULL\<close> column are valid. A
  \<open>status\<close> column restricted by \<open>CHECK\<close> to a list of words has the datatype of those words.
  \<open>jsonb\<close> columns hold the text of the document.

  Constraints between rows are stated as a symmetric relation \<open>clash\<close> between two rows of a table:
  a statement that would leave two clashing rows fails with SQLSTATE 23505.
\<close>

subsection \<open>Rows\<close>

record payment_row =
  p_id :: uuid
  p_application_id :: uuid
  p_provider_account_id :: uuid
  p_order_id :: string
  p_attempt_number :: int
  p_provider :: string
  p_provider_payment_id :: "string option"
  p_amount_minor :: int64
  p_currency :: string
  p_description :: string
  p_status :: status
  p_checkout_url :: "string option"
  p_return_url :: "string option"
  p_metadata :: string
  p_created_at :: time
  p_updated_at :: time
  p_completed_at :: "time option"
  p_next_check_at :: "time option"

record operation_row =
  o_id :: uuid
  o_payment_id :: uuid
  o_operation_type :: operation_type
  o_provider_idempotency_key :: string
  o_request_hash :: bytes
  o_request_body :: string
  o_status :: operation_status
  o_attempt_count :: int
  o_last_error :: "string option"
  o_idempotency_expires_at :: "time option"
  o_started_at :: "time option"
  o_completed_at :: "time option"
  o_created_at :: time

record idempotency_row =
  i_id :: uuid
  i_application_id :: uuid
  i_idempotency_key :: string
  i_request_hash :: bytes
  i_payment_id :: "uuid option"
  i_created_at :: time

record application_row =
  a_id :: uuid
  a_name :: string
  a_slug :: string
  a_status :: string
  a_default_return_url :: "string option"
  a_webhook_url :: "string option"
  a_webhook_secret_encrypted :: "bytes option"
  a_created_at :: time
  a_updated_at :: time

record api_key_row =
  k_id :: uuid
  k_application_id :: uuid
  k_key_prefix :: string
  k_key_hash :: bytes
  k_name :: string
  k_permissions :: "string list"
  k_expires_at :: "time option"
  k_last_used_at :: "time option"
  k_revoked_at :: "time option"
  k_created_at :: time

record account_row =
  c_id :: uuid
  c_provider :: string
  c_shop_id :: string
  c_encrypted_secret_key :: bytes
  c_environment :: string
  c_status :: string
  c_created_at :: time
  c_updated_at :: time

record link_row =
  l_application_id :: uuid
  l_provider_account_id :: uuid
  l_is_default :: bool
  l_created_at :: time

subsection \<open>Constraints between rows\<close>

abbreviation active_row :: "payment_row \<Rightarrow> bool" where
  "active_row r \<equiv> \<not> terminal (p_status r)"

text \<open>The primary key, \<open>UNIQUE (application_id, order_id, attempt_number)\<close>,
  \<open>payments_provider_payment_id_idx\<close> and \<open>payments_one_active_attempt_idx\<close>.\<close>

definition payment_clash :: "payment_row \<Rightarrow> payment_row \<Rightarrow> bool" where
  "payment_clash r s \<longleftrightarrow>
     p_id r = p_id s \<or>
     (p_application_id r = p_application_id s \<and> p_order_id r = p_order_id s \<and>
        (p_attempt_number r = p_attempt_number s \<or> (active_row r \<and> active_row s))) \<or>
     (p_provider_payment_id r \<noteq> None \<and> p_provider r = p_provider s \<and>
        p_provider_payment_id r = p_provider_payment_id s)"

definition operation_clash :: "operation_row \<Rightarrow> operation_row \<Rightarrow> bool" where
  "operation_clash r s \<longleftrightarrow>
     o_id r = o_id s \<or> o_provider_idempotency_key r = o_provider_idempotency_key s"

definition idempotency_clash :: "idempotency_row \<Rightarrow> idempotency_row \<Rightarrow> bool" where
  "idempotency_clash r s \<longleftrightarrow>
     i_id r = i_id s \<or>
     (i_application_id r = i_application_id s \<and> i_idempotency_key r = i_idempotency_key s)"

definition application_clash :: "application_row \<Rightarrow> application_row \<Rightarrow> bool" where
  "application_clash r s \<longleftrightarrow> a_id r = a_id s \<or> a_slug r = a_slug s"

definition api_key_clash :: "api_key_row \<Rightarrow> api_key_row \<Rightarrow> bool" where
  "api_key_clash r s \<longleftrightarrow> k_id r = k_id s \<or> k_key_prefix r = k_key_prefix s"

definition account_clash :: "account_row \<Rightarrow> account_row \<Rightarrow> bool" where
  "account_clash r s \<longleftrightarrow>
     c_id r = c_id s \<or>
     (c_provider r = c_provider s \<and> c_shop_id r = c_shop_id s \<and> c_environment r = c_environment s)"

definition link_clash :: "link_row \<Rightarrow> link_row \<Rightarrow> bool" where
  "link_clash r s \<longleftrightarrow>
     l_application_id r = l_application_id s \<and>
     (l_provider_account_id r = l_provider_account_id s \<or> (l_is_default r \<and> l_is_default s))"

definition free_of :: "('a \<Rightarrow> 'a \<Rightarrow> bool) \<Rightarrow> 'a \<Rightarrow> 'a list \<Rightarrow> bool" where
  "free_of clash r rows \<longleftrightarrow> list_all (\<lambda>s. \<not> clash r s) rows"

fun clash_free :: "('a \<Rightarrow> 'a \<Rightarrow> bool) \<Rightarrow> 'a list \<Rightarrow> bool" where
  "clash_free clash [] = True"
| "clash_free clash (r # rows) \<longleftrightarrow> free_of clash r rows \<and> clash_free clash rows"

text \<open>The contract of such a relation, and what it gives for tables.\<close>

locale keyed =
  fixes clash :: "'a \<Rightarrow> 'a \<Rightarrow> bool"
  assumes sym: "clash r s \<Longrightarrow> clash s r"
begin

lemma free_set: "free_of clash r rows \<longleftrightarrow> (\<forall>s \<in> set rows. \<not> clash r s)"
  by (simp add: free_of_def list_all_iff)

lemma free_append [simp]:
  "free_of clash r (xs @ ys) \<longleftrightarrow> free_of clash r xs \<and> free_of clash r ys"
  by (simp add: free_of_def)

lemma append_iff: "clash_free clash (xs @ ys) \<longleftrightarrow>
    clash_free clash xs \<and> clash_free clash ys \<and> (\<forall>x \<in> set xs. \<forall>y \<in> set ys. \<not> clash x y)"
  by (induction xs) (auto simp: free_set)

lemma snoc_iff: "clash_free clash (xs @ [r]) \<longleftrightarrow> clash_free clash xs \<and> free_of clash r xs"
  by (auto simp: append_iff free_of_def list_all_iff dest: sym)

lemma move: "clash_free clash (xs @ ys @ zs) \<longleftrightarrow> clash_free clash (ys @ xs @ zs)"
  by (auto simp: append_iff) (blast dest: sym)+

lemma no_two: "clash_free clash rows \<Longrightarrow> r \<in> set rows \<Longrightarrow> s \<in> set rows \<Longrightarrow> clash r s \<Longrightarrow> r = s"
proof (induction rows)
  case (Cons x rows)
  then show ?case by (auto simp: free_set dest: sym)
qed simp

text \<open>Clashes do not depend on the order of the rows.\<close>

lemma permuted: "mset xs = mset ys \<Longrightarrow> clash_free clash xs \<Longrightarrow> clash_free clash ys"
proof (induction xs arbitrary: ys)
  case (Cons x xs)
  then have "x \<in> set ys" by (metis list.set_intros(1) set_mset_mset)
  then obtain as bs where ys: "ys = as @ x # bs" by (meson split_list)
  with Cons.prems have "mset xs = mset (as @ bs)" by simp
  then have set: "set xs = set (as @ bs)" by (metis set_mset_mset)
  from Cons.prems(2) have x: "\<forall>s \<in> set (as @ bs). \<not> clash x s"
    by (simp add: free_set set)
  from Cons have "clash_free clash (as @ bs)" using \<open>mset xs = mset (as @ bs)\<close> by simp
  then have "clash_free clash as" "clash_free clash bs" "\<forall>a \<in> set as. \<forall>b \<in> set bs. \<not> clash a b"
    by (simp_all add: append_iff)
  then show ?case
    using x by (simp add: ys append_iff free_set) (blast dest: sym)
qed simp

lemma part: "mset ys \<subseteq># mset xs \<Longrightarrow> clash_free clash xs \<Longrightarrow> clash_free clash ys"
proof -
  assume "mset ys \<subseteq># mset xs" and c: "clash_free clash xs"
  then obtain M where "mset xs = mset ys + M" by (auto simp: mset_subset_eq_exists_conv)
  moreover obtain zs where "M = mset zs" using ex_mset [of M] by auto
  ultimately have "clash_free clash (ys @ zs)" by (intro permuted [OF _ c]) simp
  then show ?thesis by (simp add: append_iff)
qed

text \<open>A transaction's rows \<open>p\<close> among those of others: a new row, the commit, the rollback.\<close>

lemma insert_row:
  assumes "clash_free clash (rows @ as @ p @ bs)"
    and "free_of clash r (rows @ p)" "free_of clash r (as @ bs)"
  shows "clash_free clash (rows @ as @ (p @ [r]) @ bs)"
proof (rule permuted)
  show "clash_free clash ((rows @ as @ p @ bs) @ [r])"
    unfolding snoc_iff using assms by simp
qed simp

lemma commit_rows:
  "clash_free clash (rows @ as @ p @ bs) \<Longrightarrow> clash_free clash ((rows @ p) @ as @ bs)"
  by (rule permuted) simp_all

lemma drop_rows:
  "clash_free clash (rows @ as @ p @ bs) \<Longrightarrow> clash_free clash (rows @ as @ bs)"
  by (auto simp: append_iff)

text \<open>An update that changes rows only, each keeping out of the others' way.\<close>

lemma map_clash_free:
  assumes "clash_free clash rows"
    and "\<And>r s. r \<in> set rows \<Longrightarrow> s \<in> set rows \<Longrightarrow> clash (f r) (f s) \<Longrightarrow> clash r s"
  shows "clash_free clash (map f rows)"
  using assms by (induction rows) (auto simp: free_of_def list_all_iff)

end

interpretation pay: keyed payment_clash
  by unfold_locales (auto simp: payment_clash_def)

interpretation oper: keyed operation_clash
  by unfold_locales (auto simp: operation_clash_def)

interpretation idem: keyed idempotency_clash
  by unfold_locales (auto simp: idempotency_clash_def)

interpretation appl: keyed application_clash
  by unfold_locales (auto simp: application_clash_def)

interpretation akey: keyed api_key_clash
  by unfold_locales (auto simp: api_key_clash_def)

interpretation acct: keyed account_clash
  by unfold_locales (auto simp: account_clash_def)

interpretation lnk: keyed link_clash
  by unfold_locales (auto simp: link_clash_def)

end
