(* ===== verification/Programs.thy ===== *)
theory Programs
  imports Prelude
begin

text \<open>
  Programs over a shared state. A handler of the service is a value of type \<open>('s, 'a) prog\<close>: either
  it has returned, or it performs one atomic action (a database statement, a call to the
  provider, reading the clock), which may block, and continues. The same value has two readings:
  \<open>run\<close> executes it alone, from start to finish, and the step relation of \<open>system\<close> lets any number
  of programs take turns action by action. So each function of the service is translated once, and
  both its functional behaviour and its behaviour under concurrency are about that translation.

  The locale \<open>rely_guarantee\<close> is the interface for concurrent reasoning: an invariant of the shared
  state, what a program owns, what it may rely on and what it guarantees. Its main theorem lifts
  per-program verification (\<open>ok\<close>) to every interleaving.
\<close>

subsection \<open>Programs and their runs\<close>

datatype ('s, 'a) prog =
    Ret 'a
  | Act "'s \<Rightarrow> (('s, 'a) prog \<times> 's) option"   \<comment> \<open>\<open>None\<close>: blocked in this state\<close>

text \<open>One action with a result; \<open>act_if\<close> waits for its guard.\<close>

definition act :: "('s \<Rightarrow> 'a \<times> 's) \<Rightarrow> ('s, 'a) prog" where
  "act f = Act (\<lambda>s. case f s of (a, s') \<Rightarrow> Some (Ret a, s'))"

definition act_if :: "('s \<Rightarrow> bool) \<Rightarrow> ('s \<Rightarrow> 'a \<times> 's) \<Rightarrow> ('s, 'a) prog" where
  "act_if g f = Act (\<lambda>s. if g s then (case f s of (a, s') \<Rightarrow> Some (Ret a, s')) else None)"

primrec bindP :: "('s, 'a) prog \<Rightarrow> ('a \<Rightarrow> ('s, 'b) prog) \<Rightarrow> ('s, 'b) prog" where
  "bindP (Ret a) k = k a"
| "bindP (Act f) k = Act (\<lambda>s. map_option (map_prod (\<lambda>p. bindP p k) id) (f s))"

text \<open>Sequencing of fallible programs: stop at the first error.\<close>

definition bindE ::
  "('s, 'e + 'a) prog \<Rightarrow> ('a \<Rightarrow> ('s, 'e + 'b) prog) \<Rightarrow> ('s, 'e + 'b) prog" where
  "bindE p k = bindP p (\<lambda>r. case r of Inl e \<Rightarrow> Ret (Inl e) | Inr a \<Rightarrow> k a)"

primrec run :: "('s, 'a) prog \<Rightarrow> 's \<Rightarrow> ('a \<times> 's) option" where
  "run (Ret a) s = Some (a, s)"
| "run (Act f) s =
     (case map_option (map_prod run id) (f s) of None \<Rightarrow> None | Some (r, s') \<Rightarrow> r s')"

declare run.simps(2) [simp del] bindP.simps(2) [simp del]

lemma prog_induct [case_names Ret Act, induct type: prog]:
  fixes P :: "('s, 'a) prog \<Rightarrow> bool"
  assumes "\<And>a. P (Ret a)"
    and "\<And>f :: 's \<Rightarrow> (('s, 'a) prog \<times> 's) option. (\<And>s p s'. f s = Some (p, s') \<Longrightarrow> P p) \<Longrightarrow> P (Act f)"
  shows "P p"
proof (rule prog.induct [of P])
  fix f :: "'s \<Rightarrow> (('s, 'a) prog \<times> 's) option"
  assume IH: "\<And>x y z. x \<in> range f \<Longrightarrow> y \<in> set_option x \<Longrightarrow> z \<in> Basic_BNFs.fsts y \<Longrightarrow> P z"
  show "P (Act f)"
  proof (rule assms(2))
    fix s p s'
    assume "f s = Some (p, s')"
    then have "Some (p, s') \<in> range f" by (metis rangeI)
    then show "P p" by (rule IH) auto
  qed
qed (rule assms(1))

lemma run_Act: "run (Act f) s = (case f s of None \<Rightarrow> None | Some (p, s') \<Rightarrow> run p s')"
  by (auto simp: run.simps(2) split: option.splits)

lemma run_bindP: "run (bindP p k) s = (case run p s of None \<Rightarrow> None | Some (a, s') \<Rightarrow> run (k a) s')"
proof (induction p arbitrary: s)
  case (Ret a)
  then show ?case by simp
next
  case (Act f)
  show ?case
  proof (cases "f s")
    case None
    then show ?thesis by (simp add: run_Act bindP.simps(2))
  next
    case (Some ps)
    obtain p s' where ps: "ps = (p, s')" by (cases ps)
    have "run (bindP p k) s' = (case run p s' of None \<Rightarrow> None | Some (a, s') \<Rightarrow> run (k a) s')"
      by (rule Act.IH [of s p s']) (simp add: Some ps)
    with Some ps show ?thesis by (simp add: run_Act bindP.simps(2))
  qed
qed

lemma run_act [simp]: "run (act f) s = Some (f s)"
  by (simp add: act_def run_Act split: prod.split)

lemma run_act_if [simp]: "run (act_if g f) s = (if g s then Some (f s) else None)"
  by (simp add: act_if_def run_Act split: prod.split)

lemma run_bindE:
  "run (bindE p k) s =
     (case run p s of None \<Rightarrow> None | Some (Inl e, s') \<Rightarrow> Some (Inl e, s') | Some (Inr a, s') \<Rightarrow> run (k a) s')"
  by (auto simp: bindE_def run_bindP split: option.splits sum.splits)

lemmas run_simps [prog_simps] = run_bindP run_bindE run_act run_act_if run.simps(1)

lemma run_bindP_act: "run (bindP (act f) k) s = (case f s of (a, s') \<Rightarrow> run (k a) s')"
  by (simp add: run_bindP)

lemma bindP_assoc: "bindP (bindP p k) l = bindP p (\<lambda>a. bindP (k a) l)"
proof (induction p)
  case (Ret a)
  then show ?case by simp
next
  case (Act f)
  have "map_option (map_prod (\<lambda>p. bindP p l) id) (map_option (map_prod (\<lambda>p. bindP p k) id) (f s)) =
        map_option (map_prod (\<lambda>p. bindP p (\<lambda>a. bindP (k a) l)) id) (f s)" for s
  proof (cases "f s")
    case (Some qs)
    obtain q s' where "qs = (q, s')" by (cases qs)
    with Some Act.IH [of s q s'] show ?thesis by simp
  qed simp
  then show ?case by (simp add: bindP.simps(2))
qed

lemma bindP_Ret [simp]: "bindP p Ret = p"
proof (induction p)
  case (Ret a)
  then show ?case by simp
next
  case (Act f)
  have "map_option (map_prod (\<lambda>q. bindP q Ret) id) (f s) = f s" for s
  proof (cases "f s")
    case (Some qs)
    obtain q s' where "qs = (q, s')" by (cases qs)
    with Some Act.IH [of s q s'] show ?thesis by simp
  qed simp
  then show ?case by (simp add: bindP.simps(2))
qed

subsection \<open>Interleaving\<close>

text \<open>
  A system is a family of running programs and the shared state. A step lets one program perform
  its next action, starts a program the clients may request, or is a step of the environment.
\<close>

record ('s, 'a) system =
  threads :: "nat \<Rightarrow> ('s, 'a) prog option"
  shared :: 's

inductive sys_step ::
  "('s, 'a) prog set \<Rightarrow> ('s \<Rightarrow> 's \<Rightarrow> bool) \<Rightarrow> ('s, 'a) system \<Rightarrow> ('s, 'a) system \<Rightarrow> bool"
  for progs env where
  step_act: "threads c i = Some (Act f) \<Longrightarrow> f (shared c) = Some (p, s') \<Longrightarrow>
     sys_step progs env c \<lparr>threads = (threads c)(i := Some p), shared = s'\<rparr>"
| step_spawn: "threads c i = None \<Longrightarrow> p \<in> progs \<Longrightarrow>
     sys_step progs env c \<lparr>threads = (threads c)(i := Some p), shared = shared c\<rparr>"
| step_env: "env (shared c) s' \<Longrightarrow>
     sys_step progs env c \<lparr>threads = threads c, shared = s'\<rparr>"

inductive sys_reach ::
  "('s, 'a) prog set \<Rightarrow> ('s \<Rightarrow> 's \<Rightarrow> bool) \<Rightarrow> 's \<Rightarrow> ('s, 'a) system \<Rightarrow> bool"
  for progs env s0 where
  reach_init: "sys_reach progs env s0 \<lparr>threads = (\<lambda>_. None), shared = s0\<rparr>"
| reach_step: "sys_reach progs env s0 c \<Longrightarrow> sys_step progs env c c' \<Longrightarrow> sys_reach progs env s0 c'"

text \<open>An executable scheduler: the list says which thread moves next.\<close>

fun schedule :: "nat list \<Rightarrow> ('s, 'a) system \<Rightarrow> ('s, 'a) system option" where
  "schedule [] c = Some c"
| "schedule (i # is) c =
     (case threads c i of
        Some (Act f) \<Rightarrow>
          (case f (shared c) of
             Some (p, s') \<Rightarrow> schedule is \<lparr>threads = (threads c)(i := Some p), shared = s'\<rparr>
           | None \<Rightarrow> None)
      | _ \<Rightarrow> None)"

lemma schedule_reach:
  "schedule is c = Some c' \<Longrightarrow> sys_reach progs env s0 c \<Longrightarrow> sys_reach progs env s0 c'"
proof (induction "is" c rule: schedule.induct)
  case (1 c)
  then show ?case by simp
next
  case (2 i "is" c)
  from "2.prems"(1) obtain f p s' where f: "threads c i = Some (Act f)"
    and s: "f (shared c) = Some (p, s')"
    and r: "schedule is \<lparr>threads = (threads c)(i := Some p), shared = s'\<rparr> = Some c'"
    by (auto split: option.splits prog.splits)
  have "sys_reach progs env s0 \<lparr>threads = (threads c)(i := Some p), shared = s'\<rparr>"
    by (rule reach_step [OF "2.prems"(2)]) (rule step_act [OF f s])
  with "2.IH" [OF f refl s refl r] show ?case by simp
qed

text \<open>A program run alone is one of the interleavings, and so is a part of it.\<close>

lemma run_prefix:
  assumes "run p s = Some (a, s')" "sys_reach progs env s0 c" "threads c i = Some (bindP p k)" "shared c = s"
  shows "\<exists>c'. sys_reach progs env s0 c' \<and> threads c' i = Some (k a) \<and> shared c' = s' \<and>
    (\<forall>j. j \<noteq> i \<longrightarrow> threads c' j = threads c j)"
  using assms
proof (induction p arbitrary: s c)
  case (Ret b)
  then show ?case by auto
next
  case (Act f)
  from Act.prems(1) obtain q t where q: "f s = Some (q, t)" "run q t = Some (a, s')"
    by (auto simp: run_Act split: option.splits)
  let ?c = "\<lparr>threads = (threads c)(i := Some (bindP q k)), shared = t\<rparr>"
  have "sys_step progs env c ?c"
    by (rule step_act [where f = "\<lambda>s. map_option (map_prod (\<lambda>p. bindP p k) id) (f s)"])
      (use Act.prems(3,4) q(1) in \<open>simp_all add: bindP.simps(2)\<close>)
  with Act.prems(2) have "sys_reach progs env s0 ?c" by (rule reach_step)
  from Act.IH [OF q(1) q(2) this] show ?case by fastforce
qed

lemma run_reach:
  assumes "run p s = Some (a, s')" "sys_reach progs env s0 c" "threads c i = Some p" "shared c = s"
  shows "\<exists>c'. sys_reach progs env s0 c' \<and> threads c' i = Some (Ret a) \<and> shared c' = s' \<and>
    (\<forall>j. j \<noteq> i \<longrightarrow> threads c' j = threads c j)"
  using run_prefix [OF assms(1,2), of i Ret] assms(3,4) by simp

subsection \<open>Rely and guarantee\<close>

text \<open>
  \<open>'o\<close> is what a program owns at a point of its execution. \<open>guar o o' s s'\<close> says what an action of
  a program owning \<open>o\<close> (and \<open>o'\<close> afterwards) may do to the state, \<open>rely o s s'\<close> what the others
  may have done meanwhile to a state where one owns \<open>o\<close>.
\<close>

locale rely_guarantee =
  fixes inv :: "'s \<Rightarrow> bool"
    and rely :: "'o \<Rightarrow> 's \<Rightarrow> 's \<Rightarrow> bool"
    and guar :: "'o \<Rightarrow> 'o \<Rightarrow> 's \<Rightarrow> 's \<Rightarrow> bool"
    and within :: "'o \<Rightarrow> 's \<Rightarrow> bool"
    and disjoint :: "'o \<Rightarrow> 'o \<Rightarrow> bool"
    and nothing :: 'o
    and env :: "'s \<Rightarrow> 's \<Rightarrow> bool"
  assumes rely_refl: "rely q s s"
    and rely_trans: "rely q s t \<Longrightarrow> rely q t u \<Longrightarrow> rely q s u"
    and guar_rely: "guar q q' s t \<Longrightarrow> disjoint q r \<Longrightarrow> within r s \<Longrightarrow> rely r s t"
    and guar_within: "guar q q' s t \<Longrightarrow> within q s \<Longrightarrow> within q' t"
    and guar_disjoint: "guar q q' s t \<Longrightarrow> disjoint q r \<Longrightarrow> within q s \<Longrightarrow> within r s \<Longrightarrow> inv s \<Longrightarrow> disjoint q' r"
    and rely_within: "rely q s t \<Longrightarrow> within q s \<Longrightarrow> within q t"
    and disjoint_sym: "disjoint q r \<Longrightarrow> disjoint r q"
    and nothing_disjoint: "disjoint nothing r"
    and nothing_within: "within nothing s"
    and env_rely: "env s t \<Longrightarrow> rely q s t"
    and env_inv: "env s t \<Longrightarrow> inv s \<Longrightarrow> inv t"
begin

text \<open>
  \<open>ok Q p q s\<close>: from state \<open>s\<close>, owning \<open>q\<close>, every action of \<open>p\<close> keeps the invariant and the
  guarantee whatever the others do, and a result satisfies \<open>Q\<close>.
\<close>

inductive ok :: "('a \<Rightarrow> 'o \<Rightarrow> 's \<Rightarrow> bool) \<Rightarrow> ('s, 'a) prog \<Rightarrow> 'o \<Rightarrow> 's \<Rightarrow> bool" for Q where
  ok_Ret: "(\<And>t. rely q s t \<Longrightarrow> inv t \<Longrightarrow> within q t \<Longrightarrow> Q a q t) \<Longrightarrow> ok Q (Ret a) q s"
| ok_Act: "(\<And>t p u. rely q s t \<Longrightarrow> inv t \<Longrightarrow> within q t \<Longrightarrow> f t = Some (p, u) \<Longrightarrow>
      inv u \<and> (\<exists>q'. guar q q' t u \<and> ok Q p q' u)) \<Longrightarrow> ok Q (Act f) q s"

inductive_cases ok_RetE: "ok Q (Ret a) q s"
inductive_cases ok_ActE: "ok Q (Act f) q s"

lemma ok_rely: "ok Q p q s \<Longrightarrow> rely q s t \<Longrightarrow> ok Q p q t"
  by (cases p) (auto elim!: ok_RetE ok_ActE intro!: ok_Ret ok_Act dest: rely_trans)

text \<open>It is enough to look at the states the others may have produced.\<close>

lemma ok_later: "(\<And>t. rely q s t \<Longrightarrow> inv t \<Longrightarrow> within q t \<Longrightarrow> ok Q p q t) \<Longrightarrow> ok Q p q s"
proof (cases p)
  case (Ret a)
  assume "\<And>t. rely q s t \<Longrightarrow> inv t \<Longrightarrow> within q t \<Longrightarrow> ok Q p q t"
  with Ret have "\<And>t. rely q s t \<Longrightarrow> inv t \<Longrightarrow> within q t \<Longrightarrow> Q a q t"
    using rely_refl by (blast elim: ok_RetE)
  then show ?thesis unfolding Ret by (rule ok_Ret)
next
  case (Act f)
  assume later: "\<And>t. rely q s t \<Longrightarrow> inv t \<Longrightarrow> within q t \<Longrightarrow> ok Q p q t"
  show ?thesis unfolding Act
  proof (rule ok_Act)
    fix t p' u
    assume t: "rely q s t" "inv t" "within q t" "f t = Some (p', u)"
    from later [OF t(1-3)] Act have "ok Q (Act f) q t" by simp
    then show "inv u \<and> (\<exists>q'. guar q q' t u \<and> ok Q p' q' u)"
      by (rule ok_ActE) (use t rely_refl in blast)
  qed
qed

lemma ok_Ret_now:
  "(\<And>t. inv t \<Longrightarrow> within q t \<Longrightarrow> rely q s t \<Longrightarrow> Q a q t) \<Longrightarrow> ok Q (Ret a) q s"
  by (blast intro: ok_Ret)

lemma ok_bind:
  assumes "ok Q p q s"
    and k: "\<And>a q s. inv s \<Longrightarrow> within q s \<Longrightarrow> Q a q s \<Longrightarrow> ok R (k a) q s"
  shows "ok R (bindP p k) q s"
  using assms(1)
proof (induction p q s rule: ok.induct)
  case (ok_Ret q s a)
  show ?case
    by (simp, rule ok_later) (blast intro: k ok_Ret)
next
  case (ok_Act q s f)
  show ?case
    unfolding bindP.simps(2)
  proof (rule ok.ok_Act)
    fix t p u
    assume t: "rely q s t" "inv t" "within q t"
      and "map_option (map_prod (\<lambda>p. bindP p k) id) (f t) = Some (p, u)"
    then obtain p0 where "f t = Some (p0, u)" "p = bindP p0 k" by auto
    with ok_Act [OF t] show "inv u \<and> (\<exists>q'. guar q q' t u \<and> ok R p q' u)" by blast
  qed
qed

lemma ok_act:
  assumes "\<And>t a u. rely q s t \<Longrightarrow> inv t \<Longrightarrow> within q t \<Longrightarrow> f t = (a, u) \<Longrightarrow>
      inv u \<and> (\<exists>q'. guar q q' t u \<and> (\<forall>v. rely q' u v \<longrightarrow> inv v \<longrightarrow> within q' v \<longrightarrow> Q a q' v))"
  shows "ok Q (act f) q s"
  unfolding act_def
  by (rule ok_Act) (use assms in \<open>fastforce intro: ok_Ret split: prod.splits\<close>)

lemma ok_act_if:
  assumes "\<And>t a u. rely q s t \<Longrightarrow> inv t \<Longrightarrow> within q t \<Longrightarrow> g t \<Longrightarrow> f t = (a, u) \<Longrightarrow>
      inv u \<and> (\<exists>q'. guar q q' t u \<and> (\<forall>v. rely q' u v \<longrightarrow> inv v \<longrightarrow> within q' v \<longrightarrow> Q a q' v))"
  shows "ok Q (act_if g f) q s"
  unfolding act_if_def
  by (rule ok_Act) (use assms in \<open>fastforce intro: ok_Ret split: prod.splits if_splits\<close>)

lemma ok_mono:
  assumes "ok Q p q s" and "\<And>a q s. inv s \<Longrightarrow> within q s \<Longrightarrow> Q a q s \<Longrightarrow> R a q s"
  shows "ok R p q s"
  using assms(1)
proof (induction p q s rule: ok.induct)
  case (ok_Ret q s a)
  then show ?case using assms(2) by (blast intro: ok.ok_Ret)
next
  case (ok_Act q s f)
  show ?case
  proof (rule ok.ok_Act)
    fix t p u
    assume "rely q s t" "inv t" "within q t" "f t = Some (p, u)"
    from ok_Act [OF this] show "inv u \<and> (\<exists>q'. guar q q' t u \<and> ok R p q' u)" by blast
  qed
qed

lemma ok_bindE:
  assumes "ok Q p q s"
    and "\<And>e q s. inv s \<Longrightarrow> within q s \<Longrightarrow> Q (Inl e) q s \<Longrightarrow> ok R (Ret (Inl e)) q s"
    and "\<And>a q s. inv s \<Longrightarrow> within q s \<Longrightarrow> Q (Inr a) q s \<Longrightarrow> ok R (k a) q s"
  shows "ok R (bindE p k) q s"
  unfolding bindE_def
  by (rule ok_bind [OF assms(1)]) (use assms(2,3) in \<open>auto split: sum.splits\<close>)

text \<open>
  Soundness. \<open>justified Q c own\<close>: the invariant holds and every running program is \<open>ok\<close> owning its
  share. Every reachable configuration of programs that are \<open>ok\<close> when they start is justified.
\<close>

definition justified :: "('a \<Rightarrow> 'o \<Rightarrow> 's \<Rightarrow> bool) \<Rightarrow> ('s, 'a) system \<Rightarrow> (nat \<Rightarrow> 'o) \<Rightarrow> bool" where
  "justified Q c own \<longleftrightarrow> inv (shared c) \<and>
     (\<forall>i. within (own i) (shared c)) \<and>
     (\<forall>i j. i \<noteq> j \<longrightarrow> disjoint (own i) (own j)) \<and>
     (\<forall>i p. threads c i = Some p \<longrightarrow> ok Q p (own i) (shared c)) \<and>
     (\<forall>i. threads c i = None \<longrightarrow> own i = nothing)"

lemma justified_act:
  assumes c: "justified Q c own" and i: "threads c i = Some (Act f)"
    and f: "f (shared c) = Some (p, s')"
  obtains q' where "guar (own i) q' (shared c) s'"
    "justified Q \<lparr>threads = (threads c)(i := Some p), shared = s'\<rparr> (own(i := q'))"
proof -
  let ?s = "shared c"
  have inv: "inv ?s" and win: "\<And>j. within (own j) ?s"
    and dis: "\<And>j k. j \<noteq> k \<Longrightarrow> disjoint (own j) (own k)"
    and oks: "\<And>j p. threads c j = Some p \<Longrightarrow> ok Q p (own j) ?s"
    and idle: "\<And>j. threads c j = None \<Longrightarrow> own j = nothing"
    using c by (auto simp: justified_def)
  from oks [OF i] obtain q' where s': "inv s'" "guar (own i) q' ?s s'" "ok Q p q' s'"
    using rely_refl inv win f by (blast elim: ok_ActE)
  have rel: "rely (own j) ?s s'" if "j \<noteq> i" for j
    by (rule guar_rely [OF s'(2)]) (use dis win that in auto)
  have d': "disjoint q' (own j)" if "j \<noteq> i" for j
    by (rule guar_disjoint [OF s'(2)]) (use dis win inv that in auto)
  have "within q' s'" by (rule guar_within [OF s'(2)]) (rule win)
  moreover have "within (own j) s'" if "j \<noteq> i" for j
    by (rule rely_within [OF rel]) (use win that in auto)
  moreover have "ok Q r (own j) s'" if "j \<noteq> i" "threads c j = Some r" for j r
    by (rule ok_rely [OF oks rel]) (use that in auto)
  ultimately have "justified Q \<lparr>threads = (threads c)(i := Some p), shared = s'\<rparr> (own(i := q'))"
    using s' dis d' idle by (auto simp: justified_def intro: disjoint_sym)
  with s'(2) that show thesis by blast
qed

lemma justified_step:
  assumes c: "justified Q c own" and step: "sys_step progs env c c'"
    and progs: "\<And>p s. p \<in> progs \<Longrightarrow> inv s \<Longrightarrow> ok Q p nothing s"
  shows "\<exists>own'. justified Q c' own'"
  using step
proof cases
  case (step_act i f p s')
  with justified_act [OF c] show ?thesis by blast
next
  case (step_spawn i p)
  then have "justified Q c' own"
    using c progs by (auto simp: justified_def)
  then show ?thesis by blast
next
  case (step_env s')
  then have rel: "rely (own i) (shared c) s'" for i by (simp add: env_rely)
  have "inv s'" using c step_env(2) env_inv by (auto simp: justified_def)
  moreover have "within (own i) s'" for i
    by (rule rely_within [OF rel]) (use c in \<open>simp add: justified_def\<close>)
  moreover have "ok Q p (own i) s'" if "threads c i = Some p" for i p
    by (rule ok_rely [OF _ rel]) (use c that in \<open>simp add: justified_def\<close>)
  ultimately have "justified Q c' own"
    using c step_env(1) by (simp add: justified_def)
  then show ?thesis by blast
qed

theorem reach_justified:
  assumes "sys_reach progs env s0 c" "inv s0"
    and progs: "\<And>p s. p \<in> progs \<Longrightarrow> inv s \<Longrightarrow> ok Q p nothing s"
  shows "\<exists>own. justified Q c own"
  using assms(1)
proof (induction rule: sys_reach.induct)
  case reach_init
  have "justified Q \<lparr>threads = \<lambda>_. None, shared = s0\<rparr> (\<lambda>_. nothing)"
    using assms(2) by (simp add: justified_def nothing_within nothing_disjoint)
  then show ?case by blast
next
  case (reach_step c c')
  then show ?case using justified_step [OF _ reach_step.hyps(2) progs] by blast
qed

lemma reach_inv:
  assumes "sys_reach progs env s0 c" "inv s0"
    and "\<And>p s. p \<in> progs \<Longrightarrow> inv s \<Longrightarrow> ok Q p nothing s"
  shows "inv (shared c)"
  using reach_justified [OF assms] by (auto simp: justified_def)

lemma reach_result:
  assumes "sys_reach progs env s0 c" "inv s0"
    and "\<And>p s. p \<in> progs \<Longrightarrow> inv s \<Longrightarrow> ok Q p nothing s"
    and "threads c i = Some (Ret a)"
  shows "\<exists>q. Q a q (shared c)"
proof -
  obtain own where own: "justified Q c own" using reach_justified [OF assms(1-3)] by blast
  with assms(4) have "ok Q (Ret a) (own i) (shared c)" "inv (shared c)" "within (own i) (shared c)"
    by (auto simp: justified_def)
  then show ?thesis using rely_refl by (blast elim: ok_RetE)
qed

lemma step_guar:
  assumes "sys_reach progs env s0 c" "inv s0"
    and "\<And>p s. p \<in> progs \<Longrightarrow> inv s \<Longrightarrow> ok Q p nothing s"
    and "sys_step progs env c c'"
  obtains "shared c' = shared c" | "env (shared c) (shared c')"
  | q q' where "inv (shared c)" "guar q q' (shared c) (shared c')"
proof -
  obtain own where own: "justified Q c own" using reach_justified [OF assms(1-3)] by blast
  from assms(4) show thesis
  proof cases
    case (step_act i f p s')
    with justified_act [OF own] obtain q' where "guar (own i) q' (shared c) s'" by blast
    moreover have "inv (shared c)" using own by (simp add: justified_def)
    ultimately show ?thesis using step_act that(3) by simp
  qed (use that in auto)
qed

end

end
