(* ===== verification/Database.thy ===== *)
theory Database
  imports Schema Programs
begin

text \<open>
  PostgreSQL as the service uses it: committed rows, open transactions with the rows they have
  inserted and the advisory locks they hold, a clock and a source of identifiers
  (\<open>gen_random_uuid\<close> and \<open>uuid.New\<close>, assumed never to repeat). Statements of an open transaction
  see the committed rows and its own (\<open>READ COMMITTED\<close>); a statement that would clash with the
  uncommitted row of another transaction waits for it.

  A statement is one atomic action of a program. The connection may fail before the statement
  reaches the server or after it has taken effect (\<open>fault\<close>): the caller sees the same kind of
  error either way. The rest of the outside world (clock, faults, the provider's replies, random
  bytes, the metrics recorder) is the record \<open>world\<close>.
\<close>

subsection \<open>internal/database/pgconv.go\<close>

type_synonym pg_uuid = "uuid option"
type_synonym pg_timestamptz = "time option"

definition to_uuid :: "uuid \<Rightarrow> pg_uuid" where "to_uuid u = Some u"

definition from_uuid :: "pg_uuid \<Rightarrow> go_err + uuid" where
  "from_uuid p = (case p of None \<Rightarrow> Inl (Sentinel ErrNullValue) | Some u \<Rightarrow> Inr u)"

definition to_timestamp :: "time \<Rightarrow> pg_timestamptz" where "to_timestamp t = Some t"

definition to_timestamp_ptr :: "time option \<Rightarrow> pg_timestamptz" where
  "to_timestamp_ptr t = (case t of None \<Rightarrow> None | Some x \<Rightarrow> Some x)"

definition from_timestamp :: "pg_timestamptz \<Rightarrow> go_err + time" where
  "from_timestamp p = (case p of None \<Rightarrow> Inl (Sentinel ErrNullValue) | Some t \<Rightarrow> Inr t)"

definition timestamp_ptr :: "pg_timestamptz \<Rightarrow> time option" where
  "timestamp_ptr p = (case p of None \<Rightarrow> None | Some t \<Rightarrow> Some t)"

lemma pgconv_simps [simp]:
  "from_uuid (Some u) = Inr u" "from_timestamp (Some t) = Inr t"
  "from_uuid None = Inl (Sentinel ErrNullValue)" "from_timestamp None = Inl (Sentinel ErrNullValue)"
  "timestamp_ptr p = p" "to_timestamp_ptr q = q" "to_uuid u = Some u" "to_timestamp t = Some t"
  by (auto simp: from_uuid_def from_timestamp_def timestamp_ptr_def to_timestamp_ptr_def
        to_uuid_def to_timestamp_def split: option.splits)

subsection \<open>The database\<close>

record tx =
  t_id :: nat
  t_now :: time
  t_payments :: "payment_row list"
  t_operations :: "operation_row list"
  t_idempotency :: "idempotency_row list"
  t_applications :: "application_row list"
  t_api_keys :: "api_key_row list"
  t_accounts :: "account_row list"
  t_links :: "link_row list"       \<comment> \<open>new links, and new versions of existing ones\<close>
  t_locks :: "int list"

record database =
  db_payments :: "payment_row list"
  db_operations :: "operation_row list"
  db_idempotency :: "idempotency_row list"
  db_applications :: "application_row list"
  db_api_keys :: "api_key_row list"
  db_accounts :: "account_row list"
  db_links :: "link_row list"
  db_txs :: "tx list"
  db_clock :: time
  db_next :: uuid

datatype conn = Pool | Tx nat

definition own_txs :: "conn \<Rightarrow> database \<Rightarrow> tx list" where
  "own_txs c d = filter (\<lambda>x. c = Tx (t_id x)) (db_txs d)"

definition other_txs :: "conn \<Rightarrow> database \<Rightarrow> tx list" where
  "other_txs c d = filter (\<lambda>x. c \<noteq> Tx (t_id x)) (db_txs d)"

definition conn_open :: "conn \<Rightarrow> database \<Rightarrow> bool" where
  "conn_open c d \<longleftrightarrow> c = Pool \<or> own_txs c d \<noteq> []"

text \<open>\<open>now()\<close> is the start of the transaction.\<close>

definition now :: "conn \<Rightarrow> database \<Rightarrow> time" where
  "now c d = (case own_txs c d of [] \<Rightarrow> db_clock d | x # _ \<Rightarrow> t_now x)"

text \<open>The rows of a table a connection sees, and the uncommitted rows of the others.\<close>

definition visible :: "(database \<Rightarrow> 'r list) \<Rightarrow> (tx \<Rightarrow> 'r list) \<Rightarrow> conn \<Rightarrow> database \<Rightarrow> 'r list" where
  "visible rows pending c d = rows d @ concat (map pending (own_txs c d))"

definition foreign :: "(tx \<Rightarrow> 'r list) \<Rightarrow> conn \<Rightarrow> database \<Rightarrow> 'r list" where
  "foreign pending c d = concat (map pending (other_txs c d))"

definition in_tx :: "nat \<Rightarrow> (tx \<Rightarrow> tx) \<Rightarrow> database \<Rightarrow> database" where
  "in_tx t f d = d\<lparr>db_txs := update_where (\<lambda>x. t_id x = t) f (db_txs d)\<rparr>"

abbreviation "visible_payments \<equiv> visible db_payments t_payments"
abbreviation "visible_operations \<equiv> visible db_operations t_operations"
abbreviation "visible_idempotency \<equiv> visible db_idempotency t_idempotency"
abbreviation "visible_applications \<equiv> visible db_applications t_applications"
abbreviation "visible_api_keys \<equiv> visible db_api_keys t_api_keys"
abbreviation "visible_accounts \<equiv> visible db_accounts t_accounts"

text \<open>Links can be changed inside a transaction, so its versions replace the committed ones.\<close>

definition same_link :: "link_row \<Rightarrow> link_row \<Rightarrow> bool" where
  "same_link l m \<longleftrightarrow> l_application_id l = l_application_id m \<and>
     l_provider_account_id l = l_provider_account_id m"

definition merge_links :: "link_row list \<Rightarrow> link_row list \<Rightarrow> link_row list" where
  "merge_links old new =
     map (\<lambda>l. case find (same_link l) new of None \<Rightarrow> l | Some m \<Rightarrow> m) old @
     filter (\<lambda>m. \<not> list_ex (same_link m) old) new"

definition visible_links :: "conn \<Rightarrow> database \<Rightarrow> link_row list" where
  "visible_links c d = merge_links (db_links d) (concat (map t_links (own_txs c d)))"

definition put_payment :: "conn \<Rightarrow> payment_row \<Rightarrow> database \<Rightarrow> database" where
  "put_payment c r d = (case c of Pool \<Rightarrow> d\<lparr>db_payments := db_payments d @ [r]\<rparr>
     | Tx t \<Rightarrow> in_tx t (\<lambda>x. x\<lparr>t_payments := t_payments x @ [r]\<rparr>) d)"

definition put_operation :: "conn \<Rightarrow> operation_row \<Rightarrow> database \<Rightarrow> database" where
  "put_operation c r d = (case c of Pool \<Rightarrow> d\<lparr>db_operations := db_operations d @ [r]\<rparr>
     | Tx t \<Rightarrow> in_tx t (\<lambda>x. x\<lparr>t_operations := t_operations x @ [r]\<rparr>) d)"

definition put_idempotency :: "conn \<Rightarrow> idempotency_row \<Rightarrow> database \<Rightarrow> database" where
  "put_idempotency c r d = (case c of Pool \<Rightarrow> d\<lparr>db_idempotency := db_idempotency d @ [r]\<rparr>
     | Tx t \<Rightarrow> in_tx t (\<lambda>x. x\<lparr>t_idempotency := t_idempotency x @ [r]\<rparr>) d)"

definition put_application :: "conn \<Rightarrow> application_row \<Rightarrow> database \<Rightarrow> database" where
  "put_application c r d = (case c of Pool \<Rightarrow> d\<lparr>db_applications := db_applications d @ [r]\<rparr>
     | Tx t \<Rightarrow> in_tx t (\<lambda>x. x\<lparr>t_applications := t_applications x @ [r]\<rparr>) d)"

definition put_api_key :: "conn \<Rightarrow> api_key_row \<Rightarrow> database \<Rightarrow> database" where
  "put_api_key c r d = (case c of Pool \<Rightarrow> d\<lparr>db_api_keys := db_api_keys d @ [r]\<rparr>
     | Tx t \<Rightarrow> in_tx t (\<lambda>x. x\<lparr>t_api_keys := t_api_keys x @ [r]\<rparr>) d)"

definition put_account :: "conn \<Rightarrow> account_row \<Rightarrow> database \<Rightarrow> database" where
  "put_account c r d = (case c of Pool \<Rightarrow> d\<lparr>db_accounts := db_accounts d @ [r]\<rparr>
     | Tx t \<Rightarrow> in_tx t (\<lambda>x. x\<lparr>t_accounts := t_accounts x @ [r]\<rparr>) d)"

definition put_links :: "conn \<Rightarrow> link_row list \<Rightarrow> database \<Rightarrow> database" where
  "put_links c ls d = (case c of Pool \<Rightarrow> d\<lparr>db_links := merge_links (db_links d) ls\<rparr>
     | Tx t \<Rightarrow> in_tx t (\<lambda>x. x\<lparr>t_links := merge_links (t_links x) ls\<rparr>) d)"

definition fresh_id :: "database \<Rightarrow> uuid \<times> database" where
  "fresh_id d = (db_next d, d\<lparr>db_next := Suc (db_next d)\<rparr>)"

definition unique_violation :: "string \<Rightarrow> go_err" where
  "unique_violation what = PgError ''23505'' (''duplicate key value violates unique constraint '' @ what)"

definition foreign_key_violation :: "string \<Rightarrow> go_err" where
  "foreign_key_violation what = PgError ''23503'' (''violates foreign key constraint '' @ what)"

definition check_violation :: "string \<Rightarrow> go_err" where
  "check_violation what = PgError ''23514'' (''violates check constraint '' @ what)"

subsection \<open>Transactions\<close>

definition new_tx :: "nat \<Rightarrow> time \<Rightarrow> tx" where
  "new_tx t time = \<lparr>t_id = t, t_now = time, t_payments = [], t_operations = [], t_idempotency = [],
     t_applications = [], t_api_keys = [], t_accounts = [], t_links = [], t_locks = []\<rparr>"

definition open_tx :: "database \<Rightarrow> nat \<times> database" where
  "open_tx d = (db_next d,
     d\<lparr>db_next := Suc (db_next d), db_txs := db_txs d @ [new_tx (db_next d) (db_clock d)]\<rparr>)"

definition close_tx :: "nat \<Rightarrow> database \<Rightarrow> database" where
  "close_tx t d = d\<lparr>db_txs := filter (\<lambda>x. t_id x \<noteq> t) (db_txs d)\<rparr>"

definition commit_tx :: "nat \<Rightarrow> database \<Rightarrow> database" where
  "commit_tx t d = close_tx t (d\<lparr>
     db_payments := visible_payments (Tx t) d,
     db_operations := visible_operations (Tx t) d,
     db_idempotency := visible_idempotency (Tx t) d,
     db_applications := visible_applications (Tx t) d,
     db_api_keys := visible_api_keys (Tx t) d,
     db_accounts := visible_accounts (Tx t) d,
     db_links := visible_links (Tx t) d\<rparr>)"

subsection \<open>The world and its actions\<close>

datatype fault = NoFault | LostRequest string | LostReply string

datatype metric =
    CreationCounted string
  | ProviderCallCounted string "error_code option" duration
  | RequestObserved string string int duration
  | UnfinishedSet int

record world =
  w_db :: database
  w_now :: time
  w_stmts :: nat
  w_faults :: "nat \<Rightarrow> fault"
  w_wire :: "wire_request list"
  w_calls :: nat
  w_replies :: "nat \<Rightarrow> transport"
  w_draws :: nat
  w_random :: "nat \<Rightarrow> nat \<Rightarrow> bytes option"
  w_metrics :: "metric list"

type_synonym 'a effect = "database \<Rightarrow> (go_err + 'a) \<times> database"
type_synonym 'a action = "(world, 'a) prog"

definition tx_closed :: go_err where "tx_closed = Opaque ''tx is closed''"

definition statement :: "conn \<Rightarrow> 'a effect \<Rightarrow> world \<Rightarrow> (go_err + 'a) \<times> world" where
  "statement c eff w =
     (let w1 = w\<lparr>w_stmts := Suc (w_stmts w)\<rparr>;
          done = (if conn_open c (w_db w) then eff (w_db w) else (Inl tx_closed, w_db w))
      in case w_faults w (w_stmts w) of
           NoFault \<Rightarrow> (fst done, w1\<lparr>w_db := snd done\<rparr>)
         | LostRequest msg \<Rightarrow> (Inl (Opaque msg), w1)
         | LostReply msg \<Rightarrow> (Inl (Opaque msg), w1\<lparr>w_db := snd done\<rparr>))"

definition exec :: "conn \<Rightarrow> 'a effect \<Rightarrow> (go_err + 'a) action" where
  "exec c eff = act (statement c eff)"

text \<open>A statement that waits until the database lets it proceed.\<close>

definition exec_when :: "(database \<Rightarrow> bool) \<Rightarrow> conn \<Rightarrow> 'a effect \<Rightarrow> (go_err + 'a) action" where
  "exec_when ready c eff =
     act_if (\<lambda>w. (case w_faults w (w_stmts w) of LostRequest _ \<Rightarrow> True | _ \<Rightarrow> False) \<or> ready (w_db w))
       (statement c eff)"

text \<open>\<open>pool.Begin\<close>: a transaction whose start was not confirmed is gone with its connection.\<close>

definition begin_tx :: "(go_err + nat) action" where
  "begin_tx = act (\<lambda>w.
     let w1 = w\<lparr>w_stmts := Suc (w_stmts w)\<rparr> in
     case w_faults w (w_stmts w) of
       NoFault \<Rightarrow> (case open_tx (w_db w) of (t, d) \<Rightarrow> (Inr t, w1\<lparr>w_db := d\<rparr>))
     | LostRequest msg \<Rightarrow> (Inl (Opaque msg), w1)
     | LostReply msg \<Rightarrow> (Inl (Opaque msg), w1))"

definition commit :: "nat \<Rightarrow> (go_err + unit) action" where
  "commit t = exec (Tx t) (\<lambda>d. (Inr (), commit_tx t d))"

text \<open>The deferred \<open>tx.Rollback\<close>: its error is ignored, and after a commit it does nothing. It is modelled
  as immediate and never failing: when the statement itself is lost, pgx closes the connection and the
  server rolls the transaction back on its own.\<close>

definition rollback :: "nat \<Rightarrow> unit action" where
  "rollback t = act (\<lambda>w. ((), w\<lparr>w_db := close_tx t (w_db w)\<rparr>))"

text \<open>\<open>time.Now\<close>, \<open>uuid.New\<close> and \<open>rand.Read\<close>.\<close>

definition get_time :: "time action" where
  "get_time = act (\<lambda>w. (w_now w, w))"

definition new_uuid :: "uuid action" where
  "new_uuid = act (\<lambda>w. case fresh_id (w_db w) of (u, d) \<Rightarrow> (u, w\<lparr>w_db := d\<rparr>))"

definition rand_read :: "nat \<Rightarrow> bytes option action" where
  "rand_read n = act (\<lambda>w. (w_random w (w_draws w) n, w\<lparr>w_draws := Suc (w_draws w)\<rparr>))"

definition record_metric :: "metric \<Rightarrow> unit action" where
  "record_metric m = act (\<lambda>w. ((), w\<lparr>w_metrics := w_metrics w @ [m]\<rparr>))"

text \<open>A call to the provider: the adapter makes a request (or none) of the pending reply.\<close>

definition provider_call :: "(transport \<Rightarrow> wire_request option \<times> 'a) \<Rightarrow> 'a action" where
  "provider_call f = act (\<lambda>w.
     case f (w_replies w (w_calls w)) of
       (None, r) \<Rightarrow> (r, w)
     | (Some req, r) \<Rightarrow> (r, w\<lparr>w_wire := w_wire w @ [req], w_calls := Suc (w_calls w)\<rparr>))"

lemmas action_defs = exec_def exec_when_def begin_tx_def commit_def rollback_def get_time_def
  new_uuid_def rand_read_def record_metric_def provider_call_def

text \<open>The three ways a statement can go.\<close>

lemma statement_cases:
  assumes "statement c eff w = (r, w')"
  obtains msg where "r = Inl (Opaque msg)" "w' = w\<lparr>w_stmts := Suc (w_stmts w)\<rparr>"
  | d where "eff (w_db w) = (r, d)" "w' = w\<lparr>w_stmts := Suc (w_stmts w), w_db := d\<rparr>" "conn_open c (w_db w)"
  | msg r0 d where "eff (w_db w) = (r0, d)" "r = Inl (Opaque msg)"
      "w' = w\<lparr>w_stmts := Suc (w_stmts w), w_db := d\<rparr>" "conn_open c (w_db w)"
  | "r = Inl tx_closed" "w' = w\<lparr>w_stmts := Suc (w_stmts w)\<rparr>" "\<not> conn_open c (w_db w)"
proof -
  have "w\<lparr>w_stmts := Suc (w_stmts w), w_db := w_db w\<rparr> = w\<lparr>w_stmts := Suc (w_stmts w)\<rparr>" by simp
  then show thesis
    using assms that
    by (auto simp: statement_def Let_def tx_closed_def prod_eq_iff split: fault.splits if_splits)
qed

end
