(* ===== verification/AppModels.thy ===== *)
theory AppModels
  imports Database
begin

text \<open>
  The domain types of \<open>internal/applications/models.go\<close> and the conversions from rows of
  \<open>internal/applications/repository.go\<close>. Key material and encrypted secrets have no field in the
  domain types, so no conversion can leak them.
\<close>

record application =
  app_id :: uuid
  app_name :: string
  app_slug :: string
  app_status :: string
  app_default_return_url :: "string option"
  app_webhook_url :: "string option"
  app_created_at :: time
  app_updated_at :: time

definition StatusActive :: string where "StatusActive = ''active''"
definition StatusDisabled :: string where "StatusDisabled = ''disabled''"
definition EnvironmentTest :: string where "EnvironmentTest = ''test''"
definition EnvironmentProduction :: string where "EnvironmentProduction = ''production''"
definition ProviderStatusActive :: string where "ProviderStatusActive = ''active''"
definition ProviderStatusNeedsAttention :: string where
  "ProviderStatusNeedsAttention = ''needs_attention''"
definition ProviderStatusDisabled :: string where "ProviderStatusDisabled = ''disabled''"
definition ProviderYooKassa :: string where "ProviderYooKassa = ''yookassa''"

definition app_active :: "application \<Rightarrow> bool" where
  "app_active a \<longleftrightarrow> app_status a = StatusActive"

record issued_key =
  ik_id :: uuid
  ik_name :: string
  ik_prefix :: string
  ik_full_key :: string
  ik_expires_at :: "time option"
  ik_created_at :: time

record api_key_info =
  ki_id :: uuid
  ki_name :: string
  ki_prefix :: string
  ki_expires_at :: "time option"
  ki_last_used_at :: "time option"
  ki_revoked_at :: "time option"
  ki_created_at :: time

definition key_revoked :: "api_key_info \<Rightarrow> bool" where
  "key_revoked k \<longleftrightarrow> ki_revoked_at k \<noteq> None"

record provider_account =
  pa_id :: uuid
  pa_provider :: string
  pa_shop_id :: string
  pa_environment :: string
  pa_status :: string
  pa_is_default :: bool
  pa_created_at :: time
  pa_updated_at :: time

record authenticated =
  au_application :: application
  au_key_id :: uuid

record provisioned =
  pv_api_key :: issued_key
  pv_webhook_secret :: string

record create_application_input =
  ca_name :: string
  ca_default_return_url :: "string option"
  ca_webhook_url :: "string option"

record attach_provider_input =
  at_provider :: string
  at_shop_id :: string
  at_secret_key :: string
  at_environment :: string
  at_is_default :: bool

subsection \<open>internal/applications/repository.go\<close>

definition to_application :: "application_row \<Rightarrow> go_err + application" where
  "to_application r =
     and_then (from_uuid (Some (a_id r))) (\<lambda>ident.
     and_then (from_timestamp (Some (a_created_at r))) (\<lambda>created.
     and_then (from_timestamp (Some (a_updated_at r))) (\<lambda>updated.
       Inr \<lparr>app_id = ident, app_name = a_name r, app_slug = a_slug r, app_status = a_status r,
            app_default_return_url = a_default_return_url r, app_webhook_url = a_webhook_url r,
            app_created_at = created, app_updated_at = updated\<rparr>)))"

definition to_applications :: "application_row list \<Rightarrow> go_err + application list" where
  "to_applications rows = traverse to_application rows"

definition to_api_key_info :: "api_key_row \<Rightarrow> go_err + api_key_info" where
  "to_api_key_info r =
     and_then (from_uuid (Some (k_id r))) (\<lambda>ident.
     and_then (from_timestamp (Some (k_created_at r))) (\<lambda>created.
       Inr \<lparr>ki_id = ident, ki_name = k_name r, ki_prefix = k_key_prefix r,
            ki_expires_at = timestamp_ptr (k_expires_at r),
            ki_last_used_at = timestamp_ptr (k_last_used_at r),
            ki_revoked_at = timestamp_ptr (k_revoked_at r), ki_created_at = created\<rparr>))"

definition to_api_key_infos :: "api_key_row list \<Rightarrow> go_err + api_key_info list" where
  "to_api_key_infos rows = traverse to_api_key_info rows"

definition to_provider_account :: "account_row \<Rightarrow> bool \<Rightarrow> go_err + provider_account" where
  "to_provider_account r is_default =
     and_then (from_uuid (Some (c_id r))) (\<lambda>ident.
     and_then (from_timestamp (Some (c_created_at r))) (\<lambda>created.
     and_then (from_timestamp (Some (c_updated_at r))) (\<lambda>updated.
       Inr \<lparr>pa_id = ident, pa_provider = c_provider r, pa_shop_id = c_shop_id r,
            pa_environment = c_environment r, pa_status = c_status r, pa_is_default = is_default,
            pa_created_at = created, pa_updated_at = updated\<rparr>)))"

definition to_provider_accounts :: "(account_row \<times> bool) list \<Rightarrow> go_err + provider_account list" where
  "to_provider_accounts rows = traverse (\<lambda>(r, d). to_provider_account r d) rows"

lemma to_application_total [simp]:
  "to_application r = Inr \<lparr>app_id = a_id r, app_name = a_name r, app_slug = a_slug r,
     app_status = a_status r, app_default_return_url = a_default_return_url r,
     app_webhook_url = a_webhook_url r, app_created_at = a_created_at r, app_updated_at = a_updated_at r\<rparr>"
  by (simp add: to_application_def)

end
