(* ===== verification/PaymentQueries.thy ===== *)
theory PaymentQueries
  imports Database
begin

text \<open>
  The queries of \<open>internal/database/sqlcgen/payments.sql.go\<close>, one definition each, as effects on
  the database seen by a connection. A query that can wait has a second definition, \<open>..._ready\<close>.
  The server's treatment of \<open>jsonb\<close> documents and \<open>hashtextextended\<close> are parameters (\<open>pg_env\<close>).
\<close>

record pg_env =
  jsonb_in :: "string \<Rightarrow> go_err + string"
  lock_hash :: "string \<Rightarrow> int"

definition int32_max :: int where "int32_max = 2147483647"

text \<open>A text argument the server refuses makes the whole statement fail.\<close>

definition with_text :: "string \<Rightarrow> 'a effect \<Rightarrow> 'a effect" where
  "with_text s eff d = (case pg_value s of Inl e \<Rightarrow> (Inl e, d) | Inr _ \<Rightarrow> eff d)"

definition with_text_opt :: "string option \<Rightarrow> 'a effect \<Rightarrow> 'a effect" where
  "with_text_opt s eff = (case s of None \<Rightarrow> eff | Some t \<Rightarrow> with_text t eff)"

lemma with_text_cases:
  assumes "with_text s eff d = (r, d')"
  obtains e where "r = Inl e" "d' = d" | "eff d = (r, d')"
  using assms by (auto simp: with_text_def split: sum.splits)

subsection \<open>Reading\<close>

definition one_row :: "('r \<Rightarrow> bool) \<Rightarrow> 'r list \<Rightarrow> go_err + 'r" where
  "one_row cond rows = (case find cond rows of None \<Rightarrow> Inl (Sentinel ErrNoRows) | Some r \<Rightarrow> Inr r)"

lemma one_row_Inr: "one_row cond rows = Inr r \<Longrightarrow> r \<in> set rows \<and> cond r"
  by (auto simp: one_row_def split: option.splits dest: find_in_set)

lemma one_row_none: "one_row cond rows = Inl (Sentinel ErrNoRows) \<longleftrightarrow> (\<forall>r \<in> set rows. \<not> cond r)"
  by (auto simp: one_row_def find_None_iff dest: find_in_set split: option.splits)

lemma one_row_Inl: "one_row cond rows = Inl e \<Longrightarrow> e = Sentinel ErrNoRows"
  by (auto simp: one_row_def split: option.splits)

definition get_payment :: "uuid \<Rightarrow> conn \<Rightarrow> payment_row effect" where
  "get_payment pid c d = (one_row (\<lambda>r. p_id r = pid) (visible_payments c d), d)"

definition get_payment_for_application :: "uuid \<Rightarrow> uuid \<Rightarrow> conn \<Rightarrow> payment_row effect" where
  "get_payment_for_application pid app c d =
     (one_row (\<lambda>r. p_id r = pid \<and> p_application_id r = app) (visible_payments c d), d)"

definition get_idempotency_request :: "uuid \<Rightarrow> string \<Rightarrow> conn \<Rightarrow> idempotency_row effect" where
  "get_idempotency_request app key c = with_text key (\<lambda>d.
     (one_row (\<lambda>r. i_application_id r = app \<and> i_idempotency_key r = key) (visible_idempotency c d), d))"

definition order_rows :: "uuid \<Rightarrow> string \<Rightarrow> payment_row list \<Rightarrow> payment_row list" where
  "order_rows app order rows = filter (\<lambda>r. p_application_id r = app \<and> p_order_id r = order) rows"

definition order_has_succeeded_payment :: "uuid \<Rightarrow> string \<Rightarrow> conn \<Rightarrow> bool effect" where
  "order_has_succeeded_payment app order c = with_text order (\<lambda>d.
     (Inr (list_ex (\<lambda>r. p_status r = StatusSucceeded) (order_rows app order (visible_payments c d))), d))"

definition next_attempt_number :: "uuid \<Rightarrow> string \<Rightarrow> conn \<Rightarrow> int effect" where
  "next_attempt_number app order c = with_text order (\<lambda>d.
     let n = foldr max (map p_attempt_number (order_rows app order (visible_payments c d))) 0 + 1
     in (if n > int32_max then Inl (PgError ''22003'' ''integer out of range'') else Inr n, d))"

definition list_payments_for_application ::
  "uuid \<Rightarrow> string option \<Rightarrow> int \<Rightarrow> conn \<Rightarrow> payment_row list effect" where
  "list_payments_for_application app order limit c = with_text_opt order (\<lambda>d.
     (Inr (take (nat limit) (sort_key (\<lambda>r. - p_created_at r)
        (filter (\<lambda>r. p_application_id r = app \<and> (order = None \<or> order = Some (p_order_id r)))
          (visible_payments c d)))), d))"

definition count_unfinished_payments :: "conn \<Rightarrow> int effect" where
  "count_unfinished_payments c d = (Inr (int (length (filter active_row (visible_payments c d)))), d)"

subsection \<open>Locking\<close>

definition lock_key :: "pg_env \<Rightarrow> string \<Rightarrow> string \<Rightarrow> int" where
  "lock_key P app order = lock_hash P (app @ '':'' @ order)"

definition lock_order_for_payment :: "pg_env \<Rightarrow> string \<Rightarrow> string \<Rightarrow> conn \<Rightarrow> unit effect" where
  "lock_order_for_payment P app order c = with_text order (\<lambda>d.
     (Inr (), (case c of Pool \<Rightarrow> d
       | Tx t \<Rightarrow> in_tx t (\<lambda>x. x\<lparr>t_locks := lock_key P app order # t_locks x\<rparr>) d)))"

definition lock_order_ready :: "pg_env \<Rightarrow> string \<Rightarrow> string \<Rightarrow> conn \<Rightarrow> database \<Rightarrow> bool" where
  "lock_order_ready P app order c d \<longleftrightarrow> lock_key P app order \<notin> set (foreign t_locks c d)"

subsection \<open>Inserting\<close>

record create_payment_params =
  cp_application_id :: uuid
  cp_provider_account_id :: uuid
  cp_order_id :: string
  cp_attempt_number :: int
  cp_provider :: string
  cp_amount_minor :: int64
  cp_currency :: string
  cp_description :: string
  cp_status :: status
  cp_return_url :: "string option"
  cp_metadata :: string

definition opt_text :: "string option \<Rightarrow> go_err + string option" where
  "opt_text s = (case s of None \<Rightarrow> Inr None | Some t \<Rightarrow> and_then (pg_value t) (\<lambda>v. Inr (Some v)))"

text \<open>The row the arguments make, once their columns have accepted them.\<close>

definition payment_values :: "pg_env \<Rightarrow> create_payment_params \<Rightarrow> uuid \<Rightarrow> time \<Rightarrow> go_err + payment_row" where
  "payment_values P arg u t =
     and_then (varchar 128 (cp_order_id arg)) (\<lambda>order.
     and_then (varchar 32 (cp_provider arg)) (\<lambda>provider.
     and_then (varchar 3 (cp_currency arg)) (\<lambda>currency.
     and_then (varchar 128 (cp_description arg)) (\<lambda>description.
     and_then (opt_text (cp_return_url arg)) (\<lambda>return_url.
     and_then (jsonb_in P (cp_metadata arg)) (\<lambda>meta.
       Inr \<lparr>p_id = u, p_application_id = cp_application_id arg,
            p_provider_account_id = cp_provider_account_id arg, p_order_id = order,
            p_attempt_number = cp_attempt_number arg, p_provider = provider,
            p_provider_payment_id = None, p_amount_minor = cp_amount_minor arg,
            p_currency = currency, p_description = description, p_status = cp_status arg,
            p_checkout_url = None, p_return_url = return_url, p_metadata = meta,
            p_created_at = t, p_updated_at = t, p_completed_at = None, p_next_check_at = None\<rparr>))))))"

definition payment_checks :: "payment_row \<Rightarrow> bool" where
  "payment_checks r \<longleftrightarrow> 0 < p_attempt_number r \<and> 0 < sint (p_amount_minor r) \<and> p_currency r = ''RUB''"

definition create_payment :: "pg_env \<Rightarrow> create_payment_params \<Rightarrow> conn \<Rightarrow> payment_row effect" where
  "create_payment P arg c d =
     (case fresh_id d of (u, d1) \<Rightarrow>
        (case payment_values P arg u (now c d) of
           Inl e \<Rightarrow> (Inl e, d1)
         | Inr r \<Rightarrow>
             if \<not> payment_checks r then (Inl (check_violation ''payments''), d1)
             else if \<not> free_of payment_clash r (visible_payments c d) then
               (Inl (unique_violation ''payments''), d1)
             else if \<not> list_ex (\<lambda>a. a_id a = p_application_id r) (visible_applications c d) \<or>
                     \<not> list_ex (\<lambda>a. c_id a = p_provider_account_id r) (visible_accounts c d) then
               (Inl (foreign_key_violation ''payments''), d1)
             else (Inr r, put_payment c r d1)))"

definition create_payment_ready :: "pg_env \<Rightarrow> create_payment_params \<Rightarrow> conn \<Rightarrow> database \<Rightarrow> bool" where
  "create_payment_ready P arg c d =
     (case payment_values P arg (db_next d) (now c d) of
        Inl _ \<Rightarrow> True | Inr r \<Rightarrow> free_of payment_clash r (foreign t_payments c d))"

record create_operation_params =
  co_payment_id :: uuid
  co_operation_type :: operation_type
  co_provider_idempotency_key :: string
  co_request_hash :: bytes
  co_request_body :: string
  co_idempotency_expires_at :: pg_timestamptz

definition operation_values ::
  "pg_env \<Rightarrow> create_operation_params \<Rightarrow> uuid \<Rightarrow> time \<Rightarrow> go_err + operation_row" where
  "operation_values P arg u t =
     and_then (varchar 64 (co_provider_idempotency_key arg)) (\<lambda>key.
     and_then (jsonb_in P (co_request_body arg)) (\<lambda>body.
       Inr \<lparr>o_id = u, o_payment_id = co_payment_id arg, o_operation_type = co_operation_type arg,
            o_provider_idempotency_key = key, o_request_hash = co_request_hash arg,
            o_request_body = body, o_status = OperationPending, o_attempt_count = 0,
            o_last_error = None, o_idempotency_expires_at = co_idempotency_expires_at arg,
            o_started_at = None, o_completed_at = None, o_created_at = t\<rparr>))"

definition create_payment_operation ::
  "pg_env \<Rightarrow> create_operation_params \<Rightarrow> conn \<Rightarrow> operation_row effect" where
  "create_payment_operation P arg c d =
     (case fresh_id d of (u, d1) \<Rightarrow>
        (case operation_values P arg u (now c d) of
           Inl e \<Rightarrow> (Inl e, d1)
         | Inr r \<Rightarrow>
             if \<not> free_of operation_clash r (visible_operations c d) then
               (Inl (unique_violation ''payment_operations''), d1)
             else if \<not> list_ex (\<lambda>p. p_id p = o_payment_id r) (visible_payments c d) then
               (Inl (foreign_key_violation ''payment_operations''), d1)
             else (Inr r, put_operation c r d1)))"

definition create_operation_ready :: "pg_env \<Rightarrow> create_operation_params \<Rightarrow> conn \<Rightarrow> database \<Rightarrow> bool" where
  "create_operation_ready P arg c d =
     (case operation_values P arg (db_next d) (now c d) of
        Inl _ \<Rightarrow> True | Inr r \<Rightarrow> free_of operation_clash r (foreign t_operations c d))"

definition idempotency_values ::
  "uuid \<Rightarrow> string \<Rightarrow> bytes \<Rightarrow> uuid option \<Rightarrow> uuid \<Rightarrow> time \<Rightarrow> go_err + idempotency_row" where
  "idempotency_values app key hash pid u t =
     and_then (varchar 64 key) (\<lambda>k.
       Inr \<lparr>i_id = u, i_application_id = app, i_idempotency_key = k, i_request_hash = hash,
            i_payment_id = pid, i_created_at = t\<rparr>)"

definition create_idempotency_request ::
  "uuid \<Rightarrow> string \<Rightarrow> bytes \<Rightarrow> uuid option \<Rightarrow> conn \<Rightarrow> idempotency_row effect" where
  "create_idempotency_request app key hash pid c d =
     (case fresh_id d of (u, d1) \<Rightarrow>
        (case idempotency_values app key hash pid u (now c d) of
           Inl e \<Rightarrow> (Inl e, d1)
         | Inr r \<Rightarrow>
             if \<not> free_of idempotency_clash r (visible_idempotency c d) then
               (Inl (unique_violation ''idempotency_requests''), d1)
             else if \<not> list_ex (\<lambda>a. a_id a = app) (visible_applications c d) \<or>
                     (\<exists>p \<in> set_option pid. \<not> list_ex (\<lambda>r. p_id r = p) (visible_payments c d)) then
               (Inl (foreign_key_violation ''idempotency_requests''), d1)
             else (Inr r, put_idempotency c r d1)))"

definition create_idempotency_ready ::
  "uuid \<Rightarrow> string \<Rightarrow> bytes \<Rightarrow> uuid option \<Rightarrow> conn \<Rightarrow> database \<Rightarrow> bool" where
  "create_idempotency_ready app key hash pid c d =
     (case idempotency_values app key hash pid (db_next d) (now c d) of
        Inl _ \<Rightarrow> True | Inr r \<Rightarrow> free_of idempotency_clash r (foreign t_idempotency c d))"

subsection \<open>Updating\<close>

text \<open>An update outside transactions: the trigger sets \<open>updated_at\<close>, the unique indexes have the
  last word, and an index entry of an open transaction is waited for.\<close>

definition updated_payments ::
  "(payment_row \<Rightarrow> bool) \<Rightarrow> (payment_row \<Rightarrow> payment_row) \<Rightarrow> database \<Rightarrow> payment_row list" where
  "updated_payments cond f d =
     update_where cond (\<lambda>r. (f r)\<lparr>p_updated_at := db_clock d\<rparr>) (db_payments d)"

definition update_payments ::
  "(payment_row \<Rightarrow> bool) \<Rightarrow> (payment_row \<Rightarrow> payment_row) \<Rightarrow> unit effect" where
  "update_payments cond f d =
     (if clash_free payment_clash (updated_payments cond f d)
      then (Inr (), d\<lparr>db_payments := updated_payments cond f d\<rparr>)
      else (Inl (unique_violation ''payments''), d))"

definition update_payments_ready ::
  "(payment_row \<Rightarrow> bool) \<Rightarrow> (payment_row \<Rightarrow> payment_row) \<Rightarrow> database \<Rightarrow> bool" where
  "update_payments_ready cond f d \<longleftrightarrow>
     list_all (\<lambda>r. free_of payment_clash r (foreign t_payments Pool d)) (updated_payments cond f d)"

definition exec_update ::
  "(payment_row \<Rightarrow> bool) \<Rightarrow> (payment_row \<Rightarrow> payment_row) \<Rightarrow> (go_err + unit) action" where
  "exec_update cond f = exec_when (update_payments_ready cond f) Pool (update_payments cond f)"

definition mark_payment_creating :: "uuid \<Rightarrow> (go_err + unit) action" where
  "mark_payment_creating pid =
     exec_update (\<lambda>r. p_id r = pid \<and> p_status r = StatusCreated) (\<lambda>r. r\<lparr>p_status := StatusCreating\<rparr>)"

definition set_created :: "string option \<Rightarrow> string option \<Rightarrow> pg_timestamptz \<Rightarrow> payment_row \<Rightarrow> payment_row" where
  "set_created ppid checkout next_check r =
     r\<lparr>p_status := StatusPending, p_provider_payment_id := ppid, p_checkout_url := checkout,
       p_next_check_at := next_check\<rparr>"

definition set_payment_created ::
  "uuid \<Rightarrow> string option \<Rightarrow> string option \<Rightarrow> pg_timestamptz \<Rightarrow> (go_err + unit) action" where
  "set_payment_created pid ppid checkout next_check =
     (case (case ppid of None \<Rightarrow> Inr None | Some s \<Rightarrow> and_then (varchar 64 s) (\<lambda>v. Inr (Some v))) of
        Inl e \<Rightarrow> exec Pool (\<lambda>d. (Inl e, d))
      | Inr ppid' \<Rightarrow>
          (case opt_text checkout of
             Inl e \<Rightarrow> exec Pool (\<lambda>d. (Inl e, d))
           | Inr checkout' \<Rightarrow> exec_update (\<lambda>r. p_id r = pid) (set_created ppid' checkout' next_check)))"

definition set_payment_creation_unknown :: "uuid \<Rightarrow> pg_timestamptz \<Rightarrow> (go_err + unit) action" where
  "set_payment_creation_unknown pid next_check =
     exec_update (\<lambda>r. p_id r = pid \<and> p_status r = StatusCreating)
       (\<lambda>r. r\<lparr>p_status := StatusCreationUnknown, p_next_check_at := next_check\<rparr>)"

text \<open>\<open>completed_at\<close> is the server's \<open>now()\<close>, so these two updates depend on its clock.\<close>

definition set_canceled :: "time \<Rightarrow> payment_row \<Rightarrow> payment_row" where
  "set_canceled t r = r\<lparr>p_status := StatusCanceled, p_completed_at := Some t, p_next_check_at := None\<rparr>"

definition exec_update_at ::
  "(payment_row \<Rightarrow> bool) \<Rightarrow> (time \<Rightarrow> payment_row \<Rightarrow> payment_row) \<Rightarrow> (go_err + unit) action" where
  "exec_update_at cond f =
     exec_when (\<lambda>d. update_payments_ready cond (f (db_clock d)) d) Pool
       (\<lambda>d. update_payments cond (f (db_clock d)) d)"

definition set_payment_canceled :: "uuid \<Rightarrow> (go_err + unit) action" where
  "set_payment_canceled pid =
     exec_update_at (\<lambda>r. p_id r = pid \<and> active_row r) set_canceled"

definition apply_status :: "status \<Rightarrow> pg_timestamptz \<Rightarrow> time \<Rightarrow> payment_row \<Rightarrow> payment_row" where
  "apply_status s next_check t r =
     r\<lparr>p_status := s, p_completed_at := (if terminal s then Some t else p_completed_at r),
       p_next_check_at := next_check\<rparr>"

definition apply_provider_status :: "uuid \<Rightarrow> status \<Rightarrow> pg_timestamptz \<Rightarrow> (go_err + unit) action" where
  "apply_provider_status pid s next_check =
     exec_update_at (\<lambda>r. p_id r = pid \<and> active_row r) (apply_status s next_check)"

definition update_operations ::
  "(operation_row \<Rightarrow> bool) \<Rightarrow> (operation_row \<Rightarrow> operation_row) \<Rightarrow> unit effect" where
  "update_operations cond f d =
     (Inr (), d\<lparr>db_operations := update_where cond f (db_operations d)\<rparr>)"

definition start_payment_operation :: "uuid \<Rightarrow> unit effect" where
  "start_payment_operation oid d =
     (let cond = (\<lambda>r. o_id r = oid \<and> o_status r = OperationPending) in
      if list_ex (\<lambda>r. cond r \<and> o_attempt_count r \<ge> int32_max) (db_operations d) then
        (Inl (PgError ''22003'' ''integer out of range''), d)
      else update_operations cond
        (\<lambda>r. r\<lparr>o_status := OperationInProgress, o_started_at := Some (db_clock d),
               o_attempt_count := o_attempt_count r + 1\<rparr>) d)"

definition complete_payment_operation :: "uuid \<Rightarrow> operation_status \<Rightarrow> string option \<Rightarrow> unit effect" where
  "complete_payment_operation oid s last_error d =
     (case opt_text last_error of
        Inl e \<Rightarrow> (Inl e, d)
      | Inr err \<Rightarrow> update_operations (\<lambda>r. o_id r = oid)
          (\<lambda>r. r\<lparr>o_status := s, o_completed_at := Some (db_clock d), o_last_error := err\<rparr>) d)"

end
