(* ===== verification/Encoding.thy ===== *)
theory Encoding
  imports GoNumbers
begin

text \<open>
  The binary-to-text codecs of the standard library that the service uses: \<open>encoding/hex\<close> (master
  keys, slug suffixes) and the four variants of \<open>encoding/base64\<close> (API key tokens, webhook
  secrets, master keys). The contract a client needs of a codec, that decoding inverts encoding
  and encoded text stays within an alphabet, is the locale \<open>text_codec\<close>.
\<close>

subsection \<open>The contract\<close>

locale text_codec =
  fixes enc :: "bytes \<Rightarrow> string"
    and dec :: "string \<Rightarrow> bytes option"
    and alphabet :: "char set"
  assumes dec_enc: "dec (enc bs) = Some bs"
    and enc_alphabet: "set (enc bs) \<subseteq> alphabet"
begin

lemma enc_inj: "enc bs = enc cs \<longleftrightarrow> bs = cs"
  by (metis dec_enc option.inject)

lemma enc_nonempty: "bs \<noteq> [] \<Longrightarrow> enc [] = [] \<Longrightarrow> enc bs \<noteq> []"
  by (metis enc_inj)

lemma enc_free_of: "c \<notin> alphabet \<Longrightarrow> c \<notin> set (enc bs)"
  using enc_alphabet by blast

end

subsection \<open>Hexadecimal\<close>

definition hex_digit :: "nat \<Rightarrow> char" where
  "hex_digit n = (if n < 10 then char_of (48 + n) else char_of (87 + n))"

definition hex_val :: "char \<Rightarrow> nat option" where
  "hex_val c =
     (let n = code_of c in
      if 48 \<le> n \<and> n \<le> 57 then Some (n - 48)
      else if 97 \<le> n \<and> n \<le> 102 then Some (n - 87)
      else if 65 \<le> n \<and> n \<le> 70 then Some (n - 55)
      else None)"

definition hex_alphabet :: "char set" where
  "hex_alphabet = set ''0123456789abcdef''"

fun hex_encode :: "bytes \<Rightarrow> string" where
  "hex_encode [] = []"
| "hex_encode (b # bs) = hex_digit (unat b div 16) # hex_digit (unat b mod 16) # hex_encode bs"

text \<open>\<open>hex.DecodeString\<close>: an odd length or a foreign character is an error.\<close>

fun hex_decode :: "string \<Rightarrow> bytes option" where
  "hex_decode [] = Some []"
| "hex_decode [c] = None"
| "hex_decode (c # d # s) =
     (case (hex_val c, hex_val d, hex_decode s) of
        (Some h, Some l, Some bs) \<Rightarrow> Some (of_nat (16 * h + l) # bs)
      | _ \<Rightarrow> None)"

lemma hex_val_hex_digit [simp]: "n < 16 \<Longrightarrow> hex_val (hex_digit n) = Some n"
  by (simp add: hex_val_def hex_digit_def Let_def)

lemma hex_digit_alphabet: "n < 16 \<Longrightarrow> hex_digit n \<in> hex_alphabet"
proof -
  have "\<forall>n \<in> set [0..<16]. hex_digit n \<in> hex_alphabet" by code_simp
  then show "n < 16 \<Longrightarrow> hex_digit n \<in> hex_alphabet" by auto
qed

lemma unat_byte_less [simp]: "unat (b :: byte) < 256"
  by (rule order_less_le_trans [OF unsigned_less]) simp

lemma unat_byte_div16 [simp]: "unat (b :: byte) div 16 < 16"
  using unat_byte_less [of b] by linarith

lemma of_nat_unat_byte: "n = unat b \<Longrightarrow> (of_nat n :: byte) = b"
  by simp

lemma hex_decode_encode: "hex_decode (hex_encode bs) = Some bs"
proof (induction bs)
  case Nil
  then show ?case by simp
next
  case (Cons b bs)
  have "16 * (unat b div 16) + unat b mod 16 = unat b" by simp
  then have "(of_nat (16 * (unat b div 16) + unat b mod 16) :: byte) = b"
    by (rule of_nat_unat_byte)
  with Cons show ?case by (simp del: of_nat_add of_nat_mult)
qed

lemma hex_encode_alphabet: "set (hex_encode bs) \<subseteq> hex_alphabet"
  by (induction bs) (auto simp: hex_digit_alphabet)

lemma length_hex_encode [simp]: "length (hex_encode bs) = 2 * length bs"
  by (induction bs) auto

interpretation hexc: text_codec hex_encode hex_decode hex_alphabet
  by unfold_locales (simp_all add: hex_decode_encode hex_encode_alphabet)

subsection \<open>Base64\<close>

text \<open>An encoding is its 64-character alphabet and its padding character, if it has one.\<close>

record b64 =
  b64_alphabet :: string
  b64_padded :: bool

definition std_alphabet :: string where
  "std_alphabet = ''ABCDEFGHIJKLMNOPQRSTUVWXYZabcdefghijklmnopqrstuvwxyz0123456789+/''"

definition url_alphabet :: string where
  "url_alphabet = ''ABCDEFGHIJKLMNOPQRSTUVWXYZabcdefghijklmnopqrstuvwxyz0123456789-_''"

definition StdEncoding :: b64 where
  "StdEncoding = \<lparr>b64_alphabet = std_alphabet, b64_padded = True\<rparr>"
definition RawStdEncoding :: b64 where
  "RawStdEncoding = \<lparr>b64_alphabet = std_alphabet, b64_padded = False\<rparr>"
definition URLEncoding :: b64 where
  "URLEncoding = \<lparr>b64_alphabet = url_alphabet, b64_padded = True\<rparr>"
definition RawURLEncoding :: b64 where
  "RawURLEncoding = \<lparr>b64_alphabet = url_alphabet, b64_padded = False\<rparr>"

definition b64_char :: "b64 \<Rightarrow> nat \<Rightarrow> char" where
  "b64_char e i = b64_alphabet e ! i"

definition b64_val :: "b64 \<Rightarrow> char \<Rightarrow> nat option" where
  "b64_val e c = map_of (zip (b64_alphabet e) [0..<64]) c"

fun b64_encode :: "b64 \<Rightarrow> bytes \<Rightarrow> string" where
  "b64_encode e [] = []"
| "b64_encode e [a] =
     b64_char e (unat a div 4) # b64_char e (unat a mod 4 * 16) #
     (if b64_padded e then ''=='' else [])"
| "b64_encode e [a, b] =
     b64_char e (unat a div 4) # b64_char e (unat a mod 4 * 16 + unat b div 16) #
     b64_char e (unat b mod 16 * 4) # (if b64_padded e then ''='' else [])"
| "b64_encode e (a # b # c # bs) =
     b64_char e (unat a div 4) # b64_char e (unat a mod 4 * 16 + unat b div 16) #
     b64_char e (unat b mod 16 * 4 + unat c div 64) # b64_char e (unat c mod 64) #
     b64_encode e bs"

text \<open>
  Go's decoder skips carriage returns and newlines anywhere, reads quanta of four characters,
  accepts padding only at the end and only if the encoding pads, and does not check the unused
  low bits of the last character.
\<close>

definition b64_bytes2 :: "nat \<Rightarrow> nat \<Rightarrow> byte" where
  "b64_bytes2 v w = of_nat (v * 4 + w div 16)"
definition b64_bytes3 :: "nat \<Rightarrow> nat \<Rightarrow> byte" where
  "b64_bytes3 w x = of_nat (w mod 16 * 16 + x div 4)"
definition b64_bytes4 :: "nat \<Rightarrow> nat \<Rightarrow> byte" where
  "b64_bytes4 x y = of_nat (x mod 4 * 64 + y)"

fun b64_quanta :: "b64 \<Rightarrow> string \<Rightarrow> bytes option" where
  "b64_quanta e [] = Some []"
| "b64_quanta e [p] = None"
| "b64_quanta e [p, q] =
     (if b64_padded e then None
      else case (b64_val e p, b64_val e q) of
             (Some v, Some w) \<Rightarrow> Some [b64_bytes2 v w] | _ \<Rightarrow> None)"
| "b64_quanta e [p, q, r] =
     (if b64_padded e then None
      else case (b64_val e p, b64_val e q, b64_val e r) of
             (Some v, Some w, Some x) \<Rightarrow> Some [b64_bytes2 v w, b64_bytes3 w x] | _ \<Rightarrow> None)"
| "b64_quanta e (p # q # r # t # s) =
     (case (b64_val e p, b64_val e q) of
        (Some v, Some w) \<Rightarrow>
          (case (b64_val e r, b64_val e t) of
             (Some x, Some y) \<Rightarrow>
               map_option (\<lambda>bs. b64_bytes2 v w # b64_bytes3 w x # b64_bytes4 x y # bs)
                 (b64_quanta e s)
           | (Some x, None) \<Rightarrow>
               if b64_padded e \<and> t = CHR ''='' \<and> s = [] then Some [b64_bytes2 v w, b64_bytes3 w x]
               else None
           | (None, _) \<Rightarrow>
               if b64_padded e \<and> r = CHR ''='' \<and> t = CHR ''='' \<and> s = [] then Some [b64_bytes2 v w]
               else None)
      | _ \<Rightarrow> None)"

definition b64_decode :: "b64 \<Rightarrow> string \<Rightarrow> bytes option" where
  "b64_decode e s = b64_quanta e (filter (\<lambda>c. code_of c \<noteq> 13 \<and> code_of c \<noteq> 10) s)"

definition b64_ok :: "b64 \<Rightarrow> bool" where
  "b64_ok e \<longleftrightarrow> length (b64_alphabet e) = 64 \<and> distinct (b64_alphabet e) \<and>
     (\<forall>c \<in> set (b64_alphabet e). code_of c \<noteq> 13 \<and> code_of c \<noteq> 10 \<and> c \<noteq> CHR ''='')"

lemma b64_ok_encodings:
  "b64_ok StdEncoding" "b64_ok RawStdEncoding" "b64_ok URLEncoding" "b64_ok RawURLEncoding"
  by (code_simp)+

lemma b64_val_char [simp]: "b64_ok e \<Longrightarrow> i < 64 \<Longrightarrow> b64_val e (b64_char e i) = Some i"
  unfolding b64_val_def b64_char_def b64_ok_def by (subst map_of_zip_nth) auto

lemma b64_val_pad [simp]: "b64_ok e \<Longrightarrow> b64_val e CHR ''='' = None"
  by (auto simp: b64_val_def b64_ok_def map_of_zip_is_None)

lemma b64_char_mem: "b64_ok e \<Longrightarrow> i < 64 \<Longrightarrow> b64_char e i \<in> set (b64_alphabet e)"
  by (simp add: b64_char_def b64_ok_def)

lemma byte_sextets:
  "unat (a :: byte) div 4 < 64" "unat a mod 4 * 16 < 64"
  "unat a mod 4 * 16 + unat (b :: byte) div 16 < 64" "unat b mod 16 * 4 < 64"
  "unat b mod 16 * 4 + unat (c :: byte) div 64 < 64"
  using unat_byte_less [of a] unat_byte_less [of b] unat_byte_less [of c] by linarith+

lemma b64_bytes2_join:
  "b64_bytes2 (unat a div 4) (unat a mod 4 * 16) = a"
  "b64_bytes2 (unat a div 4) (unat a mod 4 * 16 + unat (b :: byte) div 16) = a"
proof -
  have "unat b div 16 < 16" by simp
  then have "(unat a mod 4 * 16 + unat b div 16) div 16 = unat a mod 4" by simp
  then show "b64_bytes2 (unat a div 4) (unat a mod 4 * 16 + unat b div 16) = a"
    unfolding b64_bytes2_def by (intro of_nat_unat_byte) simp
  show "b64_bytes2 (unat a div 4) (unat a mod 4 * 16) = a"
    unfolding b64_bytes2_def by (intro of_nat_unat_byte) simp
qed

lemma b64_bytes3_join:
  "b64_bytes3 (unat a mod 4 * 16 + unat (b :: byte) div 16) (unat b mod 16 * 4) = b"
  "b64_bytes3 (unat a mod 4 * 16 + unat b div 16) (unat b mod 16 * 4 + unat (c :: byte) div 64) = b"
proof -
  have w: "(unat a mod 4 * 16 + unat b div 16) mod 16 = unat b div 16"
    by (simp add: mod_mult_self3)
  have "unat c div 64 < 4" using unat_byte_less [of c] by linarith
  then have "(unat b mod 16 * 4 + unat c div 64) div 4 = unat b mod 16" by simp
  with w show "b64_bytes3 (unat a mod 4 * 16 + unat b div 16)
      (unat b mod 16 * 4 + unat c div 64) = b"
    unfolding b64_bytes3_def by (intro of_nat_unat_byte) simp
  from w show "b64_bytes3 (unat a mod 4 * 16 + unat b div 16) (unat b mod 16 * 4) = b"
    unfolding b64_bytes3_def by (intro of_nat_unat_byte) simp
qed

lemma b64_bytes4_join: "b64_bytes4 (unat b mod 16 * 4 + unat (c :: byte) div 64) (unat c mod 64) = c"
proof -
  have c: "unat c div 64 < 4" using unat_byte_less [of c] by linarith
  then have "(unat b mod 16 * 4 + unat c div 64) mod 4 = unat c div 64"
    by (simp add: mod_mult_self3)
  then show ?thesis
    unfolding b64_bytes4_def by (intro of_nat_unat_byte) simp
qed

lemma b64_quanta_encode: "b64_ok e \<Longrightarrow> b64_quanta e (b64_encode e bs) = Some bs"
  by (induction e bs rule: b64_encode.induct)
     (simp_all add: byte_sextets b64_bytes2_join b64_bytes3_join b64_bytes4_join)

lemma b64_encode_chars:
  "b64_ok e \<Longrightarrow> set (b64_encode e bs) \<subseteq> set (b64_alphabet e) \<union> (if b64_padded e then {CHR ''=''} else {})"
  by (induction e bs rule: b64_encode.induct) (auto simp: byte_sextets b64_char_mem)

lemma b64_decode_encode: "b64_ok e \<Longrightarrow> b64_decode e (b64_encode e bs) = Some bs"
proof -
  assume e: "b64_ok e"
  have "code_of c \<noteq> 13 \<and> code_of c \<noteq> 10" if "c \<in> set (b64_encode e bs)" for c
  proof -
    from that b64_encode_chars [OF e, of bs] have "c \<in> set (b64_alphabet e) \<or> c = CHR ''=''"
      by (cases "b64_padded e") auto
    then show ?thesis
    proof
      assume "c \<in> set (b64_alphabet e)"
      with e show ?thesis unfolding b64_ok_def by blast
    next
      assume "c = CHR ''=''"
      then show ?thesis by simp
    qed
  qed
  then have "filter (\<lambda>c. code_of c \<noteq> 13 \<and> code_of c \<noteq> 10) (b64_encode e bs) = b64_encode e bs"
    by (intro filter_True) blast
  with e show ?thesis by (simp add: b64_decode_def b64_quanta_encode)
qed

lemma length_b64_encode_raw:
  "\<not> b64_padded e \<Longrightarrow> length (b64_encode e bs) = (4 * length bs + 2) div 3"
  by (induction e bs rule: b64_encode.induct) auto

interpretation b64url: text_codec "b64_encode RawURLEncoding" "b64_decode RawURLEncoding"
    "set url_alphabet"
proof unfold_locales
  fix bs
  show "b64_decode RawURLEncoding (b64_encode RawURLEncoding bs) = Some bs"
    by (rule b64_decode_encode [OF b64_ok_encodings(4)])
  show "set (b64_encode RawURLEncoding bs) \<subseteq> set url_alphabet"
    using b64_encode_chars [OF b64_ok_encodings(4), of bs] by (simp add: RawURLEncoding_def)
qed

interpretation b64std: text_codec "b64_encode StdEncoding" "b64_decode StdEncoding"
    "set std_alphabet \<union> {CHR ''=''}"
proof unfold_locales
  fix bs
  show "b64_decode StdEncoding (b64_encode StdEncoding bs) = Some bs"
    by (rule b64_decode_encode [OF b64_ok_encodings(1)])
  show "set (b64_encode StdEncoding bs) \<subseteq> set std_alphabet \<union> {CHR ''=''}"
    using b64_encode_chars [OF b64_ok_encodings(1), of bs] by (simp add: StdEncoding_def)
qed

end
