(* ===== verification/Credentials.thy ===== *)
theory Credentials
  imports Encoding Errors
begin

text \<open>
  \<open>internal/credentials/credentials.go\<close>: API keys are \<open>app_live_\<close> followed by 32 random bytes in
  base64url; the database keeps a SHA-256 hash and the first 16 characters. SHA-256 is the
  parameter \<open>sha\<close>; the random bytes are an argument (\<open>None\<close>: the random source failed).
  \<open>crypto/subtle.ConstantTimeCompare\<close> returns 1 exactly on equal byte strings.
\<close>

definition KeyPrefix :: string where "KeyPrefix = ''app_live_''"
definition token_bytes :: nat where "token_bytes = 32"
definition prefix_len :: nat where "prefix_len = 16"

record key =
  key_full :: string
  key_prefix :: string
  key_hash :: bytes

definition bytes_of :: "string \<Rightarrow> bytes" where
  "bytes_of s = map (\<lambda>c. of_nat (code_of c)) s"

definition string_of :: "bytes \<Rightarrow> string" where
  "string_of bs = map (\<lambda>b. char_of (unat b)) bs"

lemma string_of_bytes_of [simp]: "string_of (bytes_of s) = s"
proof -
  have "char_of (unat (of_nat (code_of c) :: byte)) = c" for c :: char
    by (simp add: unat_of_nat)
  then show ?thesis by (simp add: string_of_def bytes_of_def comp_def)
qed

lemma bytes_of_inj: "bytes_of s = bytes_of t \<longleftrightarrow> s = t"
  by (metis string_of_bytes_of)

lemma bytes_of_string_of [simp]: "bytes_of (string_of bs) = bs"
  by (simp add: string_of_def bytes_of_def comp_def)

definition hash_key :: "(bytes \<Rightarrow> bytes) \<Rightarrow> string \<Rightarrow> bytes" where
  "hash_key sha full = sha (bytes_of full)"

definition prefix_of :: "string \<Rightarrow> string" where
  "prefix_of full = (if length full < prefix_len then full else take prefix_len full)"

definition generate :: "(bytes \<Rightarrow> bytes) \<Rightarrow> bytes option \<Rightarrow> go_err + key" where
  "generate sha random =
     (case random of
        None \<Rightarrow> Inl (Prefixed ''credentials: random token'' (Opaque ''random source''))
      | Some token \<Rightarrow>
          let full = KeyPrefix @ b64_encode RawURLEncoding token
          in Inr \<lparr>key_full = full, key_prefix = prefix_of full, key_hash = hash_key sha full\<rparr>)"

definition looks_valid :: "string \<Rightarrow> bool" where
  "looks_valid s =
     (if \<not> has_prefix s KeyPrefix then False
      else let token = trim_prefix s KeyPrefix
           in if token = [] then False else b64_decode RawURLEncoding token \<noteq> None)"

definition verify :: "(bytes \<Rightarrow> bytes) \<Rightarrow> bytes \<Rightarrow> string \<Rightarrow> bool" where
  "verify sha stored presented =
     (if length stored = 0 then False else stored = hash_key sha presented)"

lemma length_prefix_of: "length (prefix_of s) \<le> prefix_len"
  by (simp add: prefix_of_def)

lemma prefix_of_prefix: "\<exists>r. s = prefix_of s @ r"
  by (metis append_Nil2 append_take_drop_id prefix_of_def)

lemma generate_shape:
  assumes "generate sha (Some token) = Inr k" "length token = token_bytes"
  shows "length (key_full k) = 52" "length (key_prefix k) = prefix_len"
    "key_full k = KeyPrefix @ b64_encode RawURLEncoding token"
proof -
  have k: "key_full k = KeyPrefix @ b64_encode RawURLEncoding token"
    "key_prefix k = prefix_of (key_full k)"
    using assms(1) by (auto simp: generate_def Let_def)
  show "key_full k = KeyPrefix @ b64_encode RawURLEncoding token" by (fact k(1))
  show len: "length (key_full k) = 52"
    using assms(2) by (simp add: k(1) KeyPrefix_def length_b64_encode_raw RawURLEncoding_def
      token_bytes_def)
  then show "length (key_prefix k) = prefix_len"
    by (simp add: k(2) prefix_of_def prefix_len_def)
qed

lemma looks_valid_token:
  "token \<noteq> [] \<Longrightarrow> looks_valid (KeyPrefix @ b64_encode RawURLEncoding token)"
  using b64url.enc_nonempty [of token] by (simp add: looks_valid_def b64url.dec_enc)

text \<open>A generated key passes the shape check and verifies against the hash stored for it; no other
  key with a different hash does, and only 16 of its 52 characters are stored in the clear.\<close>

lemma generate_verifies:
  assumes "generate sha (Some token) = Inr k" "length token = token_bytes"
    and "\<And>m. sha m \<noteq> []"
  shows "looks_valid (key_full k) \<and> verify sha (key_hash k) (key_full k) \<and>
    prefix_of (key_full k) = key_prefix k"
proof -
  have "token \<noteq> []" using assms(2) by (auto simp: token_bytes_def)
  with assms show ?thesis
    by (auto simp: generate_def verify_def hash_key_def Let_def looks_valid_token)
qed

lemma verify_sound: "verify sha stored presented \<Longrightarrow> stored = hash_key sha presented"
  by (simp add: verify_def split: if_splits)

end
