(* ===== verification/Cipher.thy ===== *)
theory Cipher
  imports Credentials
begin

unbundle bit_operations_syntax

text \<open>
  \<open>internal/security/cipher.go\<close>: the AES-256-GCM envelope
  \<open>version(1) | keyID(4) | nonce(12) | ciphertext+tag\<close>, the derivation of key ids, key parsing
  and master key rotation. SHA-256 and AES-GCM are the parameters of a \<open>crypto\<close> record; what the
  code relies on of AES-GCM is \<open>aead_correct\<close> (opening what was sealed with the same key and
  nonce gives the plaintext back).
\<close>

record aead =
  aead_seal :: "bytes \<Rightarrow> bytes \<Rightarrow> bytes"
  aead_open :: "bytes \<Rightarrow> bytes \<Rightarrow> bytes option"

record crypto =
  sha256 :: "bytes \<Rightarrow> bytes"
  new_gcm :: "bytes \<Rightarrow> aead"

definition aead_correct :: "crypto \<Rightarrow> bool" where
  "aead_correct C \<longleftrightarrow>
     (\<forall>key nonce p. length nonce = 12 \<longrightarrow>
        aead_open (new_gcm C key) nonce (aead_seal (new_gcm C key) nonce p) = Some p)"

definition sha_length :: "crypto \<Rightarrow> bool" where
  "sha_length C \<longleftrightarrow> (\<forall>m. length (sha256 C m) = 32)"

definition envelope_version :: byte where "envelope_version = 1"
definition nonce_len :: nat where "nonce_len = 12"
definition header_len :: nat where "header_len = 1 + 4 + nonce_len"

record cipher =
  primary_id :: u32
  primary :: aead
  keys :: "u32 \<rightharpoonup> aead"

text \<open>\<open>uint32(b0)<<24 | uint32(b1)<<16 | uint32(b2)<<8 | uint32(b3)\<close> and its inverse.\<close>

definition be32 :: "byte \<Rightarrow> byte \<Rightarrow> byte \<Rightarrow> byte \<Rightarrow> u32" where
  "be32 b0 b1 b2 b3 =
     push_bit 24 (ucast b0) OR push_bit 16 (ucast b1) OR push_bit 8 (ucast b2) OR ucast b3"

definition id_bytes :: "u32 \<Rightarrow> bytes" where
  "id_bytes i = [ucast (drop_bit 24 i), ucast (drop_bit 16 i), ucast (drop_bit 8 i), ucast i]"

lemma be32_id_bytes:
  "be32 (ucast (drop_bit 24 i)) (ucast (drop_bit 16 i)) (ucast (drop_bit 8 i)) (ucast i) = i"
proof (rule bit_word_eqI)
  fix n
  assume "n < LENGTH(32)"
  then have "n < 8 \<or> (8 \<le> n \<and> n < 16) \<or> (16 \<le> n \<and> n < 24) \<or> (24 \<le> n \<and> n < 32)" by auto
  then show "bit (be32 (ucast (drop_bit 24 i)) (ucast (drop_bit 16 i)) (ucast (drop_bit 8 i))
      (ucast i)) n \<longleftrightarrow> bit i n"
    by (elim disjE) (auto simp: be32_def bit_simps)
qed

definition key_id :: "crypto \<Rightarrow> bytes \<Rightarrow> u32" where
  "key_id C key = (let s = sha256 C key in be32 (s ! 0) (s ! 1) (s ! 2) (s ! 3))"

definition parse_key :: "string \<Rightarrow> go_err + bytes" where
  "parse_key s =
     (let t = trim_space s in
      if t = [] then Inl (Sentinel SErrInvalidKey)
      else case hex_decode t of
             Some b \<Rightarrow> if length b = 32 then Inr b else
               (case find (\<lambda>e. case b64_decode e t of Some b \<Rightarrow> length b = 32 | None \<Rightarrow> False)
                   [StdEncoding, RawStdEncoding, URLEncoding, RawURLEncoding] of
                  Some e \<Rightarrow> Inr (the (b64_decode e t))
                | None \<Rightarrow> Inl (Sentinel SErrInvalidKey))
           | None \<Rightarrow>
               (case find (\<lambda>e. case b64_decode e t of Some b \<Rightarrow> length b = 32 | None \<Rightarrow> False)
                   [StdEncoding, RawStdEncoding, URLEncoding, RawURLEncoding] of
                  Some e \<Rightarrow> Inr (the (b64_decode e t))
                | None \<Rightarrow> Inl (Sentinel SErrInvalidKey)))"

text \<open>\<open>GenerateKey\<close>: 32 random bytes as hex.\<close>

definition generate_key :: "bytes option \<Rightarrow> go_err + string" where
  "generate_key random =
     (case random of
        None \<Rightarrow> Inl (Prefixed ''security: generate key'' (Opaque ''random source''))
      | Some key \<Rightarrow> Inr (hex_encode key))"

text \<open>The loop of \<open>NewCipher\<close> over the comma-separated retired keys.\<close>

fun add_previous :: "crypto \<Rightarrow> string list \<Rightarrow> (u32 \<rightharpoonup> aead) \<Rightarrow> go_err + (u32 \<rightharpoonup> aead)" where
  "add_previous C [] m = Inr m"
| "add_previous C (part # parts) m =
     (if trim_space part = [] then add_previous C parts m
      else case parse_key (trim_space part) of
             Inl e \<Rightarrow> Inl (Prefixed ''security: previous key'' e)
           | Inr raw \<Rightarrow> add_previous C parts (m(key_id C raw \<mapsto> new_gcm C raw)))"

definition new_cipher :: "crypto \<Rightarrow> string \<Rightarrow> string \<Rightarrow> go_err + cipher" where
  "new_cipher C primary_key previous_keys =
     (case parse_key primary_key of
        Inl e \<Rightarrow> Inl (Prefixed ''security: primary key'' e)
      | Inr raw \<Rightarrow>
          (case add_previous C (split_char CHR '','' previous_keys) [key_id C raw \<mapsto> new_gcm C raw] of
             Inl e \<Rightarrow> Inl e
           | Inr m \<Rightarrow> Inr \<lparr>primary_id = key_id C raw, primary = new_gcm C raw, keys = m\<rparr>))"

definition encrypt :: "cipher \<Rightarrow> bytes option \<Rightarrow> bytes \<Rightarrow> go_err + bytes" where
  "encrypt c random plaintext =
     (case random of
        None \<Rightarrow> Inl (Prefixed ''security: nonce'' (Opaque ''random source''))
      | Some nonce \<Rightarrow>
          Inr ([envelope_version] @ id_bytes (primary_id c) @ nonce
               @ aead_seal (primary c) nonce plaintext))"

definition decrypt :: "cipher \<Rightarrow> bytes \<Rightarrow> go_err + bytes" where
  "decrypt c ct =
     (if length ct < header_len then Inl (Sentinel SErrCiphertextShort)
      else if ct ! 0 \<noteq> envelope_version then Inl (Sentinel SErrUnsupportedVer)
      else case keys c (be32 (ct ! 1) (ct ! 2) (ct ! 3) (ct ! 4)) of
             None \<Rightarrow> Inl (Sentinel SErrUnknownKeyID)
           | Some a \<Rightarrow>
               (case aead_open a (take (header_len - 5) (drop 5 ct)) (drop header_len ct) of
                  None \<Rightarrow> Inl (Sentinel SErrDecrypt)
                | Some p \<Rightarrow> Inr p))"

subsection \<open>Key parsing\<close>

lemma parse_key_length: "parse_key s = Inr b \<Longrightarrow> length b = 32"
  by (auto simp: parse_key_def Let_def find_Some_iff split: if_splits option.splits)

lemma hex_char_not_space: "c \<in> hex_alphabet \<Longrightarrow> \<not> space1 c \<and> code_of c < 128"
proof -
  have "\<forall>c \<in> set ''0123456789abcdef''. \<not> space1 c \<and> code_of c < 128" by code_simp
  then show "c \<in> hex_alphabet \<Longrightarrow> \<not> space1 c \<and> code_of c < 128"
    unfolding hex_alphabet_def by (rule bspec)
qed

lemma trim_space_hex: "set s \<subseteq> hex_alphabet \<Longrightarrow> trim_space s = s"
  by (intro trim_space_plain) (auto simp: plain_char_def dest: hex_char_not_space)

text \<open>A provisioned key is accepted and parses to the random bytes it was made of.\<close>

lemma parse_generated_key:
  assumes "generate_key (Some key) = Inr s" "length key = 32"
  shows "parse_key s = Inr key"
proof -
  have s: "s = hex_encode key" using assms(1) by (simp add: generate_key_def)
  have "trim_space s = s" unfolding s by (rule trim_space_hex [OF hexc.enc_alphabet])
  moreover have "s \<noteq> []" using assms(2) unfolding s by (cases key) auto
  ultimately show ?thesis using assms(2) by (simp add: parse_key_def s hexc.dec_enc)
qed

subsection \<open>The envelope\<close>

lemma length_id_bytes [simp]: "length (id_bytes i) = 4"
  by (simp add: id_bytes_def)

lemma decrypt_envelope:
  assumes "length nonce = nonce_len"
  shows "decrypt c (envelope_version # id_bytes i @ nonce @ sealed) =
    (case keys c i of
       None \<Rightarrow> Inl (Sentinel SErrUnknownKeyID)
     | Some a \<Rightarrow> (case aead_open a nonce sealed of None \<Rightarrow> Inl (Sentinel SErrDecrypt) | Some p \<Rightarrow> Inr p))"
proof -
  let ?ct = "envelope_version # id_bytes i @ nonce @ sealed"
  have "header_len = 17" "length nonce = 12"
    using assms by (simp_all add: header_len_def nonce_len_def)
  moreover have "be32 (?ct ! 1) (?ct ! 2) (?ct ! 3) (?ct ! 4) = i"
    by (simp add: id_bytes_def be32_id_bytes)
  moreover have "drop 5 ?ct = nonce @ sealed" by (simp add: id_bytes_def)
  moreover have "drop 17 ?ct = sealed"
    using \<open>length nonce = 12\<close> by (simp add: id_bytes_def)
  ultimately show ?thesis by (simp add: decrypt_def cong: option.case_cong)
qed

text \<open>The first byte is the version, the next four the id of the key that sealed it.\<close>

lemma encrypt_header:
  assumes "encrypt c (Some nonce) p = Inr ct"
  shows "ct ! 0 = envelope_version \<and> be32 (ct ! 1) (ct ! 2) (ct ! 3) (ct ! 4) = primary_id c"
  using assms by (auto simp: encrypt_def id_bytes_def be32_id_bytes)

lemma decrypt_encrypt_with:
  assumes "encrypt c (Some nonce) p = Inr ct" "length nonce = nonce_len"
    and "keys d (primary_id c) = Some (primary c)"
    and "aead_open (primary c) nonce (aead_seal (primary c) nonce p) = Some p"
  shows "decrypt d ct = Inr p"
proof -
  have "ct = envelope_version # id_bytes (primary_id c) @ nonce @ aead_seal (primary c) nonce p"
    using assms(1) by (simp add: encrypt_def)
  then show ?thesis using assms(2-4) by (simp add: decrypt_envelope)
qed

subsection \<open>The key ring\<close>

text \<open>Keys a list of parts contributes, in order.\<close>

fun ring_keys :: "string list \<Rightarrow> bytes list" where
  "ring_keys [] = []"
| "ring_keys (part # parts) =
     (if trim_space part = [] then ring_keys parts
      else case parse_key (trim_space part) of
             Inl e \<Rightarrow> ring_keys parts
           | Inr raw \<Rightarrow> raw # ring_keys parts)"

lemma find_snoc:
  "find P (xs @ [x]) = (case find P xs of Some y \<Rightarrow> Some y | None \<Rightarrow> if P x then Some x else None)"
  by (induction xs) auto

lemma add_previous_lookup:
  assumes "add_previous C parts m = Inr m'"
  shows "m' i = (case find (\<lambda>raw. key_id C raw = i) (rev (ring_keys parts)) of
           Some raw \<Rightarrow> Some (new_gcm C raw) | None \<Rightarrow> m i)"
  using assms
proof (induction C parts m arbitrary: m' rule: add_previous.induct)
  case (1 C m)
  then show ?case by simp
next
  case (2 C part parts m)
  show ?case
  proof (cases "trim_space part = []")
    case True
    with 2 show ?thesis by simp
  next
    case False
    with 2(3) obtain raw where raw: "parse_key (trim_space part) = Inr raw"
      and m': "add_previous C parts (m(key_id C raw \<mapsto> new_gcm C raw)) = Inr m'"
      by (auto split: sum.splits)
    from 2(2) [OF False raw m'] False raw show ?thesis
      by (simp add: find_snoc split: option.split)
  qed
qed

text \<open>
  Distinct keys of the ring have distinct ids (the 4-byte ids come from SHA-256, so a collision
  has probability \<open>2 ^ -32\<close> for each pair); the same key listed twice is harmless.
\<close>

definition ids_distinct :: "crypto \<Rightarrow> bytes list \<Rightarrow> bool" where
  "ids_distinct C ks \<longleftrightarrow> (\<forall>a \<in> set ks. \<forall>b \<in> set ks. key_id C a = key_id C b \<longrightarrow> a = b)"

lemma new_cipher_lookup:
  assumes "new_cipher C pk prev = Inr c" "parse_key pk = Inr raw"
    and "ids_distinct C (raw # ring_keys (split_char CHR '','' prev))"
    and "k \<in> set (raw # ring_keys (split_char CHR '','' prev))"
  shows "keys c (key_id C k) = Some (new_gcm C k)"
proof -
  let ?ring = "ring_keys (split_char CHR '','' prev)"
  from assms(1,2) obtain m where
    m: "add_previous C (split_char CHR '','' prev) [key_id C raw \<mapsto> new_gcm C raw] = Inr m"
    and c: "keys c = m"
    by (auto simp: new_cipher_def split: sum.splits)
  show ?thesis
  proof (cases "find (\<lambda>r. key_id C r = key_id C k) (rev ?ring)")
    case None
    then have "k \<notin> set ?ring" by (auto simp: find_None_iff)
    with assms(4) have "k = raw" by simp
    with None show ?thesis by (simp add: c add_previous_lookup [OF m])
  next
    case (Some r)
    then have "r \<in> set ?ring" "key_id C r = key_id C k" by (auto dest: find_in_set)
    with assms(3,4) have "r = k" unfolding ids_distinct_def by (meson list.set_intros(2))
    with Some show ?thesis by (simp add: c add_previous_lookup [OF m])
  qed
qed

lemma new_cipher_primary:
  "new_cipher C pk prev = Inr c \<Longrightarrow> parse_key pk = Inr raw \<Longrightarrow>
     primary c = new_gcm C raw \<and> primary_id c = key_id C raw"
  by (auto simp: new_cipher_def split: sum.splits)

text \<open>
  The general fact behind both the round trip and rotation: whatever ring \<open>d\<close> holds the primary
  key of \<open>c\<close>, as primary or retired, decrypts what \<open>c\<close> encrypted.
\<close>

lemma ring_decrypts:
  assumes "aead_correct C"
    and "new_cipher C pk prev = Inr c" "parse_key pk = Inr raw"
    and "new_cipher C pk' prev' = Inr d" "parse_key pk' = Inr raw'"
    and "raw \<in> set (raw' # ring_keys (split_char CHR '','' prev'))"
    and "ids_distinct C (raw' # ring_keys (split_char CHR '','' prev'))"
    and "length nonce = nonce_len" "encrypt c (Some nonce) p = Inr ct"
  shows "decrypt d ct = Inr p"
proof (rule decrypt_encrypt_with [OF assms(9,8)])
  have c: "primary c = new_gcm C raw" "primary_id c = key_id C raw"
    using new_cipher_primary [OF assms(2,3)] by auto
  show "keys d (primary_id c) = Some (primary c)"
    unfolding c by (rule new_cipher_lookup [OF assms(4,5,7,6)])
  show "aead_open (primary c) nonce (aead_seal (primary c) nonce p) = Some p"
    unfolding c using assms(1,8) by (simp add: aead_correct_def nonce_len_def)
qed

text \<open>Every failure of \<open>Decrypt\<close> is one of its four errors; truncated input never reaches a key.\<close>

lemma decrypt_errors:
  "decrypt c ct = Inl e \<Longrightarrow>
     e \<in> Sentinel ` {SErrCiphertextShort, SErrUnsupportedVer, SErrUnknownKeyID, SErrDecrypt}"
  by (auto simp: decrypt_def split: if_splits option.splits)

end
