(* ===== verification/UrlCheck.thy ===== *)
theory UrlCheck
  imports Cipher
begin

text \<open>
  \<open>internal/security/urlcheck.go\<close>: the SSRF guard on outbound URLs. The predicates of \<open>net.IP\<close>
  are modelled on the 4-byte and 16-byte forms. Parsing a URL or an address literal, rendering an
  address and resolving a name are the operations of \<open>net/url\<close>, \<open>net\<close> and the DNS, collected in
  the parameter record \<open>net_env\<close>; the guard is proved for every behaviour of them.
\<close>

type_synonym ip = bytes

record parsed_url =
  url_scheme :: string
  url_has_user :: bool
  url_hostname :: string

record net_env =
  url_parse :: "string \<Rightarrow> string + parsed_url"  \<comment> \<open>\<open>url.Parse\<close>: error text or result\<close>
  parse_ip :: "string \<Rightarrow> ip option"            \<comment> \<open>\<open>net.ParseIP\<close>\<close>
  lookup_ip :: "string \<Rightarrow> ip list option"       \<comment> \<open>\<open>LookupIPAddr\<close>: None on failure or timeout\<close>
  ip_text :: "ip \<Rightarrow> string"

record outbound_url_options =
  allow_http :: bool
  allow_private :: bool

subsection \<open>net.IP\<close>

definition to4 :: "ip \<Rightarrow> bytes option" where
  "to4 i =
     (if length i = 4 then Some i
      else if length i = 16 \<and> take 10 i = replicate 10 0 \<and> i ! 10 = 255 \<and> i ! 11 = 255
      then Some (drop 12 i)
      else None)"

definition is_loopback :: "ip \<Rightarrow> bool" where
  "is_loopback i = (case to4 i of Some v \<Rightarrow> v ! 0 = 127 | None \<Rightarrow> i = replicate 15 0 @ [1])"

definition is_private :: "ip \<Rightarrow> bool" where
  "is_private i =
     (case to4 i of
        Some v \<Rightarrow> v ! 0 = 10 \<or> (v ! 0 = 172 \<and> v ! 1 AND 0xf0 = 16) \<or> (v ! 0 = 192 \<and> v ! 1 = 168)
      | None \<Rightarrow> length i = 16 \<and> i ! 0 AND 0xfe = 0xfc)"

definition is_link_local_unicast :: "ip \<Rightarrow> bool" where
  "is_link_local_unicast i =
     (case to4 i of
        Some v \<Rightarrow> v ! 0 = 169 \<and> v ! 1 = 254
      | None \<Rightarrow> length i = 16 \<and> i ! 0 = 0xfe \<and> i ! 1 AND 0xc0 = 0x80)"

definition is_link_local_multicast :: "ip \<Rightarrow> bool" where
  "is_link_local_multicast i =
     (case to4 i of
        Some v \<Rightarrow> v ! 0 = 224 \<and> v ! 1 = 0 \<and> v ! 2 = 0
      | None \<Rightarrow> length i = 16 \<and> i ! 0 = 0xff \<and> i ! 1 AND 0x0f = 0x02)"

definition is_unspecified :: "ip \<Rightarrow> bool" where
  "is_unspecified i = (case to4 i of Some v \<Rightarrow> v = replicate 4 0 | None \<Rightarrow> i = replicate 16 0)"

definition is_multicast :: "ip \<Rightarrow> bool" where
  "is_multicast i =
     (case to4 i of
        Some v \<Rightarrow> v ! 0 AND 0xf0 = 0xe0
      | None \<Rightarrow> length i = 16 \<and> i ! 0 = 0xff)"

definition is_interface_local_multicast :: "ip \<Rightarrow> bool" where
  "is_interface_local_multicast i \<longleftrightarrow> length i = 16 \<and> i ! 0 = 0xff \<and> i ! 1 AND 0x0f = 0x01"

definition is_internal_ip :: "ip \<Rightarrow> bool" where
  "is_internal_ip i \<longleftrightarrow>
     is_loopback i \<or> is_private i \<or> is_link_local_unicast i \<or> is_link_local_multicast i \<or>
     is_unspecified i \<or> is_multicast i \<or> is_interface_local_multicast i"

subsection \<open>The guard\<close>

definition is_internal_hostname :: "string \<Rightarrow> bool" where
  "is_internal_hostname host =
     (let lower = to_lower (trim_suffix host ''.'') in
      if lower = ''localhost'' \<or> has_suffix lower ''.localhost'' then True
      else if has_suffix lower ''.local'' \<or> has_suffix lower ''.internal'' then True
      else CHR ''.'' \<notin> set lower)"

definition resolve_host :: "net_env \<Rightarrow> string \<Rightarrow> ip list option" where
  "resolve_host N host =
     (case parse_ip N host of
        Some i \<Rightarrow> Some [i]
      | None \<Rightarrow> (case lookup_ip N host of
                   None \<Rightarrow> None
                 | Some ips \<Rightarrow> if ips = [] then None else Some ips))"

definition invalid_url :: "string \<Rightarrow> go_err" where
  "invalid_url msg = Suffixed (Sentinel SErrInvalidURL) msg"

definition validate_outbound_url :: "net_env \<Rightarrow> string \<Rightarrow> outbound_url_options \<Rightarrow> go_err + unit" where
  "validate_outbound_url N raw opts =
     (let trimmed = trim_space raw in
      if trimmed = [] then Inl (invalid_url ''url is empty'')
      else case url_parse N trimmed of
        Inl msg \<Rightarrow> Inl (invalid_url msg)
      | Inr u \<Rightarrow>
          if url_scheme u \<noteq> ''https'' \<and> url_scheme u \<noteq> ''http'' then
            Inl (invalid_url ''scheme must be http or https'')
          else if url_scheme u = ''http'' \<and> \<not> allow_http opts then
            Inl (invalid_url ''https is required'')
          else if url_has_user u then
            Inl (invalid_url ''credentials in the url are not allowed'')
          else if url_hostname u = [] then Inl (invalid_url ''host is required'')
          else if allow_private opts then Inr ()
          else if is_internal_hostname (url_hostname u) then
            Inl (invalid_url (go_quote (url_hostname u) @ '' is an internal host''))
          else case resolve_host N (url_hostname u) of
            None \<Rightarrow> Inl (invalid_url (''cannot resolve '' @ go_quote (url_hostname u)))
          | Some ips \<Rightarrow>
              (case find is_internal_ip ips of
                 Some i \<Rightarrow> Inl (invalid_url (go_quote (url_hostname u)
                   @ '' resolves to the internal address '' @ ip_text N i))
               | None \<Rightarrow> Inr ()))"

subsection \<open>What the guard promises\<close>

lemma validate_error_kind:
  "validate_outbound_url N raw opts = Inl e \<Longrightarrow> err_is e SErrInvalidURL"
  by (auto simp: validate_outbound_url_def invalid_url_def Let_def
           split: if_splits sum.splits option.splits)

lemma production_accepts_iff:
  assumes "\<not> allow_http opts" "\<not> allow_private opts"
  shows "validate_outbound_url N raw opts = Inr () \<longleftrightarrow>
    (\<exists>u ips. trim_space raw \<noteq> [] \<and> url_parse N (trim_space raw) = Inr u \<and> url_scheme u = ''https'' \<and>
       \<not> url_has_user u \<and> url_hostname u \<noteq> [] \<and> \<not> is_internal_hostname (url_hostname u) \<and>
       resolve_host N (url_hostname u) = Some ips \<and> (\<forall>i \<in> set ips. \<not> is_internal_ip i))"
  using assms
  by (auto simp: validate_outbound_url_def Let_def find_None_iff find_Some_iff
           split: sum.splits option.splits)

lemma resolve_host_nonempty: "resolve_host N h = Some ips \<Longrightarrow> ips \<noteq> []"
  by (auto simp: resolve_host_def split: option.splits if_splits)

text \<open>Masks and ranges: the bit tests of the standard library are the CIDR blocks of the policy.\<close>

lemma mask_ranges:
  fixes b :: byte
  shows "b AND 0xf0 = 16 \<longleftrightarrow> 16 \<le> unat b \<and> unat b \<le> 31"
    and "b AND 0xf0 = 0xe0 \<longleftrightarrow> 224 \<le> unat b \<and> unat b \<le> 239"
    and "b AND 0xfe = 0xfc \<longleftrightarrow> unat b = 252 \<or> unat b = 253"
    and "b AND 0xc0 = 0x80 \<longleftrightarrow> 128 \<le> unat b \<and> unat b \<le> 191"
proof -
  have upto: "[0..<256] = 0 # 1 # [2..<256]" by (simp add: upt_conv_Cons numeral_2_eq_2)
  have all: "list_all (\<lambda>n.
      ((of_nat n :: byte) AND 0xf0 = 16 \<longleftrightarrow> 16 \<le> n \<and> n \<le> 31) \<and>
      ((of_nat n :: byte) AND 0xf0 = 0xe0 \<longleftrightarrow> 224 \<le> n \<and> n \<le> 239) \<and>
      ((of_nat n :: byte) AND 0xfe = 0xfc \<longleftrightarrow> n = 252 \<or> n = 253) \<and>
      ((of_nat n :: byte) AND 0xc0 = 0x80 \<longleftrightarrow> 128 \<le> n \<and> n \<le> 191)) [0..<256]"
    unfolding upto by (simp add: upt_rec_numeral)
  have b: "of_nat (unat b) = b" "unat b \<in> set [0..<256]" by simp_all
  from bspec [OF all [unfolded list_all_iff] b(2)] show "b AND 0xf0 = 16 \<longleftrightarrow> 16 \<le> unat b \<and> unat b \<le> 31"
    and "b AND 0xf0 = 0xe0 \<longleftrightarrow> 224 \<le> unat b \<and> unat b \<le> 239"
    and "b AND 0xfe = 0xfc \<longleftrightarrow> unat b = 252 \<or> unat b = 253"
    and "b AND 0xc0 = 0x80 \<longleftrightarrow> 128 \<le> unat b \<and> unat b \<le> 191"
    by (simp_all add: b(1))
qed

lemma internal_ipv4_ranges:
  "is_internal_ip [a, b, c, d] \<longleftrightarrow>
     a = 127 \<or> a = 10 \<or> (a = 172 \<and> 16 \<le> unat b \<and> unat b \<le> 31) \<or> (a = 192 \<and> b = 168) \<or>
     (a = 169 \<and> b = 254) \<or> (a = 0 \<and> b = 0 \<and> c = 0 \<and> d = 0) \<or> (224 \<le> unat a \<and> unat a \<le> 239)"
proof -
  have m: "is_link_local_multicast [a, b, c, d] \<Longrightarrow> is_multicast [a, b, c, d]"
    by (auto simp: is_link_local_multicast_def is_multicast_def to4_def)
  have "is_internal_ip [a, b, c, d] \<longleftrightarrow>
     is_loopback [a, b, c, d] \<or> is_private [a, b, c, d] \<or> is_link_local_unicast [a, b, c, d] \<or>
     is_unspecified [a, b, c, d] \<or> is_multicast [a, b, c, d]"
    using m by (auto simp: is_internal_ip_def is_interface_local_multicast_def)
  then show ?thesis
    by (simp add: is_loopback_def is_private_def is_link_local_unicast_def is_unspecified_def
        is_multicast_def to4_def mask_ranges numeral_eq_Suc)
qed

text \<open>The IPv4-mapped IPv6 form of an address is judged as the IPv4 address itself.\<close>

definition mapped_v6 :: "bytes \<Rightarrow> ip" where
  "mapped_v6 v = replicate 10 0 @ [255, 255] @ v"

lemma internal_mapped_v6: "length v = 4 \<Longrightarrow> is_internal_ip (mapped_v6 v) = is_internal_ip v"
proof -
  assume v: "length v = 4"
  have m: "mapped_v6 v = [0, 0, 0, 0, 0, 0, 0, 0, 0, 0, 255, 255] @ v"
    by (simp add: mapped_v6_def numeral_eq_Suc)
  have t: "to4 (mapped_v6 v) = Some v" "to4 v = Some v"
    using v by (simp_all add: to4_def m numeral_eq_Suc)
  have "mapped_v6 v ! 0 = 0" by (simp add: m)
  then show ?thesis
    using v by (simp add: is_internal_ip_def is_loopback_def is_private_def is_multicast_def
        is_link_local_unicast_def is_link_local_multicast_def is_unspecified_def t
        is_interface_local_multicast_def)
qed

text \<open>The names of the policy, said on the labels of a name instead of its text: a host name is internal
  when it has a single label or its last label is \<open>localhost\<close>, \<open>local\<close> or \<open>internal\<close>.\<close>

definition labels :: "string \<Rightarrow> string list" where
  "labels host = split_char CHR ''.'' (to_lower (trim_suffix host ''.''))"

lemma split_char_nonempty [simp]: "split_char c s \<noteq> []"
  by (induction s) (auto split: list.split)

lemma split_char_single: "length (split_char c s) = 1 \<longleftrightarrow> c \<notin> set s"
proof (induction s)
  case (Cons x s)
  then show ?case by (cases "split_char c s") (auto simp: split_char_nonempty split: list.splits)
qed simp

lemma split_char_plain: "c \<notin> set t \<Longrightarrow> split_char c t = [t]"
  by (induction t) auto

lemma split_char_append: "split_char c (s @ c # t) = split_char c s @ split_char c t"
  by (induction s) (auto simp: split_char_nonempty split: list.split)

lemma split_char_last: "c \<notin> set t \<Longrightarrow> last (split_char c (s @ c # t)) = t"
  by (simp add: split_char_append split_char_plain)

lemma split_char_two: "c \<in> set s \<Longrightarrow> \<exists>p. s = p @ c # last (split_char c s)"
proof -
  assume "c \<in> set s"
  then obtain p t where s: "s = p @ c # t" "c \<notin> set t" by (metis split_list_last)
  from split_char_last [OF s(2), of p] s(1) show ?thesis by auto
qed

lemma has_suffix_iff: "has_suffix s p \<longleftrightarrow> (\<exists>q. s = q @ p)"
proof
  assume "has_suffix s p"
  then have "rev s = rev p @ drop (length p) (rev s)"
    using has_prefixD [of "rev s" "rev p"] by (simp add: has_suffix_def)
  then have "s = rev (drop (length p) (rev s)) @ p"
    by (metis rev_append rev_rev_ident)
  then show "\<exists>q. s = q @ p" by blast
qed auto

lemma suffix_label:
  assumes "c \<notin> set t"
  shows "has_suffix s (c # t) \<longleftrightarrow> c \<in> set s \<and> last (split_char c s) = t"
proof
  assume "has_suffix s (c # t)"
  then show "c \<in> set s \<and> last (split_char c s) = t"
    using split_char_last [OF assms] unfolding has_suffix_iff by auto
next
  assume a: "c \<in> set s \<and> last (split_char c s) = t"
  then show "has_suffix s (c # t)" using split_char_two [of c s] unfolding has_suffix_iff by auto
qed

lemma internal_hostname_labels:
  "is_internal_hostname host \<longleftrightarrow> length (labels host) = 1 \<or> last (labels host) \<in> {''localhost'', ''local'', ''internal''}"
proof -
  let ?s = "to_lower (trim_suffix host ''.'')"
  have "?s = ''localhost'' \<Longrightarrow> CHR ''.'' \<notin> set ?s" by simp
  moreover have "CHR ''.'' \<notin> set ?s \<Longrightarrow> last (split_char CHR ''.'' ?s) = ?s" by (simp add: split_char_plain)
  ultimately show ?thesis
    unfolding is_internal_hostname_def Let_def labels_def split_char_single
    by (auto simp: suffix_label)
qed

text \<open>The addresses of a host: the literal, or what the resolver finds.\<close>

lemma resolve_host_iff:
  "resolve_host N host = Some ips \<longleftrightarrow> (case parse_ip N host of
     Some i \<Rightarrow> ips = [i] | None \<Rightarrow> lookup_ip N host = Some ips \<and> ips \<noteq> [])"
  by (auto simp: resolve_host_def split: option.splits)

end
