(* ===== verification/Validation.thy ===== *)
theory Validation
  imports AppModels PaymentQueries UrlCheck
begin

text \<open>
  \<open>internal/payments/validation.go\<close>, \<open>models.go\<close> and \<open>repository.go\<close>: what a create request must
  satisfy, its fingerprint, the documents stored and sent for it, and the domain type \<open>Payment\<close>.
  A Go map that is nil is \<open>None\<close>; another one is its association list in key order. (The order in
  which Go ranges over a map only decides which of several violations is reported.)
\<close>

record create_payment_input =
  in_order_id :: string
  in_amount_minor :: int64
  in_currency :: string
  in_description :: string
  in_return_url :: "string option"
  in_metadata :: "go_map option"

record payment =
  pay_id :: uuid
  pay_application_id :: uuid
  pay_provider_account_id :: uuid
  pay_order_id :: string
  pay_attempt_number :: int
  pay_provider :: string
  pay_provider_payment_id :: "string option"
  pay_amount_minor :: int64
  pay_currency :: string
  pay_description :: string
  pay_status :: status
  pay_checkout_url :: "string option"
  pay_return_url :: "string option"
  pay_metadata :: go_map
  pay_created_at :: time
  pay_updated_at :: time
  pay_completed_at :: "time option"
  pay_next_check_at :: "time option"

record create_result =
  res_payment :: payment
  res_replayed :: bool
  res_pending :: bool
  res_retry_after :: int

definition result_http_status :: "create_result \<Rightarrow> int" where
  "result_http_status r = (if res_pending r then 202 else 201)"

subsection \<open>Maps\<close>

fun map_put :: "string \<Rightarrow> string \<Rightarrow> go_map \<Rightarrow> go_map" where
  "map_put k v [] = [(k, v)]"
| "map_put k v ((k', v') # m) =
     (if k < k' then (k, v) # (k', v') # m
      else if k = k' then (k, v) # m else (k', v') # map_put k v m)"

definition go_map_ok :: "go_map \<Rightarrow> bool" where
  "go_map_ok m \<longleftrightarrow> sorted_wrt (<) (map fst m)"

lemma map_of_map_put [simp]: "map_of (map_put k v m) = (map_of m)(k \<mapsto> v)"
  by (induction m) (auto simp: fun_eq_iff)

lemma fst_map_put: "fst ` set (map_put k v m) = insert k (fst ` set m)"
  by (induction k v m rule: map_put.induct) (simp_all add: insert_commute)

lemma go_map_ok_put: "go_map_ok m \<Longrightarrow> go_map_ok (map_put k v m)"
  unfolding go_map_ok_def
proof (induction m)
  case (Cons kv m)
  obtain k' v' where kv: "kv = (k', v')" by (cases kv)
  have "\<forall>x \<in> fst ` set (map_put k v m). k' < x" if "\<not> k < k'" "k \<noteq> k'"
    using that Cons.prems by (auto simp: fst_map_put kv)
  with Cons kv show ?case by (auto dest: less_trans)
qed simp

subsection \<open>validate\<close>

definition invalid :: "string \<Rightarrow> go_err" where
  "invalid msg = Suffixed (Sentinel PErrValidation) msg"

definition deref_string :: "string option \<Rightarrow> string" where
  "deref_string v = (case v of None \<Rightarrow> [] | Some s \<Rightarrow> s)"

fun check_metadata :: "go_map \<Rightarrow> go_err option" where
  "check_metadata [] = None"
| "check_metadata ((name, value) # m) =
     (if name = [] \<or> length name > MaxMetadataKeyLen then
        Some (invalid (''metadata keys must be 1..'' @ dec MaxMetadataKeyLen @ '' characters''))
      else if length value > MaxMetadataValLen then
        Some (invalid (''metadata values must be at most '' @ dec MaxMetadataValLen @ '' characters''))
      else check_metadata m)"

definition validate_return_url ::
  "net_env \<Rightarrow> outbound_url_options \<Rightarrow> application \<Rightarrow> string option \<Rightarrow> go_err + string option" where
  "validate_return_url N urls app return_url =
     (case return_url of
        None \<Rightarrow> Inr (app_default_return_url app)
      | Some raw \<Rightarrow>
          let trimmed = trim_space raw in
          if trimmed = [] then Inr (app_default_return_url app)
          else (case validate_outbound_url N trimmed urls of
             Inl e \<Rightarrow> Inl (invalid (''return_url: '' @
               trim_prefix (error_text e) (sentinel_text SErrInvalidURL @ '': '')))
           | Inr _ \<Rightarrow> Inr (Some trimmed)))"

definition validate ::
  "net_env \<Rightarrow> outbound_url_options \<Rightarrow> application \<Rightarrow> string \<Rightarrow> create_payment_input \<Rightarrow>
   go_err + create_payment_input" where
  "validate N urls app idempotency_key input =
     (let key = trim_space idempotency_key;
          order = trim_space (in_order_id input);
          currency = (if in_currency input = [] then ''RUB'' else in_currency input);
          description = trim_space (in_description input);
          meta = (case in_metadata input of None \<Rightarrow> [] | Some m \<Rightarrow> m)
      in if key = [] then Inl (invalid ''Idempotency-Key header is required'')
         else if length key > 64 then
           Inl (invalid ''Idempotency-Key must be at most 64 characters'')
         else if order = [] \<or> length order > MaxOrderIDLen then
           Inl (invalid (''order_id is required and must be at most '' @ dec MaxOrderIDLen @ '' characters''))
         else if sint (in_amount_minor input) \<le> 0 then
           Inl (invalid ''amount must be a positive integer in minor units'')
         else if currency \<noteq> ''RUB'' then Inl (invalid ''only RUB is supported'')
         else if length description > MaxDescriptionLen then
           Inl (invalid (''description must be at most '' @ dec MaxDescriptionLen @ '' characters''))
         else if length meta > MaxMetadataKeys then
           Inl (invalid (''metadata must have at most '' @ dec MaxMetadataKeys @ '' keys''))
         else case check_metadata meta of
           Some e \<Rightarrow> Inl e
         | None \<Rightarrow>
             and_then (validate_return_url N urls app (in_return_url input)) (\<lambda>url.
               Inr (input\<lparr>in_order_id := order, in_currency := currency,
                          in_description := description, in_return_url := url\<rparr>)))"

subsection \<open>Fingerprint and documents\<close>

definition json_map_opt :: "go_map option \<Rightarrow> string" where
  "json_map_opt m = (case m of None \<Rightarrow> ''null'' | Some m \<Rightarrow> json_map m)"

definition json_key :: "string \<Rightarrow> string" where
  "json_key k = dquote # k @ [dquote, CHR '':'']"

definition request_json :: "create_payment_input \<Rightarrow> string" where
  "request_json i =
     ''{'' @ json_key ''order_id'' @ json_string (in_order_id i)
     @ '','' @ json_key ''amount_minor'' @ format_int (sint (in_amount_minor i))
     @ '','' @ json_key ''currency'' @ json_string (in_currency i)
     @ '','' @ json_key ''description'' @ json_string (in_description i)
     @ '','' @ json_key ''return_url'' @ json_string (deref_string (in_return_url i))
     @ '','' @ json_key ''metadata'' @ json_map_opt (in_metadata i) @ ''}''"

definition request_hash :: "(bytes \<Rightarrow> bytes) \<Rightarrow> create_payment_input \<Rightarrow> bytes" where
  "request_hash sha i = sha (bytes_of (request_json i))"

text \<open>\<open>json.Marshal\<close> of a \<open>map[string]any\<close> writes the keys in increasing order.\<close>

definition provider_request_body :: "create_payment_input \<Rightarrow> string" where
  "provider_request_body i =
     ''{'' @ json_key ''amount_minor'' @ format_int (sint (in_amount_minor i))
     @ '','' @ json_key ''currency'' @ json_string (in_currency i)
     @ '','' @ json_key ''description'' @ json_string (in_description i)
     @ '','' @ json_key ''metadata'' @ json_map_opt (in_metadata i)
     @ '','' @ json_key ''return_url'' @ json_string (deref_string (in_return_url i)) @ ''}''"

definition provider_metadata :: "(uuid \<Rightarrow> string) \<Rightarrow> payment \<Rightarrow> go_map" where
  "provider_metadata uuid_text p =
     map_put ''payment_id'' (uuid_text (pay_id p))
       (map_put ''order_id'' (pay_order_id p) (pay_metadata p))"

definition marshal_metadata :: "go_map option \<Rightarrow> string" where
  "marshal_metadata m = json_map (case m of None \<Rightarrow> [] | Some m \<Rightarrow> m)"

subsection \<open>internal/payments/repository.go\<close>

text \<open>\<open>decode\<close> is \<open>json.Unmarshal\<close> on the text the server returns for the \<open>jsonb\<close> column.\<close>

definition to_payment :: "(string \<Rightarrow> string + go_map) \<Rightarrow> payment_row \<Rightarrow> go_err + payment" where
  "to_payment decode r =
     and_then (from_uuid (Some (p_id r))) (\<lambda>ident.
     and_then (from_uuid (Some (p_application_id r))) (\<lambda>app.
     and_then (from_uuid (Some (p_provider_account_id r))) (\<lambda>account.
     and_then (from_timestamp (Some (p_created_at r))) (\<lambda>created.
     and_then (from_timestamp (Some (p_updated_at r))) (\<lambda>updated.
     and_then (if length (p_metadata r) > 0 then
          (case decode (p_metadata r) of
             Inl msg \<Rightarrow> Inl (Prefixed ''payments: decode metadata'' (Opaque msg))
           | Inr m \<Rightarrow> Inr m)
        else Inr []) (\<lambda>metadata.
       Inr \<lparr>pay_id = ident, pay_application_id = app, pay_provider_account_id = account,
            pay_order_id = p_order_id r, pay_attempt_number = p_attempt_number r,
            pay_provider = p_provider r, pay_provider_payment_id = p_provider_payment_id r,
            pay_amount_minor = p_amount_minor r, pay_currency = p_currency r,
            pay_description = p_description r, pay_status = p_status r,
            pay_checkout_url = p_checkout_url r, pay_return_url = p_return_url r,
            pay_metadata = metadata, pay_created_at = created, pay_updated_at = updated,
            pay_completed_at = timestamp_ptr (p_completed_at r),
            pay_next_check_at = timestamp_ptr (p_next_check_at r)\<rparr>))))))"

definition to_payments :: "(string \<Rightarrow> string + go_map) \<Rightarrow> payment_row list \<Rightarrow> go_err + payment list" where
  "to_payments decode rows = traverse (to_payment decode) rows"

text \<open>What a domain value says about the row it was made from.\<close>

definition of_row :: "payment_row \<Rightarrow> payment \<Rightarrow> bool" where
  "of_row r p \<longleftrightarrow> pay_id p = p_id r \<and> pay_application_id p = p_application_id r \<and>
     pay_provider_account_id p = p_provider_account_id r \<and> pay_order_id p = p_order_id r \<and>
     pay_attempt_number p = p_attempt_number r \<and> pay_provider p = p_provider r \<and>
     pay_provider_payment_id p = p_provider_payment_id r \<and>
     pay_amount_minor p = p_amount_minor r \<and> pay_currency p = p_currency r \<and>
     pay_description p = p_description r \<and> pay_status p = p_status r \<and>
     pay_checkout_url p = p_checkout_url r \<and> pay_return_url p = p_return_url r \<and>
     pay_created_at p = p_created_at r \<and> pay_updated_at p = p_updated_at r \<and>
     pay_completed_at p = p_completed_at r \<and> pay_next_check_at p = p_next_check_at r"

lemma to_payment_of_row: "to_payment decode r = Inr p \<Longrightarrow> of_row r p"
  by (auto simp: to_payment_def of_row_def and_then_eq_Inr)

text \<open>Whatever is refused is refused as a validation error.\<close>

lemma check_metadata_error: "check_metadata m = Some e \<Longrightarrow> err_is e PErrValidation"
  by (induction m rule: check_metadata.induct) (auto simp: invalid_def split: if_splits)

lemma validate_return_url_error:
  "validate_return_url N urls app url = Inl e \<Longrightarrow> err_is e PErrValidation"
  by (auto simp: validate_return_url_def Let_def invalid_def split: option.splits sum.splits if_splits)

lemma validate_refuses: "validate N urls app key i = Inl e \<Longrightarrow> err_is e PErrValidation"
  by (auto simp: validate_def Let_def invalid_def and_then_def split: if_splits option.splits sum.splits
      dest: check_metadata_error validate_return_url_error)

end
