(* ===== verification/AppQueries.thy ===== *)
theory AppQueries
  imports AppModels PaymentQueries
begin

text \<open>
  The queries of \<open>internal/database/sqlcgen/applications.sql.go\<close> on applications, API keys,
  provider accounts and the links between applications and accounts, as effects on the database
  seen by a connection; \<open>..._ready\<close> says when a query that writes need not wait.
\<close>

subsection \<open>Applications\<close>

record create_application_params =
  cr_name :: string
  cr_slug :: string
  cr_default_return_url :: "string option"
  cr_webhook_url :: "string option"
  cr_webhook_secret_encrypted :: bytes

definition application_values ::
  "create_application_params \<Rightarrow> uuid \<Rightarrow> time \<Rightarrow> go_err + application_row" where
  "application_values arg u t =
     and_then (varchar 255 (cr_name arg)) (\<lambda>name.
     and_then (varchar 64 (cr_slug arg)) (\<lambda>slug.
     and_then (opt_text (cr_default_return_url arg)) (\<lambda>return_url.
     and_then (opt_text (cr_webhook_url arg)) (\<lambda>webhook_url.
       Inr \<lparr>a_id = u, a_name = name, a_slug = slug, a_status = ''active'',
            a_default_return_url = return_url, a_webhook_url = webhook_url,
            a_webhook_secret_encrypted = Some (cr_webhook_secret_encrypted arg),
            a_created_at = t, a_updated_at = t\<rparr>))))"

definition create_application :: "create_application_params \<Rightarrow> conn \<Rightarrow> application_row effect" where
  "create_application arg c d =
     (case fresh_id d of (u, d1) \<Rightarrow>
        (case application_values arg u (now c d) of
           Inl e \<Rightarrow> (Inl e, d1)
         | Inr r \<Rightarrow>
             if \<not> free_of application_clash r (visible_applications c d) then
               (Inl (unique_violation ''applications''), d1)
             else (Inr r, put_application c r d1)))"

definition create_application_ready :: "create_application_params \<Rightarrow> conn \<Rightarrow> database \<Rightarrow> bool" where
  "create_application_ready arg c d =
     (case application_values arg (db_next d) (now c d) of
        Inl _ \<Rightarrow> True | Inr r \<Rightarrow> free_of application_clash r (foreign t_applications c d))"

definition get_application :: "uuid \<Rightarrow> conn \<Rightarrow> application_row effect" where
  "get_application app c d = (one_row (\<lambda>r. a_id r = app) (visible_applications c d), d)"

definition get_application_by_slug :: "string \<Rightarrow> conn \<Rightarrow> application_row effect" where
  "get_application_by_slug slug c =
     with_text slug (\<lambda>d. (one_row (\<lambda>r. a_slug r = slug) (visible_applications c d), d))"

definition list_applications :: "conn \<Rightarrow> application_row list effect" where
  "list_applications c d = (Inr (sort_key (\<lambda>r. - a_created_at r) (visible_applications c d)), d)"

definition update_application_webhook_secret :: "uuid \<Rightarrow> bytes \<Rightarrow> unit effect" where
  "update_application_webhook_secret app secret d =
     (Inr (), d\<lparr>db_applications := update_where (\<lambda>r. a_id r = app)
        (\<lambda>r. r\<lparr>a_webhook_secret_encrypted := Some secret, a_updated_at := db_clock d\<rparr>)
        (db_applications d)\<rparr>)"

subsection \<open>API keys\<close>

record create_api_key_params =
  ck_application_id :: uuid
  ck_key_prefix :: string
  ck_key_hash :: bytes
  ck_name :: string
  ck_permissions :: "string list"
  ck_expires_at :: pg_timestamptz

definition api_key_values :: "create_api_key_params \<Rightarrow> uuid \<Rightarrow> time \<Rightarrow> go_err + api_key_row" where
  "api_key_values arg u t =
     and_then (varchar 16 (ck_key_prefix arg)) (\<lambda>prefix.
     and_then (varchar 255 (ck_name arg)) (\<lambda>name.
     and_then (traverse pg_value (ck_permissions arg)) (\<lambda>permissions.
       Inr \<lparr>k_id = u, k_application_id = ck_application_id arg, k_key_prefix = prefix,
            k_key_hash = ck_key_hash arg, k_name = name, k_permissions = permissions,
            k_expires_at = ck_expires_at arg, k_last_used_at = None, k_revoked_at = None,
            k_created_at = t\<rparr>)))"

definition create_api_key :: "create_api_key_params \<Rightarrow> conn \<Rightarrow> api_key_row effect" where
  "create_api_key arg c d =
     (case fresh_id d of (u, d1) \<Rightarrow>
        (case api_key_values arg u (now c d) of
           Inl e \<Rightarrow> (Inl e, d1)
         | Inr r \<Rightarrow>
             if \<not> free_of api_key_clash r (visible_api_keys c d) then
               (Inl (unique_violation ''api_keys''), d1)
             else if \<not> list_ex (\<lambda>a. a_id a = k_application_id r) (visible_applications c d) then
               (Inl (foreign_key_violation ''api_keys''), d1)
             else (Inr r, put_api_key c r d1)))"

definition create_api_key_ready :: "create_api_key_params \<Rightarrow> conn \<Rightarrow> database \<Rightarrow> bool" where
  "create_api_key_ready arg c d =
     (case api_key_values arg (db_next d) (now c d) of
        Inl _ \<Rightarrow> True | Inr r \<Rightarrow> free_of api_key_clash r (foreign t_api_keys c d))"

definition get_api_key_by_prefix :: "string \<Rightarrow> conn \<Rightarrow> api_key_row effect" where
  "get_api_key_by_prefix prefix c =
     with_text prefix (\<lambda>d. (one_row (\<lambda>r. k_key_prefix r = prefix) (visible_api_keys c d), d))"

definition list_api_keys :: "uuid \<Rightarrow> conn \<Rightarrow> api_key_row list effect" where
  "list_api_keys app c d =
     (Inr (sort_key (\<lambda>r. - k_created_at r)
        (filter (\<lambda>r. k_application_id r = app) (visible_api_keys c d))), d)"

text \<open>The number of rows changed is the result of \<open>:execrows\<close>.\<close>

definition revoke_api_key :: "uuid \<Rightarrow> uuid \<Rightarrow> int effect" where
  "revoke_api_key key app d =
     (let cond = (\<lambda>r. k_id r = key \<and> k_application_id r = app \<and> k_revoked_at r = None)
      in (Inr (int (length (filter cond (db_api_keys d)))),
          d\<lparr>db_api_keys := update_where cond (\<lambda>r. r\<lparr>k_revoked_at := Some (db_clock d)\<rparr>) (db_api_keys d)\<rparr>))"

definition one_minute :: duration where "one_minute = 60000000"

definition touch_api_key_last_used :: "uuid \<Rightarrow> unit effect" where
  "touch_api_key_last_used key d =
     (Inr (), d\<lparr>db_api_keys := update_where
        (\<lambda>r. k_id r = key \<and>
           (case k_last_used_at r of None \<Rightarrow> True | Some t \<Rightarrow> t < db_clock d - one_minute))
        (\<lambda>r. r\<lparr>k_last_used_at := Some (db_clock d)\<rparr>) (db_api_keys d)\<rparr>)"

subsection \<open>Provider accounts and links\<close>

record create_account_params =
  cc_provider :: string
  cc_shop_id :: string
  cc_encrypted_secret_key :: bytes
  cc_environment :: string

definition account_values :: "create_account_params \<Rightarrow> uuid \<Rightarrow> time \<Rightarrow> go_err + account_row" where
  "account_values arg u t =
     and_then (varchar 32 (cc_provider arg)) (\<lambda>provider.
     and_then (varchar 64 (cc_shop_id arg)) (\<lambda>shop.
     and_then (varchar 16 (cc_environment arg)) (\<lambda>environment.
       Inr \<lparr>c_id = u, c_provider = provider, c_shop_id = shop,
            c_encrypted_secret_key = cc_encrypted_secret_key arg, c_environment = environment,
            c_status = ''active'', c_created_at = t, c_updated_at = t\<rparr>)))"

definition create_provider_account :: "create_account_params \<Rightarrow> conn \<Rightarrow> account_row effect" where
  "create_provider_account arg c d =
     (case fresh_id d of (u, d1) \<Rightarrow>
        (case account_values arg u (now c d) of
           Inl e \<Rightarrow> (Inl e, d1)
         | Inr r \<Rightarrow>
             if c_environment r \<noteq> ''test'' \<and> c_environment r \<noteq> ''production'' then
               (Inl (check_violation ''provider_accounts''), d1)
             else if \<not> free_of account_clash r (visible_accounts c d) then
               (Inl (unique_violation ''provider_accounts''), d1)
             else (Inr r, put_account c r d1)))"

definition create_account_ready :: "create_account_params \<Rightarrow> conn \<Rightarrow> database \<Rightarrow> bool" where
  "create_account_ready arg c d =
     (case account_values arg (db_next d) (now c d) of
        Inl _ \<Rightarrow> True | Inr r \<Rightarrow> free_of account_clash r (foreign t_accounts c d))"

definition get_provider_account :: "uuid \<Rightarrow> conn \<Rightarrow> account_row effect" where
  "get_provider_account account c d = (one_row (\<lambda>r. c_id r = account) (visible_accounts c d), d)"

definition get_provider_account_by_shop :: "string \<Rightarrow> string \<Rightarrow> string \<Rightarrow> conn \<Rightarrow> account_row effect" where
  "get_provider_account_by_shop provider shop environment c =
     with_text provider (with_text shop (with_text environment (\<lambda>d.
       (one_row (\<lambda>r. c_provider r = provider \<and> c_shop_id r = shop \<and> c_environment r = environment)
          (visible_accounts c d), d))))"

definition linked :: "uuid \<Rightarrow> account_row \<Rightarrow> link_row \<Rightarrow> bool" where
  "linked app r l \<longleftrightarrow> l_application_id l = app \<and> l_provider_account_id l = c_id r"

definition get_default_provider_account :: "uuid \<Rightarrow> conn \<Rightarrow> account_row effect" where
  "get_default_provider_account app c d =
     (one_row (\<lambda>r. list_ex (\<lambda>l. linked app r l \<and> l_is_default l) (visible_links c d) \<and>
                   c_status r = ''active'') (visible_accounts c d), d)"

definition list_provider_accounts :: "uuid \<Rightarrow> conn \<Rightarrow> (account_row \<times> bool) list effect" where
  "list_provider_accounts app c d =
     (Inr (sort_key (\<lambda>(r, _). - c_created_at r)
        (concat (map (\<lambda>r. map (\<lambda>l. (r, l_is_default l)) (filter (linked app r) (visible_links c d)))
          (visible_accounts c d)))), d)"

definition update_provider_account_status :: "uuid \<Rightarrow> string \<Rightarrow> unit effect" where
  "update_provider_account_status account status d =
     (case varchar 16 status of
        Inl e \<Rightarrow> (Inl e, d)
      | Inr s \<Rightarrow>
          if list_ex (\<lambda>r. c_id r = account) (db_accounts d) \<and>
             s \<noteq> ''active'' \<and> s \<noteq> ''needs_attention'' \<and> s \<noteq> ''disabled'' then
            (Inl (check_violation ''provider_accounts''), d)
          else (Inr (), d\<lparr>db_accounts := update_where (\<lambda>r. c_id r = account)
             (\<lambda>r. r\<lparr>c_status := s, c_updated_at := db_clock d\<rparr>) (db_accounts d)\<rparr>))"

text \<open>\<open>INSERT ... ON CONFLICT DO UPDATE\<close>: a new link, or a new version of the existing one.\<close>

definition attach_link :: "uuid \<Rightarrow> uuid \<Rightarrow> bool \<Rightarrow> conn \<Rightarrow> database \<Rightarrow> link_row" where
  "attach_link app account is_default c d =
     (case find (\<lambda>l. l_application_id l = app \<and> l_provider_account_id l = account) (visible_links c d) of
        None \<Rightarrow> \<lparr>l_application_id = app, l_provider_account_id = account, l_is_default = is_default,
                l_created_at = now c d\<rparr>
      | Some l \<Rightarrow> l\<lparr>l_is_default := is_default\<rparr>)"

definition attach_provider_account :: "uuid \<Rightarrow> uuid \<Rightarrow> bool \<Rightarrow> conn \<Rightarrow> unit effect" where
  "attach_provider_account app account is_default c d =
     (let l = attach_link app account is_default c d in
      if \<not> free_of link_clash l (filter (\<lambda>m. \<not> same_link l m) (visible_links c d)) then
        (Inl (unique_violation ''application_providers''), d)
      else if \<not> list_ex (\<lambda>a. a_id a = app) (visible_applications c d) \<or>
              \<not> list_ex (\<lambda>r. c_id r = account) (visible_accounts c d) then
        (Inl (foreign_key_violation ''application_providers''), d)
      else (Inr (), put_links c [l] d))"

definition attach_ready :: "uuid \<Rightarrow> uuid \<Rightarrow> bool \<Rightarrow> conn \<Rightarrow> database \<Rightarrow> bool" where
  "attach_ready app account is_default c d \<longleftrightarrow>
     free_of link_clash (attach_link app account is_default c d) (foreign t_links c d)"

definition cleared_links :: "uuid \<Rightarrow> conn \<Rightarrow> database \<Rightarrow> link_row list" where
  "cleared_links app c d =
     map (\<lambda>l. l\<lparr>l_is_default := False\<rparr>)
       (filter (\<lambda>l. l_application_id l = app \<and> l_is_default l) (visible_links c d))"

definition clear_default_provider :: "uuid \<Rightarrow> conn \<Rightarrow> unit effect" where
  "clear_default_provider app c d = (Inr (), put_links c (cleared_links app c d) d)"

definition clear_default_ready :: "uuid \<Rightarrow> conn \<Rightarrow> database \<Rightarrow> bool" where
  "clear_default_ready app c d \<longleftrightarrow>
     list_all (\<lambda>l. \<not> list_ex (same_link l) (foreign t_links c d)) (cleared_links app c d)"

end
