(* ===== verification/YookassaClient.thy ===== *)
theory YookassaClient
  imports Yookassa
begin

text \<open>
  The calls of the YooKassa adapter: building the request, normalizing the outcome of the
  transport and translating the answer. The central promise is that only an outright refusal is
  reported with a definitive code: whatever leaves the outcome at the provider open (a lost
  connection, a timeout, a rate limit, a server error, an answer that cannot be read or has an
  unknown status) gets a code the payment service does not settle on.
\<close>

definition DefaultBaseURL :: string where
  "DefaultBaseURL = ''https://api.yookassa.ru''"

definition max_error_body :: nat where "max_error_body = 65536"
definition max_response_body :: nat where "max_response_body = 1048576"

definition new_client :: "string \<Rightarrow> string \<Rightarrow> string \<Rightarrow> yk_client" where
  "new_client base shop secret =
     (let b = (if trim_space base = [] then DefaultBaseURL else base)
      in \<lparr>base_url = trim_right_char CHR ''/'' b, shop_id = shop, secret_key = secret\<rparr>)"

definition perr :: "error_code \<Rightarrow> int \<Rightarrow> string \<Rightarrow> bool \<Rightarrow> go_err" where
  "perr code status msg retry = ProviderErr
     \<lparr>pe_code = code, pe_http_status = status, pe_message = msg, pe_retryable = retry\<rparr>"

definition network_error :: "bool \<Rightarrow> string \<Rightarrow> go_err" where
  "network_error timeout msg =
     (if timeout then perr CodeTimeout 0 msg True else perr CodeUnavailable 0 msg True)"

definition status_error :: "yk_env \<Rightarrow> int \<Rightarrow> string \<Rightarrow> go_err" where
  "status_error E status body =
     (let raw = take max_error_body body;
          d0 = trim_space raw;
          bc = (case decode_error E raw of None \<Rightarrow> ([], d0)
                | Some (code, desc) \<Rightarrow> (code, if desc \<noteq> [] then desc else d0));
          body_code = fst bc;
          description = (if length (snd bc) > 512 then take 512 (snd bc) else snd bc)
      in if status = 401 \<or> status = 403 then
           perr CodeAuthFailed status ''credentials rejected by the provider'' False
         else if status = 429 then
           perr CodeUnavailable status ''provider rate limit reached'' True
         else if status \<ge> 500 then
           perr CodeUnavailable status ''provider is unavailable'' True
         else if body_code = ''invalid_credentials'' then
           perr CodeAuthFailed status description False
         else perr CodeInvalidRequest status
           (''provider rejected the request: '' @ description) False)"

text \<open>
  \<open>do\<close>: the request it sends, and what it makes of the outcome. \<open>None\<close> for the decoder stands
  for a nil \<open>out\<close> (the body is discarded).
\<close>

definition do_request ::
  "yk_client \<Rightarrow> string \<Rightarrow> string \<Rightarrow> string \<Rightarrow> create_body option \<Rightarrow> wire_request" where
  "do_request c method path key body =
     \<lparr>wire_method = method, wire_url = base_url c @ path, wire_auth = (shop_id c, secret_key c),
      wire_idempotence_key = (if key \<noteq> [] then Some key else None), wire_body = body\<rparr>"

definition do_outcome ::
  "yk_env \<Rightarrow> (string \<Rightarrow> string + 'a) option \<Rightarrow> transport \<Rightarrow> go_err + 'a option" where
  "do_outcome E decode outcome =
     (case outcome of
        NetFail timeout msg \<Rightarrow> Inl (network_error timeout msg)
      | HttpResp status body \<Rightarrow>
          if 200 \<le> status \<and> status < 300 then
            (case decode of
               None \<Rightarrow> Inr None
             | Some decode_body \<Rightarrow>
                 (case decode_body (take max_response_body body) of
                    Inl msg \<Rightarrow> Inl (perr CodeStateUnknown status
                      (''cannot decode the provider response: '' @ msg) False)
                  | Inr v \<Rightarrow> Inr (Some v)))
          else Inl (status_error E status body))"

text \<open>The whole of \<open>do\<close>: a URL that makes no request is refused before anything is sent.\<close>

definition yk_do ::
  "yk_env \<Rightarrow> yk_client \<Rightarrow> string \<Rightarrow> string \<Rightarrow> string \<Rightarrow> create_body option \<Rightarrow>
   (string \<Rightarrow> string + 'a) option \<Rightarrow> transport \<Rightarrow> wire_request option \<times> (go_err + 'a option)" where
  "yk_do E c method path key body decode outcome =
     (case request_error E (base_url c @ path) of
        Some msg \<Rightarrow> (None, Inl (perr CodeInvalidRequest 0 msg False))
      | None \<Rightarrow> (Some (do_request c method path key body), do_outcome E decode outcome))"

subsection \<open>internal/providers/yookassa/payments.go\<close>

definition map_status :: "string \<Rightarrow> go_err + provider_status" where
  "map_status status =
     (if status = ''pending'' \<or> status = ''waiting_for_capture'' then Inr ProvPending
      else if status = ''succeeded'' then Inr ProvSucceeded
      else if status = ''canceled'' then Inr ProvCanceled
      else Inl (perr CodeStateUnknown 200
        (''unrecognized provider status '' @ go_quote status) False))"

definition to_provider_payment :: "api_payment \<Rightarrow> go_err + provider_payment" where
  "to_provider_payment r =
     (case map_status (api_status r) of
        Inl e \<Rightarrow> Inl e
      | Inr st \<Rightarrow>
          (case parse_amount_minor (amount_value (api_amount r)) of
             Inl e \<Rightarrow> Inl (perr CodeStateUnknown 200 (error_text e) False)
           | Inr amount \<Rightarrow>
               Inr \<lparr>pp_id = api_id r, pp_status = st,
                    pp_checkout_url = (case api_confirmation r of None \<Rightarrow> [] | Some u \<Rightarrow> u),
                    pp_paid = api_paid r, pp_amount = amount,
                    pp_currency = amount_currency (api_amount r)\<rparr>))"

definition create_payment_body :: "create_request \<Rightarrow> create_body" where
  "create_payment_body req =
     \<lparr>body_amount = \<lparr>amount_value = format_amount_minor (req_amount req),
                     amount_currency = req_currency req\<rparr>,
      body_capture = True, body_confirmation_type = ''redirect'',
      body_return_url = req_return_url req, body_description = req_description req,
      body_metadata = req_metadata req\<rparr>"

text \<open>The end of both payment calls: what \<open>do\<close> returned, translated.\<close>

definition payment_result :: "go_err + api_payment option \<Rightarrow> go_err + provider_payment" where
  "payment_result r =
     (case r of Inl e \<Rightarrow> Inl e
      | Inr None \<Rightarrow> Inl (Opaque [])
      | Inr (Some p) \<Rightarrow> to_provider_payment p)"

text \<open>
  The calls, given what the transport would make of the request: the request sent, if any, and the
  result.
\<close>

definition yk_create_payment ::
  "yk_env \<Rightarrow> yk_client \<Rightarrow> create_request \<Rightarrow> transport \<Rightarrow>
   wire_request option \<times> (go_err + provider_payment)" where
  "yk_create_payment E c req outcome =
     (case yk_do E c ''POST'' ''/v3/payments'' (req_idempotency_key req)
             (Some (create_payment_body req)) (Some (decode_payment E)) outcome of
        (sent, r) \<Rightarrow> (sent, payment_result r))"

definition yk_get_payment ::
  "yk_env \<Rightarrow> yk_client \<Rightarrow> string \<Rightarrow> transport \<Rightarrow>
   wire_request option \<times> (go_err + provider_payment)" where
  "yk_get_payment E c pid outcome =
     (if pid = [] then
        (None, Inl (perr CodeInvalidRequest 0 ''provider payment id is required'' False))
      else case yk_do E c ''GET'' (''/v3/payments/'' @ pid) [] None (Some (decode_payment E)) outcome of
        (sent, r) \<Rightarrow> (sent, payment_result r))"

definition yk_check_connection ::
  "yk_env \<Rightarrow> yk_client \<Rightarrow> transport \<Rightarrow> wire_request option \<times> go_err option" where
  "yk_check_connection E c outcome =
     (case yk_do E c ''GET'' ''/v3/payments?limit=1'' [] None
             (None :: (string \<Rightarrow> string + unit) option) outcome of
        (sent, Inl e) \<Rightarrow> (sent, Some e)
      | (sent, Inr _) \<Rightarrow> (sent, None))"

subsection \<open>Every failure is a provider error, and only a refusal is definitive\<close>

lemma code_of_perr [simp]:
  "code_of_error (perr code s m r) = code"
  "as_provider_error (perr code s m r) =
     Some \<lparr>pe_code = code, pe_http_status = s, pe_message = m, pe_retryable = r\<rparr>"
  by (simp_all add: perr_def code_of_error_def)

lemma do_outcome_is_provider_error:
  "do_outcome E d outcome = Inl e \<Longrightarrow> as_provider_error e \<noteq> None"
  by (auto simp: do_outcome_def network_error_def status_error_def Let_def
           split: transport.splits if_splits option.splits sum.splits)

lemma do_outcome_decoded: "do_outcome E (Some d) outcome \<noteq> Inr None"
  by (auto simp: do_outcome_def split: transport.splits sum.splits)

lemma payment_result_is_provider_error:
  "payment_result (do_outcome E (Some d) outcome) = Inl e \<Longrightarrow> as_provider_error e \<noteq> None"
  by (auto simp: payment_result_def to_provider_payment_def map_status_def do_outcome_decoded
           split: sum.splits option.splits if_splits dest: do_outcome_is_provider_error)

text \<open>The statuses on which the provider has refused the request.\<close>

definition refused :: "transport \<Rightarrow> bool" where
  "refused outcome = (case outcome of
     NetFail _ _ \<Rightarrow> False
   | HttpResp status _ \<Rightarrow> \<not> (200 \<le> status \<and> status < 300) \<and> status \<noteq> 429 \<and> status < 500)"

lemma definitive_codes [simp]:
  "definitive CodeInvalidRequest" "definitive CodeAuthFailed"
  "\<not> definitive CodeUnavailable" "\<not> definitive CodeTimeout" "\<not> definitive CodeStateUnknown"
  by (simp_all add: definitive_def)

lemma result_definitive:
  assumes "payment_result (do_outcome E (Some d) outcome) = Inl e"
  shows "definitive (code_of_error e) \<longleftrightarrow> refused outcome"
proof (cases outcome)
  case (NetFail t m)
  with assms show ?thesis
    by (auto simp: payment_result_def do_outcome_def network_error_def refused_def split: if_splits)
next
  case (HttpResp status body)
  show ?thesis
  proof (cases "200 \<le> status \<and> status < 300")
    case True
    with HttpResp assms have "code_of_error e = CodeStateUnknown"
      by (auto simp: payment_result_def do_outcome_def to_provider_payment_def map_status_def
               split: sum.splits if_splits)
    with True HttpResp show ?thesis by (simp add: refused_def)
  next
    case False
    with HttpResp assms have "e = status_error E status body"
      by (auto simp: payment_result_def do_outcome_def)
    with False HttpResp show ?thesis
      by (auto simp: status_error_def Let_def refused_def)
  qed
qed

lemma create_payment_cases:
  assumes "yk_create_payment E c req outcome = (sent, r)"
  obtains msg where "sent = None" "r = Inl (perr CodeInvalidRequest 0 msg False)"
  | "sent = Some (do_request c ''POST'' ''/v3/payments'' (req_idempotency_key req)
        (Some (create_payment_body req)))"
    "r = payment_result (do_outcome E (Some (decode_payment E)) outcome)"
  using assms that
  by (cases "request_error E (base_url c @ ''/v3/payments'')")
     (auto simp: yk_create_payment_def yk_do_def payment_result_def)

lemma create_payment_is_provider_error:
  "yk_create_payment E c req outcome = (sent, Inl e) \<Longrightarrow> as_provider_error e \<noteq> None"
  by (elim create_payment_cases) (auto dest!: payment_result_is_provider_error [OF sym])

lemma create_payment_definitive:
  "yk_create_payment E c req outcome = (sent, Inl e) \<Longrightarrow>
     definitive (code_of_error e) \<longleftrightarrow> sent = None \<or> refused outcome"
  by (elim create_payment_cases) (auto simp: result_definitive [OF sym])

text \<open>A status outside the three known ones never reaches the caller as a status.\<close>

lemma map_status_known:
  "map_status s = Inr st \<Longrightarrow> s \<in> {''pending'', ''waiting_for_capture'', ''succeeded'', ''canceled''}"
  by (auto simp: map_status_def split: if_splits)

end
