(* ===== verification/PaymentService.thy ===== *)
theory PaymentService
  imports Validation AppQueries YookassaClient Cipher
begin

text \<open>
  \<open>internal/payments/service.go\<close> and \<open>recorder.go\<close>: the payment service as programs over the
  \<open>world\<close>, statement by statement and call by call in the order of the code. What the service was
  wired with (\<open>Options\<close>, the cipher, the provider client factory) and the parameters of the model
  are the record \<open>service_env\<close>. The credentials provider is the application service, as in
  \<open>cmd/api/main.go\<close>; \<open>provider_credentials\<close> is its one method the payment service calls.
\<close>

record service_env =
  se_production :: bool
  se_window :: duration
  se_poll :: duration
  se_recorder :: bool
  se_base_url :: string
  se_cipher :: cipher
  se_sha :: "bytes \<Rightarrow> bytes"
  se_net :: net_env
  se_pg :: pg_env
  se_yk :: yk_env
  se_uuid_text :: "uuid \<Rightarrow> string"
  se_decode_metadata :: "string \<Rightarrow> string + go_map"

definition service_urls :: "service_env \<Rightarrow> outbound_url_options" where
  "service_urls E = \<lparr>allow_http = \<not> se_production E, allow_private = \<not> se_production E\<rparr>"

text \<open>\<open>ProviderCredentials\<close> (\<open>internal/applications/service.go\<close>)\<close>

definition map_not_found :: "go_err \<Rightarrow> go_err" where
  "map_not_found e = (if err_is e ErrNoRows then Sentinel AErrNotFound else e)"

definition provider_credentials :: "service_env \<Rightarrow> uuid \<Rightarrow> (go_err + string \<times> string) action" where
  "provider_credentials E account =
     bindP (exec Pool (get_provider_account account Pool)) (\<lambda>r.
       case r of
         Inl e \<Rightarrow> Ret (Inl (map_not_found e))
       | Inr row \<Rightarrow>
           Ret (case decrypt (se_cipher E) (c_encrypted_secret_key row) of
                  Inl e \<Rightarrow> Inl e
                | Inr plaintext \<Rightarrow> Inr (c_shop_id row, string_of plaintext)))"

subsection \<open>Recorder\<close>

definition record_creation :: "service_env \<Rightarrow> string \<Rightarrow> unit action" where
  "record_creation E result =
     (if se_recorder E then record_metric (CreationCounted result) else Ret ())"

definition record_provider_call ::
  "service_env \<Rightarrow> operation_type \<Rightarrow> go_err option \<Rightarrow> time \<Rightarrow> unit action" where
  "record_provider_call E op err started =
     (if \<not> se_recorder E then Ret ()
      else bindP get_time (\<lambda>t.
        record_metric (ProviderCallCounted (operation_type_text op)
          (map_option code_of_error err) (t - started))))"

subsection \<open>Reading a payment\<close>

definition get_payment_row :: "service_env \<Rightarrow> uuid \<Rightarrow> uuid \<Rightarrow> (go_err + payment) action" where
  "get_payment_row E app pid =
     bindP (exec Pool (get_payment_for_application pid app Pool)) (\<lambda>r.
       case r of
         Inl e \<Rightarrow> Ret (Inl (if err_is e ErrNoRows then Sentinel PErrNotFound else e))
       | Inr row \<Rightarrow> Ret (to_payment (se_decode_metadata E) row))"

definition replay :: "service_env \<Rightarrow> uuid \<Rightarrow> idempotency_row \<Rightarrow> bytes \<Rightarrow> (go_err + create_result) action" where
  "replay E app row hash =
     (if i_request_hash row \<noteq> hash then Ret (Inl (Sentinel PErrIdempotencyConflict))
      else case i_payment_id row of
        None \<Rightarrow> Ret (Inl (Sentinel PErrNotFound))
      | Some pid \<Rightarrow>
          bindE (get_payment_row E app pid) (\<lambda>p.
          bindP (record_creation E ''replayed'') (\<lambda>_.
            Ret (Inr \<lparr>res_payment = p, res_replayed = True,
                      res_pending = (\<not> terminal (pay_status p) \<and> pay_checkout_url p = None),
                      res_retry_after = 2\<rparr>))))"

subsection \<open>The local transaction\<close>

record local_creation =
  lc_payment :: payment
  lc_operation_id :: uuid
  lc_provider_key :: string

definition new_payment :: "application \<Rightarrow> account_row \<Rightarrow> int \<Rightarrow> create_payment_input \<Rightarrow> create_payment_params" where
  "new_payment app account attempt i =
     \<lparr>cp_application_id = app_id app, cp_provider_account_id = c_id account,
      cp_order_id = in_order_id i, cp_attempt_number = attempt, cp_provider = ProviderYooKassa,
      cp_amount_minor = in_amount_minor i, cp_currency = in_currency i,
      cp_description = in_description i, cp_status = StatusCreated,
      cp_return_url = in_return_url i, cp_metadata = marshal_metadata (in_metadata i)\<rparr>"

definition new_operation ::
  "service_env \<Rightarrow> uuid \<Rightarrow> string \<Rightarrow> bytes \<Rightarrow> create_payment_input \<Rightarrow> time \<Rightarrow> create_operation_params" where
  "new_operation E pid key hash i t =
     \<lparr>co_payment_id = pid, co_operation_type = OperationCreatePayment,
      co_provider_idempotency_key = key, co_request_hash = hash,
      co_request_body = provider_request_body i,
      co_idempotency_expires_at = to_timestamp (t + se_window E)\<rparr>"

text \<open>The lock and the two checks made under it.\<close>

definition local_checks ::
  "service_env \<Rightarrow> application \<Rightarrow> string \<Rightarrow> create_payment_input \<Rightarrow> nat \<Rightarrow> (go_err + unit) action" where
  "local_checks E app key i t =
     (let app_text = se_uuid_text E (app_id app) in
      bindE (exec_when (lock_order_ready (se_pg E) app_text (in_order_id i) (Tx t)) (Tx t)
               (lock_order_for_payment (se_pg E) app_text (in_order_id i) (Tx t))) (\<lambda>_.
      bindE (exec (Tx t) (order_has_succeeded_payment (app_id app) (in_order_id i) (Tx t))) (\<lambda>paid.
        if paid then Ret (Inl (Sentinel PErrOrderAlreadySucceeded))
        else bindP (exec (Tx t) (get_idempotency_request (app_id app) key (Tx t))) (\<lambda>r.
          case r of
            Inr _ \<Rightarrow> Ret (Inl (Sentinel PErrIdempotencyRace))
          | Inl e \<Rightarrow> Ret (if err_is e ErrNoRows then Inr () else Inl e)))))"

text \<open>The payment row.\<close>

definition local_payment ::
  "service_env \<Rightarrow> application \<Rightarrow> account_row \<Rightarrow> create_payment_input \<Rightarrow> nat \<Rightarrow> (go_err + payment) action" where
  "local_payment E app account i t =
     bindE (exec (Tx t) (next_attempt_number (app_id app) (in_order_id i) (Tx t))) (\<lambda>attempt.
       let arg = new_payment app account attempt i in
       bindP (exec_when (create_payment_ready (se_pg E) arg (Tx t)) (Tx t)
                (create_payment (se_pg E) arg (Tx t))) (\<lambda>r.
         case r of
           Inl e \<Rightarrow>
             Ret (Inl (if is_unique_violation e then Sentinel PErrActiveAttemptExists else e))
         | Inr row \<Rightarrow> Ret (to_payment (se_decode_metadata E) row)))"

text \<open>The operation with its provider key, the request record, and the commit.\<close>

definition local_records ::
  "service_env \<Rightarrow> application \<Rightarrow> string \<Rightarrow> bytes \<Rightarrow> create_payment_input \<Rightarrow> nat \<Rightarrow> payment \<Rightarrow>
   (go_err + local_creation) action" where
  "local_records E app key hash i t p =
     bindP new_uuid (\<lambda>u.
     bindP get_time (\<lambda>now.
       let provider_key = se_uuid_text E u;
           arg = new_operation E (pay_id p) provider_key hash i now in
       bindE (exec_when (create_operation_ready (se_pg E) arg (Tx t)) (Tx t)
                (create_payment_operation (se_pg E) arg (Tx t))) (\<lambda>op.
       bindE (Ret (from_uuid (Some (o_id op)))) (\<lambda>oid.
       bindP (exec_when (create_idempotency_ready (app_id app) key hash (Some (pay_id p)) (Tx t)) (Tx t)
                (create_idempotency_request (app_id app) key hash (Some (pay_id p)) (Tx t))) (\<lambda>r.
         case r of
           Inl e \<Rightarrow> Ret (Inl (if is_unique_violation e then Sentinel PErrIdempotencyRace else e))
         | Inr _ \<Rightarrow>
             bindP (commit t) (\<lambda>r.
               case r of
                 Inl e \<Rightarrow> Ret (Inl (Prefixed ''payments: commit'' e))
               | Inr _ \<Rightarrow> Ret (Inr \<lparr>lc_payment = p, lc_operation_id = oid,
                                    lc_provider_key = provider_key\<rparr>)))))))"

definition create_local ::
  "service_env \<Rightarrow> application \<Rightarrow> account_row \<Rightarrow> string \<Rightarrow> bytes \<Rightarrow> create_payment_input \<Rightarrow>
   (go_err + local_creation) action" where
  "create_local E app account key hash i =
     bindP begin_tx (\<lambda>r.
       case r of
         Inl e \<Rightarrow> Ret (Inl (Prefixed ''payments: begin'' e))
       | Inr t \<Rightarrow>
           bindP (bindE (local_checks E app key i t) (\<lambda>_.
                  bindE (local_payment E app account i t) (\<lambda>p.
                    local_records E app key hash i t p))) (\<lambda>res.
           bindP (rollback t) (\<lambda>_. Ret res)))"

subsection \<open>The provider call\<close>

definition complete_operation :: "uuid \<Rightarrow> operation_status \<Rightarrow> string \<Rightarrow> unit action" where
  "complete_operation oid s last_error =
     bindP (exec Pool (complete_payment_operation oid s (Some last_error))) (\<lambda>_. Ret ())"

definition handle_create_failure ::
  "service_env \<Rightarrow> local_creation \<Rightarrow> go_err \<Rightarrow> (go_err + create_result) action" where
  "handle_create_failure E local e =
     (let p = lc_payment local; code = code_of_error e in
      if \<not> definitive code then
        bindP get_time (\<lambda>t.
        bindE (set_payment_creation_unknown (pay_id p) (to_timestamp (t + se_poll E))) (\<lambda>_.
        bindP (complete_operation (lc_operation_id local) OperationUnknown (error_text e)) (\<lambda>_.
        bindP (record_creation E ''creation_unknown'') (\<lambda>_.
        bindE (get_payment_row E (pay_application_id p) (pay_id p)) (\<lambda>p'.
          Ret (Inr \<lparr>res_payment = p', res_replayed = False, res_pending = True,
                    res_retry_after = 2\<rparr>))))))
      else
        bindE (set_payment_canceled (pay_id p)) (\<lambda>_.
        bindP (complete_operation (lc_operation_id local) OperationFailed (error_text e)) (\<lambda>_.
        bindP (record_creation E ''rejected'') (\<lambda>_.
          Ret (Inl e)))))"

definition provider_request :: "service_env \<Rightarrow> local_creation \<Rightarrow> create_payment_input \<Rightarrow> create_request" where
  "provider_request E local i =
     \<lparr>req_amount = in_amount_minor i, req_currency = in_currency i,
      req_description = in_description i, req_return_url = deref_string (in_return_url i),
      req_metadata = provider_metadata (se_uuid_text E) (lc_payment local),
      req_idempotency_key = lc_provider_key local\<rparr>"

definition error_of :: "go_err + 'a \<Rightarrow> go_err option" where
  "error_of r = (case r of Inl e \<Rightarrow> Some e | Inr _ \<Rightarrow> None)"

text \<open>The end of \<open>callProvider\<close>: what the provider answered is recorded and read back.\<close>

definition record_created ::
  "service_env \<Rightarrow> local_creation \<Rightarrow> provider_payment \<Rightarrow> (go_err + create_result) action" where
  "record_created E local pp =
     (let p = lc_payment local; pid = pay_id p in
      bindP (record_creation E ''created'') (\<lambda>_.
      bindP get_time (\<lambda>t.
      bindE (set_payment_created pid (Some (pp_id pp)) (Some (pp_checkout_url pp))
               (to_timestamp (t + se_poll E))) (\<lambda>_.
      bindP (complete_operation (lc_operation_id local) OperationSucceeded []) (\<lambda>_.
      bindE (get_payment_row E (pay_application_id p) pid) (\<lambda>p'.
        Ret (Inr \<lparr>res_payment = p', res_replayed = False, res_pending = False,
                  res_retry_after = 0\<rparr>)))))))"

text \<open>Its middle: the call with the credentials of the account.\<close>

definition charge_provider ::
  "service_env \<Rightarrow> local_creation \<Rightarrow> create_payment_input \<Rightarrow> yk_client \<Rightarrow> (go_err + create_result) action" where
  "charge_provider E local i client =
     bindP get_time (\<lambda>started.
     bindP (provider_call (yk_create_payment (se_yk E) client (provider_request E local i))) (\<lambda>result.
     bindP (record_provider_call E OperationCreatePayment (error_of result) started) (\<lambda>_.
       case result of
         Inl e \<Rightarrow> handle_create_failure E local e
       | Inr pp \<Rightarrow> record_created E local pp)))"

definition call_provider ::
  "service_env \<Rightarrow> local_creation \<Rightarrow> create_payment_input \<Rightarrow> (go_err + create_result) action" where
  "call_provider E local i =
     (let p = lc_payment local; pid = pay_id p in
      bindE (provider_credentials E (pay_provider_account_id p)) (\<lambda>(shop, secret).
      case validate_transition (pay_status p) StatusCreating of
        Some e \<Rightarrow> Ret (Inl e)
      | None \<Rightarrow>
        bindE (mark_payment_creating pid) (\<lambda>_.
        bindE (exec Pool (start_payment_operation (lc_operation_id local))) (\<lambda>_.
          charge_provider E local i (new_client (se_base_url E) shop secret)))))"

subsection \<open>Create\<close>

definition create_with_account ::
  "service_env \<Rightarrow> application \<Rightarrow> string \<Rightarrow> bytes \<Rightarrow> create_payment_input \<Rightarrow> account_row \<Rightarrow>
   (go_err + create_result) action" where
  "create_with_account E app key hash i account =
     bindP (create_local E app account key hash i) (\<lambda>r.
       case r of
         Inr local \<Rightarrow> call_provider E local i
       | Inl e \<Rightarrow>
           if err_is e PErrIdempotencyRace then
             bindP (exec Pool (get_idempotency_request (app_id app) key Pool)) (\<lambda>r.
               case r of
                 Inl _ \<Rightarrow> Ret (Inl e)
               | Inr raced \<Rightarrow> replay E (app_id app) raced hash)
           else Ret (Inl e))"

definition create_new ::
  "service_env \<Rightarrow> application \<Rightarrow> string \<Rightarrow> bytes \<Rightarrow> create_payment_input \<Rightarrow> (go_err + create_result) action" where
  "create_new E app key hash i =
     bindE (exec Pool (order_has_succeeded_payment (app_id app) (in_order_id i) Pool)) (\<lambda>paid.
       if paid then Ret (Inl (Sentinel PErrOrderAlreadySucceeded))
       else bindP (exec Pool (get_default_provider_account (app_id app) Pool)) (\<lambda>r.
         case r of
           Inl e \<Rightarrow> Ret (Inl (if err_is e ErrNoRows then Sentinel PErrNoProviderAccount else e))
         | Inr account \<Rightarrow> create_with_account E app key hash i account))"

definition create ::
  "service_env \<Rightarrow> application \<Rightarrow> create_payment_input \<Rightarrow> string \<Rightarrow> (go_err + create_result) action" where
  "create E app input key =
     (case validate (se_net E) (service_urls E) app key input of
        Inl e \<Rightarrow> Ret (Inl e)
      | Inr i \<Rightarrow>
          let hash = request_hash (se_sha E) i in
          bindP (exec Pool (get_idempotency_request (app_id app) key Pool)) (\<lambda>r.
            case r of
              Inr existing \<Rightarrow> replay E (app_id app) existing hash
            | Inl e \<Rightarrow>
                if err_is e ErrNoRows then create_new E app key hash i else Ret (Inl e)))"

definition CreatePayment ::
  "service_env \<Rightarrow> application \<Rightarrow> string \<Rightarrow> create_payment_input \<Rightarrow> (go_err + create_result) action" where
  "CreatePayment E app key input = create E app input key"

definition CreateAttempt ::
  "service_env \<Rightarrow> application \<Rightarrow> string \<Rightarrow> string \<Rightarrow> create_payment_input \<Rightarrow>
   (go_err + create_result) action" where
  "CreateAttempt E app order key input = create E app (input\<lparr>in_order_id := order\<rparr>) key"

subsection \<open>Reading with refresh\<close>

definition apply_provider_state ::
  "service_env \<Rightarrow> payment \<Rightarrow> provider_payment \<Rightarrow> (go_err + payment) action" where
  "apply_provider_state E p result =
     (case internal_status (pp_status result) of
        None \<Rightarrow> Ret (Inr p)
      | Some next \<Rightarrow>
          if \<not> can_transition (pay_status p) next then Ret (Inr p)
          else bindP get_time (\<lambda>t.
            bindE (apply_provider_status (pay_id p) next (to_timestamp (t + se_poll E))) (\<lambda>_.
              get_payment_row E (pay_application_id p) (pay_id p))))"

definition refresh :: "service_env \<Rightarrow> payment \<Rightarrow> (go_err + payment) action" where
  "refresh E p =
     bindE (provider_credentials E (pay_provider_account_id p)) (\<lambda>(shop, secret).
     bindP get_time (\<lambda>started.
     bindP (provider_call (yk_get_payment (se_yk E) (new_client (se_base_url E) shop secret)
              (deref_string (pay_provider_payment_id p)))) (\<lambda>result.
     bindP (record_provider_call E OperationGetPayment (error_of result) started) (\<lambda>_.
       case result of
         Inl e \<Rightarrow> Ret (Inl e)
       | Inr pp \<Rightarrow> apply_provider_state E p pp))))"

definition maybe_refresh :: "service_env \<Rightarrow> payment \<Rightarrow> payment action" where
  "maybe_refresh E p =
     (if terminal (pay_status p) \<or> pay_provider_payment_id p = None then Ret p
      else bindP get_time (\<lambda>t.
        if (case pay_next_check_at p of Some n \<Rightarrow> n > t | None \<Rightarrow> False) then Ret p
        else bindP (refresh E p) (\<lambda>r.
          Ret (case r of Inl _ \<Rightarrow> p | Inr refreshed \<Rightarrow> refreshed))))"

definition GetPayment :: "service_env \<Rightarrow> uuid \<Rightarrow> uuid \<Rightarrow> (go_err + payment) action" where
  "GetPayment E app pid =
     bindE (get_payment_row E app pid) (\<lambda>p. bindP (maybe_refresh E p) (\<lambda>p'. Ret (Inr p')))"

record list_query =
  lq_order_id :: string
  lq_limit :: int

definition effective_limit :: "int \<Rightarrow> int" where
  "effective_limit limit =
     (if limit \<le> 0 then DefaultListLimit else if limit > MaxListLimit then MaxListLimit else limit)"

definition ListPayments :: "service_env \<Rightarrow> uuid \<Rightarrow> list_query \<Rightarrow> (go_err + payment list) action" where
  "ListPayments E app query =
     (let trimmed = trim_space (lq_order_id query);
          order = (if trimmed \<noteq> [] then Some trimmed else None) in
      bindE (exec Pool (list_payments_for_application app order (effective_limit (lq_limit query)) Pool))
        (\<lambda>rows. Ret (to_payments (se_decode_metadata E) rows)))"

definition UnfinishedCount :: "(go_err + int) action" where
  "UnfinishedCount = exec Pool (count_unfinished_payments Pool)"

end
