(* ===== verification/PaymentInvariant.thy ===== *)
theory PaymentInvariant
  imports PaymentService
begin

text \<open>
  The contract of the payment service as a concurrent system. \<open>invariant\<close> is what holds between
  any two actions, \<open>evolves\<close> and \<open>step_ok\<close> are how the state may change (over time, and in one
  action), \<open>own\<close> is what one request has to itself: its transaction, the payment it is creating, the
  operation whose provider key it holds. They instantiate the interface \<open>rely_guarantee\<close>.
\<close>

subsection \<open>Changes of single rows\<close>

definition same_identity :: "payment_row \<Rightarrow> payment_row \<Rightarrow> bool" where
  "same_identity r s \<longleftrightarrow> p_id r = p_id s \<and> p_application_id r = p_application_id s \<and>
     p_provider_account_id r = p_provider_account_id s \<and> p_order_id r = p_order_id s \<and>
     p_attempt_number r = p_attempt_number s \<and> p_provider r = p_provider s \<and>
     p_amount_minor r = p_amount_minor s \<and> p_currency r = p_currency s \<and>
     p_description r = p_description s \<and> p_return_url r = p_return_url s \<and>
     p_metadata r = p_metadata s \<and> p_created_at r = p_created_at s"

text \<open>A payment row changes only by a legal transition, and a provider payment once known stays.\<close>

definition payment_moves :: "payment_row \<Rightarrow> payment_row \<Rightarrow> bool" where
  "payment_moves r s \<longleftrightarrow> s = r \<or>
     (same_identity r s \<and> can_transition (p_status r) (p_status s) \<and>
      (p_provider_payment_id r \<noteq> None \<longrightarrow>
         p_provider_payment_id s = p_provider_payment_id r \<and> p_checkout_url s = p_checkout_url r))"

definition op_transition :: "operation_status \<Rightarrow> operation_status \<Rightarrow> bool" where
  "op_transition s t \<longleftrightarrow>
     (s = OperationPending \<and> t = OperationInProgress) \<or>
     (s = OperationInProgress \<and> t \<in> {OperationSucceeded, OperationFailed, OperationUnknown})"

definition operation_moves :: "operation_row \<Rightarrow> operation_row \<Rightarrow> bool" where
  "operation_moves r s \<longleftrightarrow> s = r \<or>
     (o_id r = o_id s \<and> o_payment_id r = o_payment_id s \<and>
      o_provider_idempotency_key r = o_provider_idempotency_key s \<and>
      o_request_hash r = o_request_hash s \<and> o_request_body r = o_request_body s \<and>
      op_transition (o_status r) (o_status s))"

definition payment_becomes :: "payment_row \<Rightarrow> payment_row \<Rightarrow> bool" where
  "payment_becomes = payment_moves\<^sup>*\<^sup>*"

definition operation_becomes :: "operation_row \<Rightarrow> operation_row \<Rightarrow> bool" where
  "operation_becomes = operation_moves\<^sup>*\<^sup>*"

lemma becomes_refl [simp]: "payment_becomes r r" "operation_becomes op op"
  by (simp_all add: payment_becomes_def operation_becomes_def)

lemma becomes_trans:
  "payment_becomes r s \<Longrightarrow> payment_becomes s t \<Longrightarrow> payment_becomes r t"
  "operation_becomes x y \<Longrightarrow> operation_becomes y z \<Longrightarrow> operation_becomes x z"
  by (simp_all add: payment_becomes_def operation_becomes_def)

lemma moves_becomes:
  "payment_moves r s \<Longrightarrow> payment_becomes r s" "operation_moves x y \<Longrightarrow> operation_becomes x y"
  by (simp_all add: payment_becomes_def operation_becomes_def)

lemma becomes_identity: "payment_becomes r s \<Longrightarrow> same_identity r s"
  unfolding payment_becomes_def
  by (induction rule: rtranclp_induct) (auto simp: payment_moves_def same_identity_def)

lemma becomes_status: "payment_becomes r s \<Longrightarrow> may_become (p_status r) (p_status s)"
  unfolding payment_becomes_def
  by (induction rule: rtranclp_induct)
     (auto simp: payment_moves_def intro: may_become_trans may_become_step)

lemma moves_terminal: "payment_moves r s \<Longrightarrow> terminal (p_status r) \<Longrightarrow> s = r"
  by (auto simp: payment_moves_def terminal_iff_no_transition)

lemma becomes_terminal: "payment_becomes r s \<Longrightarrow> terminal (p_status r) \<Longrightarrow> s = r"
  unfolding payment_becomes_def
  by (induction rule: rtranclp_induct) (auto dest: moves_terminal)

lemma becomes_provider_id:
  "payment_becomes r s \<Longrightarrow> p_provider_payment_id r \<noteq> None \<Longrightarrow>
     p_provider_payment_id s = p_provider_payment_id r \<and> p_checkout_url s = p_checkout_url r"
  unfolding payment_becomes_def
  by (induction rule: rtranclp_induct) (auto simp: payment_moves_def)

lemma operation_becomes_same:
  "operation_becomes x y \<Longrightarrow> o_id y = o_id x \<and> o_payment_id y = o_payment_id x \<and>
     o_provider_idempotency_key y = o_provider_idempotency_key x \<and>
     o_request_hash y = o_request_hash x \<and> o_request_body y = o_request_body x \<and>
     (o_status x \<noteq> OperationPending \<longrightarrow> o_status y \<noteq> OperationPending)"
  unfolding operation_becomes_def
  by (induction rule: rtranclp_induct) (auto simp: operation_moves_def op_transition_def)

subsection \<open>Changes of the state\<close>

definition key_count :: "string \<Rightarrow> world \<Rightarrow> nat" where
  "key_count k w = length (filter (\<lambda>x. wire_idempotence_key x = Some k) (w_wire w))"

abbreviation "payments_of w \<equiv> db_payments (w_db w)"
abbreviation "operations_of w \<equiv> db_operations (w_db w)"
abbreviation "idempotency_of w \<equiv> db_idempotency (w_db w)"
abbreviation "txs_of w \<equiv> db_txs (w_db w)"

definition evolves :: "world \<Rightarrow> world \<Rightarrow> bool" where
  "evolves w v \<longleftrightarrow>
     (\<forall>r \<in> set (payments_of w). \<exists>s \<in> set (payments_of v). payment_becomes r s) \<and>
     (\<forall>r \<in> set (operations_of w). \<exists>s \<in> set (operations_of v). operation_becomes r s) \<and>
     set (idempotency_of w) \<subseteq> set (idempotency_of v) \<and>
     db_next (w_db w) \<le> db_next (w_db v) \<and> db_clock (w_db w) \<le> db_clock (w_db v) \<and>
     (\<exists>sent. w_wire v = w_wire w @ sent)"

text \<open>One action: rows move, or are new payments in their first state.\<close>

definition step_ok :: "world \<Rightarrow> world \<Rightarrow> bool" where
  "step_ok w v \<longleftrightarrow>
     (\<forall>r \<in> set (payments_of w). \<exists>s \<in> set (payments_of v). payment_moves r s) \<and>
     (\<forall>s \<in> set (payments_of v). (\<exists>r \<in> set (payments_of w). payment_moves r s) \<or>
        p_status s = StatusCreated) \<and>
     (\<forall>r \<in> set (operations_of w). \<exists>s \<in> set (operations_of v). operation_moves r s) \<and>
     set (idempotency_of w) \<subseteq> set (idempotency_of v) \<and>
     db_next (w_db w) \<le> db_next (w_db v) \<and> db_clock (w_db w) \<le> db_clock (w_db v) \<and>
     (\<exists>sent. w_wire v = w_wire w @ sent)"

lemma step_ok_evolves: "step_ok w v \<Longrightarrow> evolves w v"
  unfolding step_ok_def evolves_def by (meson moves_becomes)

lemma evolves_refl [simp]: "evolves w w"
proof -
  have "\<exists>sent. w_wire w = w_wire w @ sent" by (rule exI [of _ "[]"]) simp
  moreover have "\<forall>r \<in> A. \<exists>s \<in> A. payment_becomes r s" for A
    by (meson becomes_refl(1))
  moreover have "\<forall>r \<in> A. \<exists>s \<in> A. operation_becomes r s" for A
    by (meson becomes_refl(2))
  ultimately show ?thesis by (simp add: evolves_def)
qed

lemma follow:
  assumes "\<forall>r \<in> A. \<exists>s \<in> B. R r s" "\<forall>s \<in> B. \<exists>t \<in> C. R s t" "\<And>r s t. R r s \<Longrightarrow> R s t \<Longrightarrow> R r t"
  shows "\<forall>r \<in> A. \<exists>t \<in> C. R r t"
  using assms by blast

lemma evolves_trans: "evolves u v \<Longrightarrow> evolves v w \<Longrightarrow> evolves u w"
  unfolding evolves_def
proof (elim conjE exE, intro conjI)
  assume p: "\<forall>r \<in> set (payments_of u). \<exists>s \<in> set (payments_of v). payment_becomes r s"
    "\<forall>r \<in> set (payments_of v). \<exists>s \<in> set (payments_of w). payment_becomes r s"
  show "\<forall>r \<in> set (payments_of u). \<exists>s \<in> set (payments_of w). payment_becomes r s"
    by (rule follow [OF p becomes_trans(1)])
  assume o: "\<forall>r \<in> set (operations_of u). \<exists>s \<in> set (operations_of v). operation_becomes r s"
    "\<forall>r \<in> set (operations_of v). \<exists>s \<in> set (operations_of w). operation_becomes r s"
  show "\<forall>r \<in> set (operations_of u). \<exists>s \<in> set (operations_of w). operation_becomes r s"
    by (rule follow [OF o becomes_trans(2)])
qed auto

subsection \<open>Ownership\<close>

record own =
  own_tx :: "nat option"
  own_pay :: "uuid option"
  own_op :: "(uuid \<times> string) option"

definition nothing :: own where
  "nothing = \<lparr>own_tx = None, own_pay = None, own_op = None\<rparr>"

fun apart :: "'a option \<Rightarrow> 'a option \<Rightarrow> bool" where
  "apart (Some x) (Some y) \<longleftrightarrow> x \<noteq> y"
| "apart _ _ \<longleftrightarrow> True"

definition disjoint_own :: "own \<Rightarrow> own \<Rightarrow> bool" where
  "disjoint_own q r \<longleftrightarrow> apart (own_tx q) (own_tx r) \<and> apart (own_pay q) (own_pay r) \<and>
     apart (map_option fst (own_op q)) (map_option fst (own_op r)) \<and>
     apart (map_option snd (own_op q)) (map_option snd (own_op r))"

definition within :: "own \<Rightarrow> world \<Rightarrow> bool" where
  "within q w \<longleftrightarrow>
     (\<forall>t. own_tx q = Some t \<longrightarrow> t < db_next (w_db w)) \<and>
     (\<forall>p. own_pay q = Some p \<longrightarrow> (\<exists>r \<in> set (payments_of w). p_id r = p \<and> p_provider_payment_id r = None)) \<and>
     (\<forall>i k. own_op q = Some (i, k) \<longrightarrow>
        (\<exists>r \<in> set (operations_of w). o_id r = i \<and> o_provider_idempotency_key r = k))"

text \<open>What the actions of others leave alone.\<close>

definition keeps :: "own \<Rightarrow> world \<Rightarrow> world \<Rightarrow> bool" where
  "keeps q w v \<longleftrightarrow>
     (\<forall>t. own_tx q = Some t \<longrightarrow> own_txs (Tx t) (w_db v) = own_txs (Tx t) (w_db w)) \<and>
     (\<forall>p. own_pay q = Some p \<longrightarrow> (\<forall>r \<in> set (payments_of w). p_id r = p \<longrightarrow> r \<in> set (payments_of v))) \<and>
     (\<forall>i k. own_op q = Some (i, k) \<longrightarrow>
        (\<forall>r \<in> set (operations_of w). o_id r = i \<longrightarrow> r \<in> set (operations_of v)) \<and>
        key_count k v = key_count k w)"

lemma keeps_refl [simp]: "keeps q w w"
  by (simp add: keeps_def)

lemma keeps_trans: "keeps q u v \<Longrightarrow> keeps q v w \<Longrightarrow> keeps q u w"
  by (simp add: keeps_def)

definition rely :: "own \<Rightarrow> world \<Rightarrow> world \<Rightarrow> bool" where
  "rely q w v \<longleftrightarrow> evolves w v \<and> keeps q w v"

definition guar :: "own \<Rightarrow> own \<Rightarrow> world \<Rightarrow> world \<Rightarrow> bool" where
  "guar q q' w v \<longleftrightarrow> step_ok w v \<and> within q' v \<and>
     (\<forall>r. disjoint_own q r \<longrightarrow> within r w \<longrightarrow> keeps r w v \<and> disjoint_own q' r)"

lemma apart_sym: "apart x y \<Longrightarrow> apart y x"
  by (cases x; cases y) auto

lemma apart_None [simp]: "apart None y" "apart x None"
  by (cases x; simp)+

lemma nothing_sel [simp]: "own_tx nothing = None" "own_pay nothing = None" "own_op nothing = None"
  by (simp_all add: nothing_def)

lemma within_nothing [simp]: "within nothing w" "disjoint_own nothing r"
  by (simp_all add: within_def disjoint_own_def)

lemma rely_keeps_within:
  assumes "rely q w v" "within q w"
  shows "within q v"
proof -
  have "t < db_next (w_db v)" if "own_tx q = Some t" for t
    using assms that by (auto simp: within_def rely_def evolves_def)
  moreover have "\<exists>r \<in> set (payments_of v). p_id r = p \<and> p_provider_payment_id r = None"
    if "own_pay q = Some p" for p
    using assms that by (auto simp: within_def rely_def keeps_def)
  moreover have "\<exists>r \<in> set (operations_of v). o_id r = i \<and> o_provider_idempotency_key r = k"
    if "own_op q = Some (i, k)" for i k
    using assms that by (auto simp: within_def rely_def keeps_def)
  ultimately show ?thesis by (simp add: within_def)
qed

subsection \<open>The invariant\<close>

definition payment_wf :: "payment_row \<Rightarrow> bool" where
  "payment_wf r \<longleftrightarrow> payment_checks r \<and>
     (p_status r \<in> {StatusCreated, StatusCreating, StatusCreationUnknown} \<longrightarrow>
        p_provider_payment_id r = None \<and> p_checkout_url r = None) \<and>
     (p_status r \<in> {StatusPending, StatusSucceeded} \<longrightarrow>
        p_provider_payment_id r \<noteq> None \<and> p_checkout_url r \<noteq> None) \<and>
     (p_completed_at r \<noteq> None \<longleftrightarrow> terminal (p_status r))"

text \<open>A request that asks the provider for exactly the payment of a row.\<close>

definition charge_of :: "service_env \<Rightarrow> wire_request \<Rightarrow> payment_row \<Rightarrow> bool" where
  "charge_of E q r \<longleftrightarrow> (\<exists>b. wire_body q = Some b \<and>
     body_amount b = \<lparr>amount_value = format_amount_minor (p_amount_minor r), amount_currency = p_currency r\<rparr> \<and>
     map_of (body_metadata b) ''payment_id'' = Some (se_uuid_text E (p_id r)) \<and>
     map_of (body_metadata b) ''order_id'' = Some (p_order_id r))"

definition creation_clash :: "operation_row \<Rightarrow> operation_row \<Rightarrow> bool" where
  "creation_clash r s \<longleftrightarrow> operation_clash r s \<or> o_payment_id r = o_payment_id s"

interpretation crea: keyed creation_clash
  by unfold_locales (auto simp: creation_clash_def operation_clash_def)

definition all_rows :: "(database \<Rightarrow> 'r list) \<Rightarrow> (tx \<Rightarrow> 'r list) \<Rightarrow> database \<Rightarrow> 'r list" where
  "all_rows rows pending d = rows d @ concat (map pending (db_txs d))"

definition no_clashes :: "database \<Rightarrow> bool" where
  "no_clashes d \<longleftrightarrow>
     clash_free payment_clash (all_rows db_payments t_payments d) \<and>
     clash_free creation_clash (all_rows db_operations t_operations d) \<and>
     clash_free idempotency_clash (all_rows db_idempotency t_idempotency d)"

definition op_for :: "payment_row list \<Rightarrow> operation_row \<Rightarrow> bool" where
  "op_for rows op \<longleftrightarrow> (\<exists>r \<in> set rows. p_id r = o_payment_id op)"

definition request_for :: "payment_row list \<Rightarrow> idempotency_row \<Rightarrow> bool" where
  "request_for rows i \<longleftrightarrow>
     (\<exists>r \<in> set rows. i_payment_id i = Some (p_id r) \<and> p_application_id r = i_application_id i)"

definition tx_wf :: "nat \<Rightarrow> tx \<Rightarrow> bool" where
  "tx_wf n x \<longleftrightarrow> t_id x < n \<and>
     (\<forall>r \<in> set (t_payments x). payment_wf r \<and> p_status r = StatusCreated) \<and>
     (\<forall>r \<in> set (t_operations x). o_status r = OperationPending \<and> op_for (t_payments x) r) \<and>
     (\<forall>r \<in> set (t_idempotency x). request_for (t_payments x) r)"

definition rows_wf :: "database \<Rightarrow> bool" where
  "rows_wf d \<longleftrightarrow>
     (\<forall>r \<in> set (db_payments d). payment_wf r) \<and>
     (\<forall>r \<in> set (db_operations d). op_for (db_payments d) r) \<and>
     (\<forall>r \<in> set (db_idempotency d). request_for (db_payments d) r)"

definition wire_wf :: "service_env \<Rightarrow> world \<Rightarrow> bool" where
  "wire_wf E w \<longleftrightarrow>
     (\<forall>k. key_count k w \<le> 1) \<and>
     (\<forall>q \<in> set (w_wire w). \<forall>k. wire_idempotence_key q = Some k \<longrightarrow>
        (\<exists>op \<in> set (operations_of w). o_provider_idempotency_key op = k \<and> o_status op \<noteq> OperationPending \<and>
           (\<exists>r \<in> set (payments_of w). p_id r = o_payment_id op \<and> charge_of E q r)))"

text \<open>The text of a UUID (36 characters) fits the key column and is not empty.\<close>

definition uuid_text_ok :: "service_env \<Rightarrow> bool" where
  "uuid_text_ok E \<longleftrightarrow>
     (\<forall>u. varchar 64 (se_uuid_text E u) = Inr (se_uuid_text E u) \<and> se_uuid_text E u \<noteq> [])"

definition invariant :: "service_env \<Rightarrow> world \<Rightarrow> bool" where
  "invariant E w \<longleftrightarrow> uuid_text_ok E \<and> no_clashes (w_db w) \<and> rows_wf (w_db w) \<and> wire_wf E w \<and>
     distinct (map t_id (txs_of w)) \<and> (\<forall>x \<in> set (txs_of w). tx_wf (db_next (w_db w)) x)"

text \<open>What the rest of the world may do between two actions.\<close>

definition environment :: "world \<Rightarrow> world \<Rightarrow> bool" where
  "environment w v \<longleftrightarrow> (\<exists>n f r q t. db_clock (w_db w) \<le> t \<and>
     v = w\<lparr>w_now := n, w_faults := f, w_replies := r, w_random := q,
           w_db := (w_db w)\<lparr>db_clock := t\<rparr>\<rparr>)"

subsection \<open>Actions that touch no payment table\<close>

definition quiet :: "world \<Rightarrow> world \<Rightarrow> bool" where
  "quiet w v \<longleftrightarrow> payments_of v = payments_of w \<and> operations_of v = operations_of w \<and>
     idempotency_of v = idempotency_of w \<and> txs_of v = txs_of w \<and> w_wire v = w_wire w \<and>
     db_next (w_db w) \<le> db_next (w_db v) \<and> db_clock (w_db w) \<le> db_clock (w_db v)"

lemma quiet_step_ok: "quiet w v \<Longrightarrow> step_ok w v"
  unfolding quiet_def step_ok_def payment_moves_def operation_moves_def by auto

lemma quiet_keeps: "quiet w v \<Longrightarrow> keeps q w v"
  by (simp add: quiet_def keeps_def own_txs_def key_count_def)

lemma quiet_within: "quiet w v \<Longrightarrow> within q w \<Longrightarrow> within q v"
  by (auto simp: quiet_def within_def)

lemma quiet_guar: "quiet w v \<Longrightarrow> within q w \<Longrightarrow> guar q q w v"
  by (simp add: guar_def quiet_step_ok quiet_keeps quiet_within)

lemma quiet_rely: "quiet w v \<Longrightarrow> rely q w v"
  by (simp add: rely_def quiet_step_ok step_ok_evolves quiet_keeps)

lemma quiet_invariant: "quiet w v \<Longrightarrow> invariant E w \<Longrightarrow> invariant E v"
  unfolding quiet_def invariant_def no_clashes_def rows_wf_def wire_wf_def all_rows_def key_count_def
  by (auto simp: tx_wf_def)

lemma environment_quiet: "environment w v \<Longrightarrow> quiet w v"
  by (auto simp: environment_def quiet_def)

subsection \<open>The interface\<close>

interpretation pay_rg: rely_guarantee "invariant E" rely guar within disjoint_own nothing environment
  for E
proof
  fix q r q' :: own and s t u :: world
  show "rely q s s" by (simp add: rely_def)
  show "rely q s t \<Longrightarrow> rely q t u \<Longrightarrow> rely q s u"
    by (auto simp: rely_def intro: evolves_trans keeps_trans)
  show "guar q q' s t \<Longrightarrow> disjoint_own q r \<Longrightarrow> within r s \<Longrightarrow> rely r s t"
    by (simp add: guar_def rely_def step_ok_evolves)
  show "guar q q' s t \<Longrightarrow> within q s \<Longrightarrow> within q' t"
    by (simp add: guar_def)
  show "guar q q' s t \<Longrightarrow> disjoint_own q r \<Longrightarrow> within q s \<Longrightarrow> within r s \<Longrightarrow> invariant E s \<Longrightarrow>
      disjoint_own q' r"
    by (simp add: guar_def)
  show "rely q s t \<Longrightarrow> within q s \<Longrightarrow> within q t" by (rule rely_keeps_within)
  show "disjoint_own q r \<Longrightarrow> disjoint_own r q"
    by (simp add: disjoint_own_def apart_sym)
  show "disjoint_own nothing r" "within nothing s" by simp_all
  show "environment s t \<Longrightarrow> rely q s t" by (simp add: environment_quiet quiet_rely)
  show "environment s t \<Longrightarrow> invariant E s \<Longrightarrow> invariant E t"
    by (rule quiet_invariant [OF environment_quiet])
qed

end
