(* ===== verification/PaymentActions.thy ===== *)
theory PaymentActions
  imports PaymentInvariant
begin

text \<open>
  The actions of the payment service against the invariant: transactions, updates of a payment or
  an operation, and the call that asks the provider for a payment. Each is shown to keep the
  invariant and to give the guarantee, for the ownership the service has at that point.
\<close>

abbreviation "okp E \<equiv> pay_rg.ok E"

subsection \<open>Statements\<close>

lemma stmts_irrelevant [simp]:
  "invariant E (w\<lparr>w_stmts := n\<rparr>) = invariant E w"
  "within q (w\<lparr>w_stmts := n\<rparr>) = within q w"
  "guar q q' w (v\<lparr>w_stmts := n\<rparr>) = guar q q' w v"
  "rely q (w\<lparr>w_stmts := n\<rparr>) v = rely q w v"
  by (simp_all add: invariant_def wire_wf_def key_count_def within_def guar_def step_ok_def keeps_def
        rely_def evolves_def)

definition settles ::
  "service_env \<Rightarrow> (go_err + 'a \<Rightarrow> own \<Rightarrow> world \<Rightarrow> bool) \<Rightarrow> own \<Rightarrow> world \<Rightarrow> go_err + 'a \<Rightarrow> database \<Rightarrow> bool" where
  "settles E Q q t r d \<longleftrightarrow>
     invariant E (t\<lparr>w_db := d\<rparr>) \<and>
     (\<exists>q'. guar q q' t (t\<lparr>w_db := d\<rparr>) \<and>
        (\<forall>v. rely q' (t\<lparr>w_db := d\<rparr>) v \<longrightarrow> invariant E v \<longrightarrow> within q' v \<longrightarrow>
           Q r q' v \<and> (\<forall>msg. Q (Inl (Opaque msg)) q' v)))"

lemma quiet_self: "quiet w (w\<lparr>w_stmts := n\<rparr>)"
  by (simp add: quiet_def)

lemma settles_statement:
  assumes "statement c eff t = (r, u)" "invariant E t" "within q t"
    and err: "\<And>v msg. rely q t v \<Longrightarrow> invariant E v \<Longrightarrow> within q v \<Longrightarrow> Q (Inl (Opaque msg)) q v"
    and eff: "\<And>r d. conn_open c (w_db t) \<Longrightarrow> eff (w_db t) = (r, d) \<Longrightarrow> settles E Q q t r d"
  shows "invariant E u \<and> (\<exists>q'. guar q q' t u \<and>
    (\<forall>v. rely q' u v \<longrightarrow> invariant E v \<longrightarrow> within q' v \<longrightarrow> Q r q' v))"
proof -
  have same: "invariant E (t\<lparr>w_stmts := n\<rparr>) \<and> (\<exists>q'. guar q q' t (t\<lparr>w_stmts := n\<rparr>) \<and>
      (\<forall>v. rely q' (t\<lparr>w_stmts := n\<rparr>) v \<longrightarrow> invariant E v \<longrightarrow> within q' v \<longrightarrow> Q (Inl (Opaque msg)) q' v))"
    for n msg
    using assms(2,3) quiet_guar [OF quiet_self, of q t n] err by (intro conjI exI [of _ q]) auto
  have swap: "t\<lparr>w_stmts := n, w_db := d\<rparr> = t\<lparr>w_db := d\<rparr>\<lparr>w_stmts := n\<rparr>" for n d by simp
  from assms(1) show ?thesis
  proof (cases rule: statement_cases)
    case (2 d)
    with eff [of r d] show ?thesis by (auto simp: settles_def swap)
  next
    case (3 msg r0 d)
    with eff [of r0 d] show ?thesis by (auto simp: settles_def swap)
  qed (use same in \<open>simp_all add: tx_closed_def\<close>)
qed

lemma ok_exec:
  assumes "\<And>t msg. rely q s t \<Longrightarrow> invariant E t \<Longrightarrow> within q t \<Longrightarrow> Q (Inl (Opaque msg)) q t"
    and "\<And>t r d. rely q s t \<Longrightarrow> invariant E t \<Longrightarrow> within q t \<Longrightarrow> conn_open c (w_db t) \<Longrightarrow>
      eff (w_db t) = (r, d) \<Longrightarrow> settles E Q q t r d"
  shows "okp E Q (exec c eff) q s"
  unfolding exec_def
proof (rule pay_rg.ok_act)
  fix t a u
  assume t: "rely q s t" "invariant E t" "within q t" "statement c eff t = (a, u)"
  show "invariant E u \<and> (\<exists>q'. guar q q' t u \<and>
      (\<forall>v. rely q' u v \<longrightarrow> invariant E v \<longrightarrow> within q' v \<longrightarrow> Q a q' v))"
    by (rule settles_statement [OF t(4,2,3)])
      (use assms t pay_rg.rely_trans in blast)+
qed

lemma ok_exec_when:
  fixes Q :: "go_err + 'a \<Rightarrow> own \<Rightarrow> world \<Rightarrow> bool"
  assumes "\<And>t msg. rely q s t \<Longrightarrow> invariant E t \<Longrightarrow> within q t \<Longrightarrow> Q (Inl (Opaque msg)) q t"
    and "\<And>t r d. rely q s t \<Longrightarrow> invariant E t \<Longrightarrow> within q t \<Longrightarrow> conn_open c (w_db t) \<Longrightarrow>
      ready (w_db t) \<Longrightarrow> eff (w_db t) = (r, d) \<Longrightarrow> settles E Q q t r d"
  shows "okp E Q (exec_when ready c eff) q s"
  unfolding exec_when_def
proof (rule pay_rg.ok_act_if)
  fix t a u
  assume t: "rely q s t" "invariant E t" "within q t" "statement c eff t = (a, u)"
    and g: "(case w_faults t (w_stmts t) of LostRequest _ \<Rightarrow> True | _ \<Rightarrow> False) \<or> ready (w_db t)"
  show "invariant E u \<and> (\<exists>q'. guar q q' t u \<and>
      (\<forall>v. rely q' u v \<longrightarrow> invariant E v \<longrightarrow> within q' v \<longrightarrow> Q a q' v))"
  proof (cases "ready (w_db t)")
    case True
    show ?thesis
      by (rule settles_statement [OF t(4,2,3)])
        (use assms t True pay_rg.rely_trans in blast)+
  next
    case False
    with g obtain msg where "w_faults t (w_stmts t) = LostRequest msg" by (auto split: fault.splits)
    with t(4) have "statement c (\<lambda>d. (Inl tx_closed, d)) t = (a, u)"
      by (simp add: statement_def Let_def)
    then show ?thesis
    proof (rule settles_statement [OF _ t(2,3)])
      fix r :: "go_err + 'a" and d
      assume "(Inl tx_closed, w_db t) = (r, d)"
      then show "settles E Q q t r d"
        using t(2,3) quiet_guar [of t t q] assms(1) t(1) pay_rg.rely_trans [of q s t]
        unfolding settles_def quiet_def tx_closed_def
        by (intro conjI exI [of _ q]) auto
    qed (use assms(1) t(1) pay_rg.rely_trans in blast)
  qed
qed

text \<open>Statements that touch none of the payment tables.\<close>

lemma settles_quiet:
  assumes "quiet t (t\<lparr>w_db := d\<rparr>)" "invariant E t" "within q t"
    and "\<And>v. rely q t v \<Longrightarrow> invariant E v \<Longrightarrow> within q v \<Longrightarrow> Q r q v \<and> (\<forall>msg. Q (Inl (Opaque msg)) q v)"
  shows "settles E Q q t r d"
  unfolding settles_def
proof (intro conjI exI [of _ q] allI impI)
  show "invariant E (t\<lparr>w_db := d\<rparr>)" "guar q q t (t\<lparr>w_db := d\<rparr>)"
    using assms quiet_invariant quiet_guar by auto
  fix v
  assume "rely q (t\<lparr>w_db := d\<rparr>) v" "invariant E v" "within q v"
  moreover have "rely q t (t\<lparr>w_db := d\<rparr>)" using assms(1) by (rule quiet_rely)
  ultimately have "rely q t v" using pay_rg.rely_trans by blast
  then show "Q r q v" "Q (Inl (Opaque msg)) q v" for msg
    using assms(4) \<open>invariant E v\<close> \<open>within q v\<close> by auto
qed

lemma ok_exec_quiet:
  assumes "\<And>t msg. rely q s t \<Longrightarrow> invariant E t \<Longrightarrow> within q t \<Longrightarrow> Q (Inl (Opaque msg)) q t"
    and "\<And>t r d. invariant E t \<Longrightarrow> eff (w_db t) = (r, d) \<Longrightarrow> quiet t (t\<lparr>w_db := d\<rparr>)"
    and "\<And>t r d v. rely q s t \<Longrightarrow> invariant E t \<Longrightarrow> within q t \<Longrightarrow> conn_open c (w_db t) \<Longrightarrow>
      eff (w_db t) = (r, d) \<Longrightarrow> rely q t v \<Longrightarrow> invariant E v \<Longrightarrow> within q v \<Longrightarrow> Q r q v"
  shows "okp E Q (exec c eff) q s"
  by (rule ok_exec; (rule settles_quiet)?) (use assms pay_rg.rely_trans in blast)+

lemma ok_quiet_act:
  assumes "\<And>w. quiet w (snd (f w))"
    and "\<And>t v. rely q s t \<Longrightarrow> invariant E t \<Longrightarrow> within q t \<Longrightarrow> rely q t v \<Longrightarrow> invariant E v \<Longrightarrow>
      within q v \<Longrightarrow> Q (fst (f t)) q v"
  shows "okp E Q (act f) q s"
proof (rule pay_rg.ok_act)
  fix t a u
  assume t: "rely q s t" "invariant E t" "within q t" "f t = (a, u)"
  with assms(1) [of t] have "quiet t u" by simp
  with t assms(2) show "invariant E u \<and> (\<exists>q'. guar q q' t u \<and>
      (\<forall>v. rely q' u v \<longrightarrow> invariant E v \<longrightarrow> within q' v \<longrightarrow> Q a q' v))"
    using quiet_invariant quiet_guar quiet_rely pay_rg.rely_trans by (metis fst_conv)
qed

subsection \<open>Updating rows\<close>

definition with_payments :: "payment_row list \<Rightarrow> world \<Rightarrow> world" where
  "with_payments rows w = w\<lparr>w_db := (w_db w)\<lparr>db_payments := rows\<rparr>\<rparr>"

definition with_operations :: "operation_row list \<Rightarrow> world \<Rightarrow> world" where
  "with_operations rows w = w\<lparr>w_db := (w_db w)\<lparr>db_operations := rows\<rparr>\<rparr>"

lemma moves_identity: "payment_moves r s \<Longrightarrow> same_identity r s"
  by (auto simp: payment_moves_def same_identity_def)

lemma identity_transfer:
  assumes "\<forall>r \<in> set rows. payment_moves r (g r)"
  shows "op_for rows op \<Longrightarrow> op_for (map g rows) op"
    and "request_for rows i \<Longrightarrow> request_for (map g rows) i"
    and "\<exists>r \<in> set rows. p_id r = p \<and> charge_of E q r \<Longrightarrow>
      \<exists>r \<in> set (map g rows). p_id r = p \<and> charge_of E q r"
proof -
  have same: "p_id (g r) = p_id r \<and> p_application_id (g r) = p_application_id r \<and>
      charge_of E q (g r) = charge_of E q r" if "r \<in> set rows" for r E q
    using moves_identity [OF bspec [OF assms that]] by (simp add: same_identity_def charge_of_def)
  show "op_for rows op \<Longrightarrow> op_for (map g rows) op" using same by (auto simp: op_for_def)
  show "request_for rows i \<Longrightarrow> request_for (map g rows) i" using same by (auto simp: request_for_def)
  show "\<exists>r \<in> set rows. p_id r = p \<and> charge_of E q r \<Longrightarrow>
      \<exists>r \<in> set (map g rows). p_id r = p \<and> charge_of E q r" using same by auto
qed

lemma payments_mapped_invariant:
  assumes inv: "invariant E w"
    and g: "\<forall>r \<in> set (payments_of w). payment_moves r (g r) \<and> payment_wf (g r)"
    and free: "clash_free payment_clash (map g (payments_of w) @ concat (map t_payments (txs_of w)))"
  shows "invariant E (with_payments (map g (payments_of w)) w)"
proof -
  let ?d = "w_db w" and ?v = "with_payments (map g (payments_of w)) w"
  have gm: "\<forall>r \<in> set (payments_of w). payment_moves r (g r)" using g by blast
  have "no_clashes (w_db ?v)"
    using inv free by (simp add: invariant_def no_clashes_def all_rows_def with_payments_def)
  moreover have "rows_wf (w_db ?v)"
    using inv g identity_transfer(1,2) [OF gm]
    by (simp add: invariant_def rows_wf_def with_payments_def)
  moreover have "wire_wf E ?v"
    using inv identity_transfer(3) [OF gm]
    unfolding invariant_def wire_wf_def with_payments_def key_count_def
    by simp (metis (no_types, lifting))
  ultimately show ?thesis
    using inv by (simp add: invariant_def with_payments_def)
qed

lemma payments_mapped_guar:
  assumes g: "\<forall>r \<in> set (payments_of w). payment_moves r (g r)"
    and mine: "\<And>z r. disjoint_own q z \<Longrightarrow> within z w \<Longrightarrow> r \<in> set (payments_of w) \<Longrightarrow>
      own_pay z = Some (p_id r) \<Longrightarrow> g r = r"
    and q': "within q' (with_payments (map g (payments_of w)) w)"
      "\<And>z. disjoint_own q z \<Longrightarrow> disjoint_own q' z"
  shows "guar q q' w (with_payments (map g (payments_of w)) w)"
proof -
  let ?v = "with_payments (map g (payments_of w)) w"
  have "step_ok w ?v"
    using g unfolding step_ok_def with_payments_def by (auto simp: operation_moves_def)
  moreover have "keeps z w ?v" if "disjoint_own q z" "within z w" for z
    using mine [OF that] by (force simp: keeps_def with_payments_def own_txs_def key_count_def)
  ultimately show ?thesis using q' by (simp add: guar_def)
qed

lemma updated_as_map:
  "updated_payments cond f d =
     map (\<lambda>r. if cond r then (f r)\<lparr>p_updated_at := db_clock d\<rparr> else r) (db_payments d)"
  by (simp add: updated_payments_def update_where_def)

lemma foreign_Pool [simp]: "foreign pending Pool d = concat (map pending (db_txs d))"
  by (simp add: foreign_def other_txs_def)

text \<open>An update of payments that are nobody else's.\<close>

lemma settles_update:
  assumes inv: "invariant E t" "within q t"
    and ready: "update_payments_ready cond f (w_db t)"
    and eff: "update_payments cond f (w_db t) = (r, d)"
    and moves: "\<And>x c. x \<in> set (payments_of t) \<Longrightarrow> cond x \<Longrightarrow>
      payment_moves x ((f x)\<lparr>p_updated_at := c\<rparr>) \<and> payment_wf ((f x)\<lparr>p_updated_at := c\<rparr>)"
    and mine: "\<And>z x. disjoint_own q z \<Longrightarrow> within z t \<Longrightarrow> x \<in> set (payments_of t) \<Longrightarrow> cond x \<Longrightarrow>
      own_pay z \<noteq> Some (p_id x)"
    and q': "\<And>z. disjoint_own q z \<Longrightarrow> disjoint_own q' z"
      "r = Inr () \<Longrightarrow> within q' (t\<lparr>w_db := d\<rparr>)"
    and okay: "\<And>v. r = Inr () \<Longrightarrow> invariant E (t\<lparr>w_db := d\<rparr>) \<Longrightarrow> step_ok t (t\<lparr>w_db := d\<rparr>) \<Longrightarrow>
      rely q' (t\<lparr>w_db := d\<rparr>) v \<Longrightarrow> invariant E v \<Longrightarrow> within q' v \<Longrightarrow>
      Q r q' v \<and> (\<forall>msg. Q (Inl (Opaque msg)) q' v)"
    and err: "\<And>v e. rely q t v \<Longrightarrow> invariant E v \<Longrightarrow> within q v \<Longrightarrow> Q (Inl e) q v"
  shows "settles E Q q t r d"
proof (cases "clash_free payment_clash (updated_payments cond f (w_db t))")
  case False
  with eff have r: "r = Inl (unique_violation ''payments'')" "d = w_db t"
    by (auto simp: update_payments_def)
  show ?thesis
  proof (rule settles_quiet)
    show "quiet t (t\<lparr>w_db := d\<rparr>)" by (simp add: quiet_def r)
  qed (use inv err r in auto)
next
  case True
  let ?g = "\<lambda>x. if cond x then (f x)\<lparr>p_updated_at := db_clock (w_db t)\<rparr> else x"
  from True eff have r: "r = Inr ()" and d: "d = (w_db t)\<lparr>db_payments := map ?g (payments_of t)\<rparr>"
    by (auto simp: update_payments_def updated_as_map)
  have t': "t\<lparr>w_db := d\<rparr> = with_payments (map ?g (payments_of t)) t" by (simp add: d with_payments_def)
  have wf: "\<forall>x \<in> set (payments_of t). payment_wf x"
    using inv by (simp add: invariant_def rows_wf_def)
  have g: "\<forall>x \<in> set (payments_of t). payment_moves x (?g x) \<and> payment_wf (?g x)"
    using moves wf by (auto simp: payment_moves_def)
  have "clash_free payment_clash (concat (map t_payments (txs_of t)))"
    using inv by (simp add: invariant_def no_clashes_def all_rows_def pay.append_iff)
  with True ready have "clash_free payment_clash (map ?g (payments_of t) @ concat (map t_payments (txs_of t)))"
    by (simp add: updated_as_map update_payments_ready_def pay.append_iff pay.free_set list_all_iff)
  then have "invariant E (t\<lparr>w_db := d\<rparr>)"
    unfolding t' using inv g by (intro payments_mapped_invariant) auto
  moreover have "guar q q' t (t\<lparr>w_db := d\<rparr>)"
    unfolding t'
    by (rule payments_mapped_guar) (use g mine q' r t' in auto)
  moreover from this have "step_ok t (t\<lparr>w_db := d\<rparr>)" by (simp add: guar_def)
  ultimately show ?thesis
    unfolding settles_def using okay [OF r] by blast
qed

subsection \<open>Transactions\<close>

text \<open>What a request knows of its own transaction; nobody else can change it.\<close>

definition tx_is ::
  "nat \<Rightarrow> payment_row list \<Rightarrow> operation_row list \<Rightarrow> idempotency_row list \<Rightarrow> world \<Rightarrow> bool" where
  "tx_is t ps os rs w \<longleftrightarrow> (\<exists>x. own_txs (Tx t) (w_db w) = [x] \<and> t_payments x = ps \<and>
     t_operations x = os \<and> t_idempotency x = rs)"

lemma tx_is_stable: "tx_is t ps os rs w \<Longrightarrow> rely q w v \<Longrightarrow> own_tx q = Some t \<Longrightarrow> tx_is t ps os rs v"
  by (simp add: tx_is_def rely_def keeps_def)

lemma own_txs_split:
  assumes "own_txs (Tx t) d = [x]"
  obtains as bs where "db_txs d = as @ x # bs" "t_id x = t" "\<forall>y \<in> set (as @ bs). t_id y \<noteq> t"
proof -
  from assms have "filter (\<lambda>x. t = t_id x) (db_txs d) = [x]"
    by (simp add: own_txs_def)
  then obtain us vs where d: "db_txs d = us @ x # vs" "\<forall>u \<in> set us. t \<noteq> t_id u" "t = t_id x"
    and vs: "filter (\<lambda>x. t = t_id x) vs = []"
    using filter_eq_ConsD [of "\<lambda>x. t = t_id x" "db_txs d" x "[]"] by metis
  from vs have "\<forall>u \<in> set vs. t \<noteq> t_id u" by (simp add: filter_empty_conv)
  with d show thesis by (intro that [of us vs]) auto
qed

lemma in_tx_split:
  assumes "db_txs d = as @ x # bs" "t_id x = t" "\<forall>y \<in> set (as @ bs). t_id y \<noteq> t"
  shows "db_txs (in_tx t f d) = as @ f x # bs"
proof -
  have "update_where (\<lambda>x. t_id x = t) f as = as" "update_where (\<lambda>x. t_id x = t) f bs = bs"
    using assms(3) by (auto intro: update_where_id)
  with assms(1,2) show ?thesis by (simp add: in_tx_def update_where_def)
qed

lemma in_tx_frame [simp]:
  "db_payments (in_tx t f d) = db_payments d" "db_operations (in_tx t f d) = db_operations d"
  "db_idempotency (in_tx t f d) = db_idempotency d" "db_next (in_tx t f d) = db_next d"
  "db_clock (in_tx t f d) = db_clock d"
  by (simp_all add: in_tx_def)

lemma own_txs_in_tx:
  assumes "\<And>x. t_id (f x) = t_id x"
  shows "own_txs (Tx t) (in_tx t f d) = map f (own_txs (Tx t) d)"
    and "u \<noteq> t \<Longrightarrow> own_txs (Tx u) (in_tx t f d) = own_txs (Tx u) d"
proof -
  have "filter (\<lambda>x. t = t_id x) (update_where (\<lambda>x. t_id x = t) f xs) = map f (filter (\<lambda>x. t = t_id x) xs)"
    "u \<noteq> t \<Longrightarrow> filter (\<lambda>x. u = t_id x) (update_where (\<lambda>x. t_id x = t) f xs) = filter (\<lambda>x. u = t_id x) xs"
    for xs by (induction xs) (auto simp: assms)
  then show "own_txs (Tx t) (in_tx t f d) = map f (own_txs (Tx t) d)"
    "u \<noteq> t \<Longrightarrow> own_txs (Tx u) (in_tx t f d) = own_txs (Tx u) d"
    by (simp_all add: own_txs_def in_tx_def)
qed

lemma all_rows_split:
  assumes "db_txs d = as @ x # bs" "t_id x = t" "\<forall>y \<in> set (as @ bs). t_id y \<noteq> t"
  shows "visible rows pending (Tx t) d = rows d @ pending x"
    and "foreign pending (Tx t) d = concat (map pending (as @ bs))"
proof -
  have "filter (\<lambda>y. t = t_id y) as = []" "filter (\<lambda>y. t = t_id y) bs = []"
    "filter (\<lambda>y. t \<noteq> t_id y) as = as" "filter (\<lambda>y. t \<noteq> t_id y) bs = bs"
    using assms(3) by (auto simp: filter_empty_conv intro: filter_True)
  with assms(1,2) show "visible rows pending (Tx t) d = rows d @ pending x"
    "foreign pending (Tx t) d = concat (map pending (as @ bs))"
    by (simp_all add: visible_def foreign_def own_txs_def other_txs_def)
qed

lemma all_rows_own:
  "db_txs d = as @ x # bs \<Longrightarrow>
     all_rows rows pending d =
       rows d @ concat (map pending as) @ pending x @ concat (map pending bs)"
  by (simp add: all_rows_def)

lemmas tx_split = all_rows_split all_rows_own in_tx_split

lemma tx_wf_mono: "tx_wf n x \<Longrightarrow> n \<le> m \<Longrightarrow> tx_wf m x"
  by (simp add: tx_wf_def)

definition tx_changed :: "nat \<Rightarrow> (tx \<Rightarrow> tx) \<Rightarrow> nat \<Rightarrow> world \<Rightarrow> world" where
  "tx_changed n f m w = w\<lparr>w_db := in_tx n f ((w_db w)\<lparr>db_next := m\<rparr>)\<rparr>"

lemma tx_changed_frame [simp]:
  "payments_of (tx_changed n f m w) = payments_of w"
  "operations_of (tx_changed n f m w) = operations_of w"
  "idempotency_of (tx_changed n f m w) = idempotency_of w"
  "w_wire (tx_changed n f m w) = w_wire w"
  "db_next (w_db (tx_changed n f m w)) = m"
  "db_clock (w_db (tx_changed n f m w)) = db_clock (w_db w)"
  by (simp_all add: tx_changed_def)

lemma tx_changed_txs:
  "txs_of w = as @ x # bs \<Longrightarrow> t_id x = n \<Longrightarrow> \<forall>y \<in> set (as @ bs). t_id y \<noteq> n \<Longrightarrow>
     txs_of (tx_changed n f m w) = as @ f x # bs"
  using in_tx_split [of "(w_db w)\<lparr>db_next := m\<rparr>" as x bs n f] by (simp add: tx_changed_def)

lemma tx_changed_own:
  assumes "\<And>x. t_id (f x) = t_id x"
  shows "own_txs (Tx n) (w_db (tx_changed n f m w)) = map f (own_txs (Tx n) (w_db w))"
    and "u \<noteq> n \<Longrightarrow> own_txs (Tx u) (w_db (tx_changed n f m w)) = own_txs (Tx u) (w_db w)"
proof -
  have "own_txs c (d\<lparr>db_next := m\<rparr>) = own_txs c d" for c d by (simp add: own_txs_def)
  with own_txs_in_tx [where f = f, OF assms]
  show "own_txs (Tx n) (w_db (tx_changed n f m w)) = map f (own_txs (Tx n) (w_db w))"
    "u \<noteq> n \<Longrightarrow> own_txs (Tx u) (w_db (tx_changed n f m w)) = own_txs (Tx u) (w_db w)"
    by (simp_all add: tx_changed_def)
qed

lemma tx_changed_ok:
  assumes inv: "invariant E w" "within q w" and q: "own_tx q = Some n"
    and own: "own_txs (Tx n) (w_db w) = [x]" and m: "db_next (w_db w) \<le> m"
    and f: "\<And>x. t_id (f x) = t_id x" and wf: "tx_wf m (f x)"
    and free: "no_clashes (w_db (tx_changed n f m w))"
  shows "invariant E (tx_changed n f m w)" and "guar q q w (tx_changed n f m w)"
proof -
  let ?v = "tx_changed n f m w"
  from own_txs_split [OF own] obtain as bs where
    split: "txs_of w = as @ x # bs" "t_id x = n" "\<forall>y \<in> set (as @ bs). t_id y \<noteq> n" .
  have txs: "txs_of ?v = as @ f x # bs" by (rule tx_changed_txs [OF split])
  have "distinct (map t_id (txs_of ?v))"
    using inv(1) split f by (simp add: txs invariant_def)
  moreover have "\<forall>y \<in> set (txs_of ?v). tx_wf m y"
    using inv(1) split wf m by (auto simp: txs invariant_def intro: tx_wf_mono)
  moreover have "rows_wf (w_db ?v)" "wire_wf E ?v"
    using inv(1) by (simp_all add: invariant_def rows_wf_def wire_wf_def key_count_def)
  ultimately show "invariant E ?v" using inv(1) free by (simp add: invariant_def)
  have step: "step_ok w ?v" using m by (auto simp: step_ok_def payment_moves_def operation_moves_def)
  have "within q ?v" using inv(2) m by (fastforce simp: within_def)
  moreover have "keeps z w ?v" if "disjoint_own q z" for z
  proof -
    have "u \<noteq> n" if "own_tx z = Some u" for u
      using that q \<open>disjoint_own q z\<close> by (simp add: disjoint_own_def)
    then show ?thesis using tx_changed_own(2) [where f = f, OF f] by (simp add: keeps_def key_count_def)
  qed
  ultimately show "guar q q w ?v" using step by (simp add: guar_def)
qed

text \<open>The ownership of a request inside its transaction.\<close>

definition txq :: "nat \<Rightarrow> own" where
  "txq t = \<lparr>own_tx = Some t, own_pay = None, own_op = None\<rparr>"

lemma txq_sel [simp]: "own_tx (txq t) = Some t" "own_pay (txq t) = None" "own_op (txq t) = None"
  by (simp_all add: txq_def)

lemma settles_tx_change:
  assumes inv: "invariant E w" "within q w" and q: "own_tx q = Some n"
    and own: "own_txs (Tx n) (w_db w) = [x]" and m: "db_next (w_db w) \<le> m"
    and f: "\<And>x. t_id (f x) = t_id x" and wf: "tx_wf m (f x)"
    and free: "no_clashes (w_db (tx_changed n f m w))"
    and d: "d = in_tx n f ((w_db w)\<lparr>db_next := m\<rparr>)"
    and okay: "\<And>v. rely q (tx_changed n f m w) v \<Longrightarrow> invariant E v \<Longrightarrow> within q v \<Longrightarrow>
      own_txs (Tx n) (w_db v) = [f x] \<Longrightarrow> Q r q v \<and> (\<forall>msg. Q (Inl (Opaque msg)) q v)"
  shows "settles E Q q w r d"
proof -
  let ?v = "tx_changed n f m w"
  have v: "w\<lparr>w_db := d\<rparr> = ?v" by (simp add: tx_changed_def d)
  have "own_txs (Tx n) (w_db ?v) = [f x]" using tx_changed_own(1) [where f = f, OF f] own by simp
  then have "own_txs (Tx n) (w_db z) = [f x]" if "rely q ?v z" for z
    using that q by (simp add: rely_def keeps_def)
  then show ?thesis
    unfolding settles_def v
    using tx_changed_ok [where f = f, OF inv q own m f wf free] okay by blast
qed

text \<open>Opening and closing.\<close>

lemma ok_begin:
  assumes "\<And>t msg. rely nothing s t \<Longrightarrow> invariant E t \<Longrightarrow> Q (Inl (Opaque msg)) nothing t"
    and "\<And>n v. invariant E v \<Longrightarrow> within (txq n) v \<Longrightarrow> tx_is n [] [] [] v \<Longrightarrow> Q (Inr n) (txq n) v"
  shows "okp E Q begin_tx nothing s"
  unfolding begin_tx_def
proof (rule pay_rg.ok_act)
  fix w a u
  assume w: "rely nothing s w" "invariant E w"
    and a: "(let w1 = w\<lparr>w_stmts := Suc (w_stmts w)\<rparr> in
     case w_faults w (w_stmts w) of
       NoFault \<Rightarrow> (case open_tx (w_db w) of (t, d) \<Rightarrow> (Inr t, w1\<lparr>w_db := d\<rparr>))
     | LostRequest msg \<Rightarrow> (Inl (Opaque msg), w1)
     | LostReply msg \<Rightarrow> (Inl (Opaque msg), w1)) = (a, u)"
  show "invariant E u \<and> (\<exists>q'. guar nothing q' w u \<and>
      (\<forall>v. rely q' u v \<longrightarrow> invariant E v \<longrightarrow> within q' v \<longrightarrow> Q a q' v))"
  proof (cases "w_faults w (w_stmts w)")
    case NoFault
    let ?n = "db_next (w_db w)" and ?d = "(w_db w)\<lparr>db_next := Suc (db_next (w_db w)),
      db_txs := txs_of w @ [new_tx (db_next (w_db w)) (db_clock (w_db w))]\<rparr>"
    let ?v = "w\<lparr>w_db := ?d\<rparr>"
    have u: "u = ?v\<lparr>w_stmts := Suc (w_stmts w)\<rparr>" "a = Inr ?n"
      using a NoFault by (auto simp: open_tx_def)
    have fresh: "\<forall>x \<in> set (txs_of w). t_id x < ?n"
      using w(2) by (auto simp: invariant_def tx_wf_def)
    have "invariant E ?v"
      using w(2) fresh
      by (auto simp: invariant_def no_clashes_def all_rows_def rows_wf_def wire_wf_def key_count_def
          new_tx_def tx_wf_def)
    moreover have "guar nothing (txq ?n) w ?v"
    proof -
      have "step_ok w ?v" by (auto simp: step_ok_def payment_moves_def operation_moves_def)
      moreover have "within (txq ?n) ?v" by (simp add: within_def)
      moreover have "keeps z w ?v \<and> disjoint_own (txq ?n) z" if "within z w" for z
      proof -
        have "u < ?n" if "own_tx z = Some u" for u using \<open>within z w\<close> that by (simp add: within_def)
        then show ?thesis
          by (cases "own_tx z")
            (auto simp: keeps_def key_count_def own_txs_def disjoint_own_def new_tx_def)
      qed
      ultimately show ?thesis by (simp add: guar_def)
    qed
    moreover have t: "tx_is ?n [] [] [] ?v"
      using fresh by (auto simp: tx_is_def own_txs_def new_tx_def filter_empty_conv)
    moreover have "Q a (txq ?n) v" if "rely (txq ?n) ?v v" "invariant E v" "within (txq ?n) v" for v
      unfolding u(2) by (rule assms(2) [OF that(2,3) tx_is_stable [OF t that(1)]]) simp
    ultimately have "invariant E u \<and> guar nothing (txq ?n) w u \<and>
        (\<forall>v. rely (txq ?n) u v \<longrightarrow> invariant E v \<longrightarrow> within (txq ?n) v \<longrightarrow> Q a (txq ?n) v)"
      unfolding u(1) stmts_irrelevant by simp
    then show ?thesis by blast
  next
    case (LostRequest msg)
    with a have "a = Inl (Opaque msg)" "u = w\<lparr>w_stmts := Suc (w_stmts w)\<rparr>" by auto
    with w assms(1) pay_rg.rely_trans quiet_guar [OF quiet_self, of nothing w] show ?thesis
      by (intro conjI exI [of _ nothing]) auto
  next
    case (LostReply msg)
    with a have "a = Inl (Opaque msg)" "u = w\<lparr>w_stmts := Suc (w_stmts w)\<rparr>" by auto
    with w assms(1) pay_rg.rely_trans quiet_guar [OF quiet_self, of nothing w] show ?thesis
      by (intro conjI exI [of _ nothing]) auto
  qed
qed

lemma close_tx_split:
  assumes "db_txs d = as @ x # bs" "t_id x = n" "\<forall>y \<in> set (as @ bs). t_id y \<noteq> n"
  shows "db_txs (close_tx n d) = as @ bs"
  using assms by (simp add: close_tx_def)

lemma close_tx_frame [simp]:
  "db_payments (close_tx n d) = db_payments d" "db_operations (close_tx n d) = db_operations d"
  "db_idempotency (close_tx n d) = db_idempotency d" "db_next (close_tx n d) = db_next d"
  "db_clock (close_tx n d) = db_clock d"
  "db_txs (close_tx n d) = filter (\<lambda>x. t_id x \<noteq> n) (db_txs d)"
  by (simp_all add: close_tx_def)

lemma own_txs_close: "u \<noteq> n \<Longrightarrow> own_txs (Tx u) (close_tx n d) = own_txs (Tx u) d"
  by (auto simp: own_txs_def intro: filter_cong)

lemma filtered_rows:
  "mset (concat (map pending (filter c xs))) \<subseteq># mset (concat (map pending xs))"
  by (induction xs) (auto intro: subset_mset.add_mono mset_subset_eq_add_right subset_mset.order_trans)

lemma close_no_clashes: "no_clashes d \<Longrightarrow> no_clashes (close_tx n d)"
proof -
  have "mset (all_rows rows pending (close_tx n d)) \<subseteq># mset (all_rows rows pending d)"
    if "rows (close_tx n d) = rows d" for rows :: "database \<Rightarrow> 'r list" and pending
    using that filtered_rows by (simp add: all_rows_def)
  note part = this
  show "no_clashes d \<Longrightarrow> no_clashes (close_tx n d)"
    unfolding no_clashes_def
    by (intro conjI; elim conjE)
      (rule pay.part crea.part idem.part; (rule part)?; simp)+
qed

definition closed :: "nat \<Rightarrow> world \<Rightarrow> world" where
  "closed n w = w\<lparr>w_db := close_tx n (w_db w)\<rparr>"

lemma closed_invariant: "invariant E w \<Longrightarrow> invariant E (closed n w)"
  unfolding closed_def invariant_def
  by (auto simp: close_no_clashes rows_wf_def wire_wf_def key_count_def distinct_map_filter)

lemma closed_step: "step_ok w (closed n w)"
  by (auto simp: closed_def step_ok_def payment_moves_def operation_moves_def)

lemma ok_rollback:
  assumes q: "own_tx q = Some n"
    and okay: "\<And>v. rely (q\<lparr>own_tx := None\<rparr>) s v \<Longrightarrow> invariant E v \<Longrightarrow> within (q\<lparr>own_tx := None\<rparr>) v \<Longrightarrow>
      Q () (q\<lparr>own_tx := None\<rparr>) v"
  shows "okp E Q (rollback n) q s"
  unfolding rollback_def
proof (rule pay_rg.ok_act)
  fix w a u
  assume w: "rely q s w" "invariant E w" "within q w"
    and u: "((), w\<lparr>w_db := close_tx n (w_db w)\<rparr>) = (a, u)"
  let ?q = "q\<lparr>own_tx := None\<rparr>"
  from u have u: "u = closed n w" by (simp add: closed_def)
  have keeps: "keeps z w (closed n w)" if "own_tx z \<noteq> Some n" for z
    using that own_txs_close by (auto simp: keeps_def closed_def key_count_def)
  have "within ?q u" using w(3) by (simp add: u within_def closed_def)
  moreover have "keeps z w u \<and> disjoint_own ?q z" if "disjoint_own q z" for z
  proof
    from that q have "own_tx z \<noteq> Some n" by (auto simp: disjoint_own_def)
    then show "keeps z w u" unfolding u by (rule keeps)
    show "disjoint_own ?q z" using that by (simp add: disjoint_own_def)
  qed
  ultimately have "guar q ?q w u" using closed_step by (simp add: guar_def u)
  moreover have "rely ?q s u"
  proof (rule pay_rg.rely_trans)
    show "rely ?q s w" using w(1) by (simp add: rely_def keeps_def)
    show "rely ?q w u" using closed_step step_ok_evolves keeps [of ?q] by (simp add: rely_def u)
  qed
  then have "Q a ?q v" if "rely ?q u v" "invariant E v" "within ?q v" for v
    using okay [OF pay_rg.rely_trans [OF _ that(1)] that(2,3)] by simp
  moreover have "invariant E u" unfolding u by (rule closed_invariant) (rule w(2))
  ultimately show "invariant E u \<and> (\<exists>q'. guar q q' w u \<and>
      (\<forall>v. rely q' u v \<longrightarrow> invariant E v \<longrightarrow> within q' v \<longrightarrow> Q a q' v))"
    by (intro conjI exI [of _ ?q]) auto
qed

text \<open>The commit of a transaction that holds one payment, its operation and the request record.\<close>

definition committed :: "nat \<Rightarrow> world \<Rightarrow> world" where
  "committed n w = w\<lparr>w_db := commit_tx n (w_db w)\<rparr>"

definition creationq :: "nat \<Rightarrow> payment_row \<Rightarrow> operation_row \<Rightarrow> own" where
  "creationq n row op = \<lparr>own_tx = Some n, own_pay = Some (p_id row),
     own_op = Some (o_id op, o_provider_idempotency_key op)\<rparr>"

text \<open>What is known right after the commit, and stays known to its owner.\<close>

definition created_facts :: "payment_row \<Rightarrow> operation_row \<Rightarrow> idempotency_row \<Rightarrow> world \<Rightarrow> bool" where
  "created_facts row op rq w \<longleftrightarrow> row \<in> set (payments_of w) \<and> op \<in> set (operations_of w) \<and>
     rq \<in> set (idempotency_of w) \<and> key_count (o_provider_idempotency_key op) w = 0"

lemma created_facts_stable:
  "created_facts row op rq w \<Longrightarrow> rely q w v \<Longrightarrow> own_pay q = Some (p_id row) \<Longrightarrow>
     own_op q = Some (o_id op, o_provider_idempotency_key op) \<Longrightarrow> created_facts row op rq v"
  by (auto simp: created_facts_def rely_def keeps_def evolves_def)

lemma committed_rows:
  assumes "txs_of w = as @ x # bs" "t_id x = n" "\<forall>y \<in> set (as @ bs). t_id y \<noteq> n"
  shows "payments_of (committed n w) = payments_of w @ t_payments x"
    and "operations_of (committed n w) = operations_of w @ t_operations x"
    and "idempotency_of (committed n w) = idempotency_of w @ t_idempotency x"
    and "txs_of (committed n w) = as @ bs"
    and "db_next (w_db (committed n w)) = db_next (w_db w)"
    and "db_clock (w_db (committed n w)) = db_clock (w_db w)"
    and "w_wire (committed n w) = w_wire w"
  using assms all_rows_split [OF assms]
  by (simp_all add: committed_def commit_tx_def filter_True)

lemma op_for_mono: "op_for rows op \<Longrightarrow> set rows \<subseteq> set rows' \<Longrightarrow> op_for rows' op"
  by (auto simp: op_for_def)

lemma request_for_mono: "request_for rows r \<Longrightarrow> set rows \<subseteq> set rows' \<Longrightarrow> request_for rows' r"
  by (auto simp: request_for_def)

lemma committed_invariant:
  assumes inv: "invariant E w"
    and split: "txs_of w = as @ x # bs" "t_id x = n" "\<forall>y \<in> set (as @ bs). t_id y \<noteq> n"
  shows "invariant E (committed n w)"
proof -
  let ?v = "committed n w"
  note rows = committed_rows [OF split]
  have x: "tx_wf (db_next (w_db w)) x" using inv split by (simp add: invariant_def)
  have old: "rows_wf (w_db w)" "no_clashes (w_db w)" "wire_wf E w"
    using inv by (simp_all add: invariant_def)
  have "no_clashes (w_db ?v)"
    using old(2) unfolding no_clashes_def all_rows_own [OF split(1)]
    by (auto simp: all_rows_def rows dest: pay.commit_rows crea.commit_rows idem.commit_rows)
  moreover have "rows_wf (w_db ?v)"
    using x old(1)
    by (auto simp: rows_wf_def tx_wf_def rows intro: op_for_mono request_for_mono)
  moreover have "wire_wf E ?v"
    using old(3) unfolding wire_wf_def key_count_def rows by (simp add: Bex_def) meson
  moreover have "distinct (map t_id (txs_of ?v))" "\<forall>y \<in> set (txs_of ?v). tx_wf (db_next (w_db ?v)) y"
    using inv split by (auto simp: invariant_def rows)
  ultimately show ?thesis using inv by (simp add: invariant_def)
qed

lemma committed_guar:
  assumes inv: "invariant E w" and own: "own_txs (Tx n) (w_db w) = [x]"
    and x: "t_payments x = [row]" "t_operations x = [op]" "t_idempotency x = [rq]"
    and n: "n < db_next (w_db w)"
  shows "guar (txq n) (creationq n row op) w (committed n w)"
    and "created_facts row op rq (committed n w)"
proof -
  let ?v = "committed n w" and ?q = "creationq n row op"
  from own_txs_split [OF own] obtain as bs where
    split: "txs_of w = as @ x # bs" "t_id x = n" "\<forall>y \<in> set (as @ bs). t_id y \<noteq> n" .
  note rows = committed_rows [OF split]
  have wf: "tx_wf (db_next (w_db w)) x" and clash: "no_clashes (w_db w)" and wire: "wire_wf E w"
    using inv split by (simp_all add: invariant_def)
  have row: "p_status row = StatusCreated" "payment_wf row" and opp: "o_status op = OperationPending"
    using wf x by (auto simp: tx_wf_def)
  have "\<not> payment_clash r row" if "r \<in> set (payments_of w)" for r
    using clash that x unfolding no_clashes_def all_rows_own [OF split(1)]
    by (auto simp: pay.append_iff)
  then have fresh_row: "p_id r \<noteq> p_id row" if "r \<in> set (payments_of w)" for r
    using that by (auto simp: payment_clash_def)
  have "\<not> creation_clash r op" if "r \<in> set (operations_of w)" for r
    using clash that x unfolding no_clashes_def all_rows_own [OF split(1)]
    by (auto simp: crea.append_iff)
  then have fresh_op: "o_id r \<noteq> o_id op"
    "o_provider_idempotency_key r \<noteq> o_provider_idempotency_key op"
    if "r \<in> set (operations_of w)" for r
    using that by (auto simp: creation_clash_def operation_clash_def)
  have "step_ok w ?v"
    using row x by (auto simp: step_ok_def rows payment_moves_def operation_moves_def)
  moreover have "within ?q ?v"
    using row x n by (auto simp: within_def creationq_def rows payment_wf_def)
  moreover have "keeps z w ?v" if "disjoint_own (txq n) z" for z
  proof -
    have "u \<noteq> n" if "own_tx z = Some u" for u
      using \<open>disjoint_own (txq n) z\<close> that by (auto simp: disjoint_own_def)
    moreover have "own_txs (Tx u) (w_db ?v) = own_txs (Tx u) (w_db w)" if "u \<noteq> n" for u
      using own_txs_close [OF that] that
      by (simp add: committed_def commit_tx_def) (simp add: own_txs_def)
    ultimately show ?thesis by (simp add: keeps_def rows key_count_def)
  qed
  moreover have "disjoint_own ?q z" if z: "disjoint_own (txq n) z" "within z w" for z
  proof -
    have "p_id row \<noteq> p" if "own_pay z = Some p" for p
      using z(2) that fresh_row by (force simp: within_def)
    moreover have "i \<noteq> o_id op \<and> k \<noteq> o_provider_idempotency_key op" if "own_op z = Some (i, k)" for i k
      using z(2) that fresh_op by (force simp: within_def)
    ultimately show ?thesis
      using z(1) by (cases "own_pay z"; cases "own_op z") (auto simp: disjoint_own_def creationq_def)
  qed
  ultimately show "guar (txq n) ?q w ?v" by (simp add: guar_def)
  have "key_count (o_provider_idempotency_key op) w = 0"
  proof (rule ccontr)
    assume "key_count (o_provider_idempotency_key op) w \<noteq> 0"
    then obtain z where "z \<in> set (w_wire w)"
      "wire_idempotence_key z = Some (o_provider_idempotency_key op)"
      by (auto simp: key_count_def filter_empty_conv)
    with wire obtain op' where "op' \<in> set (operations_of w)"
      "o_provider_idempotency_key op' = o_provider_idempotency_key op"
      by (auto simp: wire_wf_def) metis
    with fresh_op show False by blast
  qed
  then show "created_facts row op rq ?v"
    using x by (simp add: created_facts_def rows) (simp add: key_count_def rows)
qed

lemma ok_commit:
  assumes own: "tx_is n [row] [op] [rq] s"
    and err: "\<And>v msg q. own_tx q = Some n \<Longrightarrow> Q (Inl (Opaque msg)) q v"
    and okay: "\<And>v. invariant E v \<Longrightarrow> within (creationq n row op) v \<Longrightarrow>
      created_facts row op rq v \<Longrightarrow> Q (Inr ()) (creationq n row op) v"
  shows "okp E Q (commit n) (txq n) s"
  unfolding commit_def
proof (rule ok_exec)
  fix t and msg :: string
  show "Q (Inl (Opaque msg)) (txq n) t" using err by simp
next
  fix t d and r :: "go_err + unit"
  assume t: "rely (txq n) s t" "invariant E t" "within (txq n) t" "conn_open (Tx n) (w_db t)"
    and "(Inr (), commit_tx n (w_db t)) = (r, d)"
  then have v: "t\<lparr>w_db := d\<rparr> = committed n t" and r: "r = Inr ()" by (auto simp: committed_def)
  from tx_is_stable [OF own t(1)] obtain x where x: "own_txs (Tx n) (w_db t) = [x]"
    "t_payments x = [row]" "t_operations x = [op]" "t_idempotency x = [rq]"
    by (auto simp: tx_is_def)
  from own_txs_split [OF x(1)] obtain as bs where
    split: "txs_of t = as @ x # bs" "t_id x = n" "\<forall>y \<in> set (as @ bs). t_id y \<noteq> n" .
  have n: "n < db_next (w_db t)" using t(3) by (simp add: within_def)
  note g = committed_guar [OF t(2) x n]
  show "settles E Q (txq n) t r d"
    unfolding settles_def v r
  proof (intro conjI exI [of _ "creationq n row op"] allI impI)
    show "invariant E (committed n t)" by (rule committed_invariant [OF t(2) split])
    show "guar (txq n) (creationq n row op) t (committed n t)" by (rule g(1))
    fix v
    assume "rely (creationq n row op) (committed n t) v" "invariant E v" "within (creationq n row op) v"
    with okay created_facts_stable [OF g(2)] show "Q (Inr ()) (creationq n row op) v"
      by (simp add: creationq_def)
    show "Q (Inl (Opaque msg)) (creationq n row op) v" for msg
      using err by (simp add: creationq_def)
  qed
qed

subsection \<open>Statements inside the transaction\<close>

lemma payment_values_fields:
  assumes "payment_values P arg u t = Inr row"
  shows "p_id row = u" "p_application_id row = cp_application_id arg"
    "p_provider_account_id row = cp_provider_account_id arg" "p_status row = cp_status arg"
    "p_attempt_number row = cp_attempt_number arg" "p_amount_minor row = cp_amount_minor arg"
    "p_provider_payment_id row = None" "p_checkout_url row = None" "p_completed_at row = None"
    "varchar 128 (cp_order_id arg) = Inr (p_order_id row)"
    "varchar 3 (cp_currency arg) = Inr (p_currency row)"
  using assms by (auto simp: payment_values_def and_then_eq_Inr)

lemma insert_payment_cases:
  assumes "create_payment P arg c d = (r, d')"
  shows "(\<exists>e. r = Inl e \<and> d' = d\<lparr>db_next := Suc (db_next d)\<rparr>) \<or>
    (\<exists>row. r = Inr row \<and> (payment_values P arg (db_next d) (now c d) = Inr row \<and> payment_checks row \<and> free_of payment_clash row (visible_payments c d)) \<and>
      d' = put_payment c row (d\<lparr>db_next := Suc (db_next d)\<rparr>))"
proof (cases "payment_values P arg (db_next d) (now c d)")
  case (Inl e)
  with assms have "r = Inl e \<and> d' = d\<lparr>db_next := Suc (db_next d)\<rparr>"
    by (simp add: create_payment_def fresh_id_def)
  then show ?thesis by blast
next
  case (Inr row)
  with assms show ?thesis by (auto simp: create_payment_def fresh_id_def split: if_splits)
qed

lemma insert_operation_cases:
  assumes "create_payment_operation P arg c d = (r, d')"
  shows "(\<exists>e. r = Inl e \<and> d' = d\<lparr>db_next := Suc (db_next d)\<rparr>) \<or>
    (\<exists>row. r = Inr row \<and> (operation_values P arg (db_next d) (now c d) = Inr row \<and> free_of operation_clash row (visible_operations c d)) \<and>
      d' = put_operation c row (d\<lparr>db_next := Suc (db_next d)\<rparr>))"
proof (cases "operation_values P arg (db_next d) (now c d)")
  case (Inl e)
  with assms have "r = Inl e \<and> d' = d\<lparr>db_next := Suc (db_next d)\<rparr>"
    by (simp add: create_payment_operation_def fresh_id_def)
  then show ?thesis by blast
next
  case (Inr row)
  with assms show ?thesis by (auto simp: create_payment_operation_def fresh_id_def split: if_splits)
qed

lemma insert_idempotency_cases:
  assumes "create_idempotency_request app key hash pid c d = (r, d')"
  shows "(\<exists>e. r = Inl e \<and> d' = d\<lparr>db_next := Suc (db_next d)\<rparr>) \<or>
    (\<exists>row. r = Inr row \<and> (idempotency_values app key hash pid (db_next d) (now c d) = Inr row \<and> free_of idempotency_clash row (visible_idempotency c d)) \<and>
      d' = put_idempotency c row (d\<lparr>db_next := Suc (db_next d)\<rparr>))"
proof (cases "idempotency_values app key hash pid (db_next d) (now c d)")
  case (Inl e)
  with assms have "r = Inl e \<and> d' = d\<lparr>db_next := Suc (db_next d)\<rparr>"
    by (simp add: create_idempotency_request_def fresh_id_def)
  then show ?thesis by blast
next
  case (Inr row)
  with assms show ?thesis by (auto simp: create_idempotency_request_def fresh_id_def split: if_splits)
qed

lemma quiet_next: "quiet t (t\<lparr>w_db := (w_db t)\<lparr>db_next := Suc (db_next (w_db t))\<rparr>\<rparr>)"
  by (simp add: quiet_def)

text \<open>A statement of the transaction: what it must show of the changed transaction.\<close>

lemma ok_tx_insert:
  fixes Q :: "go_err + 'a \<Rightarrow> own \<Rightarrow> world \<Rightarrow> bool"
  assumes own: "tx_is n ps os rs s"
    and err: "\<And>v e. Q (Inl e) (txq n) v"
    and f: "\<And>a x. t_id (f a x) = t_id x"
    and cases: "\<And>d r d'. eff d = (r, d') \<Longrightarrow>
      (\<exists>e. r = Inl e \<and> d' = d\<lparr>db_next := Suc (db_next d)\<rparr>) \<or>
      (\<exists>a. r = Inr a \<and> good a d \<and> d' = in_tx n (f a) (d\<lparr>db_next := Suc (db_next d)\<rparr>))"
    and good: "\<And>t a x as bs. invariant E t \<Longrightarrow> good a (w_db t) \<Longrightarrow> ready (w_db t) \<Longrightarrow>
      txs_of t = as @ x # bs \<Longrightarrow> t_id x = n \<Longrightarrow> \<forall>y \<in> set (as @ bs). t_id y \<noteq> n \<Longrightarrow>
      t_payments x = ps \<Longrightarrow> t_operations x = os \<Longrightarrow> t_idempotency x = rs \<Longrightarrow>
      tx_wf (Suc (db_next (w_db t))) (f a x) \<and>
      no_clashes (in_tx n (f a) ((w_db t)\<lparr>db_next := Suc (db_next (w_db t))\<rparr>))"
    and okay: "\<And>t a v x. invariant E t \<Longrightarrow> good a (w_db t) \<Longrightarrow> invariant E v \<Longrightarrow>
      own_txs (Tx n) (w_db v) = [f a x] \<Longrightarrow>
      t_payments x = ps \<Longrightarrow> t_operations x = os \<Longrightarrow> t_idempotency x = rs \<Longrightarrow> Q (Inr a) (txq n) v"
  shows "okp E Q (exec_when ready (Tx n) eff) (txq n) s"
proof (rule ok_exec_when)
  fix t and msg :: string
  show "Q (Inl (Opaque msg)) (txq n) t" by (rule err)
next
  fix t r d'
  assume t: "rely (txq n) s t" "invariant E t" "within (txq n) t" "ready (w_db t)"
    and eff: "eff (w_db t) = (r, d')"
  from tx_is_stable [OF own t(1)] obtain x where x: "own_txs (Tx n) (w_db t) = [x]"
    "t_payments x = ps" "t_operations x = os" "t_idempotency x = rs"
    by (auto simp: tx_is_def)
  from own_txs_split [OF x(1)] obtain as bs where
    split: "txs_of t = as @ x # bs" "t_id x = n" "\<forall>y \<in> set (as @ bs). t_id y \<noteq> n" .
  from cases [OF eff] show "settles E Q (txq n) t r d'"
  proof (elim disjE exE conjE)
    fix e
    assume "r = Inl e" "d' = (w_db t)\<lparr>db_next := Suc (db_next (w_db t))\<rparr>"
    then show ?thesis using t err by (intro settles_quiet) (auto simp: quiet_next)
  next
    fix a
    assume a: "r = Inr a" "good a (w_db t)"
      and d': "d' = in_tx n (f a) ((w_db t)\<lparr>db_next := Suc (db_next (w_db t))\<rparr>)"
    note new = good [OF t(2) a(2) t(4) split x(2,3,4)]
    show ?thesis
    proof (rule settles_tx_change [OF t(2,3) _ x(1) _ f _ _ d'])
      show "tx_wf (Suc (db_next (w_db t))) (f a x)" using new by blast
      show "no_clashes (w_db (tx_changed n (f a) (Suc (db_next (w_db t))) t))"
        using new by (simp add: tx_changed_def)
      fix v
      assume v: "invariant E v" "own_txs (Tx n) (w_db v) = [f a x]"
      show "Q r (txq n) v \<and> (\<forall>msg. Q (Inl (Opaque msg)) (txq n) v)"
        using err okay [OF t(2) a(2) v x(2,3,4)] by (simp add: a(1))
    qed simp_all
  qed
qed

lemma free_everywhere:
  assumes split: "db_txs d = as @ x # bs" "t_id x = n" "\<forall>y \<in> set (as @ bs). t_id y \<noteq> n"
    and "free_of clash r (visible rows pending (Tx n) d)" "free_of clash r (foreign pending (Tx n) d)"
  shows "free_of clash r (rows d @ pending x)"
    and "free_of clash r (concat (map pending as) @ concat (map pending bs))"
  using assms(4,5) by (simp_all add: all_rows_split [OF split])

lemma ok_insert_payment:
  assumes own: "tx_is n [] [] [] s" and st: "cp_status arg = StatusCreated"
    and err: "\<And>v e. Q (Inl e) (txq n) v"
    and okay: "\<And>v u c row. invariant E v \<Longrightarrow> tx_is n [row] [] [] v \<Longrightarrow>
      payment_values P arg u c = Inr row \<Longrightarrow> Q (Inr row) (txq n) v"
  shows "okp E Q (exec_when (create_payment_ready P arg (Tx n)) (Tx n) (create_payment P arg (Tx n)))
    (txq n) s"
proof (rule ok_tx_insert [where f = "\<lambda>row x. x\<lparr>t_payments := t_payments x @ [row]\<rparr>"
      and good = "\<lambda>row d. payment_values P arg (db_next d) (now (Tx n) d) = Inr row \<and>
        payment_checks row \<and> free_of payment_clash row (visible_payments (Tx n) d)", OF own])
  show "Q (Inl e) (txq n) v" for v e by (rule err)
next
  fix d r d'
  assume "create_payment P arg (Tx n) d = (r, d')"
  then show "(\<exists>e. r = Inl e \<and> d' = d\<lparr>db_next := Suc (db_next d)\<rparr>) \<or>
      (\<exists>a. r = Inr a \<and> (payment_values P arg (db_next d) (now (Tx n) d) = Inr a \<and>
        payment_checks a \<and> free_of payment_clash a (visible_payments (Tx n) d)) \<and>
       d' = in_tx n (\<lambda>x. x\<lparr>t_payments := t_payments x @ [a]\<rparr>) (d\<lparr>db_next := Suc (db_next d)\<rparr>))"
    by (auto dest!: insert_payment_cases simp: put_payment_def)
next
  fix t row x as bs
  assume inv: "invariant E t" and ready: "create_payment_ready P arg (Tx n) (w_db t)"
    and good: "payment_values P arg (db_next (w_db t)) (now (Tx n) (w_db t)) = Inr row \<and>
        payment_checks row \<and> free_of payment_clash row (visible_payments (Tx n) (w_db t))"
    and split: "txs_of t = as @ x # bs" "t_id x = n" "\<forall>y \<in> set (as @ bs). t_id y \<noteq> n"
    and x: "t_payments x = []" "t_operations x = []" "t_idempotency x = []"
  from ready good have "free_of payment_clash row (foreign t_payments (Tx n) (w_db t))"
    by (simp add: create_payment_ready_def)
  note free = free_everywhere [OF split _ this, of db_payments] 
  note fields = payment_values_fields [OF conjunct1 [OF good]]
  have "payment_wf row" using good fields st by (simp add: payment_wf_def)
  moreover have "t_id x < db_next (w_db t)" using inv split by (auto simp: invariant_def tx_wf_def)
  ultimately have wf: "tx_wf (Suc (db_next (w_db t))) (x\<lparr>t_payments := t_payments x @ [row]\<rparr>)"
    using x fields st by (simp add: tx_wf_def)
  have "no_clashes (in_tx n (\<lambda>x. x\<lparr>t_payments := t_payments x @ [row]\<rparr>)
      ((w_db t)\<lparr>db_next := Suc (db_next (w_db t))\<rparr>))"
    using inv free good in_tx_split [where d = "(w_db t)\<lparr>db_next := Suc (db_next (w_db t))\<rparr>" and as = as and x = x and bs = bs, OF _ split(2,3)]
    unfolding invariant_def no_clashes_def all_rows_own [OF split(1)]
    by (auto simp: all_rows_def split(1) dest: pay.insert_row)
  with wf show "tx_wf (Suc (db_next (w_db t))) (x\<lparr>t_payments := t_payments x @ [row]\<rparr>) \<and>
      no_clashes (in_tx n (\<lambda>x. x\<lparr>t_payments := t_payments x @ [row]\<rparr>)
        ((w_db t)\<lparr>db_next := Suc (db_next (w_db t))\<rparr>))" ..
qed (auto intro!: okay simp: tx_is_def)

lemma operation_values_fields:
  assumes "operation_values P arg u t = Inr row"
  shows "o_payment_id row = co_payment_id arg" "o_status row = OperationPending"
    "varchar 64 (co_provider_idempotency_key arg) = Inr (o_provider_idempotency_key row)"
    "o_request_hash row = co_request_hash arg"
  using assms by (auto simp: operation_values_def and_then_eq_Inr)

lemma idempotency_values_fields:
  assumes "idempotency_values app key hash pid u t = Inr row"
  shows "i_application_id row = app" "varchar 64 key = Inr (i_idempotency_key row)"
    "i_request_hash row = hash" "i_payment_id row = pid"
  using assms by (auto simp: idempotency_values_def and_then_eq_Inr)

text \<open>The payment of one's own transaction has no operation yet, anywhere.\<close>

lemma only_operation:
  assumes inv: "invariant E t"
    and split: "txs_of t = as @ x # bs" "t_payments x = [p]" "t_operations x = []"
    and y: "y \<in> set (operations_of t) \<union> set (concat (map t_operations (as @ bs)))"
  shows "o_payment_id y \<noteq> p_id p"
proof -
  have clash: "clash_free payment_clash (all_rows db_payments t_payments (w_db t))"
    using inv by (simp add: invariant_def no_clashes_def)
  have "\<not> payment_clash p r" if "r \<in> set (payments_of t) \<union> set (concat (map t_payments (as @ bs)))" for r
    using clash that split unfolding all_rows_own [OF split(1)]
    by (auto simp: pay.append_iff pay.free_set dest: pay.sym)
  then have other: "p_id r \<noteq> p_id p" if "r \<in> set (payments_of t) \<union> set (concat (map t_payments (as @ bs)))" for r
    using that by (metis payment_clash_def)
  from y show ?thesis
  proof
    assume "y \<in> set (operations_of t)"
    then show ?thesis using inv other by (fastforce simp: invariant_def rows_wf_def op_for_def)
  next
    assume "y \<in> set (concat (map t_operations (as @ bs)))"
    then obtain z where z: "z \<in> set (as @ bs)" "y \<in> set (t_operations z)" by auto
    then have "op_for (t_payments z) y"
      using inv split by (auto simp: invariant_def tx_wf_def)
    with other z show ?thesis by (fastforce simp: op_for_def)
  qed
qed

lemma ok_insert_operation:
  assumes own: "tx_is n [p] [] [] s" and pid: "co_payment_id arg = p_id p"
    and err: "\<And>v e. Q (Inl e) (txq n) v"
    and okay: "\<And>v u c row. invariant E v \<Longrightarrow> tx_is n [p] [row] [] v \<Longrightarrow>
      operation_values P arg u c = Inr row \<Longrightarrow> Q (Inr row) (txq n) v"
  shows "okp E Q (exec_when (create_operation_ready P arg (Tx n)) (Tx n)
    (create_payment_operation P arg (Tx n))) (txq n) s"
proof (rule ok_tx_insert [where f = "\<lambda>row x. x\<lparr>t_operations := t_operations x @ [row]\<rparr>"
      and good = "\<lambda>row d. operation_values P arg (db_next d) (now (Tx n) d) = Inr row \<and>
        free_of operation_clash row (visible_operations (Tx n) d)", OF own])
  show "Q (Inl e) (txq n) v" for v e by (rule err)
next
  fix d r d'
  assume "create_payment_operation P arg (Tx n) d = (r, d')"
  then show "(\<exists>e. r = Inl e \<and> d' = d\<lparr>db_next := Suc (db_next d)\<rparr>) \<or>
      (\<exists>a. r = Inr a \<and> (operation_values P arg (db_next d) (now (Tx n) d) = Inr a \<and>
        free_of operation_clash a (visible_operations (Tx n) d)) \<and>
       d' = in_tx n (\<lambda>x. x\<lparr>t_operations := t_operations x @ [a]\<rparr>) (d\<lparr>db_next := Suc (db_next d)\<rparr>))"
    by (auto dest!: insert_operation_cases simp: put_operation_def)
next
  fix t row x as bs
  assume inv: "invariant E t" and ready: "create_operation_ready P arg (Tx n) (w_db t)"
    and good: "operation_values P arg (db_next (w_db t)) (now (Tx n) (w_db t)) = Inr row \<and>
        free_of operation_clash row (visible_operations (Tx n) (w_db t))"
    and split: "txs_of t = as @ x # bs" "t_id x = n" "\<forall>y \<in> set (as @ bs). t_id y \<noteq> n"
    and x: "t_payments x = [p]" "t_operations x = []" "t_idempotency x = []"
  note fields = operation_values_fields [OF conjunct1 [OF good]]
  from ready good have "free_of operation_clash row (foreign t_operations (Tx n) (w_db t))"
    by (simp add: create_operation_ready_def)
  note free = free_everywhere [OF split _ this, of db_operations]
  have row: "o_payment_id row = p_id p" using fields(1) pid by simp
  have apart: "\<not> creation_clash row y"
    if "y \<in> set (operations_of t) \<union> set (concat (map t_operations (as @ bs)))" for y
    using only_operation [OF inv split(1) x(1,2) that] free good x(2) that
    unfolding creation_clash_def row by (auto simp: oper.free_set)
  have "free_of creation_clash row (operations_of t @ t_operations x)"
    "free_of creation_clash row (concat (map t_operations as) @ concat (map t_operations bs))"
    using apart x(2) by (simp_all add: crea.free_set)
  then have "no_clashes (in_tx n (\<lambda>x. x\<lparr>t_operations := t_operations x @ [row]\<rparr>)
      ((w_db t)\<lparr>db_next := Suc (db_next (w_db t))\<rparr>))"
    using inv in_tx_split [where d = "(w_db t)\<lparr>db_next := Suc (db_next (w_db t))\<rparr>" and as = as and x = x and bs = bs, OF _ split(2,3)]
    unfolding invariant_def no_clashes_def all_rows_own [OF split(1)]
    by (auto simp: all_rows_def split(1) dest: crea.insert_row)
  moreover have "tx_wf (Suc (db_next (w_db t))) (x\<lparr>t_operations := t_operations x @ [row]\<rparr>)"
    using inv split x fields pid by (auto simp: invariant_def tx_wf_def op_for_def)
  ultimately show "tx_wf (Suc (db_next (w_db t))) (x\<lparr>t_operations := t_operations x @ [row]\<rparr>) \<and>
      no_clashes (in_tx n (\<lambda>x. x\<lparr>t_operations := t_operations x @ [row]\<rparr>)
        ((w_db t)\<lparr>db_next := Suc (db_next (w_db t))\<rparr>))" by blast
qed (auto intro!: okay simp: tx_is_def)

lemma ok_insert_idempotency:
  assumes own: "tx_is n [p] [op] [] s" and pid: "pid = Some (p_id p)" "p_application_id p = app"
    and err: "\<And>v e. Q (Inl e) (txq n) v"
    and okay: "\<And>v u c row. invariant E v \<Longrightarrow> tx_is n [p] [op] [row] v \<Longrightarrow>
      idempotency_values app key hash pid u c = Inr row \<Longrightarrow> Q (Inr row) (txq n) v"
  shows "okp E Q (exec_when (create_idempotency_ready app key hash pid (Tx n)) (Tx n)
    (create_idempotency_request app key hash pid (Tx n))) (txq n) s"
proof (rule ok_tx_insert [where f = "\<lambda>row x. x\<lparr>t_idempotency := t_idempotency x @ [row]\<rparr>"
      and good = "\<lambda>row d. idempotency_values app key hash pid (db_next d) (now (Tx n) d) = Inr row \<and>
        free_of idempotency_clash row (visible_idempotency (Tx n) d)", OF own])
  show "Q (Inl e) (txq n) v" for v e by (rule err)
next
  fix d r d'
  assume "create_idempotency_request app key hash pid (Tx n) d = (r, d')"
  then show "(\<exists>e. r = Inl e \<and> d' = d\<lparr>db_next := Suc (db_next d)\<rparr>) \<or>
      (\<exists>a. r = Inr a \<and> (idempotency_values app key hash pid (db_next d) (now (Tx n) d) = Inr a \<and>
        free_of idempotency_clash a (visible_idempotency (Tx n) d)) \<and>
       d' = in_tx n (\<lambda>x. x\<lparr>t_idempotency := t_idempotency x @ [a]\<rparr>) (d\<lparr>db_next := Suc (db_next d)\<rparr>))"
    by (auto dest!: insert_idempotency_cases simp: put_idempotency_def)
next
  fix t row x as bs
  assume inv: "invariant E t" and ready: "create_idempotency_ready app key hash pid (Tx n) (w_db t)"
    and good: "idempotency_values app key hash pid (db_next (w_db t)) (now (Tx n) (w_db t)) = Inr row \<and>
        free_of idempotency_clash row (visible_idempotency (Tx n) (w_db t))"
    and split: "txs_of t = as @ x # bs" "t_id x = n" "\<forall>y \<in> set (as @ bs). t_id y \<noteq> n"
    and x: "t_payments x = [p]" "t_operations x = [op]" "t_idempotency x = []"
  note fields = idempotency_values_fields [OF conjunct1 [OF good]]
  from ready good have "free_of idempotency_clash row (foreign t_idempotency (Tx n) (w_db t))"
    by (simp add: create_idempotency_ready_def)
  note free = free_everywhere [OF split _ this, of db_idempotency]
  have "no_clashes (in_tx n (\<lambda>x. x\<lparr>t_idempotency := t_idempotency x @ [row]\<rparr>)
      ((w_db t)\<lparr>db_next := Suc (db_next (w_db t))\<rparr>))"
    using inv free good in_tx_split [where d = "(w_db t)\<lparr>db_next := Suc (db_next (w_db t))\<rparr>" and as = as and x = x and bs = bs, OF _ split(2,3)]
    unfolding invariant_def no_clashes_def all_rows_own [OF split(1)]
    by (auto simp: all_rows_def split(1) dest: idem.insert_row)
  moreover have "tx_wf (Suc (db_next (w_db t))) (x\<lparr>t_idempotency := t_idempotency x @ [row]\<rparr>)"
    using inv split x fields pid by (auto simp: invariant_def tx_wf_def request_for_def)
  ultimately show "tx_wf (Suc (db_next (w_db t))) (x\<lparr>t_idempotency := t_idempotency x @ [row]\<rparr>) \<and>
      no_clashes (in_tx n (\<lambda>x. x\<lparr>t_idempotency := t_idempotency x @ [row]\<rparr>)
        ((w_db t)\<lparr>db_next := Suc (db_next (w_db t))\<rparr>))" by blast
qed (auto intro!: okay simp: tx_is_def)

lemma ok_lock:
  assumes own: "tx_is n ps os rs s"
    and err: "\<And>v e. Q (Inl e) (txq n) v"
    and okay: "\<And>v. invariant E v \<Longrightarrow> tx_is n ps os rs v \<Longrightarrow> Q (Inr ()) (txq n) v"
  shows "okp E Q (exec_when ready (Tx n) (lock_order_for_payment P app order (Tx n))) (txq n) s"
proof (rule ok_exec_when)
  fix t and msg :: string
  show "Q (Inl (Opaque msg)) (txq n) t" by (rule err)
next
  fix t r d
  assume t: "rely (txq n) s t" "invariant E t" "within (txq n) t"
    and eff: "lock_order_for_payment P app order (Tx n) (w_db t) = (r, d)"
  let ?f = "\<lambda>x. x\<lparr>t_locks := lock_key P app order # t_locks x\<rparr>"
  from tx_is_stable [OF own t(1)] obtain x where x: "own_txs (Tx n) (w_db t) = [x]"
    "t_payments x = ps" "t_operations x = os" "t_idempotency x = rs"
    by (auto simp: tx_is_def)
  from own_txs_split [OF x(1)] obtain as bs where
    split: "txs_of t = as @ x # bs" "t_id x = n" "\<forall>y \<in> set (as @ bs). t_id y \<noteq> n" .
  from eff consider e where "r = Inl e" "d = w_db t"
    | "r = Inr ()" "d = in_tx n ?f (w_db t)"
    unfolding lock_order_for_payment_def by (rule with_text_cases) auto
  then show "settles E Q (txq n) t r d"
  proof cases
    case 1
    then show ?thesis using t err by (intro settles_quiet) (auto simp: quiet_def)
  next
    case 2
    have d: "d = in_tx n ?f ((w_db t)\<lparr>db_next := db_next (w_db t)\<rparr>)" by (simp add: 2)
    show ?thesis
    proof (rule settles_tx_change [OF t(2,3) _ x(1) order_refl _ _ _ d])
      show "tx_wf (db_next (w_db t)) (?f x)"
        using t(2) split by (simp add: invariant_def tx_wf_def)
      show "no_clashes (w_db (tx_changed n ?f (db_next (w_db t)) t))"
        using t(2) in_tx_split [OF split]
        unfolding invariant_def no_clashes_def all_rows_own [OF split(1)]
        by (simp add: tx_changed_def all_rows_def)
    qed (use 2 err okay x in \<open>auto simp: tx_is_def\<close>)
  qed
qed

subsection \<open>Updates of a payment\<close>

lemma unique_payment:
  "invariant E t \<Longrightarrow> r \<in> set (payments_of t) \<Longrightarrow> s \<in> set (payments_of t) \<Longrightarrow> p_id r = p_id s \<Longrightarrow> r = s"
  using pay.no_two [of "payments_of t" r s]
  by (auto simp: invariant_def no_clashes_def all_rows_def pay.append_iff payment_clash_def)

lemma unique_operation:
  "invariant E t \<Longrightarrow> r \<in> set (operations_of t) \<Longrightarrow> s \<in> set (operations_of t) \<Longrightarrow> o_id r = o_id s \<Longrightarrow> r = s"
  using crea.no_two [of "operations_of t" r s]
  by (auto simp: invariant_def no_clashes_def all_rows_def crea.append_iff creation_clash_def
      operation_clash_def)

lemma exec_update_at_const: "exec_update cond f = exec_update_at cond (\<lambda>_. f)"
  by (simp add: exec_update_def exec_update_at_def)

abbreviation stamped :: "(payment_row \<Rightarrow> payment_row) \<Rightarrow> time \<Rightarrow> payment_row \<Rightarrow> payment_row" where
  "stamped f c r \<equiv> (f r)\<lparr>p_updated_at := c\<rparr>"

end
