(* ===== verification/PaymentUpdates.thy ===== *)
theory PaymentUpdates
  imports PaymentActions
begin

text \<open>
  The updates of the payment service against the invariant: the owner of a payment changes its row
  and its operation, and a refresh changes the row of a payment nobody owns any more. Then the call
  to the provider, which spends the provider key of an operation.
\<close>

subsection \<open>Updates of one's own payment\<close>

abbreviation unpay :: "own \<Rightarrow> own" where
  "unpay q \<equiv> q\<lparr>own_pay := None\<rparr>"

lemma rely_unpay: "rely q s t \<Longrightarrow> rely (unpay q) s t"
  by (simp add: rely_def keeps_def)

lemma rely_owner_weaken: "q' = q \<or> q' = unpay q \<Longrightarrow> rely q' s t \<Longrightarrow> rely (unpay q) s t"
  by (auto simp: rely_def keeps_def)

lemma payments_changed_keeps:
  "d = w_db t \<or> (\<exists>rows. d = (w_db t)\<lparr>db_payments := rows\<rparr>) \<Longrightarrow> keeps (unpay q) t (t\<lparr>w_db := d\<rparr>)"
  by (auto simp: keeps_def own_txs_def key_count_def)

lemma update_payments_shape:
  "update_payments cond f d = (r, d') \<Longrightarrow> d' = d \<or> (\<exists>rows. d' = d\<lparr>db_payments := rows\<rparr>)"
  by (auto simp: update_payments_def split: if_splits)

text \<open>The owner of a payment updates it, and keeps it or lets it go.\<close>

lemma ok_own_update:
  assumes q: "own_pay q = Some (p_id row)" and row: "row \<in> set (payments_of s)"
    and cond: "\<And>x. cond x \<Longrightarrow> p_id x = p_id row" "cond row"
    and moves: "\<And>c c'. payment_wf row \<Longrightarrow>
      payment_moves row (stamped (f c) c' row) \<and> payment_wf (stamped (f c) c' row)"
    and q': "q' = unpay q \<or> q' = q \<and> (\<forall>c. p_provider_payment_id (f c row) = None)"
    and err: "\<And>q e v. Q (Inl e) q v"
    and okay: "\<And>u v c. invariant E u \<Longrightarrow> stamped (f c) c row \<in> set (payments_of u) \<Longrightarrow> rely q' u v \<Longrightarrow>
      rely (unpay q) s v \<Longrightarrow> invariant E v \<Longrightarrow> within q' v \<Longrightarrow> Q (Inr ()) q' v"
  shows "okp E Q (exec_update_at cond f) q s"
  unfolding exec_update_at_def
proof (rule ok_exec_when)
  fix t and msg :: string
  show "Q (Inl (Opaque msg)) q t" by (rule err)
next
  fix t r d
  assume t: "rely q s t" "invariant E t" "within q t"
    and ready: "update_payments_ready cond (f (db_clock (w_db t))) (w_db t)"
    and eff: "update_payments cond (f (db_clock (w_db t))) (w_db t) = (r, d)"
  let ?c = "db_clock (w_db t)" and ?u = "t\<lparr>w_db := d\<rparr>"
  have rt: "row \<in> set (payments_of t)" using t(1) q row by (simp add: rely_def keeps_def)
  then have wf: "payment_wf row" using t(2) by (simp add: invariant_def rows_wf_def)
  have only: "x = row" if "x \<in> set (payments_of t)" "cond x" for x
    using unique_payment [OF t(2) that(1) rt] cond(1) that(2) by blast
  have new: "stamped (f ?c) ?c row \<in> set (payments_of ?u)" if "r = Inr ()"
    using eff that rt cond(2) by (auto simp: update_payments_def updated_as_map split: if_splits)
  note shape = update_payments_shape [OF eff]
  have keep: "keeps (unpay q) t ?u" by (rule payments_changed_keeps [OF shape])
  show "settles E Q q t r d"
  proof (rule settles_update [where q' = q', OF t(2,3) ready eff])
    fix x c
    assume "x \<in> set (payments_of t)" "cond x"
    then have "x = row" by (rule only)
    with moves [OF wf] show "payment_moves x (stamped (f ?c) c x) \<and> payment_wf (stamped (f ?c) c x)"
      by blast
  next
    fix z x
    assume z: "disjoint_own q z" and "x \<in> set (payments_of t)" "cond x"
    then have "x = row" using only by blast
    with z q show "own_pay z \<noteq> Some (p_id x)" by (auto simp: disjoint_own_def)
  next
    fix z
    assume "disjoint_own q z"
    then show "disjoint_own q' z" using q' by (auto simp: disjoint_own_def)
  next
    assume r: "r = Inr ()"
    have "within (unpay q) ?u" using t(3) shape by (auto simp: within_def)
    moreover have "p_id (stamped (f ?c) ?c row) = p_id row"
      using moves_identity [of row "stamped (f ?c) ?c row"] moves [OF wf] by (auto simp: same_identity_def)
    then have "\<exists>x \<in> set (payments_of ?u). p_id x = p_id row \<and> p_provider_payment_id x = None"
      if "\<forall>c. p_provider_payment_id (f c row) = None"
      using new [OF r] that by (intro bexI [of _ "stamped (f ?c) ?c row"]) auto
    ultimately show "within q' ?u" using q' q unfolding within_def by auto
  next
    fix v
    assume r: "r = Inr ()" and u: "invariant E ?u" "step_ok t ?u"
      and v: "rely q' ?u v" "invariant E v" "within q' v"
    have "rely (unpay q) t ?u" using u(2) keep by (simp add: rely_def step_ok_evolves)
    moreover have "rely (unpay q) ?u v" by (rule rely_owner_weaken [OF _ v(1)]) (use q' in blast)
    ultimately have "rely (unpay q) s v"
      using pay_rg.rely_trans rely_unpay [OF t(1)] by blast
    from okay [OF u(1) new [OF r] v(1) this v(2,3)] show "Q r q' v \<and> (\<forall>msg. Q (Inl (Opaque msg)) q' v)"
      using err r by simp
  qed (rule err)
qed

text \<open>A refresh: the payment is nobody's, because its provider id is known.\<close>

lemma ok_foreign_update:
  assumes known: "\<And>t x. invariant E t \<Longrightarrow> rely nothing s t \<Longrightarrow> x \<in> set (payments_of t) \<Longrightarrow> cond x \<Longrightarrow>
      p_provider_payment_id x \<noteq> None"
    and moves: "\<And>t x c c'. invariant E t \<Longrightarrow> rely nothing s t \<Longrightarrow> x \<in> set (payments_of t) \<Longrightarrow> cond x \<Longrightarrow>
      payment_moves x (stamped (f c) c' x) \<and> payment_wf (stamped (f c) c' x)"
    and Q: "\<And>r v. rely nothing s v \<Longrightarrow> invariant E v \<Longrightarrow> Q r nothing v"
  shows "okp E Q (exec_update_at cond f) nothing s"
  unfolding exec_update_at_def
proof (rule ok_exec_when)
  fix t and msg :: string
  assume "rely nothing s t" "invariant E t"
  then show "Q (Inl (Opaque msg)) nothing t" by (rule Q)
next
  fix t r d
  assume t: "rely nothing s t" "invariant E t" "within nothing t"
    and ready: "update_payments_ready cond (f (db_clock (w_db t))) (w_db t)"
    and eff: "update_payments cond (f (db_clock (w_db t))) (w_db t) = (r, d)"
  have later: "Q r nothing v" if "rely nothing t v" "invariant E v" for r v
    by (rule Q [OF pay_rg.rely_trans [OF t(1) that(1)] that(2)])
  show "settles E Q nothing t r d"
  proof (rule settles_update [where q' = nothing, OF t(2,3) ready eff])
    fix x c
    assume "x \<in> set (payments_of t)" "cond x"
    then show "payment_moves x (stamped (f (db_clock (w_db t))) c x) \<and>
        payment_wf (stamped (f (db_clock (w_db t))) c x)"
      by (rule moves [OF t(2,1)])
  next
    fix z x
    assume z: "within z t" "x \<in> set (payments_of t)" "cond x"
    show "own_pay z \<noteq> Some (p_id x)"
    proof
      assume "own_pay z = Some (p_id x)"
      with z(1) obtain y where "y \<in> set (payments_of t)" "p_id y = p_id x" "p_provider_payment_id y = None"
        by (auto simp: within_def)
      with unique_payment [OF t(2)] z(2) known [OF t(2,1) z(2,3)] show False by metis
    qed
  next
    fix v
    assume "step_ok t (t\<lparr>w_db := d\<rparr>)" "rely nothing (t\<lparr>w_db := d\<rparr>) v" "invariant E v"
    moreover from this have "rely nothing t (t\<lparr>w_db := d\<rparr>)"
      by (simp add: rely_def step_ok_evolves keeps_def)
    ultimately show "Q r nothing v \<and> (\<forall>msg. Q (Inl (Opaque msg)) nothing v)"
      using later pay_rg.rely_trans [of nothing t "t\<lparr>w_db := d\<rparr>" v] by blast
  qed (use later in auto)
qed

subsection \<open>Updates of one's own operation\<close>

abbreviation unop :: "own \<Rightarrow> own" where
  "unop q \<equiv> q\<lparr>own_op := None\<rparr>"

lemma rely_unop: "rely q s t \<Longrightarrow> rely (unop q) s t"
  by (simp add: rely_def keeps_def)

lemma operation_moves_same:
  "operation_moves r s \<Longrightarrow> o_id s = o_id r \<and> o_payment_id s = o_payment_id r \<and>
     o_provider_idempotency_key s = o_provider_idempotency_key r \<and>
     (o_status r \<noteq> OperationPending \<longrightarrow> o_status s \<noteq> OperationPending)"
  by (auto simp: operation_moves_def op_transition_def)

lemma creation_clash_cong:
  "operation_moves x x' \<Longrightarrow> operation_moves y y' \<Longrightarrow> creation_clash x' y' = creation_clash x y"
  using operation_moves_same [of x x'] operation_moves_same [of y y']
  by (simp add: creation_clash_def operation_clash_def)

lemma operation_moves_refl [simp]: "operation_moves x x"
  by (simp add: operation_moves_def)

lemma operations_mapped_clash_free:
  assumes g: "\<forall>x \<in> set xs. operation_moves x (g x)" and c: "clash_free creation_clash (xs @ ys)"
  shows "clash_free creation_clash (map g xs @ ys)"
proof -
  have "clash_free creation_clash (map g xs)"
  proof (rule crea.map_clash_free)
    show "clash_free creation_clash xs" using c by (simp add: crea.append_iff)
    fix r s
    assume "r \<in> set xs" "s \<in> set xs" "creation_clash (g r) (g s)"
    with creation_clash_cong [OF bspec [OF g] bspec [OF g], of r s] show "creation_clash r s" by simp
  qed
  moreover have "\<not> creation_clash (g x) y" if "x \<in> set xs" "y \<in> set ys" for x y
    using c that g creation_clash_cong [of x "g x" y y] by (auto simp: crea.append_iff)
  ultimately show ?thesis using c by (simp add: crea.append_iff)
qed

lemma wire_wf_operations:
  assumes "wire_wf E w" and g: "\<forall>x \<in> set (operations_of w). operation_moves x (g x)"
  shows "wire_wf E (with_operations (map g (operations_of w)) w)"
proof -
  have "\<exists>op \<in> set (map g (operations_of w)). o_provider_idempotency_key op = k \<and>
      o_status op \<noteq> OperationPending \<and> (\<exists>r \<in> set (payments_of w). p_id r = o_payment_id op \<and> charge_of E q r)"
    if "q \<in> set (w_wire w)" "wire_idempotence_key q = Some k" for q k
  proof -
    from assms(1) that obtain op where op: "op \<in> set (operations_of w)"
      "o_provider_idempotency_key op = k" "o_status op \<noteq> OperationPending"
      "\<exists>r \<in> set (payments_of w). p_id r = o_payment_id op \<and> charge_of E q r"
      unfolding wire_wf_def by blast
    with operation_moves_same [OF bspec [OF g op(1)]] show ?thesis
      by (intro bexI [of _ "g op"]) auto
  qed
  with assms(1) show ?thesis unfolding wire_wf_def with_operations_def key_count_def by simp
qed

lemma operations_mapped_invariant:
  assumes inv: "invariant E w" and g: "\<forall>x \<in> set (operations_of w). operation_moves x (g x)"
  shows "invariant E (with_operations (map g (operations_of w)) w)"
proof -
  let ?v = "with_operations (map g (operations_of w)) w"
  have "no_clashes (w_db ?v)"
    using inv operations_mapped_clash_free [OF g]
    by (simp add: invariant_def no_clashes_def all_rows_def with_operations_def)
  moreover have "op_for rows (g x)" if "op_for rows x" "x \<in> set (operations_of w)" for rows x
    using that operation_moves_same [OF bspec [OF g that(2)]] by (simp add: op_for_def)
  then have "rows_wf (w_db ?v)"
    using inv by (simp add: invariant_def rows_wf_def with_operations_def)
  moreover have "wire_wf E ?v" by (rule wire_wf_operations [OF _ g]) (use inv in \<open>simp add: invariant_def\<close>)
  ultimately show ?thesis using inv by (simp add: invariant_def with_operations_def)
qed

lemma operations_mapped_guar:
  assumes g: "\<forall>x \<in> set (operations_of w). operation_moves x (g x)" and q: "own_op q = Some (i, k)"
    and mine: "\<And>x. x \<in> set (operations_of w) \<Longrightarrow> o_id x \<noteq> i \<Longrightarrow> g x = x" and w: "within q w"
  shows "guar q q w (with_operations (map g (operations_of w)) w)"
proof -
  let ?v = "with_operations (map g (operations_of w)) w"
  have "step_ok w ?v"
    using g by (auto simp: step_ok_def with_operations_def payment_moves_def)
  moreover have "within q ?v"
  proof -
    from w q obtain x where x: "x \<in> set (operations_of w)" "o_id x = i" "o_provider_idempotency_key x = k"
      by (auto simp: within_def)
    with operation_moves_same [OF bspec [OF g x(1)]]
    have "\<exists>r \<in> set (operations_of ?v). o_id r = i \<and> o_provider_idempotency_key r = k"
      by (intro bexI [of _ "g x"]) (auto simp: with_operations_def)
    with w q show ?thesis by (auto simp: within_def with_operations_def)
  qed
  moreover have "keeps z w ?v" if "disjoint_own q z" for z
  proof -
    have "j \<noteq> i" if "own_op z = Some (j, l)" for j l
      using \<open>disjoint_own q z\<close> that q by (auto simp: disjoint_own_def)
    with mine show ?thesis
      by (force simp: keeps_def with_operations_def own_txs_def key_count_def)
  qed
  ultimately show ?thesis by (simp add: guar_def)
qed

lemma ok_op_update:
  assumes q: "own_op q = Some (o_id op, o_provider_idempotency_key op)"
    and op: "op \<in> set (operations_of s)"
    and cond: "\<And>x. cond x \<Longrightarrow> o_id x = o_id op"
    and eff: "\<And>d r d'. eff d = (r, d') \<Longrightarrow> (\<exists>e. r = Inl e \<and> d' = d) \<or>
      (\<exists>g. r = Inr () \<and> d' = d\<lparr>db_operations := update_where cond g (db_operations d)\<rparr> \<and>
        (cond op \<longrightarrow> operation_moves op (g op) \<and> good (g op)))"
    and err: "\<And>e v. key_count (o_provider_idempotency_key op) v = key_count (o_provider_idempotency_key op) s \<Longrightarrow>
      rely (unop q) s v \<Longrightarrow> Q (Inl e) q v"
    and okay: "\<And>v op'. invariant E v \<Longrightarrow> within q v \<Longrightarrow> op' \<in> set (operations_of v) \<Longrightarrow>
      operation_moves op op' \<Longrightarrow> (cond op \<Longrightarrow> good op') \<Longrightarrow>
      rely (unop q) s v \<Longrightarrow>
      key_count (o_provider_idempotency_key op) v = key_count (o_provider_idempotency_key op) s \<Longrightarrow>
      Q (Inr ()) q v"
  shows "okp E Q (exec Pool eff) q s"
proof (rule ok_exec)
  have kept: "key_count (o_provider_idempotency_key op) v = key_count (o_provider_idempotency_key op) s"
    if "rely q s v" for v
    using that q by (simp add: rely_def keeps_def)
  fix t and msg :: string
  assume "rely q s t"
  then show "Q (Inl (Opaque msg)) q t" by (intro err kept rely_unop)
next
  let ?k = "o_provider_idempotency_key op"
  have kept: "key_count ?k v = key_count ?k s" if "rely q s v" for v
    using that q by (simp add: rely_def keeps_def)
  fix t r d
  assume t: "rely q s t" "invariant E t" "within q t" and e: "eff (w_db t) = (r, d)"
  have ot: "op \<in> set (operations_of t)" using t(1) q op by (auto simp: rely_def keeps_def)
  from eff [OF e] show "settles E Q q t r d"
  proof (elim disjE exE conjE)
    fix e
    assume "r = Inl e" "d = w_db t"
    moreover have "Q (Inl e') q v" if "rely q t v" for e' v
    proof -
      have "rely q s v" by (rule pay_rg.rely_trans [OF t(1) that])
      then show ?thesis by (intro err kept rely_unop)
    qed
    ultimately show ?thesis
      by (intro settles_quiet [OF _ t(2,3)]) (simp_all add: quiet_def)
  next
    fix g
    assume r: "r = Inr ()" and d: "d = (w_db t)\<lparr>db_operations := update_where cond g (operations_of t)\<rparr>"
      and g: "cond op \<longrightarrow> operation_moves op (g op) \<and> good (g op)"
    let ?h = "\<lambda>x. if cond x then g x else x"
    have u: "t\<lparr>w_db := d\<rparr> = with_operations (map ?h (operations_of t)) t"
      by (simp add: d with_operations_def update_where_def)
    have only: "x = op" if "x \<in> set (operations_of t)" "cond x" for x
      using unique_operation [OF t(2) that(1) ot] cond that(2) by blast
    have moves: "\<forall>x \<in> set (operations_of t). operation_moves x (?h x)"
      using only g by auto
    let ?u = "with_operations (map ?h (operations_of t)) t"
    have inv: "invariant E ?u" by (rule operations_mapped_invariant [OF t(2) moves])
    have guar: "guar q q t ?u"
      by (rule operations_mapped_guar [OF moves q _ t(3)]) (use cond in auto)
    have ku: "key_count ?k ?u = key_count ?k t" by (simp add: with_operations_def key_count_def)
    have "keeps (unop q) t ?u" by (simp add: keeps_def with_operations_def own_txs_def)
    then have ru: "rely (unop q) t ?u" using guar by (simp add: rely_def guar_def step_ok_evolves)
    have new: "?h op \<in> set (operations_of ?u)" using ot by (simp add: with_operations_def)
    have "Q r q v \<and> (\<forall>msg. Q (Inl (Opaque msg)) q v)"
      if v: "rely q ?u v" "invariant E v" "within q v" for v
    proof -
      have k: "key_count ?k v = key_count ?k s"
        using v(1) q ku kept [OF t(1)] by (simp add: rely_def keeps_def)
      have rs: "rely (unop q) s v"
        by (rule pay_rg.rely_trans [OF pay_rg.rely_trans [OF rely_unop [OF t(1)] ru] rely_unop [OF v(1)]])
      have hv: "?h op \<in> set (operations_of v)"
        using v(1) q new operation_moves_same [OF bspec [OF moves ot]] by (auto simp: rely_def keeps_def)
      have gd: "good (?h op)" if "cond op" using g that by simp
      have "Q (Inr ()) q v"
        by (rule okay [OF v(2,3) hv bspec [OF moves ot] gd rs k])
      moreover have "Q (Inl (Opaque msg)) q v" for msg by (rule err [OF k rs])
      ultimately show ?thesis by (simp add: r)
    qed
    then show ?thesis unfolding settles_def u using inv guar by blast
  qed
qed

subsection \<open>Calls to the provider\<close>

text \<open>A request may be sent if it carries no idempotency key, or spends the key of one's own operation,
  in progress, for the payment of that operation.\<close>

definition sendable :: "service_env \<Rightarrow> own \<Rightarrow> world \<Rightarrow> wire_request \<Rightarrow> bool" where
  "sendable E q w req \<longleftrightarrow> wire_idempotence_key req = None \<or>
     (\<exists>op \<in> set (operations_of w). \<exists>r \<in> set (payments_of w).
        own_op q = Some (o_id op, o_provider_idempotency_key op) \<and>
        wire_idempotence_key req = Some (o_provider_idempotency_key op) \<and>
        key_count (o_provider_idempotency_key op) w = 0 \<and> o_status op \<noteq> OperationPending \<and>
        p_id r = o_payment_id op \<and> charge_of E req r)"

definition sent :: "wire_request \<Rightarrow> world \<Rightarrow> world" where
  "sent req w = w\<lparr>w_wire := w_wire w @ [req], w_calls := Suc (w_calls w)\<rparr>"

lemma sent_frame [simp]: "w_db (sent req w) = w_db w"
  by (simp add: sent_def)

lemma sent_step: "step_ok w (sent req w)"
proof -
  have "\<exists>new. w_wire (sent req w) = w_wire w @ new" by (simp add: sent_def)
  then show ?thesis by (auto simp: step_ok_def payment_moves_def operation_moves_def)
qed

lemma key_count_sent:
  "key_count k (sent req w) = key_count k w + (if wire_idempotence_key req = Some k then 1 else 0)"
  by (simp add: key_count_def sent_def)

lemma sent_invariant:
  assumes "invariant E w" "sendable E q w req"
  shows "invariant E (sent req w)"
proof -
  have old: "wire_wf E w" using assms(1) by (simp add: invariant_def)
  have "key_count k (sent req w) \<le> 1" for k
    using old assms(2) unfolding key_count_sent wire_wf_def sendable_def by auto
  moreover have "\<forall>q \<in> set (w_wire (sent req w)). \<forall>k. wire_idempotence_key q = Some k \<longrightarrow>
      (\<exists>op \<in> set (operations_of w). o_provider_idempotency_key op = k \<and> o_status op \<noteq> OperationPending \<and>
         (\<exists>r \<in> set (payments_of w). p_id r = o_payment_id op \<and> charge_of E q r))"
    using old assms(2) unfolding wire_wf_def sendable_def by (auto simp: sent_def)
  ultimately have "wire_wf E (sent req w)" by (simp add: wire_wf_def)
  with assms(1) show ?thesis by (simp add: invariant_def)
qed

lemma sent_guar:
  assumes "sendable E q w req" "within q w"
  shows "guar q q w (sent req w)"
proof -
  have "keeps z w (sent req w)" if "disjoint_own q z" for z
  proof -
    have "wire_idempotence_key req \<noteq> Some k" if "own_op z = Some (i, k)" for i k
      using assms(1) \<open>disjoint_own q z\<close> that by (auto simp: sendable_def disjoint_own_def)
    then show ?thesis by (simp add: keeps_def key_count_sent)
  qed
  then show ?thesis using assms(2) sent_step by (simp add: guar_def within_def)
qed

text \<open>What the caller still knows afterwards: everything but the count of its key.\<close>

definition after_call :: "own \<Rightarrow> world \<Rightarrow> world \<Rightarrow> bool" where
  "after_call q s v \<longleftrightarrow> rely (unop q) s v \<and>
     (\<forall>i k. own_op q = Some (i, k) \<longrightarrow>
        (\<forall>r \<in> set (operations_of s). o_id r = i \<longrightarrow> r \<in> set (operations_of v)))"

lemma after_call_trans: "after_call q s t \<Longrightarrow> after_call q t u \<Longrightarrow> after_call q s u"
  unfolding after_call_def by (meson pay_rg.rely_trans)

lemma rely_after_call: "rely q s t \<Longrightarrow> after_call q s t"
  by (auto simp: after_call_def rely_def keeps_def)

lemma sent_after_call: "after_call q w (sent req w)"
proof -
  have "evolves w (sent req w)" by (rule step_ok_evolves [OF sent_step])
  then show ?thesis by (simp add: after_call_def rely_def keeps_def)
qed

lemma ok_call:
  assumes ok: "\<And>t reply req r. rely q s t \<Longrightarrow> invariant E t \<Longrightarrow> f reply = (Some req, r) \<Longrightarrow> sendable E q t req"
    and okay: "\<And>reply v. after_call q s v \<Longrightarrow> invariant E v \<Longrightarrow> within q v \<Longrightarrow> Q (snd (f reply)) q v"
  shows "okp E Q (provider_call f) q s"
  unfolding provider_call_def
proof (rule pay_rg.ok_act)
  fix t a u
  assume t: "rely q s t" "invariant E t" "within q t"
    and a: "(case f (w_replies t (w_calls t)) of (None, r) \<Rightarrow> (r, t)
      | (Some req, r) \<Rightarrow> (r, t\<lparr>w_wire := w_wire t @ [req], w_calls := Suc (w_calls t)\<rparr>)) = (a, u)"
  let ?reply = "w_replies t (w_calls t)"
  consider "f ?reply = (None, a)" "u = t" | req where "f ?reply = (Some req, a)" "u = sent req t"
    using a by (auto simp: sent_def split: prod.splits option.splits)
  then have u: "invariant E u \<and> guar q q t u \<and> after_call q s u \<and> a = snd (f ?reply)"
  proof cases
    case 1
    with t show ?thesis using quiet_guar [of t t q] by (simp add: quiet_def rely_after_call)
  next
    case 2
    have s: "sendable E q t req" by (rule ok [OF t(1,2) 2(1)])
    show ?thesis
      using sent_invariant [OF t(2) s] sent_guar [OF s t(3)] 2
        after_call_trans [OF rely_after_call [OF t(1)] sent_after_call] by simp
  qed
  show "invariant E u \<and> (\<exists>q'. guar q q' t u \<and>
      (\<forall>v. rely q' u v \<longrightarrow> invariant E v \<longrightarrow> within q' v \<longrightarrow> Q a q' v))"
  proof (intro conjI exI [of _ q] allI impI)
    show "invariant E u" "guar q q t u" using u by auto
    fix v
    assume v: "rely q u v" "invariant E v" "within q v"
    have "after_call q s v"
      using u rely_after_call [OF v(1)] after_call_trans by blast
    then show "Q a q v" using u okay [OF _ v(2,3)] by auto
  qed
qed

end
