(* ===== verification/PaymentFlows.thy ===== *)
theory PaymentFlows
  imports PaymentUpdates
begin

text \<open>
  The programs of the payment service, verified action by action: what a request owns and knows at
  each point of \<open>createLocal\<close>, \<open>callProvider\<close>, \<open>create\<close>, \<open>GetPayment\<close> and \<open>ListPayments\<close>. The facts
  \<open>okp\<close> proved here are what lifts to every interleaving.
\<close>

subsection \<open>Small programs\<close>

lemma okp_Ret: "(\<And>v. invariant E v \<Longrightarrow> within q v \<Longrightarrow> rely q s v \<Longrightarrow> Q a q v) \<Longrightarrow> okp E Q (Ret a) q s"
  by (rule pay_rg.ok_Ret_now)

lemma ok_get_time:
  "(\<And>t v. rely q s v \<Longrightarrow> invariant E v \<Longrightarrow> within q v \<Longrightarrow> Q t q v) \<Longrightarrow> okp E Q get_time q s"
  unfolding get_time_def
  by (rule ok_quiet_act) (auto simp: quiet_def intro: pay_rg.rely_trans)

lemma ok_new_uuid:
  "(\<And>u v. rely q s v \<Longrightarrow> invariant E v \<Longrightarrow> within q v \<Longrightarrow> Q u q v) \<Longrightarrow> okp E Q new_uuid q s"
  unfolding new_uuid_def
  by (rule ok_quiet_act) (auto simp: quiet_def fresh_id_def intro: pay_rg.rely_trans)

lemma ok_record_metric:
  "(\<And>v. rely q s v \<Longrightarrow> invariant E v \<Longrightarrow> within q v \<Longrightarrow> Q () q v) \<Longrightarrow> okp E Q (record_metric m) q s"
  unfolding record_metric_def
  by (rule ok_quiet_act) (auto simp: quiet_def intro: pay_rg.rely_trans)

lemma ok_record_creation:
  "(\<And>v. rely q s v \<Longrightarrow> invariant E v \<Longrightarrow> within q v \<Longrightarrow> Q () q v) \<Longrightarrow>
     okp E Q (record_creation E' m) q s"
  unfolding record_creation_def by (auto intro: ok_record_metric okp_Ret)

lemma ok_record_provider_call:
  assumes "\<And>v. rely q s v \<Longrightarrow> invariant E v \<Longrightarrow> within q v \<Longrightarrow> Q () q v"
  shows "okp E Q (record_provider_call E' m e t) q s"
proof (cases "se_recorder E'")
  case True
  have "okp E (\<lambda>_ q' v. q' = q \<and> rely q s v) get_time q s" by (rule ok_get_time) simp
  then show ?thesis
    unfolding record_provider_call_def using True assms
    by simp (rule pay_rg.ok_bind, assumption, auto intro: ok_record_metric pay_rg.rely_trans)
next
  case False
  with assms show ?thesis by (simp add: record_provider_call_def okp_Ret)
qed

text \<open>A query that changes nothing, with what it tells of the database at that moment.\<close>

lemma ok_read:
  assumes "\<And>d. snd (eff d) = d"
    and "\<And>t e v. rely q s t \<Longrightarrow> rely q t v \<Longrightarrow> invariant E v \<Longrightarrow> within q v \<Longrightarrow> Q (Inl e) q v"
    and "\<And>t a v. rely q s t \<Longrightarrow> invariant E t \<Longrightarrow> fst (eff (w_db t)) = Inr a \<Longrightarrow> rely q t v \<Longrightarrow>
      invariant E v \<Longrightarrow> within q v \<Longrightarrow> Q (Inr a) q v"
  shows "okp E Q (exec c eff) q s"
proof (rule ok_exec_quiet)
  show "Q (Inl (Opaque msg)) q t" if "rely q s t" "invariant E t" "within q t" for t msg
    using assms(2) [OF that(1) pay_rg.rely_refl that(2,3)] .
  show "quiet t (t\<lparr>w_db := d\<rparr>)" if "eff (w_db t) = (r, d)" for t r d
    using assms(1) [of "w_db t"] that by (simp add: quiet_def)
  show "Q r q v" if "rely q s t" "invariant E t" "eff (w_db t) = (r, d)" "rely q t v" "invariant E v" "within q v"
    for t r d v
    using assms(2) [OF that(1) that(4) that(5,6)] assms(3) [OF that(1,2) _ that(4,5,6)] that(3)
    by (cases r) auto
qed

lemma ok_read_stable:
  assumes "\<And>d. snd (eff d) = d"
    and Q: "\<And>r v. rely q s v \<Longrightarrow> invariant E v \<Longrightarrow> within q v \<Longrightarrow> Q r q v"
  shows "okp E Q (exec c eff) q s"
  by (rule ok_read [OF assms(1)]; rule Q; (rule pay_rg.rely_trans)?; assumption)

lemmas read_defs = get_payment_for_application_def get_idempotency_request_def
  order_has_succeeded_payment_def next_attempt_number_def list_payments_for_application_def
  count_unfinished_payments_def with_text_def with_text_opt_def get_provider_account_def
  get_default_provider_account_def

lemma reads_change_nothing [simp]:
  "snd (get_payment_for_application pid app c d) = d"
  "snd (get_idempotency_request app key c d) = d"
  "snd (order_has_succeeded_payment app order c d) = d"
  "snd (next_attempt_number app order c d) = d"
  "snd (list_payments_for_application app ord limit c d) = d"
  "snd (count_unfinished_payments c d) = d"
  "snd (get_provider_account u c d) = d"
  "snd (get_default_provider_account u c d) = d"
  by (auto simp: read_defs Let_def split: sum.splits option.splits)

subsection \<open>The local transaction\<close>

text \<open>Results inside a transaction: whatever happens it is still open, and a success tells more.\<close>

definition in_trans :: "nat \<Rightarrow> ('a \<Rightarrow> world \<Rightarrow> bool) \<Rightarrow> go_err + 'a \<Rightarrow> own \<Rightarrow> world \<Rightarrow> bool" where
  "in_trans n P r q v \<longleftrightarrow> own_tx q = Some n \<and> (\<forall>a. r = Inr a \<longrightarrow> q = txq n \<and> P a v)"

lemma in_trans_simps [simp]:
  "in_trans n P (Inl e) q v \<longleftrightarrow> own_tx q = Some n"
  "in_trans n P (Inr a) q v \<longleftrightarrow> q = txq n \<and> P a v"
  by (auto simp: in_trans_def)

lemma ok_tx_read:
  assumes "tx_is n ps os rs s" "\<And>d. snd (eff d) = d"
    and "\<And>a v. tx_is n ps os rs v \<Longrightarrow> P a v"
  shows "okp E (in_trans n P) (exec (Tx n) eff) (txq n) s"
proof (rule ok_read_stable [OF assms(2)])
  fix r v
  assume "rely (txq n) s v"
  then have "tx_is n ps os rs v" by (rule tx_is_stable [OF assms(1)]) simp
  then show "in_trans n P r (txq n) v" using assms(3) by (cases r) simp_all
qed

lemma okp_in_trans_error: "own_tx q = Some n \<Longrightarrow> okp E (in_trans n P) (Ret (Inl e)) q s"
  by (rule okp_Ret) simp

lemma okp_in_trans_result:
  assumes "tx_is n ps os rs s" "\<And>v. tx_is n ps os rs v \<Longrightarrow> P a v"
  shows "okp E (in_trans n P) (Ret (Inr a)) (txq n) s"
  by (rule okp_Ret) (use tx_is_stable [OF assms(1)] assms(2) in auto)

lemma ok_local_checks:
  assumes "tx_is n [] [] [] s"
  shows "okp E (in_trans n (\<lambda>_. tx_is n [] [] [])) (local_checks E' app key i n) (txq n) s"
  unfolding local_checks_def Let_def
proof (rule pay_rg.ok_bindE)
  show "okp E (in_trans n (\<lambda>_. tx_is n [] [] []))
     (exec_when (lock_order_ready (se_pg E') (se_uuid_text E' (app_id app)) (in_order_id i) (Tx n)) (Tx n)
       (lock_order_for_payment (se_pg E') (se_uuid_text E' (app_id app)) (in_order_id i) (Tx n))) (txq n) s"
    by (rule ok_lock [OF assms]) simp_all
next
  fix q s and u :: unit
  assume "in_trans n (\<lambda>_. tx_is n [] [] []) (Inr u) q s"
  then have q: "q = txq n" "tx_is n [] [] [] s" by simp_all
  show "okp E (in_trans n (\<lambda>_. tx_is n [] [] []))
     (bindE (exec (Tx n) (order_has_succeeded_payment (app_id app) (in_order_id i) (Tx n))) (\<lambda>paid.
        if paid then Ret (Inl (Sentinel PErrOrderAlreadySucceeded))
        else bindP (exec (Tx n) (get_idempotency_request (app_id app) key (Tx n))) (\<lambda>r.
          case r of
            Inr _ \<Rightarrow> Ret (Inl (Sentinel PErrIdempotencyRace))
          | Inl e \<Rightarrow> Ret (if err_is e ErrNoRows then Inr () else Inl e)))) q s"
    unfolding q(1)
  proof (rule pay_rg.ok_bindE [OF ok_tx_read [OF q(2), where P = "\<lambda>_. tx_is n [] [] []"]])
    fix q s and paid :: bool
    assume "in_trans n (\<lambda>_. tx_is n [] [] []) (Inr paid) q s"
    then have q: "q = txq n" "tx_is n [] [] [] s" by simp_all
    have "okp E (\<lambda>_ q v. q = txq n \<and> tx_is n [] [] [] v)
        (exec (Tx n) (get_idempotency_request (app_id app) key (Tx n))) (txq n) s"
      by (rule ok_read_stable) (use tx_is_stable [OF q(2)] in auto)
    then show "okp E (in_trans n (\<lambda>_. tx_is n [] [] []))
       (if paid then Ret (Inl (Sentinel PErrOrderAlreadySucceeded))
        else bindP (exec (Tx n) (get_idempotency_request (app_id app) key (Tx n))) (\<lambda>r.
          case r of
            Inr _ \<Rightarrow> Ret (Inl (Sentinel PErrIdempotencyRace))
          | Inl e \<Rightarrow> Ret (if err_is e ErrNoRows then Inr () else Inl e))) q s"
      unfolding q(1)
      by (auto intro!: okp_in_trans_error okp_in_trans_result elim!: pay_rg.ok_bind split: sum.splits)
  qed (auto intro: okp_in_trans_error)
qed (auto intro: okp_in_trans_error)

text \<open>What a local creation says of the rows it made.\<close>

definition payment_made :: "application \<Rightarrow> create_payment_input \<Rightarrow> payment_row \<Rightarrow> payment \<Rightarrow> bool" where
  "payment_made app i row p \<longleftrightarrow> of_row row p \<and> p_status row = StatusCreated \<and>
     p_application_id row = app_id app \<and> p_amount_minor row = in_amount_minor i \<and>
     varchar 128 (in_order_id i) = Inr (p_order_id row)"

lemma ok_local_payment:
  assumes "tx_is n [] [] [] s"
  shows "okp E (in_trans n (\<lambda>p v. \<exists>row. tx_is n [row] [] [] v \<and> payment_made app i row p))
    (local_payment E' app account i n) (txq n) s"
  unfolding local_payment_def
proof (rule pay_rg.ok_bindE [OF ok_tx_read [OF assms, where P = "\<lambda>_. tx_is n [] [] []"]])
  fix q s and attempt :: int
  assume "in_trans n (\<lambda>_. tx_is n [] [] []) (Inr attempt) q s"
  then have q: "q = txq n" "tx_is n [] [] [] s" by simp_all
  let ?arg = "new_payment app account attempt i"
  have "okp E (in_trans n (\<lambda>row v. tx_is n [row] [] [] v \<and> (\<exists>u c. payment_values (se_pg E') ?arg u c = Inr row)))
      (exec_when (create_payment_ready (se_pg E') ?arg (Tx n)) (Tx n)
         (create_payment (se_pg E') ?arg (Tx n))) (txq n) s"
    by (rule ok_insert_payment [OF q(2)]) (auto simp: new_payment_def)
  then show "okp E (in_trans n (\<lambda>p v. \<exists>row. tx_is n [row] [] [] v \<and> payment_made app i row p))
      (let arg = ?arg in
       bindP (exec_when (create_payment_ready (se_pg E') arg (Tx n)) (Tx n)
                (create_payment (se_pg E') arg (Tx n))) (\<lambda>r.
         case r of
           Inl e \<Rightarrow>
             Ret (Inl (if is_unique_violation e then Sentinel PErrActiveAttemptExists else e))
         | Inr row \<Rightarrow> Ret (to_payment (se_decode_metadata E') row))) q s"
    unfolding q(1) Let_def
  proof (rule pay_rg.ok_bind)
    fix r q s
    assume r: "in_trans n (\<lambda>row v. tx_is n [row] [] [] v \<and>
      (\<exists>u c. payment_values (se_pg E') ?arg u c = Inr row)) r q s"
    show "okp E (in_trans n (\<lambda>p v. \<exists>row. tx_is n [row] [] [] v \<and> payment_made app i row p))
       (case r of
           Inl e \<Rightarrow>
             Ret (Inl (if is_unique_violation e then Sentinel PErrActiveAttemptExists else e))
         | Inr row \<Rightarrow> Ret (to_payment (se_decode_metadata E') row)) q s"
    proof (cases r)
      case (Inr row)
      with r obtain u c where row: "q = txq n" "tx_is n [row] [] [] s"
        "payment_values (se_pg E') ?arg u c = Inr row" by auto
      have "payment_made app i row p" if "to_payment (se_decode_metadata E') row = Inr p" for p
        using payment_values_fields [OF row(3)] to_payment_of_row [OF that]
        by (simp add: payment_made_def new_payment_def)
      then show ?thesis
        using row by (cases "to_payment (se_decode_metadata E') row")
          (auto simp: Inr intro!: okp_in_trans_error okp_in_trans_result [OF row(2)])
    qed (use r in \<open>auto intro: okp_in_trans_error\<close>)
  qed
qed (auto intro: okp_in_trans_error)

text \<open>The three rows of a creation, and what their owner has in hand.\<close>

definition request_made :: "application \<Rightarrow> string \<Rightarrow> bytes \<Rightarrow> uuid \<Rightarrow> idempotency_row \<Rightarrow> bool" where
  "request_made app key hash pid rq \<longleftrightarrow> i_application_id rq = app_id app \<and>
     varchar 64 key = Inr (i_idempotency_key rq) \<and> i_request_hash rq = hash \<and> i_payment_id rq = Some pid"

lemma request_made_values:
  "idempotency_values (app_id app) key hash (Some pid) u c = Inr rq \<Longrightarrow> request_made app key hash pid rq"
  using idempotency_values_fields [of "app_id app" key hash "Some pid" u c rq]
  by (simp add: request_made_def)

definition rows_made ::
  "application \<Rightarrow> string \<Rightarrow> bytes \<Rightarrow> create_payment_input \<Rightarrow> local_creation \<Rightarrow> payment_row \<Rightarrow> operation_row \<Rightarrow>
   idempotency_row \<Rightarrow> bool" where
  "rows_made app key hash i lc row op rq \<longleftrightarrow>
     payment_made app i row (lc_payment lc) \<and> request_made app key hash (p_id row) rq \<and>
     o_id op = lc_operation_id lc \<and> o_provider_idempotency_key op = lc_provider_key lc \<and>
     lc_provider_key lc \<noteq> [] \<and> o_payment_id op = p_id row \<and> o_status op = OperationPending"

definition local_made ::
  "nat \<Rightarrow> application \<Rightarrow> string \<Rightarrow> bytes \<Rightarrow> create_payment_input \<Rightarrow> go_err + local_creation \<Rightarrow> own \<Rightarrow> world \<Rightarrow> bool" where
  "local_made n app key hash i r q v \<longleftrightarrow> own_tx q = Some n \<and>
     (\<forall>lc. r = Inr lc \<longrightarrow> (\<exists>row op rq. rows_made app key hash i lc row op rq \<and>
        q = creationq n row op \<and> created_facts row op rq v))"

lemma local_made_Inl [simp]: "local_made n app key hash i (Inl e) q v \<longleftrightarrow> own_tx q = Some n"
  by (simp add: local_made_def)

lemma okp_local_error: "own_tx q = Some n \<Longrightarrow> okp E (local_made n app key hash i) (Ret (Inl e)) q s"
  by (rule okp_Ret) simp

lemma creationq_sel [simp]:
  "own_tx (creationq n row op) = Some n" "own_pay (creationq n row op) = Some (p_id row)"
  "own_op (creationq n row op) = Some (o_id op, o_provider_idempotency_key op)"
  by (simp_all add: creationq_def)

lemma ok_commit_local:
  assumes "tx_is n [row] [op] [rq] s" "rows_made app key hash i lc row op rq"
  shows "okp E (local_made n app key hash i)
    (bindP (commit n) (\<lambda>r. case r of
        Inl e \<Rightarrow> Ret (Inl (Prefixed ''payments: commit'' e)) | Inr _ \<Rightarrow> Ret (Inr lc))) (txq n) s"
proof (rule pay_rg.ok_bind)
  show "okp E (\<lambda>r q v. own_tx q = Some n \<and>
      (r = Inr () \<longrightarrow> q = creationq n row op \<and> created_facts row op rq v)) (commit n) (txq n) s"
    by (rule ok_commit [OF assms(1)]) simp_all
  fix q s and r :: "go_err + unit"
  assume r: "own_tx q = Some n \<and> (r = Inr () \<longrightarrow> q = creationq n row op \<and> created_facts row op rq s)"
  show "okp E (local_made n app key hash i)
      (case r of Inl e \<Rightarrow> Ret (Inl (Prefixed ''payments: commit'' e)) | Inr _ \<Rightarrow> Ret (Inr lc)) q s"
  proof (cases r)
    case (Inr u)
    with r have q: "q = creationq n row op" "created_facts row op rq s" by auto
    have "created_facts row op rq v" if "rely q s v" for v
      by (rule created_facts_stable [OF q(2) that]) (simp_all add: q(1))
    then show ?thesis
      unfolding Inr sum.case using assms(2)
      by (intro okp_Ret) (auto simp: local_made_def q(1))
  qed (use r in \<open>auto intro: okp_local_error\<close>)
qed

lemma ok_local_records:
  assumes tx: "tx_is n [row] [] [] s" and p: "payment_made app i row p"
    and uuid: "uuid_text_ok E"
  shows "okp E (local_made n app key hash i) (local_records E app key hash i n p) (txq n) s"
  unfolding local_records_def
proof (rule pay_rg.ok_bind)
  show "okp E (\<lambda>_ q v. q = txq n \<and> tx_is n [row] [] [] v) new_uuid (txq n) s"
    by (rule ok_new_uuid) (use tx_is_stable [OF tx] in auto)
  fix u q s
  assume "q = txq n \<and> tx_is n [row] [] [] s"
  then have q: "q = txq n" "tx_is n [row] [] [] s" by simp_all
  let ?pk = "se_uuid_text E u"
  show "okp E (local_made n app key hash i) (bindP get_time (\<lambda>now.
       let provider_key = ?pk; arg = new_operation E (pay_id p) provider_key hash i now in
       bindE (exec_when (create_operation_ready (se_pg E) arg (Tx n)) (Tx n)
                (create_payment_operation (se_pg E) arg (Tx n))) (\<lambda>op.
       bindE (Ret (from_uuid (Some (o_id op)))) (\<lambda>oid.
       bindP (exec_when (create_idempotency_ready (app_id app) key hash (Some (pay_id p)) (Tx n)) (Tx n)
                (create_idempotency_request (app_id app) key hash (Some (pay_id p)) (Tx n))) (\<lambda>r.
         case r of
           Inl e \<Rightarrow> Ret (Inl (if is_unique_violation e then Sentinel PErrIdempotencyRace else e))
         | Inr _ \<Rightarrow> bindP (commit n) (\<lambda>r. case r of
                 Inl e \<Rightarrow> Ret (Inl (Prefixed ''payments: commit'' e))
               | Inr _ \<Rightarrow> Ret (Inr \<lparr>lc_payment = p, lc_operation_id = oid, lc_provider_key = provider_key\<rparr>))))))) q s"
    unfolding q(1)
  proof (rule pay_rg.ok_bind)
    show "okp E (\<lambda>_ q v. q = txq n \<and> tx_is n [row] [] [] v) get_time (txq n) s"
      by (rule ok_get_time) (use tx_is_stable [OF q(2)] in auto)
    fix now q s
    assume "q = txq n \<and> tx_is n [row] [] [] s"
    then have q: "q = txq n" "tx_is n [row] [] [] s" by simp_all
    have pid: "pay_id p = p_id row" "p_application_id row = app_id app"
      using p by (auto simp: payment_made_def of_row_def)
    let ?arg = "new_operation E (pay_id p) ?pk hash i now"
    let ?op = "\<lambda>op. o_payment_id op = p_id row \<and> o_status op = OperationPending \<and> o_provider_idempotency_key op = ?pk"
    show "okp E (local_made n app key hash i) (let provider_key = ?pk; arg = new_operation E (pay_id p) provider_key hash i now in
       bindE (exec_when (create_operation_ready (se_pg E) arg (Tx n)) (Tx n)
                (create_payment_operation (se_pg E) arg (Tx n))) (\<lambda>op.
       bindE (Ret (from_uuid (Some (o_id op)))) (\<lambda>oid.
       bindP (exec_when (create_idempotency_ready (app_id app) key hash (Some (pay_id p)) (Tx n)) (Tx n)
                (create_idempotency_request (app_id app) key hash (Some (pay_id p)) (Tx n))) (\<lambda>r.
         case r of
           Inl e \<Rightarrow> Ret (Inl (if is_unique_violation e then Sentinel PErrIdempotencyRace else e))
         | Inr _ \<Rightarrow> bindP (commit n) (\<lambda>r. case r of
                 Inl e \<Rightarrow> Ret (Inl (Prefixed ''payments: commit'' e))
               | Inr _ \<Rightarrow> Ret (Inr \<lparr>lc_payment = p, lc_operation_id = oid, lc_provider_key = provider_key\<rparr>)))))) q s"
      unfolding q(1) Let_def
    proof (rule pay_rg.ok_bindE)
      show "okp E (in_trans n (\<lambda>op v. tx_is n [row] [op] [] v \<and> ?op op))
          (exec_when (create_operation_ready (se_pg E) ?arg (Tx n)) (Tx n)
             (create_payment_operation (se_pg E) ?arg (Tx n))) (txq n) s"
      proof (rule ok_insert_operation [OF q(2)])
        show "co_payment_id ?arg = p_id row" by (simp add: new_operation_def pid)
        fix v u c op
        assume "tx_is n [row] [op] [] v" and op: "operation_values (se_pg E) ?arg u c = Inr op"
        with operation_values_fields [OF op] uuid
        show "in_trans n (\<lambda>op v. tx_is n [row] [op] [] v \<and> ?op op) (Inr op) (txq n) v"
          by (auto simp: new_operation_def pid uuid_text_ok_def)
      qed simp
      fix op q s
      assume "in_trans n (\<lambda>op v. tx_is n [row] [op] [] v \<and> ?op op) (Inr op) q s"
      then have q: "q = txq n" "tx_is n [row] [op] [] s" and op: "?op op" by simp_all
      let ?lc = "\<lparr>lc_payment = p, lc_operation_id = o_id op, lc_provider_key = ?pk\<rparr>"
      have "okp E (in_trans n (\<lambda>rq v. tx_is n [row] [op] [rq] v \<and> request_made app key hash (p_id row) rq))
          (exec_when (create_idempotency_ready (app_id app) key hash (Some (pay_id p)) (Tx n)) (Tx n)
             (create_idempotency_request (app_id app) key hash (Some (pay_id p)) (Tx n))) (txq n) s"
        by (rule ok_insert_idempotency [OF q(2)])
          (auto simp: pid intro: request_made_values)
      moreover have "rows_made app key hash i ?lc row op rq" if "request_made app key hash (p_id row) rq" for rq
        using that p op uuid by (simp add: rows_made_def uuid_text_ok_def)
      ultimately show "okp E (local_made n app key hash i)
         (bindE (Ret (from_uuid (Some (o_id op)))) (\<lambda>oid.
          bindP (exec_when (create_idempotency_ready (app_id app) key hash (Some (pay_id p)) (Tx n)) (Tx n)
                (create_idempotency_request (app_id app) key hash (Some (pay_id p)) (Tx n))) (\<lambda>r.
          case r of
            Inl e \<Rightarrow> Ret (Inl (if is_unique_violation e then Sentinel PErrIdempotencyRace else e))
          | Inr _ \<Rightarrow> bindP (commit n) (\<lambda>r. case r of
                 Inl e \<Rightarrow> Ret (Inl (Prefixed ''payments: commit'' e))
               | Inr _ \<Rightarrow> Ret (Inr \<lparr>lc_payment = p, lc_operation_id = oid, lc_provider_key = ?pk\<rparr>))))) q s"
        unfolding q(1) bindE_def
        by (auto intro!: okp_local_error ok_commit_local elim!: pay_rg.ok_bind split: sum.splits)
    qed (auto intro: okp_local_error)
  qed
qed

text \<open>After the transaction: the owner of a payment that no one else touches yet.\<close>

definition owner :: "payment_row \<Rightarrow> operation_row \<Rightarrow> own" where
  "owner row op = \<lparr>own_tx = None, own_pay = Some (p_id row),
     own_op = Some (o_id op, o_provider_idempotency_key op)\<rparr>"

lemma owner_sel [simp]:
  "own_tx (owner row op) = None" "own_pay (owner row op) = Some (p_id row)"
  "own_op (owner row op) = Some (o_id op, o_provider_idempotency_key op)"
  by (simp_all add: owner_def)

definition local_done ::
  "application \<Rightarrow> string \<Rightarrow> bytes \<Rightarrow> create_payment_input \<Rightarrow> go_err + local_creation \<Rightarrow> own \<Rightarrow> world \<Rightarrow> bool" where
  "local_done app key hash i r q v \<longleftrightarrow>
     (\<forall>lc. r = Inr lc \<longrightarrow> (\<exists>row op rq. rows_made app key hash i lc row op rq \<and>
        q = owner row op \<and> created_facts row op rq v))"

lemma created_facts_owner:
  "created_facts row op rq w \<Longrightarrow> rely (owner row op) w v \<Longrightarrow> created_facts row op rq v"
  by (erule created_facts_stable, assumption) (simp_all only: owner_sel)

lemma ok_local_rollback:
  assumes "local_made n app key hash i res q s"
  shows "okp E (local_done app key hash i) (bindP (rollback n) (\<lambda>_. Ret res)) q s"
proof (rule pay_rg.ok_bind)
  have n: "own_tx q = Some n" using assms by (simp add: local_made_def)
  show "okp E (\<lambda>_. local_done app key hash i res) (rollback n) q s"
  proof (rule ok_rollback [OF n])
    fix v
    assume v: "rely (q\<lparr>own_tx := None\<rparr>) s v"
    show "local_done app key hash i res (q\<lparr>own_tx := None\<rparr>) v"
      unfolding local_done_def
    proof (intro allI impI)
      fix lc
      assume "res = Inr lc"
      with assms obtain row op rq where r: "rows_made app key hash i lc row op rq"
        "q = creationq n row op" "created_facts row op rq s" by (auto simp: local_made_def)
      have "q\<lparr>own_tx := None\<rparr> = owner row op" by (simp add: r(2) creationq_def owner_def)
      moreover from this v have "created_facts row op rq v"
        using created_facts_owner [OF r(3)] by simp
      ultimately show "\<exists>row op rq. rows_made app key hash i lc row op rq \<and>
          q\<lparr>own_tx := None\<rparr> = owner row op \<and> created_facts row op rq v"
        using r(1) by blast
    qed
  qed
  fix a :: unit and q s
  assume d: "local_done app key hash i res q s"
  show "okp E (local_done app key hash i) (Ret res) q s"
    by (rule okp_Ret) (use d created_facts_owner in \<open>fastforce simp: local_done_def\<close>)
qed

lemma ok_create_local:
  assumes "uuid_text_ok E"
  shows "okp E (local_done app key hash i) (create_local E app account key hash i) nothing s"
  unfolding create_local_def
proof (rule pay_rg.ok_bind)
  show "okp E (\<lambda>r q v. case r of Inl _ \<Rightarrow> True | Inr n \<Rightarrow> q = txq n \<and> tx_is n [] [] [] v) begin_tx nothing s"
  proof (rule ok_begin)
    fix n v
    assume "tx_is n [] [] [] v"
    then show "case Inr n of Inl _ \<Rightarrow> True | Inr n' \<Rightarrow> txq n = txq n' \<and> tx_is n' [] [] [] v" by simp
  qed simp
  fix q s and r :: "go_err + nat"
  assume r: "case r of Inl _ \<Rightarrow> True | Inr n \<Rightarrow> q = txq n \<and> tx_is n [] [] [] s"
  show "okp E (local_done app key hash i)
    (case r of Inl e \<Rightarrow> Ret (Inl (Prefixed ''payments: begin'' e))
     | Inr t \<Rightarrow>
         bindP (bindE (local_checks E app key i t) (\<lambda>_.
                bindE (local_payment E app account i t) (\<lambda>p.
                  local_records E app key hash i t p))) (\<lambda>res.
         bindP (rollback t) (\<lambda>_. Ret res))) q s"
  proof (cases r)
    case (Inl e)
    then show ?thesis by (auto intro: okp_Ret simp: local_done_def)
  next
    case (Inr n)
    with r have q: "q = txq n" "tx_is n [] [] [] s" by simp_all
    have "okp E (local_made n app key hash i)
        (bindE (local_checks E app key i n) (\<lambda>_. bindE (local_payment E app account i n) (\<lambda>p.
           local_records E app key hash i n p))) (txq n) s"
    proof (rule pay_rg.ok_bindE [OF ok_local_checks [OF q(2)]])
      fix q s and u :: unit
      assume "in_trans n (\<lambda>_. tx_is n [] [] []) (Inr u) q s"
      then have q: "q = txq n" "tx_is n [] [] [] s" by simp_all
      show "okp E (local_made n app key hash i)
          (bindE (local_payment E app account i n) (\<lambda>p. local_records E app key hash i n p)) q s"
        unfolding q(1)
        by (rule pay_rg.ok_bindE [OF ok_local_payment [OF q(2), of E app i E account]])
          (auto intro: okp_local_error ok_local_records assms)
    qed (auto intro: okp_local_error)
    then show ?thesis
      unfolding Inr sum.case q(1) by (rule pay_rg.ok_bind) (rule ok_local_rollback)
  qed
qed

subsection \<open>What a result says\<close>

text \<open>A payment that was returned: the row as it was read, of which the present row is a later state.\<close>

definition seen :: "payment \<Rightarrow> world \<Rightarrow> bool" where
  "seen p w \<longleftrightarrow> (\<exists>r0. of_row r0 p \<and> payment_wf r0 \<and> (\<exists>r \<in> set (payments_of w). payment_becomes r0 r))"

lemma seen_evolves: "seen p w \<Longrightarrow> evolves w v \<Longrightarrow> seen p v"
  unfolding seen_def evolves_def by (meson becomes_trans(1))

lemma seen_rely: "seen p w \<Longrightarrow> rely q w v \<Longrightarrow> seen p v"
  by (simp add: rely_def seen_evolves)

lemma seen_now: "invariant E w \<Longrightarrow> of_row r p \<Longrightarrow> r \<in> set (payments_of w) \<Longrightarrow> seen p w"
  unfolding seen_def invariant_def rows_wf_def by (meson becomes_refl(1))

lemma idempotency_rely: "rq \<in> set (idempotency_of w) \<Longrightarrow> rely q w v \<Longrightarrow> rq \<in> set (idempotency_of v)"
  by (auto simp: rely_def evolves_def)

lemma visible_Pool [simp]: "visible rows pending Pool d = rows d"
  by (simp add: visible_def own_txs_def)

lemma ok_get_payment_row:
  assumes Q: "\<And>r v. rely q s v \<Longrightarrow> invariant E v \<Longrightarrow> within q v \<Longrightarrow>
    (\<forall>p. r = Inr p \<longrightarrow> pay_id p = pid \<and> pay_application_id p = app \<and> seen p v) \<Longrightarrow> Q r q v"
  shows "okp E Q (get_payment_row E' app pid) q s"
  unfolding get_payment_row_def
proof (rule pay_rg.ok_bind)
  show "okp E (\<lambda>r q' v. q' = q \<and> rely q s v \<and> (\<forall>row. r = Inr row \<longrightarrow> p_id row = pid \<and>
      p_application_id row = app \<and> (\<forall>p. of_row row p \<longrightarrow> seen p v)))
      (exec Pool (get_payment_for_application pid app Pool)) q s"
  proof (rule ok_read)
    fix t v e
    assume "rely q s t" "rely q t v"
    then show "q = q \<and> rely q s v \<and> (\<forall>row. Inl e = Inr row \<longrightarrow> p_id row = pid \<and>
      p_application_id row = app \<and> (\<forall>p. of_row row p \<longrightarrow> seen p v))"
      using pay_rg.rely_trans by blast
  next
    fix t a v
    assume t: "rely q s t" "rely q t v" and inv: "invariant E t"
      and "fst (get_payment_for_application pid app Pool (w_db t)) = Inr a"
    then have "one_row (\<lambda>r. p_id r = pid \<and> p_application_id r = app) (payments_of t) = Inr a"
      by (simp add: get_payment_for_application_def)
    from one_row_Inr [OF this] have a: "a \<in> set (payments_of t)" "p_id a = pid" "p_application_id a = app"
      by auto
    then have "seen p v" if "of_row a p" for p
      using seen_now [OF inv that] seen_rely [OF _ t(2)] by blast
    with a pay_rg.rely_trans [OF t] show "q = q \<and> rely q s v \<and> (\<forall>row. Inr a = Inr row \<longrightarrow> p_id row = pid \<and>
      p_application_id row = app \<and> (\<forall>p. of_row row p \<longrightarrow> seen p v))" by auto
  qed simp
next
  fix q' s' and r :: "go_err + payment_row"
  assume r: "q' = q \<and> rely q s s' \<and> (\<forall>row. r = Inr row \<longrightarrow> p_id row = pid \<and>
      p_application_id row = app \<and> (\<forall>p. of_row row p \<longrightarrow> seen p s'))"
  have fin: "okp E Q (Ret x) q s'"
    if "\<And>p. x = Inr p \<Longrightarrow> pay_id p = pid \<and> pay_application_id p = app \<and> seen p s'" for x
  proof (rule okp_Ret)
    fix v
    assume v: "invariant E v" "within q v" "rely q s' v"
    have "rely q s v" using r v(3) pay_rg.rely_trans by blast
    then show "Q x q v" using Q v(1,2) that seen_rely [OF _ v(3)] by blast
  qed
  show "okp E Q (case r of
      Inl e \<Rightarrow> Ret (Inl (if err_is e ErrNoRows then Sentinel PErrNotFound else e))
    | Inr row \<Rightarrow> Ret (to_payment (se_decode_metadata E') row)) q' s'"
  proof (cases r)
    case (Inl e)
    then show ?thesis using r fin [of "Inl (if err_is e ErrNoRows then Sentinel PErrNotFound else e)"] by simp
  next
    case (Inr row)
    have "pay_id p = pid \<and> pay_application_id p = app \<and> seen p s'"
      if "to_payment (se_decode_metadata E') row = Inr p" for p
      using to_payment_of_row [OF that] r Inr by (auto simp: of_row_def)
    then show ?thesis using r fin [of "to_payment (se_decode_metadata E') row"] Inr by simp
  qed
qed

subsection \<open>After the local transaction\<close>

text \<open>What the owner of a payment holds: its row, its operation, its request record.\<close>

definition holding :: "own \<Rightarrow> payment_row \<Rightarrow> operation_row \<Rightarrow> idempotency_row \<Rightarrow> world \<Rightarrow> bool" where
  "holding q row op rq v \<longleftrightarrow> q = owner row op \<and> row \<in> set (payments_of v) \<and>
     op \<in> set (operations_of v) \<and> rq \<in> set (idempotency_of v)"

lemma holding_rely: "holding q row op rq s \<Longrightarrow> rely q s v \<Longrightarrow> holding q row op rq v"
  by (auto simp: holding_def owner_def rely_def keeps_def evolves_def)

lemma holding_key:
  "holding q row op rq s \<Longrightarrow> rely q s v \<Longrightarrow>
     key_count (o_provider_idempotency_key op) v = key_count (o_provider_idempotency_key op) s"
  by (simp add: holding_def rely_def keeps_def)

lemma created_holding:
  "created_facts row op rq v \<longleftrightarrow> holding (owner row op) row op rq v \<and>
     key_count (o_provider_idempotency_key op) v = 0"
  by (auto simp: created_facts_def holding_def)

definition released :: "operation_row \<Rightarrow> idempotency_row \<Rightarrow> own \<Rightarrow> world \<Rightarrow> bool" where
  "released op rq q v \<longleftrightarrow> own_pay q = None \<and> own_op q = Some (o_id op, o_provider_idempotency_key op) \<and>
     op \<in> set (operations_of v) \<and> rq \<in> set (idempotency_of v)"

lemma released_rely: "released op rq q s \<Longrightarrow> rely q s v \<Longrightarrow> released op rq q v"
  by (auto simp: released_def rely_def keeps_def evolves_def)

lemma ok_release:
  assumes h: "holding q row op rq s"
    and cond: "\<And>x. cond x \<Longrightarrow> p_id x = p_id row" "cond row"
    and moves: "\<And>c c'. payment_wf row \<Longrightarrow>
      payment_moves row (stamped (f c) c' row) \<and> payment_wf (stamped (f c) c' row)"
  shows "okp E (\<lambda>r q' v. r = Inr () \<longrightarrow> released op rq q' v) (exec_update_at cond f) q s"
proof (rule ok_own_update [where q' = "unpay q" and row = row and f = f and cond = cond])
  show "p_id x = p_id row" if "cond x" for x by (rule cond(1) [OF that])
  show "cond row" by (rule cond(2))
  show "payment_moves row (stamped (f c) c' row) \<and> payment_wf (stamped (f c) c' row)"
    if "payment_wf row" for c c' by (rule moves [OF that])
  show "own_pay q = Some (p_id row)" "row \<in> set (payments_of s)" using h by (auto simp: holding_def)
  fix v
  assume "rely (unpay q) s v"
  with h show "Inr () = Inr () \<longrightarrow> released op rq (unpay q) v"
    by (auto simp: holding_def released_def rely_def keeps_def evolves_def)
qed auto

lemma ok_complete:
  assumes r: "released op rq q s" and oid: "o_id op = oid"
    and st: "o_status op = OperationInProgress" "st \<in> {OperationSucceeded, OperationFailed, OperationUnknown}"
  shows "okp E (\<lambda>_ q' v. q' = q \<and> rq \<in> set (idempotency_of v)) (complete_operation oid st err) q s"
  unfolding complete_operation_def
proof (rule pay_rg.ok_bind)
  show "okp E (\<lambda>_ q' v. q' = q \<and> rq \<in> set (idempotency_of v))
     (exec Pool (complete_payment_operation oid st (Some err))) q s"
  proof (rule ok_op_update [where op = op and cond = "\<lambda>r. o_id r = oid" and good = "\<lambda>_. True"])
    show "own_op q = Some (o_id op, o_provider_idempotency_key op)" "op \<in> set (operations_of s)"
      using r by (auto simp: released_def)
    fix d d' and r :: "go_err + unit"
    assume "complete_payment_operation oid st (Some err) d = (r, d')"
    then consider e where "r = Inl e" "d' = d"
      | x where "r = Inr ()" "d' = d\<lparr>db_operations := update_where (\<lambda>r. o_id r = oid)
          (\<lambda>r. r\<lparr>o_status := st, o_completed_at := Some (db_clock d), o_last_error := x\<rparr>) (db_operations d)\<rparr>"
      by (auto simp: complete_payment_operation_def update_operations_def split: sum.splits)
    moreover have "operation_moves op (op\<lparr>o_status := st, o_completed_at := y, o_last_error := x\<rparr>)" for x y
      using st by (simp add: operation_moves_def op_transition_def)
    ultimately show "(\<exists>e. r = Inl e \<and> d' = d) \<or>
      (\<exists>g. r = Inr () \<and> d' = d\<lparr>db_operations := update_where (\<lambda>r. o_id r = oid) g (db_operations d)\<rparr> \<and>
        (o_id op = oid \<longrightarrow> operation_moves op (g op) \<and> True))"
      by cases blast+
  qed (use r oid in \<open>auto simp: released_def intro: idempotency_rely\<close>)
qed (auto intro: okp_Ret idempotency_rely)

subsection \<open>The provider call\<close>

text \<open>A successful create answers with the payment its request record points to.\<close>

definition answers :: "application \<Rightarrow> string \<Rightarrow> bytes \<Rightarrow> uuid \<Rightarrow> idempotency_row \<Rightarrow> bool" where
  "answers app key hash pid rq \<longleftrightarrow> i_application_id rq = app_id app \<and>
     (i_idempotency_key rq = key \<or> varchar 64 key = Inr (i_idempotency_key rq)) \<and>
     i_request_hash rq = hash \<and> i_payment_id rq = Some pid"

definition result_of ::
  "application \<Rightarrow> string \<Rightarrow> bytes \<Rightarrow> go_err + create_result \<Rightarrow> own \<Rightarrow> world \<Rightarrow> bool" where
  "result_of app key hash r q v \<longleftrightarrow> (\<forall>res. r = Inr res \<longrightarrow>
     pay_application_id (res_payment res) = app_id app \<and> seen (res_payment res) v \<and>
     (\<exists>rq \<in> set (idempotency_of v). answers app key hash (pay_id (res_payment res)) rq))"

lemma result_of_Inl [simp]: "result_of app key hash (Inl e) q v"
  by (simp add: result_of_def)

lemma okp_result_error: "okp E (result_of app key hash) (Ret (Inl e)) q s"
  by (rule okp_Ret) simp

lemma okp_bindE_result:
  assumes "okp E Q p q s"
    and "\<And>a q s. invariant E s \<Longrightarrow> within q s \<Longrightarrow> Q (Inr a) q s \<Longrightarrow> okp E (result_of app key hash) (k a) q s"
  shows "okp E (result_of app key hash) (bindE p k) q s"
  by (rule pay_rg.ok_bindE [OF assms(1)]) (use assms(2) in \<open>auto intro: okp_result_error\<close>)

lemma ok_finish:
  assumes rq: "rq \<in> set (idempotency_of s)" "answers app key hash pid rq"
    and f: "\<And>p. res_payment (f p) = p"
  shows "okp E (result_of app key hash) (bindE (get_payment_row E' (app_id app) pid) (\<lambda>p. Ret (Inr (f p)))) q s"
proof (rule okp_bindE_result)
  show "okp E (\<lambda>r q v. rq \<in> set (idempotency_of v) \<and>
      (\<forall>p. r = Inr p \<longrightarrow> pay_id p = pid \<and> pay_application_id p = app_id app \<and> seen p v))
      (get_payment_row E' (app_id app) pid) q s"
    by (rule ok_get_payment_row) (use idempotency_rely [OF rq(1)] in auto)
  fix p q s
  assume p: "rq \<in> set (idempotency_of s) \<and>
      (\<forall>p'. Inr p = Inr p' \<longrightarrow> pay_id p' = pid \<and> pay_application_id p' = app_id app \<and> seen p' s)"
  show "okp E (result_of app key hash) (Ret (Inr (f p))) q s"
    by (rule okp_Ret) (use p rq(2) f idempotency_rely seen_rely in \<open>fastforce simp: result_of_def\<close>)
qed

text \<open>The moves of a payment's owner.\<close>

lemma owner_moves:
  assumes "payment_wf row"
  shows "p_status row = StatusCreated \<Longrightarrow>
      payment_moves row (stamped (\<lambda>r. r\<lparr>p_status := StatusCreating\<rparr>) c row) \<and>
      payment_wf (stamped (\<lambda>r. r\<lparr>p_status := StatusCreating\<rparr>) c row)"
    and "p_status row = StatusCreating \<Longrightarrow>
      payment_moves row (stamped (set_created (Some ppid) (Some url) nc) c row) \<and>
      payment_wf (stamped (set_created (Some ppid) (Some url) nc) c row)"
    and "p_status row = StatusCreating \<Longrightarrow>
      payment_moves row (stamped (\<lambda>r. r\<lparr>p_status := StatusCreationUnknown, p_next_check_at := nc\<rparr>) c row) \<and>
      payment_wf (stamped (\<lambda>r. r\<lparr>p_status := StatusCreationUnknown, p_next_check_at := nc\<rparr>) c row)"
    and "p_status row = StatusCreating \<Longrightarrow>
      payment_moves row (stamped (set_canceled t) c row) \<and> payment_wf (stamped (set_canceled t) c row)"
  using assms
  by (auto simp: payment_moves_def payment_wf_def payment_checks_def same_identity_def can_transition_def
      set_created_def set_canceled_def)

text \<open>What is known while and after the provider is called.\<close>

definition calling ::
  "application \<Rightarrow> string \<Rightarrow> bytes \<Rightarrow> local_creation \<Rightarrow> payment_row \<Rightarrow> operation_row \<Rightarrow> idempotency_row \<Rightarrow> bool" where
  "calling app key hash lc row op rq \<longleftrightarrow> answers app key hash (p_id row) rq \<and>
     pay_id (lc_payment lc) = p_id row \<and> pay_application_id (lc_payment lc) = app_id app \<and>
     o_id op = lc_operation_id lc \<and> p_status row = StatusCreating \<and> o_status op = OperationInProgress"

lemma ok_released_time:
  "released op rq q s \<Longrightarrow> okp E (\<lambda>_ q' v. q' = q \<and> released op rq q v) get_time q s"
  by (rule ok_get_time) (auto intro: released_rely)

lemma ok_holding_time:
  "holding q row op rq s \<Longrightarrow> okp E (\<lambda>_ q' v. q' = q \<and> holding q row op rq v) get_time q s"
  by (rule ok_get_time) (auto intro: holding_rely)

lemma ok_request_creation:
  "rq \<in> set (idempotency_of s) \<Longrightarrow>
     okp E (\<lambda>_ q' v. rq \<in> set (idempotency_of v)) (record_creation E' m) q s"
  by (rule ok_record_creation) (auto intro: idempotency_rely)

lemma ok_handle_create_failure:
  assumes h: "holding q row op rq s" and c: "calling app key hash lc row op rq"
  shows "okp E (result_of app key hash) (handle_create_failure E' lc e) q s"
proof -
  have c': "answers app key hash (p_id row) rq" "pay_id (lc_payment lc) = p_id row"
    "pay_application_id (lc_payment lc) = app_id app" "o_id op = lc_operation_id lc"
    "p_status row = StatusCreating" "o_status op = OperationInProgress"
    using c by (auto simp: calling_def)
  show ?thesis
  proof (cases "definitive (code_of_error e)")
    case False
    have "okp E (result_of app key hash)
        (bindE (set_payment_creation_unknown (pay_id (lc_payment lc)) nc) (\<lambda>_.
          bindP (complete_operation (lc_operation_id lc) OperationUnknown (error_text e)) (\<lambda>_.
          bindP (record_creation E' ''creation_unknown'') (\<lambda>_.
          bindE (get_payment_row E' (pay_application_id (lc_payment lc)) (pay_id (lc_payment lc))) (\<lambda>p'.
            Ret (Inr \<lparr>res_payment = p', res_replayed = False, res_pending = True, res_retry_after = 2\<rparr>)))))) q s"
      if h: "holding q row op rq s" for nc q s
    proof (rule okp_bindE_result)
      show "okp E (\<lambda>r q' v. r = Inr () \<longrightarrow> released op rq q' v)
          (set_payment_creation_unknown (pay_id (lc_payment lc)) nc) q s"
        unfolding set_payment_creation_unknown_def exec_update_at_const c'(2)
        by (rule ok_release [OF h]) (use c' owner_moves(3) in auto)
      fix u :: unit and q s
      assume "Inr u = Inr () \<longrightarrow> released op rq q s"
      then have r: "released op rq q s" by simp
      show "okp E (result_of app key hash)
          (bindP (complete_operation (lc_operation_id lc) OperationUnknown (error_text e)) (\<lambda>_.
           bindP (record_creation E' ''creation_unknown'') (\<lambda>_.
           bindE (get_payment_row E' (pay_application_id (lc_payment lc)) (pay_id (lc_payment lc))) (\<lambda>p'.
             Ret (Inr \<lparr>res_payment = p', res_replayed = False, res_pending = True, res_retry_after = 2\<rparr>))))) q s"
        unfolding c'(2,3)
        by (rule pay_rg.ok_bind [OF ok_complete [OF r c'(4) c'(6)]], simp)
          (auto intro!: pay_rg.ok_bind [OF ok_request_creation] ok_finish c'(1))
    qed
    then show ?thesis
      unfolding handle_create_failure_def Let_def using False
      by simp (rule pay_rg.ok_bind [OF ok_holding_time [OF h]], simp)
  next
    case True
    have "okp E (result_of app key hash)
        (bindE (set_payment_canceled (pay_id (lc_payment lc))) (\<lambda>_.
          bindP (complete_operation (lc_operation_id lc) OperationFailed (error_text e)) (\<lambda>_.
          bindP (record_creation E' ''rejected'') (\<lambda>_. Ret (Inl e))))) q s"
    proof (rule okp_bindE_result)
      show "okp E (\<lambda>r q' v. r = Inr () \<longrightarrow> released op rq q' v)
          (set_payment_canceled (pay_id (lc_payment lc))) q s"
        unfolding set_payment_canceled_def c'(2)
        by (rule ok_release [OF h]) (use c' owner_moves(4) in auto)
      fix u :: unit and q s
      assume "Inr u = Inr () \<longrightarrow> released op rq q s"
      then have r: "released op rq q s" by simp
      show "okp E (result_of app key hash)
          (bindP (complete_operation (lc_operation_id lc) OperationFailed (error_text e)) (\<lambda>_.
           bindP (record_creation E' ''rejected'') (\<lambda>_. Ret (Inl e)))) q s"
        by (rule pay_rg.ok_bind [OF ok_complete [OF r c'(4) c'(6)]], simp)
          (auto intro!: pay_rg.ok_bind [OF ok_request_creation] okp_result_error)
    qed
    then show ?thesis unfolding handle_create_failure_def Let_def using True by simp
  qed
qed

lemma ok_set_payment_created:
  assumes h: "holding q row op rq s" and st: "p_status row = StatusCreating"
  shows "okp E (\<lambda>r q' v. r = Inr () \<longrightarrow> released op rq q' v)
    (set_payment_created (p_id row) (Some ppid) (Some url) nc) q s"
proof -
  have err: "okp E (\<lambda>r q' v. r = Inr () \<longrightarrow> released op rq q' v) (exec Pool (\<lambda>d. (Inl e, d))) q s" for e
    by (rule ok_read) auto
  have upd: "okp E (\<lambda>r q' v. r = Inr () \<longrightarrow> released op rq q' v)
      (exec_update (\<lambda>r. p_id r = p_id row) (set_created (Some x) (Some y) nc)) q s" for x y
    unfolding exec_update_at_const
    by (rule ok_release [OF h]) (use st owner_moves(2) in auto)
  show ?thesis
    unfolding set_payment_created_def
    by (auto simp: opt_text_def and_then_def intro: err upd split: sum.splits option.splits)
qed

lemma ok_record_created:
  assumes h: "holding q row op rq s" and c: "calling app key hash lc row op rq"
  shows "okp E (result_of app key hash) (record_created E' lc pp) q s"
proof -
  have c': "answers app key hash (p_id row) rq" "pay_id (lc_payment lc) = p_id row"
    "pay_application_id (lc_payment lc) = app_id app" "o_id op = lc_operation_id lc"
    "p_status row = StatusCreating" "o_status op = OperationInProgress"
    using c by (auto simp: calling_def)
  let ?answer = "bindE (get_payment_row E' (app_id app) (p_id row)) (\<lambda>p'.
      Ret (Inr \<lparr>res_payment = p', res_replayed = False, res_pending = False, res_retry_after = 0\<rparr>))"
  let ?complete = "bindP (complete_operation (lc_operation_id lc) OperationSucceeded []) (\<lambda>_. ?answer)"
  let ?set = "\<lambda>t. bindE (set_payment_created (p_id row) (Some (pp_id pp)) (Some (pp_checkout_url pp))
      (to_timestamp (t + se_poll E'))) (\<lambda>_. ?complete)"
  have rec: "okp E (\<lambda>_ q' v. q' = q \<and> holding q row op rq v) (record_creation E' ''created'') q s"
    by (rule ok_record_creation) (auto intro: holding_rely [OF h])
  have complete: "okp E (result_of app key hash) ?complete q s" if "released op rq q s" for q s
    by (rule pay_rg.ok_bind [OF ok_complete [OF that c'(4) c'(6)]], simp)
      (auto intro!: ok_finish c'(1))
  have set: "okp E (result_of app key hash) (?set t) q s" if "holding q row op rq s" for t q s
    by (rule okp_bindE_result [OF ok_set_payment_created [OF that c'(5)]]) (use complete in auto)
  have "okp E (result_of app key hash) (bindP get_time ?set) q s" if "holding q row op rq s" for q s
    by (rule pay_rg.ok_bind [OF ok_holding_time [OF that]]) (use set in auto)
  then have "okp E (result_of app key hash) (bindP (record_creation E' ''created'') (\<lambda>_. bindP get_time ?set)) q s"
    by (intro pay_rg.ok_bind [OF rec]) auto
  then show ?thesis by (simp only: record_created_def Let_def c'(2,3))
qed

text \<open>Marking the payment and starting the operation.\<close>

lemma ok_mark_creating:
  assumes h: "holding q row op rq s" and k: "key_count (o_provider_idempotency_key op) s = 0"
    and st: "p_status row = StatusCreated"
  shows "okp E (\<lambda>r q' v. r = Inr () \<longrightarrow> (\<exists>row'. holding q' row' op rq v \<and>
      key_count (o_provider_idempotency_key op) v = 0 \<and> same_identity row row' \<and>
      p_status row' = StatusCreating)) (mark_payment_creating (p_id row)) q s"
  unfolding mark_payment_creating_def exec_update_at_const
proof (rule pay_rg.ok_later)
  fix s'
  assume s': "rely q s s'" "invariant E s'"
  have h': "holding q row op rq s'" by (rule holding_rely [OF h s'(1)])
  have k': "key_count (o_provider_idempotency_key op) s' = 0"
    using s'(1) k h by (simp add: rely_def keeps_def holding_def)
  have wf: "payment_wf row" using h' s'(2) by (simp add: holding_def invariant_def rows_wf_def)
  let ?f = "\<lambda>r. r\<lparr>p_status := StatusCreating\<rparr>"
  have moves: "payment_moves row (stamped ?f c row) \<and> payment_wf (stamped ?f c row)" for c
    by (rule owner_moves(1) [OF wf st])
  show "okp E (\<lambda>r q' v. r = Inr () \<longrightarrow> (\<exists>row'. holding q' row' op rq v \<and>
      key_count (o_provider_idempotency_key op) v = 0 \<and> same_identity row row' \<and>
      p_status row' = StatusCreating))
    (exec_update_at (\<lambda>r. p_id r = p_id row \<and> p_status r = StatusCreated) (\<lambda>_. ?f)) q s'"
  proof (rule ok_own_update [where row = row and q' = q])
    show "own_pay q = Some (p_id row)" "row \<in> set (payments_of s')" using h' by (auto simp: holding_def)
    show "q = unpay q \<or> q = q \<and> (\<forall>c. p_provider_payment_id (?f row) = None)"
      using wf st by (simp add: payment_wf_def)
    fix u v c
    let ?row = "stamped ?f c row"
    assume u: "?row \<in> set (payments_of u)" "rely q u v" "rely (unpay q) s' v"
    have id: "p_id ?row = p_id row" by simp
    have row: "?row \<in> set (payments_of v)"
      using u(1,2) h' id by (auto simp: holding_def rely_def keeps_def)
    have rest: "op \<in> set (operations_of v)" "rq \<in> set (idempotency_of v)"
      "key_count (o_provider_idempotency_key op) v = 0"
      using u(3) h' k' by (auto simp: holding_def owner_def rely_def keeps_def evolves_def)
    have "q = owner ?row op" using h' by (simp add: holding_def owner_def)
    then have "holding q ?row op rq v" using row rest by (simp add: holding_def)
    moreover have "same_identity row ?row" using moves_identity moves by blast
    ultimately show "Inr () = Inr () \<longrightarrow> (\<exists>row'. holding q row' op rq v \<and>
      key_count (o_provider_idempotency_key op) v = 0 \<and> same_identity row row' \<and>
      p_status row' = StatusCreating)" using rest by (intro impI exI [of _ ?row]) simp
  qed (use moves st in auto)
qed

lemma ok_start_operation:
  assumes h: "holding q row op rq s" and k: "key_count (o_provider_idempotency_key op) s = 0"
    and st: "o_status op = OperationPending"
  shows "okp E (\<lambda>r q' v. r = Inr () \<longrightarrow> (\<exists>op'. holding q' row op' rq v \<and>
      key_count (o_provider_idempotency_key op) v = 0 \<and> operation_moves op op' \<and>
      o_status op' = OperationInProgress)) (exec Pool (start_payment_operation (o_id op))) q s"
proof (rule ok_op_update [where op = op and cond = "\<lambda>r. o_id r = o_id op \<and> o_status r = OperationPending"
      and good = "\<lambda>op'. o_status op' = OperationInProgress"])
  show "own_op q = Some (o_id op, o_provider_idempotency_key op)" "op \<in> set (operations_of s)"
    using h by (auto simp: holding_def)
  fix d d' and r :: "go_err + unit"
  let ?cond = "\<lambda>r. o_id r = o_id op \<and> o_status r = OperationPending"
  assume "start_payment_operation (o_id op) d = (r, d')"
  then consider e where "r = Inl e" "d' = d"
    | "r = Inr ()" "d' = d\<lparr>db_operations := update_where ?cond
        (\<lambda>r. r\<lparr>o_status := OperationInProgress, o_started_at := Some (db_clock d),
               o_attempt_count := o_attempt_count r + 1\<rparr>) (db_operations d)\<rparr>"
    by (auto simp: start_payment_operation_def update_operations_def Let_def split: if_splits)
  moreover have "operation_moves op (op\<lparr>o_status := OperationInProgress, o_started_at := x,
      o_attempt_count := y\<rparr>)" for x y
    using st by (simp add: operation_moves_def op_transition_def)
  ultimately show "(\<exists>e. r = Inl e \<and> d' = d) \<or>
      (\<exists>g. r = Inr () \<and> d' = d\<lparr>db_operations := update_where ?cond g (db_operations d)\<rparr> \<and>
        (?cond op \<longrightarrow> operation_moves op (g op) \<and> o_status (g op) = OperationInProgress))"
    by cases (blast, rule disjI2, rule exI, intro conjI impI, assumption, assumption, simp_all)
next
  fix v op'
  assume op': "op' \<in> set (operations_of v)" "operation_moves op op'"
    "o_id op = o_id op \<and> o_status op = OperationPending \<Longrightarrow> o_status op' = OperationInProgress"
    and v: "rely (unop q) s v" "key_count (o_provider_idempotency_key op) v = key_count (o_provider_idempotency_key op) s"
  have "row \<in> set (payments_of v)" "rq \<in> set (idempotency_of v)"
    using v(1) h by (auto simp: holding_def rely_def keeps_def evolves_def)
  moreover have "q = owner row op'"
    using h operation_moves_same [OF op'(2)] by (simp add: holding_def owner_def)
  ultimately show "Inr () = Inr () \<longrightarrow> (\<exists>op'. holding q row op' rq v \<and>
      key_count (o_provider_idempotency_key op) v = 0 \<and> operation_moves op op' \<and>
      o_status op' = OperationInProgress)"
    using op' st v(2) k by (intro impI exI [of _ op']) (simp add: holding_def)
qed auto

text \<open>The request that goes out is a charge for exactly the payment that was recorded.\<close>

lemma ok_credentials:
  assumes "\<And>r v. rely q s v \<Longrightarrow> invariant E v \<Longrightarrow> within q v \<Longrightarrow> Q r q v"
  shows "okp E Q (provider_credentials E' account) q s"
  unfolding provider_credentials_def
proof (rule pay_rg.ok_bind)
  show "okp E (\<lambda>_ q' v. q' = q \<and> rely q s v) (exec Pool (get_provider_account account Pool)) q s"
    by (rule ok_read_stable) auto
  fix q' s' and r :: "go_err + account_row"
  assume r: "q' = q \<and> rely q s s'"
  have fin: "okp E Q (Ret x) q s'" for x
    by (rule okp_Ret, rule assms) (use r in \<open>auto elim: pay_rg.rely_trans\<close>)
  show "okp E Q (case r of
         Inl e \<Rightarrow> Ret (Inl (map_not_found e))
       | Inr row \<Rightarrow>
           Ret (case decrypt (se_cipher E') (c_encrypted_secret_key row) of
                  Inl e \<Rightarrow> Inl e
                | Inr plaintext \<Rightarrow> Inr (c_shop_id row, string_of plaintext))) q' s'"
    using r fin by (cases r) simp_all
qed

lemma charge_sendable:
  assumes h: "holding q row op rq t" and k: "key_count (o_provider_idempotency_key op) t = 0"
    and op: "o_status op \<noteq> OperationPending" "o_payment_id op = p_id row"
      "o_provider_idempotency_key op = lc_provider_key lc" "lc_provider_key lc \<noteq> []"
    and p: "pay_id (lc_payment lc) = p_id row" "pay_order_id (lc_payment lc) = p_order_id row"
      "p_amount_minor row = in_amount_minor i" "p_currency row = in_currency i"
    and sent: "yk_create_payment Y c (provider_request E lc i) reply = (Some req, r)"
  shows "sendable E q t req"
proof -
  have req: "req = do_request c ''POST'' ''/v3/payments'' (req_idempotency_key (provider_request E lc i))
      (Some (create_payment_body (provider_request E lc i)))"
    using sent by (cases rule: create_payment_cases) auto
  have "charge_of E req row"
    using p by (simp add: charge_of_def req do_request_def create_payment_body_def provider_request_def
        provider_metadata_def)
  moreover have "wire_idempotence_key req = Some (lc_provider_key lc)"
    using op(4) by (simp add: req do_request_def provider_request_def)
  moreover have "op \<in> set (operations_of t)" "row \<in> set (payments_of t)"
    "own_op q = Some (o_id op, o_provider_idempotency_key op)"
    using h by (simp_all add: holding_def)
  ultimately show ?thesis
    unfolding sendable_def using op k p(1) by (intro disjI2 bexI [of _ op] bexI [of _ row]) simp_all
qed

lemma ok_charge:
  assumes h: "holding q row op rq s" and k: "key_count (o_provider_idempotency_key op) s = 0"
    and op: "o_status op \<noteq> OperationPending" "o_payment_id op = p_id row"
      "o_provider_idempotency_key op = lc_provider_key lc" "lc_provider_key lc \<noteq> []"
    and p: "pay_id (lc_payment lc) = p_id row" "pay_order_id (lc_payment lc) = p_order_id row"
      "p_amount_minor row = in_amount_minor i" "in_currency i = ''RUB''"
  shows "okp E (\<lambda>_ q' v. q' = q \<and> holding q row op rq v)
    (provider_call (yk_create_payment Y c (provider_request E lc i))) q s"
proof (rule ok_call)
  fix t reply req r
  assume t: "rely q s t" "invariant E t" "yk_create_payment Y c (provider_request E lc i) reply = (Some req, r)"
  have ht: "holding q row op rq t" by (rule holding_rely [OF h t(1)])
  have kt: "key_count (o_provider_idempotency_key op) t = 0"
    using t(1) h k by (simp add: rely_def keeps_def holding_def)
  have "payment_wf row" using ht t(2) by (simp add: holding_def invariant_def rows_wf_def)
  then have cur: "p_currency row = in_currency i" using p(4) by (simp add: payment_wf_def payment_checks_def)
  show "sendable E q t req" by (rule charge_sendable [OF ht kt op p(1,2,3) cur t(3)])
next
  fix reply v
  assume "after_call q s v"
  with h show "q = q \<and> holding q row op rq v"
    by (auto simp: holding_def after_call_def owner_def rely_def keeps_def evolves_def)
qed

lemma ok_charge_provider:
  assumes h: "holding q row op rq s" and k: "key_count (o_provider_idempotency_key op) s = 0"
    and c: "calling app key hash lc row op rq"
    and op: "o_payment_id op = p_id row" "o_provider_idempotency_key op = lc_provider_key lc"
      "lc_provider_key lc \<noteq> []"
    and p: "pay_order_id (lc_payment lc) = p_order_id row" "p_amount_minor row = in_amount_minor i"
      "in_currency i = ''RUB''"
  shows "okp E (result_of app key hash) (charge_provider E lc i client) q s"
proof -
  have c': "pay_id (lc_payment lc) = p_id row" "o_status op \<noteq> OperationPending"
    using c by (auto simp: calling_def)
  have time: "okp E (\<lambda>_ q' v. q' = q \<and> holding q row op rq v \<and> key_count (o_provider_idempotency_key op) v = 0)
      get_time q s"
    by (rule ok_get_time) (use holding_rely [OF h] holding_key [OF h] k in auto)
  have settle: "okp E (result_of app key hash)
      (case result of Inl e \<Rightarrow> handle_create_failure E lc e | Inr pp \<Rightarrow> record_created E lc pp) q s"
    if "holding q row op rq s" for result q s
    using ok_handle_create_failure [OF that c] ok_record_created [OF that c] by (cases result) auto
  have recorded: "okp E (result_of app key hash)
      (bindP (record_provider_call E OperationCreatePayment (error_of result) t) (\<lambda>_.
        case result of Inl e \<Rightarrow> handle_create_failure E lc e | Inr pp \<Rightarrow> record_created E lc pp)) q s"
    if hs: "holding q row op rq s" for result t s
  proof (rule pay_rg.ok_bind)
    show "okp E (\<lambda>_ q' v. q' = q \<and> holding q row op rq v)
        (record_provider_call E OperationCreatePayment (error_of result) t) q s"
      by (rule ok_record_provider_call) (auto intro: holding_rely [OF hs])
  qed (use settle in auto)
  show ?thesis
    unfolding charge_provider_def
  proof (rule pay_rg.ok_bind [OF time], elim conjE)
    fix started q' s'
    assume q': "q' = q" and hs: "holding q row op rq s'" and ks: "key_count (o_provider_idempotency_key op) s' = 0"
    show "okp E (result_of app key hash)
        (bindP (provider_call (yk_create_payment (se_yk E) client (provider_request E lc i))) (\<lambda>result.
         bindP (record_provider_call E OperationCreatePayment (error_of result) started) (\<lambda>_.
           case result of Inl e \<Rightarrow> handle_create_failure E lc e | Inr pp \<Rightarrow> record_created E lc pp))) q' s'"
      unfolding q'
      by (rule pay_rg.ok_bind [OF ok_charge [OF hs ks c'(2) op c'(1) p]]) (use recorded in auto)
  qed
qed

lemma ok_call_provider:
  assumes rows: "rows_made app key hash i lc row op rq" and f: "created_facts row op rq s"
    and cur: "in_currency i = ''RUB''"
  shows "okp E (result_of app key hash) (call_provider E lc i) (owner row op) s"
proof -
  have p: "pay_id (lc_payment lc) = p_id row" "pay_order_id (lc_payment lc) = p_order_id row"
    "p_amount_minor row = in_amount_minor i" "pay_application_id (lc_payment lc) = app_id app"
    "pay_status (lc_payment lc) = StatusCreated" "p_status row = StatusCreated"
    and op: "lc_operation_id lc = o_id op" "o_provider_idempotency_key op = lc_provider_key lc"
      "lc_provider_key lc \<noteq> []" "o_payment_id op = p_id row" "o_status op = OperationPending"
    and rq: "request_made app key hash (p_id row) rq"
    using rows by (auto simp: rows_made_def payment_made_def of_row_def)
  let ?key = "o_provider_idempotency_key op"
  have can: "validate_transition StatusCreated StatusCreating = None"
    by (simp add: validate_transition_def can_transition_def)
  have charge: "okp E (result_of app key hash) (charge_provider E lc i client) q s"
    if "holding q row' op' rq s" "key_count ?key s = 0" "same_identity row row'" "p_status row' = StatusCreating"
      "operation_moves op op'" "o_status op' = OperationInProgress" for q s row' op' client
  proof (rule ok_charge_provider [OF that(1)])
    note ops = operation_moves_same [OF that(5)]
    show "key_count (o_provider_idempotency_key op') s = 0" using that(2) ops by simp
    show "calling app key hash lc row' op' rq"
      using rq p op ops that by (simp add: calling_def answers_def request_made_def same_identity_def)
    show "o_payment_id op' = p_id row'" "o_provider_idempotency_key op' = lc_provider_key lc"
      "lc_provider_key lc \<noteq> []" "pay_order_id (lc_payment lc) = p_order_id row'"
      "p_amount_minor row' = in_amount_minor i" "in_currency i = ''RUB''"
      using that(3) ops op p cur by (simp_all add: same_identity_def)
  qed
  have start: "okp E (result_of app key hash)
      (bindE (exec Pool (start_payment_operation (o_id op))) (\<lambda>_. charge_provider E lc i client)) q s"
    if r: "holding q row' op rq s" "key_count ?key s = 0" "same_identity row row'"
      "p_status row' = StatusCreating" for q s row' client
    by (rule okp_bindE_result [OF ok_start_operation [OF r(1,2) op(5)]]) (use charge r(3,4) in auto)
  have mark: "okp E (result_of app key hash)
      (bindE (mark_payment_creating (p_id row)) (\<lambda>_.
       bindE (exec Pool (start_payment_operation (o_id op))) (\<lambda>_. charge_provider E lc i client))) q s"
    if "holding q row op rq s" "key_count ?key s = 0" for q s client
    by (rule okp_bindE_result [OF ok_mark_creating [OF that p(6)]]) (use start in auto)
  have cred: "okp E (\<lambda>r q v. holding q row op rq v \<and> key_count ?key v = 0)
      (provider_credentials E account) (owner row op) s" for account
    by (rule ok_credentials) (use created_facts_owner [OF f] in \<open>simp add: created_holding\<close>)
  show ?thesis
    unfolding call_provider_def Let_def p(1,5) op(1) can option.case
    by (rule okp_bindE_result [OF cred]) (use mark in \<open>auto split: prod.split\<close>)
qed

subsection \<open>Create\<close>

lemma ok_replay:
  assumes rq: "rq \<in> set (idempotency_of s)" "i_application_id rq = app_id app" "i_idempotency_key rq = key"
  shows "okp E (result_of app key hash) (replay E' (app_id app) rq hash) q s"
proof (cases "i_request_hash rq = hash \<and> i_payment_id rq \<noteq> None")
  case True
  then obtain pid where pid: "i_payment_id rq = Some pid" "i_request_hash rq = hash" by auto
  have a: "answers app key hash pid rq" using rq pid by (simp add: answers_def)
  have "okp E (\<lambda>r q v. rq \<in> set (idempotency_of v) \<and>
      (\<forall>p. r = Inr p \<longrightarrow> pay_id p = pid \<and> pay_application_id p = app_id app \<and> seen p v))
      (get_payment_row E' (app_id app) pid) q s"
    by (rule ok_get_payment_row) (use idempotency_rely [OF rq(1)] in auto)
  then have "okp E (result_of app key hash)
     (bindE (get_payment_row E' (app_id app) pid) (\<lambda>p.
      bindP (record_creation E' ''replayed'') (\<lambda>_.
        Ret (Inr \<lparr>res_payment = p, res_replayed = True,
                  res_pending = (\<not> terminal (pay_status p) \<and> pay_checkout_url p = None),
                  res_retry_after = 2\<rparr>)))) q s"
  proof (rule okp_bindE_result)
    fix p q s
    assume p: "rq \<in> set (idempotency_of s) \<and>
      (\<forall>p'. Inr p = Inr p' \<longrightarrow> pay_id p' = pid \<and> pay_application_id p' = app_id app \<and> seen p' s)"
    have "okp E (\<lambda>_ q v. rq \<in> set (idempotency_of v) \<and> seen p v) (record_creation E' ''replayed'') q s"
      by (rule ok_record_creation) (use p idempotency_rely seen_rely in blast)
    then show "okp E (result_of app key hash) (bindP (record_creation E' ''replayed'') (\<lambda>_.
        Ret (Inr \<lparr>res_payment = p, res_replayed = True,
                  res_pending = (\<not> terminal (pay_status p) \<and> pay_checkout_url p = None),
                  res_retry_after = 2\<rparr>))) q s"
    proof (rule pay_rg.ok_bind)
      fix u :: unit and q s
      assume "rq \<in> set (idempotency_of s) \<and> seen p s"
      then show "okp E (result_of app key hash) (Ret (Inr \<lparr>res_payment = p, res_replayed = True,
            res_pending = (\<not> terminal (pay_status p) \<and> pay_checkout_url p = None),
            res_retry_after = 2\<rparr>)) q s"
        using p a idempotency_rely seen_rely
        by (intro okp_Ret) (fastforce simp: result_of_def)
    qed
  qed
  then show ?thesis using pid by (simp add: replay_def)
next
  case False
  then show ?thesis by (auto simp: replay_def intro: okp_result_error split: option.split)
qed

lemma ok_lookup_request:
  assumes "\<And>e v. Q (Inl e) q v"
    and "\<And>rq v. rq \<in> set (idempotency_of v) \<Longrightarrow> i_application_id rq = app \<Longrightarrow> i_idempotency_key rq = key \<Longrightarrow>
      Q (Inr rq) q v"
  shows "okp E Q (exec Pool (get_idempotency_request app key Pool)) q s"
proof (rule ok_read)
  fix t a v
  assume "fst (get_idempotency_request app key Pool (w_db t)) = Inr a" and v: "rely q t v"
  then have "one_row (\<lambda>r. i_application_id r = app \<and> i_idempotency_key r = key) (idempotency_of t) = Inr a"
    by (auto simp: get_idempotency_request_def with_text_def split: sum.splits)
  from one_row_Inr [OF this] show "Q (Inr a) q v"
    using idempotency_rely [OF _ v] assms(2) by blast
qed (use assms(1) in simp_all)

lemma ok_create_with_account:
  assumes "uuid_text_ok E" "in_currency i = ''RUB''"
  shows "okp E (result_of app key hash) (create_with_account E app key hash i account) nothing s"
  unfolding create_with_account_def
proof (rule pay_rg.ok_bind [OF ok_create_local [OF assms(1)]])
  fix q s and r :: "go_err + local_creation"
  assume r: "local_done app key hash i r q s"
  show "okp E (result_of app key hash) (case r of
         Inr local \<Rightarrow> call_provider E local i
       | Inl e \<Rightarrow>
           if err_is e PErrIdempotencyRace then
             bindP (exec Pool (get_idempotency_request (app_id app) key Pool)) (\<lambda>r.
               case r of Inl _ \<Rightarrow> Ret (Inl e) | Inr raced \<Rightarrow> replay E (app_id app) raced hash)
           else Ret (Inl e)) q s"
  proof (cases r)
    case (Inl e)
    have look: "okp E (\<lambda>r q v. \<forall>rq. r = Inr rq \<longrightarrow> rq \<in> set (idempotency_of v) \<and>
        i_application_id rq = app_id app \<and> i_idempotency_key rq = key)
        (exec Pool (get_idempotency_request (app_id app) key Pool)) q s"
      by (rule ok_lookup_request) auto
    have "okp E (result_of app key hash)
        (bindP (exec Pool (get_idempotency_request (app_id app) key Pool)) (\<lambda>r.
           case r of Inl _ \<Rightarrow> Ret (Inl e) | Inr raced \<Rightarrow> replay E (app_id app) raced hash)) q s"
      by (rule pay_rg.ok_bind [OF look]) (auto intro: okp_result_error ok_replay split: sum.splits)
    then show ?thesis using Inl by (auto intro: okp_result_error)
  next
    case (Inr lc)
    with r obtain row op rq where "rows_made app key hash i lc row op rq" "q = owner row op"
      "created_facts row op rq s" by (auto simp: local_done_def)
    then show ?thesis using ok_call_provider assms(2) by (simp add: Inr)
  qed
qed

lemma ok_create_new:
  assumes "uuid_text_ok E" "in_currency i = ''RUB''"
  shows "okp E (result_of app key hash) (create_new E app key hash i) nothing s"
  unfolding create_new_def
proof (rule okp_bindE_result [where Q = "\<lambda>_ q _. q = nothing"])
  show "okp E (\<lambda>_ q _. q = nothing)
      (exec Pool (order_has_succeeded_payment (app_id app) (in_order_id i) Pool)) nothing s"
    by (rule ok_read_stable) simp_all
  fix paid q s
  assume q: "q = nothing"
  have look: "okp E (\<lambda>_ q _. q = nothing) (exec Pool (get_default_provider_account (app_id app) Pool)) nothing s"
    by (rule ok_read_stable) simp_all
  have "okp E (result_of app key hash)
      (bindP (exec Pool (get_default_provider_account (app_id app) Pool)) (\<lambda>r. case r of
           Inl e \<Rightarrow> Ret (Inl (if err_is e ErrNoRows then Sentinel PErrNoProviderAccount else e))
         | Inr account \<Rightarrow> create_with_account E app key hash i account)) nothing s"
    by (rule pay_rg.ok_bind [OF look])
      (auto intro: okp_result_error ok_create_with_account assms split: sum.splits)
  then show "okp E (result_of app key hash) (if paid then Ret (Inl (Sentinel PErrOrderAlreadySucceeded))
       else bindP (exec Pool (get_default_provider_account (app_id app) Pool)) (\<lambda>r. case r of
           Inl e \<Rightarrow> Ret (Inl (if err_is e ErrNoRows then Sentinel PErrNoProviderAccount else e))
         | Inr account \<Rightarrow> create_with_account E app key hash i account)) q s"
    unfolding q by (auto intro: okp_result_error)
qed

lemma validate_rub: "validate N urls app key input = Inr i \<Longrightarrow> in_currency i = ''RUB''"
  by (auto simp: validate_def Let_def and_then_eq_Inr split: if_splits option.splits)

text \<open>The hash a create answers for: that of the validated input.\<close>

definition hash_of :: "service_env \<Rightarrow> application \<Rightarrow> string \<Rightarrow> create_payment_input \<Rightarrow> bytes" where
  "hash_of E app key input = (case validate (se_net E) (service_urls E) app key input of
     Inl _ \<Rightarrow> [] | Inr i \<Rightarrow> request_hash (se_sha E) i)"

lemma ok_create:
  assumes "uuid_text_ok E"
  shows "okp E (result_of app key (hash_of E app key input)) (create E app input key) nothing s"
proof (cases "validate (se_net E) (service_urls E) app key input")
  case (Inl e)
  then show ?thesis by (simp add: create_def okp_result_error)
next
  case (Inr i)
  let ?hash = "request_hash (se_sha E) i"
  have h: "hash_of E app key input = ?hash" by (simp add: hash_of_def Inr)
  have look: "okp E (\<lambda>r q v. q = nothing \<and> (\<forall>rq. r = Inr rq \<longrightarrow> rq \<in> set (idempotency_of v) \<and>
      i_application_id rq = app_id app \<and> i_idempotency_key rq = key))
      (exec Pool (get_idempotency_request (app_id app) key Pool)) nothing s"
    by (rule ok_lookup_request) auto
  have "okp E (result_of app key ?hash)
     (bindP (exec Pool (get_idempotency_request (app_id app) key Pool)) (\<lambda>r. case r of
         Inr existing \<Rightarrow> replay E (app_id app) existing ?hash
       | Inl e \<Rightarrow> if err_is e ErrNoRows then create_new E app key ?hash i else Ret (Inl e))) nothing s"
    by (rule pay_rg.ok_bind [OF look])
      (auto intro: okp_result_error ok_replay ok_create_new assms validate_rub [OF Inr] split: sum.splits)
  then show ?thesis unfolding h by (simp add: create_def Inr Let_def)
qed

subsection \<open>Reading\<close>

text \<open>A payment that is known with a provider id is pending or final, and stays so.\<close>

lemma seen_current:
  assumes "seen p t" "invariant E t" "x \<in> set (payments_of t)" "p_id x = pay_id p"
  shows "\<exists>r0. of_row r0 p \<and> payment_wf r0 \<and> payment_becomes r0 x"
proof -
  from assms(1) obtain r0 r where r: "of_row r0 p" "payment_wf r0" "r \<in> set (payments_of t)" "payment_becomes r0 r"
    by (auto simp: seen_def)
  have "p_id r = p_id x"
    using becomes_identity [OF r(4)] r(1) assms(4) by (simp add: same_identity_def of_row_def)
  with unique_payment [OF assms(2) r(3) assms(3)] r show ?thesis by auto
qed

lemma pending_current:
  assumes r: "of_row r0 p" "payment_wf r0" "payment_becomes r0 x" "pay_provider_payment_id p \<noteq> None"
  shows "p_provider_payment_id x \<noteq> None"
    and "active_row x \<Longrightarrow> p_status x = StatusPending"
    and "can_transition (pay_status p) st \<Longrightarrow> pay_status p = StatusPending"
proof -
  have early: "p_status r0 \<notin> {StatusCreated, StatusCreating, StatusCreationUnknown}"
    using r(1,2,4) by (auto simp: payment_wf_def of_row_def)
  then have "p_status r0 = StatusPending \<or> terminal (p_status r0)" by (cases "p_status r0") auto
  then have pending: "\<not> terminal (p_status r0) \<Longrightarrow> p_status r0 = StatusPending" by blast
  show "p_provider_payment_id x \<noteq> None"
    using r(1,4) becomes_provider_id [OF r(3)] by (auto simp: of_row_def)
  show "p_status x = StatusPending" if "active_row x"
    using that pending becomes_terminal [OF r(3)] becomes_status [OF r(3)]
      may_become_pending [of "p_status x"] by fastforce
  show "pay_status p = StatusPending" if "can_transition (pay_status p) st"
    using that pending r(1) terminal_iff_no_transition [of "p_status r0"] by (auto simp: of_row_def)
qed

lemma refresh_moves:
  assumes "payment_wf x" "p_status x = StatusPending" "st = StatusSucceeded \<or> st = StatusCanceled"
  shows "payment_moves x (stamped (apply_status st nc c) c' x) \<and> payment_wf (stamped (apply_status st nc c) c' x)"
  using assms
  by (auto simp: payment_moves_def payment_wf_def payment_checks_def same_identity_def can_transition_def
      apply_status_def)

definition read_back :: "uuid \<Rightarrow> uuid \<Rightarrow> go_err + payment \<Rightarrow> own \<Rightarrow> world \<Rightarrow> bool" where
  "read_back app pid r q v \<longleftrightarrow> q = nothing \<and>
     (\<forall>p. r = Inr p \<longrightarrow> pay_id p = pid \<and> pay_application_id p = app \<and> seen p v)"

lemma read_back_simps [simp]:
  "read_back app pid (Inl e) q v \<longleftrightarrow> q = nothing"
  "read_back app pid (Inr p) q v \<longleftrightarrow> q = nothing \<and> pay_id p = pid \<and> pay_application_id p = app \<and> seen p v"
  by (auto simp: read_back_def)

lemma okp_read_back: "okp E (read_back app pid) (get_payment_row E' app pid) nothing s"
  by (rule ok_get_payment_row) (simp add: read_back_def)

lemma okp_read_back_known:
  "seen p s \<Longrightarrow> pay_id p = pid \<Longrightarrow> pay_application_id p = app \<Longrightarrow> okp E (read_back app pid) (Ret (Inr p)) nothing s"
  by (rule okp_Ret) (auto intro: seen_rely)

lemma okp_bindE_read:
  assumes "okp E (\<lambda>_ q v. q = nothing \<and> P v) p nothing s"
    and "\<And>a s. invariant E s \<Longrightarrow> P s \<Longrightarrow> okp E (read_back app pid) (k a) nothing s"
  shows "okp E (read_back app pid) (bindE p k) nothing s"
  by (rule pay_rg.ok_bindE [OF assms(1)]) (use assms(2) in \<open>auto intro: okp_Ret\<close>)

lemma ok_apply_provider_state:
  assumes p: "seen p s" "pay_provider_payment_id p \<noteq> None" "pay_application_id p = app" "pay_id p = pid"
  shows "okp E (read_back app pid) (apply_provider_state E' p pp) nothing s"
proof (cases "\<exists>st. internal_status (pp_status pp) = Some st \<and> can_transition (pay_status p) st")
  case False
  then show ?thesis
    using p by (auto simp: apply_provider_state_def intro: okp_read_back_known split: option.split)
next
  case True
  then obtain st where st: "internal_status (pp_status pp) = Some st" "can_transition (pay_status p) st" by auto
  have pid: "p_id r0 = pay_id p" if "of_row r0 p" for r0 using that by (simp add: of_row_def)
  have upd: "okp E (\<lambda>_ q v. q = nothing \<and> True) (apply_provider_status (pay_id p) st nc) nothing s"
    if s: "seen p s" for nc s
    unfolding apply_provider_status_def
  proof (rule ok_foreign_update)
    fix t x
    assume t: "invariant E t" "rely nothing s t" and x: "x \<in> set (payments_of t)" "p_id x = pay_id p \<and> active_row x"
    have "seen p t" by (rule seen_rely [OF s t(2)])
    then obtain r0 where r0: "of_row r0 p" "payment_wf r0" "payment_becomes r0 x"
      using seen_current t(1) x by blast
    note cur = pending_current [OF r0 p(2)]
    show "p_provider_payment_id x \<noteq> None" by (rule cur(1))
    have "payment_wf x" using t(1) x(1) by (simp add: invariant_def rows_wf_def)
    moreover have "p_status x = StatusPending" using cur(2) x(2) by blast
    moreover have "st = StatusSucceeded \<or> st = StatusCanceled"
      using st cur(3) [OF st(2)] by (auto simp: can_transition_def)
    ultimately show "payment_moves x (stamped (apply_status st nc c) c' x) \<and>
        payment_wf (stamped (apply_status st nc c) c' x)" for c c'
      by (rule refresh_moves)
  qed simp
  have time: "okp E (\<lambda>_ q v. q = nothing \<and> seen p v) get_time nothing s"
    by (rule ok_get_time) (use seen_rely [OF p(1)] in auto)
  have "okp E (read_back app pid)
      (bindE (apply_provider_status pid st nc) (\<lambda>_. get_payment_row E' app pid)) nothing s"
    if "seen p s" for nc s
    by (rule okp_bindE_read [OF upd [OF that, unfolded p(4)]]) (rule okp_read_back)
  then have "okp E (read_back app pid) (bindP get_time (\<lambda>t.
      bindE (apply_provider_status pid st (to_timestamp (t + se_poll E'))) (\<lambda>_. get_payment_row E' app pid))) nothing s"
    by (intro pay_rg.ok_bind [OF time]) auto
  then show ?thesis unfolding apply_provider_state_def using st p(3,4) by simp
qed

lemma get_payment_no_key:
  "yk_get_payment Y c pid reply = (Some req, r) \<Longrightarrow> wire_idempotence_key req = None"
  by (auto simp: yk_get_payment_def yk_do_def do_request_def split: if_splits option.splits prod.splits)

lemma ok_refresh:
  assumes p: "seen p s" "pay_provider_payment_id p \<noteq> None" "pay_application_id p = app" "pay_id p = pid"
  shows "okp E (read_back app pid) (refresh E' p) nothing s"
proof -
  have call: "okp E (\<lambda>_ q v. q = nothing \<and> seen p v) (provider_call (yk_get_payment Y c x)) nothing s"
    if "seen p s" for Y c x s
    by (rule ok_call) (use that get_payment_no_key seen_rely in \<open>fastforce simp: sendable_def after_call_def\<close>)+
  have apply_state: "okp E (read_back app pid)
      (case result of Inl e \<Rightarrow> Ret (Inl e) | Inr pp \<Rightarrow> apply_provider_state E' p pp) nothing s"
    if "seen p s" for s result
    using ok_apply_provider_state [OF that p(2-4)] by (cases result) (auto intro: okp_Ret)
  have recorded: "okp E (read_back app pid)
      (bindP (record_provider_call E' OperationGetPayment e t) (\<lambda>_.
        case result of Inl e \<Rightarrow> Ret (Inl e) | Inr pp \<Rightarrow> apply_provider_state E' p pp)) nothing s"
    if "seen p s" for s result e t
  proof (rule pay_rg.ok_bind)
    show "okp E (\<lambda>_ q v. q = nothing \<and> seen p v) (record_provider_call E' OperationGetPayment e t) nothing s"
      by (rule ok_record_provider_call) (use seen_rely [OF that] in auto)
  qed (use apply_state in auto)
  have called: "okp E (read_back app pid)
      (bindP (provider_call (yk_get_payment (se_yk E') c x)) (\<lambda>result.
       bindP (record_provider_call E' OperationGetPayment (error_of result) t) (\<lambda>_.
         case result of Inl e \<Rightarrow> Ret (Inl e) | Inr pp \<Rightarrow> apply_provider_state E' p pp))) nothing s"
    if "seen p s" for s c x t
    by (rule pay_rg.ok_bind [OF call [OF that]]) (use recorded in auto)
  have timed: "okp E (read_back app pid) (bindP get_time (\<lambda>started.
      bindP (provider_call (yk_get_payment (se_yk E') c x)) (\<lambda>result.
       bindP (record_provider_call E' OperationGetPayment (error_of result) started) (\<lambda>_.
         case result of Inl e \<Rightarrow> Ret (Inl e) | Inr pp \<Rightarrow> apply_provider_state E' p pp)))) nothing s"
    if "seen p s" for s c x
  proof (rule pay_rg.ok_bind)
    show "okp E (\<lambda>_ q v. q = nothing \<and> seen p v) get_time nothing s"
      by (rule ok_get_time) (use seen_rely [OF that] in auto)
  qed (use called in auto)
  have cred: "okp E (\<lambda>_ q v. q = nothing \<and> seen p v) (provider_credentials E' account) nothing s" for account
    by (rule ok_credentials) (use seen_rely [OF p(1)] in auto)
  show ?thesis
    unfolding refresh_def
    by (rule okp_bindE_read [OF cred]) (use timed in \<open>auto split: prod.split\<close>)
qed

text \<open>Whatever a program does, the state evolves while it runs.\<close>

lemma okp_evolves:
  assumes "okp E Q p q s" "evolves s0 s"
  shows "okp E (\<lambda>r q v. Q r q v \<and> evolves s0 v) p q s"
  using assms
proof (induction p q s rule: pay_rg.ok.induct)
  case (ok_Ret q s a)
  then show ?case
    by (intro pay_rg.ok_Ret) (auto simp: rely_def intro: evolves_trans)
next
  case (ok_Act q s f)
  show ?case
  proof (rule pay_rg.ok_Act)
    fix t p u
    assume t: "rely q s t" "invariant E t" "within q t" "f t = Some (p, u)"
    from ok_Act.IH [OF t] obtain q' where u: "invariant E u" "guar q q' t u"
      "evolves s0 u \<Longrightarrow> okp E (\<lambda>r q v. Q r q v \<and> evolves s0 v) p q' u" by blast
    have "evolves s0 u"
      using ok_Act.prems t(1) u(2) by (auto simp: rely_def guar_def intro: evolves_trans step_ok_evolves)
    with u show "invariant E u \<and> (\<exists>q'. guar q q' t u \<and>
        okp E (\<lambda>r q v. Q r q v \<and> evolves s0 v) p q' u)" by blast
  qed
qed

lemma ok_maybe_refresh:
  assumes p: "seen p s" "pay_application_id p = app" "pay_id p = pid"
  shows "okp E (\<lambda>p. read_back app pid (Inr p)) (maybe_refresh E' p) nothing s"
proof -
  have keep: "okp E (\<lambda>p. read_back app pid (Inr p)) (Ret p) nothing s" if "seen p s" for s
    by (rule okp_Ret) (use seen_rely [OF that] p in auto)
  have refreshed: "okp E (\<lambda>p. read_back app pid (Inr p))
      (bindP (refresh E' p) (\<lambda>r. Ret (case r of Inl _ \<Rightarrow> p | Inr refreshed \<Rightarrow> refreshed))) nothing s"
    if s: "seen p s" and ppid: "pay_provider_payment_id p \<noteq> None" for s
  proof (rule pay_rg.ok_bind)
    show "okp E (\<lambda>r q v. read_back app pid r q v \<and> evolves s v) (refresh E' p) nothing s"
      by (rule okp_evolves [OF ok_refresh]) (use s ppid p in auto)
    show "okp E (\<lambda>p. read_back app pid (Inr p)) (Ret (case a of Inl _ \<Rightarrow> p | Inr refreshed \<Rightarrow> refreshed)) q s'"
      if "read_back app pid a q s' \<and> evolves s s'" for a q s'
    proof -
      from that have "seen p s'" using seen_evolves [OF s] by blast
      then show ?thesis
        using that p by (cases a) (auto intro!: okp_Ret elim: seen_rely)
    qed
  qed
  have timed: "okp E (\<lambda>p. read_back app pid (Inr p)) (bindP get_time (\<lambda>t.
        if (case pay_next_check_at p of Some n \<Rightarrow> n > t | None \<Rightarrow> False) then Ret p
        else bindP (refresh E' p) (\<lambda>r. Ret (case r of Inl _ \<Rightarrow> p | Inr refreshed \<Rightarrow> refreshed)))) nothing s"
    if ppid: "pay_provider_payment_id p \<noteq> None"
  proof (rule pay_rg.ok_bind)
    show "okp E (\<lambda>_ q v. q = nothing \<and> seen p v) get_time nothing s"
      by (rule ok_get_time) (use seen_rely [OF p(1)] in auto)
  qed (use keep refreshed [OF _ ppid] in auto)
  show ?thesis
    unfolding maybe_refresh_def using keep [OF p(1)] timed by simp
qed

lemma ok_GetPayment: "okp E (read_back app pid) (GetPayment E' app pid) nothing s"
  unfolding GetPayment_def
proof (rule pay_rg.ok_bindE [OF okp_read_back])
  fix p q s
  assume "read_back app pid (Inr p) q s"
  then have q: "q = nothing" and p: "seen p s" "pay_application_id p = app" "pay_id p = pid" by auto
  show "okp E (read_back app pid) (bindP (maybe_refresh E' p) (\<lambda>p'. Ret (Inr p'))) q s"
    unfolding q by (rule pay_rg.ok_bind [OF ok_maybe_refresh [OF p]])
      (auto intro!: okp_Ret elim: seen_rely)
qed (auto intro: okp_Ret)

text \<open>The list holds payments of the application only, each as it was read.\<close>

definition listed :: "uuid \<Rightarrow> go_err + payment list \<Rightarrow> own \<Rightarrow> world \<Rightarrow> bool" where
  "listed app r q v \<longleftrightarrow> (\<forall>ps. r = Inr ps \<longrightarrow>
     length ps \<le> 100 \<and> (\<forall>p \<in> set ps. pay_application_id p = app \<and> seen p v))"

lemma effective_limit_bounds: "1 \<le> effective_limit n" "effective_limit n \<le> 100"
  by (auto simp: effective_limit_def limit_defs)

lemma ok_ListPayments: "okp E (listed app) (ListPayments E' app query) nothing s"
proof -
  let ?rows = "\<lambda>order. list_payments_for_application app order (effective_limit (lq_limit query)) Pool"
  let ?good = "\<lambda>rows v. length rows \<le> 100 \<and>
    (\<forall>r \<in> set rows. p_application_id r = app \<and> (\<forall>p. of_row r p \<longrightarrow> seen p v))"
  have read: "okp E (\<lambda>r q v. \<forall>rows. r = Inr rows \<longrightarrow> ?good rows v) (exec Pool (?rows order)) nothing s" for order
  proof (rule ok_read)
    fix t rows v
    assume t: "invariant E t" and v: "rely nothing t v" and "fst (?rows order (w_db t)) = Inr rows"
    then have "rows = take (nat (effective_limit (lq_limit query))) (sort_key (\<lambda>r. - p_created_at r)
        (filter (\<lambda>r. p_application_id r = app \<and> (order = None \<or> order = Some (p_order_id r))) (payments_of t)))"
      by (auto simp: list_payments_for_application_def with_text_opt_def with_text_def
          split: option.splits sum.splits)
    then have "length rows \<le> 100" and rows: "\<forall>r \<in> set rows. r \<in> set (payments_of t) \<and> p_application_id r = app"
      using effective_limit_bounds [of "lq_limit query"] by (auto dest!: in_set_takeD)
    then show "\<forall>rows'. Inr rows = Inr rows' \<longrightarrow> ?good rows' v"
      using seen_rely [OF seen_now [OF t] v] by auto
  qed simp_all
  have made: "okp E (listed app) (Ret (to_payments (se_decode_metadata E') rows)) q s"
    if g: "?good rows s" for rows q s
  proof (rule okp_Ret)
    fix v
    assume v: "rely q s v"
    show "listed app (to_payments (se_decode_metadata E') rows) q v"
      unfolding listed_def
    proof (intro allI impI)
      fix ps
      assume "to_payments (se_decode_metadata E') rows = Inr ps"
      then have ps: "list_all2 (\<lambda>r p. of_row r p) rows ps"
        unfolding to_payments_def traverse_Inr_iff
        by (rule list_all2_mono) (rule to_payment_of_row)
      have "pay_application_id p = app \<and> seen p v" if "p \<in> set ps" for p
      proof -
        from ps that obtain r where r: "r \<in> set rows" "of_row r p"
          by (metis in_set_conv_nth list_all2_conv_all_nth)
        with g have "p_application_id r = app" "seen p s" by auto
        with r(2) show ?thesis using seen_rely [OF _ v] by (auto simp: of_row_def)
      qed
      with ps g show "length ps \<le> 100 \<and> (\<forall>p \<in> set ps. pay_application_id p = app \<and> seen p v)"
        by (auto dest: list_all2_lengthD)
    qed
  qed
  show ?thesis
    unfolding ListPayments_def Let_def
    by (rule pay_rg.ok_bindE [OF read]) (auto intro: made okp_Ret simp: listed_def)
qed

lemma ok_UnfinishedCount: "okp E (\<lambda>_ _ _. True) UnfinishedCount nothing s"
  unfolding UnfinishedCount_def by (rule ok_read_stable) simp_all

end
