(* ===== verification/PaymentSafety.thy ===== *)
theory PaymentSafety
  imports PaymentFlows
begin

text \<open>
  The payment service as a running system: any number of requests at a time, their actions
  interleaved in every order, connections failing before or after a statement, the provider
  answering anything, clocks moving. The properties hold in every configuration such a system can
  reach from an empty payment database, and follow from the interface \<open>rely_guarantee\<close>
  interpreted as \<open>pay_rg\<close>.
\<close>

subsection \<open>The system\<close>

text \<open>The methods of the service its callers use (the handlers and the worker), and their results.\<close>

datatype request =
    ReqCreate application string create_payment_input
  | ReqAttempt application string string create_payment_input
  | ReqGet uuid uuid
  | ReqList uuid list_query
  | ReqCount

datatype response =
    RespCreate "go_err + create_result"
  | RespGet "go_err + payment"
  | RespList "go_err + payment list"
  | RespCount "go_err + int"

fun respond :: "service_env \<Rightarrow> request \<Rightarrow> response action" where
  "respond E (ReqCreate app key input) = bindP (CreatePayment E app key input) (\<lambda>r. Ret (RespCreate r))"
| "respond E (ReqAttempt app order key input) =
     bindP (CreateAttempt E app order key input) (\<lambda>r. Ret (RespCreate r))"
| "respond E (ReqGet app pid) = bindP (GetPayment E app pid) (\<lambda>r. Ret (RespGet r))"
| "respond E (ReqList app query) = bindP (ListPayments E app query) (\<lambda>r. Ret (RespList r))"
| "respond E ReqCount = bindP UnfinishedCount (\<lambda>r. Ret (RespCount r))"

definition serve :: "service_env \<Rightarrow> request \<Rightarrow> (request \<times> response) action" where
  "serve E req = bindP (respond E req) (\<lambda>resp. Ret (req, resp))"

type_synonym service = "(world, request \<times> response) system"

definition reachable :: "service_env \<Rightarrow> world \<Rightarrow> service \<Rightarrow> bool" where
  "reachable E = sys_reach (range (serve E)) environment"

definition service_step :: "service_env \<Rightarrow> service \<Rightarrow> service \<Rightarrow> bool" where
  "service_step E = sys_step (range (serve E)) environment"

text \<open>A fresh installation: no payment, no open transaction, nothing sent.\<close>

definition fresh :: "service_env \<Rightarrow> world \<Rightarrow> bool" where
  "fresh E w \<longleftrightarrow> uuid_text_ok E \<and> payments_of w = [] \<and> operations_of w = [] \<and> idempotency_of w = [] \<and>
     txs_of w = [] \<and> w_wire w = []"

lemma fresh_invariant: "fresh E w \<Longrightarrow> invariant E w"
  by (simp add: fresh_def invariant_def no_clashes_def all_rows_def rows_wf_def wire_wf_def key_count_def)

subsection \<open>Every handler is verified\<close>

text \<open>The key and the hash a create request stands for.\<close>

fun create_args :: "service_env \<Rightarrow> request \<Rightarrow> (application \<times> string \<times> bytes) option" where
  "create_args E (ReqCreate app key input) = Some (app, key, hash_of E app key input)"
| "create_args E (ReqAttempt app order key input) =
     Some (app, key, hash_of E app key (input\<lparr>in_order_id := order\<rparr>))"
| "create_args E _ = None"

definition sound :: "service_env \<Rightarrow> request \<times> response \<Rightarrow> own \<Rightarrow> world \<Rightarrow> bool" where
  "sound E a q v \<longleftrightarrow>
     (\<forall>req r app key hash. a = (req, RespCreate r) \<longrightarrow> create_args E req = Some (app, key, hash) \<longrightarrow>
        result_of app key hash r q v) \<and>
     (\<forall>app pid r. a = (ReqGet app pid, RespGet r) \<longrightarrow> read_back app pid r q v) \<and>
     (\<forall>app query r. a = (ReqList app query, RespList r) \<longrightarrow> listed app r q v)"

lemma result_of_rely: "result_of app key hash r q s \<Longrightarrow> rely q s v \<Longrightarrow> result_of app key hash r q v"
  by (auto 0 3 simp: result_of_def intro: seen_rely dest: idempotency_rely)

lemma read_back_rely: "read_back app pid r q s \<Longrightarrow> rely q s v \<Longrightarrow> read_back app pid r q v"
  by (auto simp: read_back_def intro: seen_rely)

lemma listed_rely: "listed app r q s \<Longrightarrow> rely q s v \<Longrightarrow> listed app r q v"
  by (auto simp: listed_def intro: seen_rely)

lemma ok_answer:
  assumes "okp E Q p nothing s" "\<And>r q s v. Q r q s \<Longrightarrow> rely q s v \<Longrightarrow> Q r q v"
    and "\<And>r q v. Q r q v \<Longrightarrow> sound E (req, f r) q v"
  shows "okp E (sound E) (bindP (bindP p (\<lambda>r. Ret (f r))) (\<lambda>resp. Ret (req, resp))) nothing s"
  unfolding bindP_assoc
  by (rule pay_rg.ok_bind [OF assms(1)]) (use assms(2,3) in \<open>auto intro!: okp_Ret\<close>)

lemma ok_serve:
  assumes "invariant E s"
  shows "okp E (sound E) (serve E req) nothing s"
proof -
  have u: "uuid_text_ok E" using assms by (simp add: invariant_def)
  show ?thesis
  proof (cases req)
    case (ReqCreate app key input)
    then show ?thesis
      unfolding serve_def
      by (simp add: CreatePayment_def, intro ok_answer [OF ok_create [OF u]])
        (auto simp: sound_def intro: result_of_rely)
  next
    case (ReqAttempt app order key input)
    then show ?thesis
      unfolding serve_def
      by (simp add: CreateAttempt_def, intro ok_answer [OF ok_create [OF u]])
        (auto simp: sound_def intro: result_of_rely)
  next
    case (ReqGet app pid)
    then show ?thesis
      unfolding serve_def
      by (simp, intro ok_answer [OF ok_GetPayment]) (auto simp: sound_def intro: read_back_rely)
  next
    case (ReqList app query)
    then show ?thesis
      unfolding serve_def
      by (simp, intro ok_answer [OF ok_ListPayments]) (auto simp: sound_def intro: listed_rely)
  next
    case ReqCount
    then show ?thesis
      unfolding serve_def
      by (simp, intro ok_answer [OF ok_UnfinishedCount]) (auto simp: sound_def)
  qed
qed

lemma ok_handlers: "p \<in> range (serve E) \<Longrightarrow> invariant E s \<Longrightarrow> okp E (sound E) p nothing s"
  using ok_serve by blast

lemma reachable_invariant: "reachable E w0 c \<Longrightarrow> fresh E w0 \<Longrightarrow> invariant E (shared c)"
  unfolding reachable_def using pay_rg.reach_inv [OF _ fresh_invariant ok_handlers] by blast

lemma reachable_sound:
  assumes "reachable E w0 c" "fresh E w0" "threads c i = Some (Ret a)"
  shows "\<exists>q. sound E a q (shared c)"
  using pay_rg.reach_result [OF assms(1) [unfolded reachable_def] fresh_invariant [OF assms(2)] ok_handlers assms(3)]
  by blast

lemma reachable_step:
  assumes "reachable E w0 c" "fresh E w0" "service_step E c c'"
  shows "step_ok (shared c) (shared c')"
proof -
  have refl: "step_ok w w" for w by (rule quiet_step_ok) (simp add: quiet_def)
  show ?thesis
    by (rule pay_rg.step_guar [OF assms(1) [unfolded reachable_def] fresh_invariant [OF assms(2)] ok_handlers
          assms(3) [unfolded service_step_def]])
      (auto simp: refl guar_def dest: environment_quiet quiet_step_ok)
qed

end
