(* ===== verification/CalmRuns.thy ===== *)
theory CalmRuns
  imports PaymentUpdates
begin

text \<open>
  Runs of one request alone, on connections that do not fail: what each program returns and leaves
  behind. The state during a run is the world it started in with a statement counter and a database
  (\<open>at\<close>); the database during the local transaction is the one it started from with one open
  transaction (\<open>tx_db\<close>).
\<close>

named_theorems calm_run \<open>evaluation of a run without faults\<close>

definition calm :: "world \<Rightarrow> bool" where
  "calm w \<longleftrightarrow> w_faults w = (\<lambda>_. NoFault)"

definition at :: "nat \<Rightarrow> database \<Rightarrow> world \<Rightarrow> world" where
  "at n d w = w\<lparr>w_stmts := n, w_db := d\<rparr>"

lemma at_sel [simp]:
  "w_db (at n d w) = d" "w_stmts (at n d w) = n" "w_wire (at n d w) = w_wire w"
  "w_now (at n d w) = w_now w" "w_calls (at n d w) = w_calls w" "w_replies (at n d w) = w_replies w"
  "w_metrics (at n d w) = w_metrics w" "w_faults (at n d w) = w_faults w"
  by (simp_all add: at_def)

lemma at_self: "at (w_stmts w) (w_db w) w = w"
  by (simp add: at_def)

lemma run_exec [calm_run]:
  "calm w \<Longrightarrow> conn_open c d \<Longrightarrow> run (exec c eff) (at n d w) = Some (fst (eff d), at (Suc n) (snd (eff d)) w)"
  by (simp add: exec_def statement_def calm_def at_def Let_def)

lemma run_exec_when [calm_run]:
  "calm w \<Longrightarrow> conn_open c d \<Longrightarrow> ready d \<Longrightarrow>
     run (exec_when ready c eff) (at n d w) = Some (fst (eff d), at (Suc n) (snd (eff d)) w)"
  by (simp add: exec_when_def statement_def calm_def at_def Let_def)

lemma conn_open_Pool [simp]: "conn_open Pool d"
  by (simp add: conn_open_def)

lemma run_get_time [calm_run]: "run get_time w = Some (w_now w, w)"
  by (simp add: get_time_def)

lemma run_new_uuid [calm_run]: "run new_uuid (at n d w) = Some (db_next d, at n (d\<lparr>db_next := Suc (db_next d)\<rparr>) w)"
  by (simp add: new_uuid_def fresh_id_def at_def)

lemma run_begin_tx [calm_run]:
  "calm w \<Longrightarrow> run begin_tx (at n d w) = Some (Inr (fst (open_tx d)), at (Suc n) (snd (open_tx d)) w)"
  by (simp add: begin_tx_def calm_def at_def Let_def open_tx_def)

lemma run_rollback [calm_run]: "run (rollback t) (at n d w) = Some ((), at n (close_tx t d) w)"
  by (simp add: rollback_def at_def)

text \<open>The metrics recorder writes metrics only.\<close>

lemma run_record_creation: "\<exists>m. run (record_creation E r) w = Some ((), w\<lparr>w_metrics := m\<rparr>)"
proof (cases "se_recorder E")
  case True
  then show ?thesis
    by (intro exI [of _ "w_metrics w @ [CreationCounted r]"]) (simp add: record_creation_def record_metric_def)
next
  case False
  then show ?thesis by (intro exI [of _ "w_metrics w"]) (simp add: record_creation_def)
qed

lemma run_record_provider_call: "\<exists>m. run (record_provider_call E op e t) w = Some ((), w\<lparr>w_metrics := m\<rparr>)"
proof (cases "se_recorder E")
  case True
  then show ?thesis
    by (intro exI [of _ "w_metrics w @ [ProviderCallCounted (operation_type_text op)
          (map_option code_of_error e) (w_now w - t)]"])
      (simp add: record_provider_call_def record_metric_def run_bindP run_get_time)
next
  case False
  then show ?thesis by (intro exI [of _ "w_metrics w"]) (simp add: record_provider_call_def)
qed

lemma calm_at [simp]: "calm (at n d w) = calm w"
  by (simp add: calm_def)

lemma calm_metrics [simp]: "calm (w\<lparr>w_metrics := m\<rparr>) = calm w"
  by (simp add: calm_def)

lemma at_at [simp]: "at n d (at n' d' w) = at n d w"
  by (simp add: at_def)

lemma at_metrics: "(at n d w)\<lparr>w_metrics := m\<rparr> = at n d (w\<lparr>w_metrics := m\<rparr>)"
  by (simp add: at_def)

subsection \<open>Requests that create nothing\<close>

lemma run_lookup_request:
  "calm w \<Longrightarrow> pg_text key \<Longrightarrow> run (exec Pool (get_idempotency_request app key Pool)) (at n d w) =
     Some (one_row (\<lambda>r. i_application_id r = app \<and> i_idempotency_key r = key) (db_idempotency d), at (Suc n) d w)"
  by (simp add: calm_run get_idempotency_request_def with_text_def pg_value_def visible_def own_txs_def)

lemma run_get_payment_row:
  "calm w \<Longrightarrow> one_row (\<lambda>r. p_id r = pid \<and> p_application_id r = app) (db_payments d) = Inr row \<Longrightarrow>
     run (get_payment_row E app pid) (at n d w) =
       Some (to_payment (se_decode_metadata E) row, at (Suc n) d w)"
  by (simp add: get_payment_row_def run_bindP calm_run get_payment_for_application_def visible_def own_txs_def)

lemma run_paid:
  "calm w \<Longrightarrow> pg_text order \<Longrightarrow> run (exec Pool (order_has_succeeded_payment app order Pool)) (at n d w) =
     Some (Inr (list_ex (\<lambda>r. p_status r = StatusSucceeded) (order_rows app order (db_payments d))), at (Suc n) d w)"
  by (simp add: calm_run order_has_succeeded_payment_def with_text_def pg_value_def visible_def own_txs_def)

lemma run_replay:
  assumes "calm w" "i_payment_id rq = Some pid"
    and "one_row (\<lambda>r. p_id r = pid \<and> p_application_id r = app) (db_payments d) = Inr row"
    and "to_payment (se_decode_metadata E) row = Inr p"
  shows "\<exists>m. run (replay E app rq (i_request_hash rq)) (at n d w) =
    Some (Inr \<lparr>res_payment = p, res_replayed = True,
               res_pending = (\<not> terminal (pay_status p) \<and> pay_checkout_url p = None),
               res_retry_after = 2\<rparr>, at (Suc n) d (w\<lparr>w_metrics := m\<rparr>))"
proof -
  obtain m where m: "run (record_creation E ''replayed'') (at (Suc n) d w) =
      Some ((), (at (Suc n) d w)\<lparr>w_metrics := m\<rparr>)"
    using run_record_creation by blast
  show ?thesis
    using assms by (intro exI [of _ m])
      (simp add: replay_def run_bindE run_bindP run_get_payment_row m at_metrics)
qed

text \<open>What a run leaves of the world besides the clock of statements: same database, same wire.\<close>

definition untouched :: "world \<Rightarrow> world \<Rightarrow> bool" where
  "untouched w v \<longleftrightarrow> w_db v = w_db w \<and> w_wire v = w_wire w"

lemma run_create_replayed:
  assumes c: "calm w" and v: "validate (se_net E) (service_urls E) app key input = Inr i"
    and key: "pg_text key"
    and rq: "one_row (\<lambda>r. i_application_id r = app_id app \<and> i_idempotency_key r = key) (idempotency_of w) = Inr rq"
      "i_payment_id rq = Some pid" "i_request_hash rq = request_hash (se_sha E) i"
    and row: "one_row (\<lambda>r. p_id r = pid \<and> p_application_id r = app_id app) (payments_of w) = Inr row"
      "to_payment (se_decode_metadata E) row = Inr p"
  shows "\<exists>v. run (create E app input key) w = Some (Inr \<lparr>res_payment = p, res_replayed = True,
               res_pending = (\<not> terminal (pay_status p) \<and> pay_checkout_url p = None),
               res_retry_after = 2\<rparr>, v) \<and> untouched w v"
proof -
  obtain m where m: "run (replay E (app_id app) rq (i_request_hash rq)) (at (Suc (w_stmts w)) (w_db w) w) =
    Some (Inr \<lparr>res_payment = p, res_replayed = True,
               res_pending = (\<not> terminal (pay_status p) \<and> pay_checkout_url p = None),
               res_retry_after = 2\<rparr>, at (Suc (Suc (w_stmts w))) (w_db w) (w\<lparr>w_metrics := m\<rparr>))"
    using run_replay [OF c rq(2) row] by blast
  have "run (create E app input key) (at (w_stmts w) (w_db w) w) = Some (Inr \<lparr>res_payment = p, res_replayed = True,
               res_pending = (\<not> terminal (pay_status p) \<and> pay_checkout_url p = None),
               res_retry_after = 2\<rparr>, at (Suc (Suc (w_stmts w))) (w_db w) (w\<lparr>w_metrics := m\<rparr>))"
    using c v key rq(1,3) m by (simp add: create_def Let_def run_bindP run_lookup_request)
  then show ?thesis by (simp add: at_self untouched_def)
qed

lemma run_create_conflict:
  assumes c: "calm w" and v: "validate (se_net E) (service_urls E) app key input = Inr i"
    and key: "pg_text key"
    and rq: "one_row (\<lambda>r. i_application_id r = app_id app \<and> i_idempotency_key r = key) (idempotency_of w) = Inr rq"
      "i_request_hash rq \<noteq> request_hash (se_sha E) i"
  shows "\<exists>v. run (create E app input key) w = Some (Inl (Sentinel PErrIdempotencyConflict), v) \<and> untouched w v"
proof -
  have "run (create E app input key) (at (w_stmts w) (w_db w) w) =
      Some (Inl (Sentinel PErrIdempotencyConflict), at (Suc (w_stmts w)) (w_db w) w)"
    using c v key rq by (simp add: create_def Let_def run_bindP run_lookup_request replay_def)
  then show ?thesis by (simp add: at_self untouched_def)
qed

lemma run_create_paid:
  assumes c: "calm w" and v: "validate (se_net E) (service_urls E) app key input = Inr i"
    and key: "pg_text key" "pg_text (in_order_id i)"
    and rq: "\<forall>r \<in> set (idempotency_of w). \<not> (i_application_id r = app_id app \<and> i_idempotency_key r = key)"
    and paid: "r \<in> set (payments_of w)" "p_application_id r = app_id app" "p_order_id r = in_order_id i"
      "p_status r = StatusSucceeded"
  shows "\<exists>v. run (create E app input key) w = Some (Inl (Sentinel PErrOrderAlreadySucceeded), v) \<and> untouched w v"
proof -
  have none: "one_row (\<lambda>r. i_application_id r = app_id app \<and> i_idempotency_key r = key) (idempotency_of w) =
      Inl (Sentinel ErrNoRows)"
    using rq by (simp add: one_row_none)
  have "list_ex (\<lambda>r. p_status r = StatusSucceeded) (order_rows (app_id app) (in_order_id i) (payments_of w))"
    using paid by (auto simp: list_ex_iff order_rows_def)
  then have "run (create E app input key) (at (w_stmts w) (w_db w) w) =
      Some (Inl (Sentinel PErrOrderAlreadySucceeded), at (Suc (Suc (w_stmts w))) (w_db w) w)"
    using c v key none
    by (simp add: create_def Let_def run_bindP run_bindE run_lookup_request create_new_def run_paid)
  then show ?thesis by (simp add: at_self untouched_def)
qed

subsection \<open>The local transaction\<close>

text \<open>The database \<open>d\<close> with the identifiers drawn up to \<open>m\<close> and one open transaction.\<close>

definition tx_db :: "database \<Rightarrow> nat \<Rightarrow> tx \<Rightarrow> database" where
  "tx_db d m x = d\<lparr>db_next := m, db_txs := [x]\<rparr>"

lemma tx_db_own [simp]:
  "t_id x = n \<Longrightarrow> own_txs (Tx n) (tx_db d m x) = [x]"
  "t_id x = n \<Longrightarrow> other_txs (Tx n) (tx_db d m x) = []"
  by (simp_all add: own_txs_def other_txs_def tx_db_def)

lemma tx_db_sel [simp]:
  "db_payments (tx_db d m x) = db_payments d" "db_operations (tx_db d m x) = db_operations d"
  "db_idempotency (tx_db d m x) = db_idempotency d" "db_applications (tx_db d m x) = db_applications d"
  "db_accounts (tx_db d m x) = db_accounts d" "db_next (tx_db d m x) = m" "db_txs (tx_db d m x) = [x]"
  "db_clock (tx_db d m x) = db_clock d" "db_links (tx_db d m x) = db_links d"
  "db_api_keys (tx_db d m x) = db_api_keys d"
  by (simp_all add: tx_db_def)

lemma tx_db_ops [simp]:
  "t_id x = n \<Longrightarrow> visible rows pending (Tx n) (tx_db d m x) = rows (tx_db d m x) @ pending x"
  "t_id x = n \<Longrightarrow> foreign pending (Tx n) (tx_db d m x) = []"
  "t_id x = n \<Longrightarrow> now (Tx n) (tx_db d m x) = t_now x"
  "t_id x = n \<Longrightarrow> conn_open (Tx n) (tx_db d m x)"
  "t_id x = n \<Longrightarrow> in_tx n f (tx_db d m x) = tx_db d m (f x)"
  "(tx_db d m x)\<lparr>db_next := m'\<rparr> = tx_db d m' x"
  by (simp_all add: visible_def foreign_def now_def conn_open_def)
     (simp_all add: in_tx_def tx_db_def)

lemma open_tx_db: "db_txs d = [] \<Longrightarrow>
    open_tx d = (db_next d, tx_db d (Suc (db_next d)) (new_tx (db_next d) (db_clock d)))"
  by (simp add: open_tx_def tx_db_def)

lemma new_tx_sel [simp]:
  "t_id (new_tx n t) = n" "t_now (new_tx n t) = t" "t_payments (new_tx n t) = []"
  "t_operations (new_tx n t) = []" "t_idempotency (new_tx n t) = []" "t_locks (new_tx n t) = []"
  "t_applications (new_tx n t) = []" "t_accounts (new_tx n t) = []" "t_links (new_tx n t) = []"
  "t_api_keys (new_tx n t) = []"
  by (simp_all add: new_tx_def)

lemma free_of_Nil [simp]: "free_of clash r []"
  by (simp add: free_of_def)

text \<open>What has to hold for an order to be created: the request is new, nothing of the order is paid or
  active, the columns accept the values, and generated identifiers are new.\<close>

definition attempt_of :: "uuid \<Rightarrow> string \<Rightarrow> database \<Rightarrow> int" where
  "attempt_of app order d = foldr max (map p_attempt_number (order_rows app order (db_payments d))) 0 + 1"

definition new_row ::
  "service_env \<Rightarrow> application \<Rightarrow> account_row \<Rightarrow> create_payment_input \<Rightarrow> database \<Rightarrow> go_err + payment_row" where
  "new_row E app account i d = payment_values (se_pg E)
     (new_payment app account (attempt_of (app_id app) (in_order_id i) d) i) (Suc (db_next d)) (db_clock d)"

definition new_op ::
  "service_env \<Rightarrow> payment_row \<Rightarrow> bytes \<Rightarrow> create_payment_input \<Rightarrow> time \<Rightarrow> database \<Rightarrow> go_err + operation_row" where
  "new_op E row hash i t d = operation_values (se_pg E)
     (new_operation E (p_id row) (se_uuid_text E (Suc (Suc (db_next d)))) hash i t)
     (Suc (Suc (Suc (db_next d)))) (db_clock d)"

definition new_request ::
  "application \<Rightarrow> string \<Rightarrow> bytes \<Rightarrow> payment_row \<Rightarrow> database \<Rightarrow> go_err + idempotency_row" where
  "new_request app key hash row d = idempotency_values (app_id app) key hash (Some (p_id row))
     (Suc (Suc (Suc (Suc (db_next d))))) (db_clock d)"

definition order_new :: "uuid \<Rightarrow> string \<Rightarrow> create_payment_input \<Rightarrow> database \<Rightarrow> bool" where
  "order_new app key i d \<longleftrightarrow>
     db_txs d = [] \<and> pg_text key \<and> pg_text (in_order_id i) \<and>
     attempt_of app (in_order_id i) d \<le> int32_max \<and>
     list_all (\<lambda>r. p_status r \<noteq> StatusSucceeded) (order_rows app (in_order_id i) (db_payments d)) \<and>
     list_all (\<lambda>r. \<not> (i_application_id r = app \<and> i_idempotency_key r = key)) (db_idempotency d)"

definition order_open ::
  "service_env \<Rightarrow> application \<Rightarrow> account_row \<Rightarrow> string \<Rightarrow> bytes \<Rightarrow> create_payment_input \<Rightarrow> time \<Rightarrow> database \<Rightarrow>
   payment_row \<Rightarrow> payment \<Rightarrow> operation_row \<Rightarrow> idempotency_row \<Rightarrow> bool" where
  "order_open E app account key hash i t d row p op rq \<longleftrightarrow>
     order_new (app_id app) key i d \<and>
     new_row E app account i d = Inr row \<and> payment_checks row \<and>
     to_payment (se_decode_metadata E) row = Inr p \<and>
     free_of payment_clash row (db_payments d) \<and>
     list_ex (\<lambda>a. a_id a = app_id app) (db_applications d) \<and>
     list_ex (\<lambda>a. c_id a = c_id account) (db_accounts d) \<and>
     new_op E row hash i t d = Inr op \<and> free_of operation_clash op (db_operations d) \<and>
     new_request app key hash row d = Inr rq \<and> free_of idempotency_clash rq (db_idempotency d)"

definition created_db :: "database \<Rightarrow> payment_row \<Rightarrow> operation_row \<Rightarrow> idempotency_row \<Rightarrow> database" where
  "created_db d row op rq = d\<lparr>db_next := Suc (Suc (Suc (Suc (Suc (db_next d))))),
     db_payments := db_payments d @ [row], db_operations := db_operations d @ [op],
     db_idempotency := db_idempotency d @ [rq], db_links := merge_links (db_links d) []\<rparr>"

lemma merge_links_Nil [simp]: "merge_links ls [] = ls"
  by (simp add: merge_links_def)

definition the_local :: "service_env \<Rightarrow> database \<Rightarrow> payment \<Rightarrow> operation_row \<Rightarrow> local_creation" where
  "the_local E d p op = \<lparr>lc_payment = p, lc_operation_id = o_id op,
     lc_provider_key = se_uuid_text E (Suc (Suc (db_next d)))\<rparr>"

lemma run_local_checks:
  assumes o: "order_new (app_id app) key i d" and c: "calm w"
    and x: "t_id x = n" "t_payments x = []" "t_idempotency x = []"
  shows "run (local_checks E app key i n) (at k (tx_db d m x) w) =
    Some (Inr (), at (k + 3) (tx_db d m (x\<lparr>t_locks := lock_key (se_pg E) (se_uuid_text E (app_id app)) (in_order_id i) # t_locks x\<rparr>)) w)"
proof -
  have paid: "\<not> list_ex (\<lambda>r. p_status r = StatusSucceeded) (order_rows (app_id app) (in_order_id i) (db_payments d))"
    using o by (auto simp: order_new_def list_ex_iff list_all_iff)
  have none: "one_row (\<lambda>r. i_application_id r = app_id app \<and> i_idempotency_key r = key) (db_idempotency d) =
      Inl (Sentinel ErrNoRows)"
    using o by (simp add: one_row_none order_new_def list_all_iff)
  have vals: "pg_value (in_order_id i) = Inr (in_order_id i)" "pg_value key = Inr key"
    using o by (simp_all add: order_new_def pg_value_def)
  show ?thesis
    unfolding local_checks_def Let_def
    using x c paid none vals
    by (simp add: run_bindE run_bindP calm_run lock_order_ready_def lock_order_for_payment_def with_text_def
        order_has_succeeded_payment_def get_idempotency_request_def numeral_3_eq_3)
qed

lemma run_next_attempt:
  assumes "order_new (app_id app) key i d" "t_id x = n" "t_payments x = []"
  shows "next_attempt_number (app_id app) (in_order_id i) (Tx n) (tx_db d m x) =
    (Inr (attempt_of (app_id app) (in_order_id i) d), tx_db d m x)"
  using assms by (simp add: next_attempt_number_def with_text_def pg_value_def order_new_def attempt_of_def)

lemma run_local_payment:
  assumes o: "order_open E app account key hash i t d row p op rq" and c: "calm w"
    and x: "t_id x = n" "t_payments x = []" "t_applications x = []" "t_accounts x = []" "t_now x = db_clock d"
  shows "run (local_payment E app account i n) (at k (tx_db d (Suc (db_next d)) x) w) =
    Some (Inr p, at (k + 2) (tx_db d (Suc (Suc (db_next d))) (x\<lparr>t_payments := [row]\<rparr>)) w)"
proof -
  let ?arg = "new_payment app account (attempt_of (app_id app) (in_order_id i) d) i"
  have row: "payment_values (se_pg E) ?arg (Suc (db_next d)) (db_clock d) = Inr row"
    "payment_checks row" "free_of payment_clash row (db_payments d)"
    "to_payment (se_decode_metadata E) row = Inr p"
    and fk: "list_ex (\<lambda>a. a_id a = app_id app) (db_applications d)"
      "list_ex (\<lambda>a. c_id a = c_id account) (db_accounts d)"
    using o by (simp_all add: order_open_def order_new_def new_row_def)
  have ids: "p_application_id row = app_id app" "p_provider_account_id row = c_id account"
    using row(1) by (auto simp: payment_values_def and_then_eq_Inr new_payment_def)
  have "order_new (app_id app) key i d" using o by (simp add: order_open_def)
  note attempt = run_next_attempt [OF this x(1,2)]
  have ins: "create_payment (se_pg E) ?arg (Tx n) (tx_db d (Suc (db_next d)) x) =
      (Inr row, tx_db d (Suc (Suc (db_next d))) (x\<lparr>t_payments := [row]\<rparr>))"
    using row fk x ids by (simp add: create_payment_def fresh_id_def put_payment_def)
  have ready: "create_payment_ready (se_pg E) ?arg (Tx n) (tx_db d (Suc (db_next d)) x)"
    using x by (simp add: create_payment_ready_def split: sum.split)
  show ?thesis
    unfolding local_payment_def Let_def
    using c x row(4) by (simp add: run_bindE run_bindP calm_run attempt ins ready)
qed

lemma run_local_records:
  assumes o: "order_open E app account key hash i (w_now w) d row p op rq" and c: "calm w"
    and x: "t_id x = n" "t_payments x = [row]" "t_applications x = []" "t_accounts x = []"
      "t_operations x = []" "t_idempotency x = []" "t_api_keys x = []" "t_links x = []" "t_now x = db_clock d"
  shows "run (local_records E app key hash i n p) (at k (tx_db d (Suc (Suc (db_next d))) x) w) =
    Some (Inr (the_local E d p op), at (k + 3) (created_db d row op rq) w)"
proof -
  let ?key = "se_uuid_text E (Suc (Suc (db_next d)))"
  let ?arg = "new_operation E (p_id row) ?key hash i (w_now w)"
  have op: "operation_values (se_pg E) ?arg (Suc (Suc (Suc (db_next d)))) (db_clock d) = Inr op"
    "free_of operation_clash op (db_operations d)"
    and rq: "idempotency_values (app_id app) key hash (Some (p_id row))
       (Suc (Suc (Suc (Suc (db_next d))))) (db_clock d) = Inr rq" "free_of idempotency_clash rq (db_idempotency d)"
    and fk: "list_ex (\<lambda>a. a_id a = app_id app) (db_applications d)"
    using o by (simp_all add: order_open_def order_new_def new_op_def new_request_def)
  have pid: "pay_id p = p_id row" using o to_payment_of_row by (auto simp: order_open_def order_new_def of_row_def)
  have opid: "o_payment_id op = p_id row"
    using op(1) by (auto simp: operation_values_def and_then_eq_Inr new_operation_def)
  have ins: "create_payment_operation (se_pg E) ?arg (Tx n) (tx_db d (Suc (Suc (Suc (db_next d)))) x) =
      (Inr op, tx_db d (Suc (Suc (Suc (Suc (db_next d))))) (x\<lparr>t_operations := [op]\<rparr>))"
    using op x opid by (simp add: create_payment_operation_def fresh_id_def put_operation_def)
  have ready: "create_operation_ready (se_pg E) ?arg (Tx n) (tx_db d (Suc (Suc (Suc (db_next d)))) x)"
    using x by (simp add: create_operation_ready_def split: sum.split)
  let ?x = "x\<lparr>t_operations := [op]\<rparr>"
  have insr: "create_idempotency_request (app_id app) key hash (Some (p_id row)) (Tx n)
      (tx_db d (Suc (Suc (Suc (Suc (db_next d))))) ?x) =
      (Inr rq, tx_db d (Suc (Suc (Suc (Suc (Suc (db_next d)))))) (?x\<lparr>t_idempotency := [rq]\<rparr>))"
    using rq x fk by (simp add: create_idempotency_request_def fresh_id_def put_idempotency_def)
  have readyr: "create_idempotency_ready (app_id app) key hash (Some (p_id row)) (Tx n)
      (tx_db d (Suc (Suc (Suc (Suc (db_next d))))) ?x)"
    using x by (simp add: create_idempotency_ready_def split: sum.split)
  have "db_txs d = []" using o by (simp add: order_open_def order_new_def)
  then have com: "commit_tx n (tx_db d (Suc (Suc (Suc (Suc (Suc (db_next d)))))) (?x\<lparr>t_idempotency := [rq]\<rparr>)) =
      created_db d row op rq"
    using x by (simp add: commit_tx_def close_tx_def created_db_def visible_links_def)
  show ?thesis
    unfolding local_records_def Let_def commit_def
    using c x ins ready insr readyr com
    by (simp add: run_bindE run_bindP calm_run pid the_local_def numeral_3_eq_3)
qed

lemma run_create_local:
  assumes o: "order_open E app account key hash i (w_now w) d row p op rq" and c: "calm w"
  shows "run (create_local E app account key hash i) (at k d w) =
    Some (Inr (the_local E d p op), at (9 + k) (created_db d row op rq) w)"
proof -
  have new: "order_new (app_id app) key i d" and d: "db_txs d = []"
    using o by (simp_all add: order_open_def order_new_def)
  then have closed: "close_tx n (created_db d row op rq) = created_db d row op rq" for n
    by (simp add: close_tx_def created_db_def)
  show ?thesis
    unfolding create_local_def
    using c run_local_checks [OF new c] run_local_payment [OF o c] run_local_records [OF o c]
    by (simp add: run_bindP run_bindE calm_run open_tx_db [OF d] closed)
qed

subsection \<open>After the local transaction\<close>

lemma created_db_sel [simp]:
  "db_payments (created_db d row op rq) = db_payments d @ [row]"
  "db_operations (created_db d row op rq) = db_operations d @ [op]"
  "db_idempotency (created_db d row op rq) = db_idempotency d @ [rq]"
  "db_accounts (created_db d row op rq) = db_accounts d"
  "db_txs (created_db d row op rq) = db_txs d" "db_clock (created_db d row op rq) = db_clock d"
  "(created_db d row op rq)\<lparr>db_payments := db_payments d @ [row']\<rparr> = created_db d row' op rq"
  "(created_db d row op rq)\<lparr>db_operations := db_operations d @ [op']\<rparr> = created_db d row op' rq"
  by (simp_all add: created_db_def)

definition alone :: "database \<Rightarrow> payment_row \<Rightarrow> bool" where
  "alone d row \<longleftrightarrow> db_txs d = [] \<and> clash_free payment_clash (db_payments d) \<and>
     free_of payment_clash row (db_payments d)"

lemma alone_ids: "alone d row \<Longrightarrow> x \<in> set (db_payments d) \<Longrightarrow> p_id x \<noteq> p_id row"
  by (auto simp: alone_def pay.free_set payment_clash_def)

text \<open>A row keeps out of the way of others if it has the same key fields, is no more active, and its
  provider payment, if any, is nobody's.\<close>

lemma alone_changed:
  assumes "alone d row" "p_id row' = p_id row" "p_application_id row' = p_application_id row"
    "p_order_id row' = p_order_id row" "p_attempt_number row' = p_attempt_number row"
    "p_provider row' = p_provider row" "active_row row' \<longrightarrow> active_row row"
    and "p_provider_payment_id row' \<noteq> None \<longrightarrow>
      list_all (\<lambda>x. \<not> (p_provider x = p_provider row \<and> p_provider_payment_id x = p_provider_payment_id row')) (db_payments d)"
  shows "alone d row'"
proof -
  have "\<not> payment_clash row' x" if x: "x \<in> set (db_payments d)" for x
  proof -
    have "\<not> payment_clash row x" using assms(1) x by (simp add: alone_def pay.free_set)
    then show ?thesis using assms(2-8) x by (auto simp: payment_clash_def list_all_iff)
  qed
  then show ?thesis using assms(1) by (simp add: alone_def pay.free_set)
qed

lemma run_update_own:
  assumes c: "calm w" and a: "alone d row" "alone d (stamped (f (db_clock d)) (db_clock d) row)"
    and cond: "cond row" "\<And>x. cond x \<Longrightarrow> p_id x = p_id row"
  shows "run (exec_update_at cond f) (at k (created_db d row op rq) w) =
    Some (Inr (), at (Suc k) (created_db d (stamped (f (db_clock d)) (db_clock d) row) op rq) w)"
proof -
  let ?row = "stamped (f (db_clock d)) (db_clock d) row"
  have "update_where cond (\<lambda>r. stamped (f (db_clock d)) (db_clock d) r) (db_payments d) = db_payments d"
    by (rule update_where_id) (use cond(2) alone_ids [OF a(1)] in auto)
  then have u: "updated_payments cond (f (db_clock d)) (created_db d row op rq) = db_payments d @ [?row]"
    using cond(1) by (simp add: updated_payments_def update_where_def)
  have "clash_free payment_clash (db_payments d @ [?row])"
    using a(2) unfolding pay.snoc_iff by (simp add: alone_def)
  moreover have "db_txs d = []" using a by (simp add: alone_def)
  ultimately show ?thesis
    using c by (simp add: exec_update_at_def calm_run update_payments_def update_payments_ready_def u
        foreign_def other_txs_def list_all_iff)
qed

lemma run_update_op:
  assumes c: "calm w" and e: "\<And>d. eff d = update_operations cond (f d) d"
    and cond: "cond op" "\<And>x. cond x \<Longrightarrow> o_id x = o_id op" and o: "free_of operation_clash op (db_operations d)"
  shows "run (exec Pool eff) (at k (created_db d row op rq) w) =
    Some (Inr (), at (Suc k) (created_db d row (f (created_db d row op rq) op) rq) w)"
proof -
  have "update_where cond f (db_operations d) = db_operations d" for f
    by (rule update_where_id) (use cond(2) o in \<open>auto simp: oper.free_set operation_clash_def\<close>)
  then show ?thesis
    using c cond(1) by (simp add: calm_run e update_operations_def) (simp add: update_where_def)
qed

lemma to_payment_changed:
  "to_payment decode r = Inr p \<Longrightarrow> p_metadata r' = p_metadata r \<Longrightarrow>
     \<exists>p'. to_payment decode r' = Inr p' \<and> of_row r' p'"
  by (auto simp: to_payment_def and_then_eq_Inr of_row_def)

definition creating_row :: "database \<Rightarrow> payment_row \<Rightarrow> payment_row" where
  "creating_row d row = stamped (\<lambda>r. r\<lparr>p_status := StatusCreating\<rparr>) (db_clock d) row"

definition started_op :: "database \<Rightarrow> operation_row \<Rightarrow> operation_row" where
  "started_op d op = op\<lparr>o_status := OperationInProgress, o_started_at := Some (db_clock d),
     o_attempt_count := o_attempt_count op + 1\<rparr>"

text \<open>The rows of a local creation and what the provider call needs of the rest.\<close>

definition ready_to_call ::
  "service_env \<Rightarrow> database \<Rightarrow> payment_row \<Rightarrow> payment \<Rightarrow> operation_row \<Rightarrow> yk_client \<Rightarrow> bool" where
  "ready_to_call E d row p op client \<longleftrightarrow> alone d row \<and> p_status row = StatusCreated \<and>
     to_payment (se_decode_metadata E) row = Inr p \<and>
     o_status op = OperationPending \<and> o_attempt_count op = 0 \<and> free_of operation_clash op (db_operations d) \<and>
     p_provider_payment_id row = None \<and>
     (\<exists>acc secret. one_row (\<lambda>r. c_id r = pay_provider_account_id p) (db_accounts d) = Inr acc \<and>
        decrypt (se_cipher E) (c_encrypted_secret_key acc) = Inr secret \<and>
        client = new_client (se_base_url E) (c_shop_id acc) (string_of secret))"

lemma order_open_ready:
  assumes "order_open E app account key hash i t d row p op rq" "clash_free payment_clash (db_payments d)"
    and "one_row (\<lambda>r. c_id r = c_id account) (db_accounts d) = Inr acc"
    and "decrypt (se_cipher E) (c_encrypted_secret_key acc) = Inr secret"
  shows "ready_to_call E d row p op (new_client (se_base_url E) (c_shop_id acc) (string_of secret))"
proof -
  have row: "new_row E app account i d = Inr row" "to_payment (se_decode_metadata E) row = Inr p"
    "new_op E row hash i t d = Inr op"
    using assms(1) by (simp_all add: order_open_def order_new_def)
  have "p_status row = StatusCreated" "p_provider_payment_id row = None" "p_provider_account_id row = c_id account"
    using row(1) by (auto simp: new_row_def payment_values_def and_then_eq_Inr new_payment_def)
  moreover have "o_status op = OperationPending" "o_attempt_count op = 0"
    using row(3) by (auto simp: new_op_def operation_values_def and_then_eq_Inr)
  moreover have "pay_provider_account_id p = p_provider_account_id row"
    using to_payment_of_row [OF row(2)] by (simp add: of_row_def)
  ultimately show ?thesis
    using assms row(2) by (auto simp: ready_to_call_def alone_def order_open_def order_new_def)
qed

lemma run_call_provider:
  assumes r: "ready_to_call E d row p op client" and c: "calm w"
  shows "run (call_provider E (the_local E d p op) i) (at k (created_db d row op rq) w) =
    run (charge_provider E (the_local E d p op) i client)
      (at (k + 3) (created_db d (creating_row d row) (started_op d op) rq) w)"
proof -
  let ?row = "creating_row d row" and ?f = "\<lambda>_ :: time. \<lambda>r. r\<lparr>p_status := StatusCreating\<rparr>"
  obtain acc secret where acc: "one_row (\<lambda>r. c_id r = pay_provider_account_id p) (db_accounts d) = Inr acc"
    "decrypt (se_cipher E) (c_encrypted_secret_key acc) = Inr secret"
    "client = new_client (se_base_url E) (c_shop_id acc) (string_of secret)"
    using r by (auto simp: ready_to_call_def)
  have p: "pay_id p = p_id row" "pay_status p = StatusCreated" and row: "alone d row" "p_status row = StatusCreated"
    and op: "o_status op = OperationPending" "o_attempt_count op = 0" "free_of operation_clash op (db_operations d)"
    using r to_payment_of_row by (auto simp: ready_to_call_def of_row_def)
  have a: "alone d (stamped (?f (db_clock d)) (db_clock d) row)"
    by (rule alone_changed [OF row(1)]) (use r row in \<open>simp_all add: ready_to_call_def\<close>)
  have mark: "run (mark_payment_creating (p_id row)) (at k (created_db d row op rq) w) =
      Some (Inr (), at (Suc k) (created_db d ?row op rq) w)" for k
    unfolding mark_payment_creating_def exec_update_at_const creating_row_def
    by (rule run_update_own [where f = ?f and cond = "\<lambda>r. p_id r = p_id row \<and> p_status r = StatusCreated" and row = row,
          OF c row(1) a]) (use row(2) in simp_all)
  have start: "run (exec Pool (start_payment_operation (o_id op))) (at k (created_db d ?row op rq) w) =
      Some (Inr (), at (Suc k) (created_db d ?row (started_op d op) rq) w)" for k
  proof -
    have only: "x = op" if "x \<in> set (db_operations (created_db d ?row op rq))" "o_id x = o_id op" for x
      using that op(3) by (auto simp: oper.free_set operation_clash_def)
    have "\<not> list_ex (\<lambda>r. (o_id r = o_id op \<and> o_status r = OperationPending) \<and> o_attempt_count r \<ge> int32_max)
        (db_operations (created_db d ?row op rq))"
    proof
      assume "list_ex (\<lambda>r. (o_id r = o_id op \<and> o_status r = OperationPending) \<and> o_attempt_count r \<ge> int32_max)
        (db_operations (created_db d ?row op rq))"
      then obtain x where "x \<in> set (db_operations (created_db d ?row op rq))" "o_id x = o_id op"
        "o_attempt_count x \<ge> int32_max"
        unfolding list_ex_iff by blast
      then have "o_attempt_count op \<ge> int32_max" using only by metis
      then show False using op(2) by (simp add: int32_max_def)
    qed
    moreover have "update_where (\<lambda>r. o_id r = o_id op \<and> o_status r = OperationPending) f (db_operations d) =
        db_operations d" for f
      by (rule update_where_id) (use op(3) in \<open>auto simp: oper.free_set operation_clash_def\<close>)
    ultimately show ?thesis
      using c op(1)
      by (simp add: calm_run start_payment_operation_def Let_def update_operations_def started_op_def)
        (simp add: update_where_def)
  qed
  show ?thesis
    unfolding call_provider_def Let_def
    using c mark start acc p
    by (simp add: the_local_def run_bindE run_bindP provider_credentials_def calm_run get_provider_account_def
        visible_def own_txs_def validate_transition_def can_transition_def numeral_3_eq_3)
qed

end
