(* ===== verification/ChargeRuns.thy ===== *)
theory ChargeRuns
  imports CalmRuns
begin

text \<open>
  The end of a creation alone: what the provider's reply makes of the payment, its operation and the
  answer. A reply accepts the payment, refuses it for certain, or leaves its fate open.
\<close>

definition charged :: "wire_request option \<Rightarrow> world \<Rightarrow> world" where
  "charged out w = (case out of None \<Rightarrow> w
     | Some req \<Rightarrow> w\<lparr>w_wire := w_wire w @ [req], w_calls := Suc (w_calls w)\<rparr>)"

lemma charged_sel [simp]:
  "w_db (charged out w) = w_db w" "w_now (charged out w) = w_now w" "calm (charged out w) = calm w"
  "w_wire (charged out w) = w_wire w @ (case out of None \<Rightarrow> [] | Some req \<Rightarrow> [req])"
  by (simp_all add: charged_def calm_def split: option.split)

lemma run_provider_call:
  "f (w_replies w (w_calls w)) = (out, r) \<Longrightarrow>
     run (provider_call f) (at n d w) = Some (r, at n d (charged out w))"
  by (simp add: provider_call_def charged_def at_def split: option.split)

definition completed_op :: "database \<Rightarrow> operation_status \<Rightarrow> string \<Rightarrow> operation_row \<Rightarrow> operation_row" where
  "completed_op d s msg op =
     (if pg_text msg then op\<lparr>o_status := s, o_completed_at := Some (db_clock d), o_last_error := Some msg\<rparr>
      else op)"

lemma run_complete_operation:
  assumes c: "calm w" and o: "free_of operation_clash op (db_operations d)"
  shows "run (complete_operation (o_id op) s msg) (at k (created_db d row op rq) w) =
    Some ((), at (Suc k) (created_db d row (completed_op d s msg op) rq) w)"
proof (cases "pg_text msg")
  case True
  have "update_where (\<lambda>r. o_id r = o_id op) f (db_operations d) = db_operations d" for f
    by (rule update_where_id) (use o in \<open>auto simp: oper.free_set operation_clash_def\<close>)
  then have u: "update_operations (\<lambda>r. o_id r = o_id op) f (created_db d row op rq) =
      (Inr (), created_db d row (f op) rq)" for f
    by (simp add: update_operations_def) (simp add: update_where_def)
  show ?thesis
    using c True
    by (simp add: complete_operation_def run_bindP calm_run complete_payment_operation_def opt_text_def
        pg_value_def u completed_op_def)
next
  case False
  then show ?thesis
    using c by (simp add: complete_operation_def run_bindP calm_run complete_payment_operation_def
        opt_text_def pg_value_def completed_op_def)
qed

lemma find_none_append: "find P xs = None \<Longrightarrow> find P (xs @ ys) = find P ys"
  by (induction xs) (auto split: if_splits)

lemma run_fetch:
  assumes "calm w" "alone d row" "to_payment (se_decode_metadata E) row = Inr p"
    "pid = p_id row" "app = p_application_id row"
  shows "run (get_payment_row E app pid) (at k (created_db d row op rq) w) =
    Some (Inr p, at (Suc k) (created_db d row op rq) w)"
proof -
  have "find (\<lambda>r. p_id r = pid \<and> p_application_id r = app) (db_payments d) = None"
    using alone_ids [OF assms(2)] assms(4) by (auto simp: find_None_iff)
  then have "one_row (\<lambda>r. p_id r = pid \<and> p_application_id r = app) (db_payments d @ [row]) = Inr row"
    using assms(4,5) by (simp add: one_row_def find_none_append)
  then show ?thesis using assms(1,3) by (simp add: run_get_payment_row)
qed

text \<open>What is known when the provider is called, and the state the call starts from.\<close>

definition calling_row :: "database \<Rightarrow> payment_row \<Rightarrow> payment \<Rightarrow> operation_row \<Rightarrow> service_env \<Rightarrow> bool" where
  "calling_row d row p op E \<longleftrightarrow> alone d row \<and> p_status row = StatusCreating \<and>
     (\<exists>p0. to_payment (se_decode_metadata E) row = Inr p0) \<and>
     pay_id p = p_id row \<and> pay_application_id p = p_application_id row \<and>
     free_of operation_clash op (db_operations d) \<and> p_provider_payment_id row = None"

text \<open>The three ways the row ends, as the database writes them.\<close>

definition pending_row :: "service_env \<Rightarrow> time \<Rightarrow> database \<Rightarrow> provider_payment \<Rightarrow> payment_row \<Rightarrow> payment_row" where
  "pending_row E t d pp row = stamped (set_created (Some (pp_id pp)) (Some (pp_checkout_url pp))
     (Some (t + se_poll E))) (db_clock d) row"

definition unknown_row :: "service_env \<Rightarrow> time \<Rightarrow> database \<Rightarrow> payment_row \<Rightarrow> payment_row" where
  "unknown_row E t d row = stamped (\<lambda>r. r\<lparr>p_status := StatusCreationUnknown,
     p_next_check_at := Some (t + se_poll E)\<rparr>) (db_clock d) row"

definition canceled_row :: "database \<Rightarrow> payment_row \<Rightarrow> payment_row" where
  "canceled_row d row = stamped (set_canceled (db_clock d)) (db_clock d) row"

lemma run_record_created:
  assumes h: "calling_row d row p op E" and c: "calm w"
    and pp: "varchar 64 (pp_id pp) = Inr (pp_id pp)" "pg_text (pp_checkout_url pp)"
    and new: "list_all (\<lambda>x. \<not> (p_provider x = p_provider row \<and> p_provider_payment_id x = Some (pp_id pp)))
      (db_payments d)"
  shows "\<exists>p' k' m. of_row (pending_row E (w_now w) d pp row) p' \<and>
    run (record_created E \<lparr>lc_payment = p, lc_operation_id = o_id op, lc_provider_key = key\<rparr> pp)
      (at k (created_db d row op rq) w) =
    Some (Inr \<lparr>res_payment = p', res_replayed = False, res_pending = False, res_retry_after = 0\<rparr>,
      at k' (created_db d (pending_row E (w_now w) d pp row) (completed_op d OperationSucceeded [] op) rq)
        (w\<lparr>w_metrics := m\<rparr>))"
proof -
  let ?row = "pending_row E (w_now w) d pp row"
  let ?f = "\<lambda>_ :: time. set_created (Some (pp_id pp)) (Some (pp_checkout_url pp)) (Some (w_now w + se_poll E))"
  have row: "alone d row" "p_status row = StatusCreating" "pay_id p = p_id row"
    "pay_application_id p = p_application_id row" and o: "free_of operation_clash op (db_operations d)"
    using h by (simp_all add: calling_row_def)
  obtain p0 where p0: "to_payment (se_decode_metadata E) row = Inr p0" using h by (auto simp: calling_row_def)
  have a: "alone d ?row" unfolding pending_row_def
    by (rule alone_changed [OF row(1)])
      (use new row(2) in \<open>simp_all add: set_created_def\<close>)
  obtain p' where p': "to_payment (se_decode_metadata E) ?row = Inr p'" "of_row ?row p'"
    using to_payment_changed [OF p0, of ?row] by (auto simp: pending_row_def set_created_def)
  obtain m where m: "run (record_creation E ''created'') (at k (created_db d row op rq) w) =
      Some ((), at k (created_db d row op rq) (w\<lparr>w_metrics := m\<rparr>))"
    using run_record_creation [of E "''created''" "at k (created_db d row op rq) w"]
    by (auto simp: at_metrics)
  let ?w = "w\<lparr>w_metrics := m\<rparr>"
  have c': "calm ?w" using c by simp
  have upd: "run (set_payment_created (p_id row) (Some (pp_id pp)) (Some (pp_checkout_url pp))
        (Some (w_now w + se_poll E))) (at k (created_db d row op rq) ?w) =
      Some (Inr (), at (Suc k) (created_db d ?row op rq) ?w)"
    unfolding set_payment_created_def exec_update_at_const pending_row_def
    using pp run_update_own [where f = ?f and cond = "\<lambda>r. p_id r = p_id row" and row = row and d = d,
        OF c' row(1) a [unfolded pending_row_def]]
    by (simp add: opt_text_def and_then_def pg_value_def)
  show ?thesis
    unfolding record_created_def Let_def
    using m upd row(3,4) run_complete_operation [OF c' o] run_fetch [OF c' a p'(1)] p'(2)
    by (intro exI [of _ p'] exI [of _ "k + 3"] exI [of _ m])
      (simp add: run_bindP run_bindE run_get_time pending_row_def set_created_def numeral_3_eq_3)
qed

text \<open>An answer that leaves the payment's fate open.\<close>

lemma run_creation_unknown:
  assumes h: "calling_row d row p op E" and c: "calm w" and e: "\<not> definitive (code_of_error e)"
  shows "\<exists>p' k' m. of_row (unknown_row E (w_now w) d row) p' \<and>
    run (handle_create_failure E \<lparr>lc_payment = p, lc_operation_id = o_id op, lc_provider_key = key\<rparr> e)
      (at k (created_db d row op rq) w) =
    Some (Inr \<lparr>res_payment = p', res_replayed = False, res_pending = True, res_retry_after = 2\<rparr>,
      at k' (created_db d (unknown_row E (w_now w) d row) (completed_op d OperationUnknown (error_text e) op) rq)
        (w\<lparr>w_metrics := m\<rparr>))"
proof -
  let ?row = "unknown_row E (w_now w) d row" and ?op = "completed_op d OperationUnknown (error_text e) op"
  let ?f = "\<lambda>_ :: time. \<lambda>r. r\<lparr>p_status := StatusCreationUnknown, p_next_check_at := Some (w_now w + se_poll E)\<rparr>"
  have row: "alone d row" "p_status row = StatusCreating" "pay_id p = p_id row"
    "pay_application_id p = p_application_id row" and o: "free_of operation_clash op (db_operations d)"
    using h by (simp_all add: calling_row_def)
  obtain p0 where p0: "to_payment (se_decode_metadata E) row = Inr p0" using h by (auto simp: calling_row_def)
  have a: "alone d ?row" unfolding unknown_row_def
    by (rule alone_changed [OF row(1)]) (use h row(2) in \<open>simp_all add: calling_row_def\<close>)
  obtain p' where p': "to_payment (se_decode_metadata E) ?row = Inr p'" "of_row ?row p'"
    using to_payment_changed [OF p0, of ?row] by (auto simp: unknown_row_def)
  have upd: "run (set_payment_creation_unknown (p_id row) (Some (w_now w + se_poll E)))
        (at k (created_db d row op rq) w) = Some (Inr (), at (Suc k) (created_db d ?row op rq) w)"
    unfolding set_payment_creation_unknown_def exec_update_at_const unknown_row_def
    by (rule run_update_own [where f = ?f and row = row and d = d and
          cond = "\<lambda>r. p_id r = p_id row \<and> p_status r = StatusCreating", OF c row(1) a [unfolded unknown_row_def]])
      (use row(2) in simp_all)
  obtain m where m: "run (record_creation E ''creation_unknown'') (at (Suc (Suc k)) (created_db d ?row ?op rq) w) =
      Some ((), at (Suc (Suc k)) (created_db d ?row ?op rq) (w\<lparr>w_metrics := m\<rparr>))"
    using run_record_creation [of E "''creation_unknown''" "at (Suc (Suc k)) (created_db d ?row ?op rq) w"]
    by (auto simp: at_metrics)
  have "calm (w\<lparr>w_metrics := m\<rparr>)" using c by simp
  from run_fetch [OF this a p'(1)] show ?thesis
    unfolding handle_create_failure_def Let_def
    using m e upd row(3,4) run_complete_operation [OF c o] p'(2)
    by (intro exI [of _ p'] exI [of _ "k + 3"] exI [of _ m])
      (simp add: run_bindP run_bindE run_get_time unknown_row_def numeral_3_eq_3)
qed

text \<open>A refusal: the payment is canceled, and the caller gets the provider's error.\<close>

lemma run_creation_refused:
  assumes h: "calling_row d row p op E" and c: "calm w" and e: "definitive (code_of_error e)"
  shows "\<exists>k' m.
    run (handle_create_failure E \<lparr>lc_payment = p, lc_operation_id = o_id op, lc_provider_key = key\<rparr> e)
      (at k (created_db d row op rq) w) =
    Some (Inl e, at k' (created_db d (canceled_row d row) (completed_op d OperationFailed (error_text e) op) rq)
        (w\<lparr>w_metrics := m\<rparr>))"
proof -
  let ?row = "canceled_row d row" and ?op = "completed_op d OperationFailed (error_text e) op"
  have row: "alone d row" "p_status row = StatusCreating" "pay_id p = p_id row"
    and o: "free_of operation_clash op (db_operations d)"
    using h by (simp_all add: calling_row_def)
  have a: "alone d ?row" unfolding canceled_row_def
    by (rule alone_changed [OF row(1)]) (use h row(2) in \<open>simp_all add: calling_row_def set_canceled_def\<close>)
  have upd: "run (set_payment_canceled (p_id row)) (at k (created_db d row op rq) w) =
      Some (Inr (), at (Suc k) (created_db d ?row op rq) w)"
    unfolding set_payment_canceled_def canceled_row_def
    by (rule run_update_own [where f = set_canceled and row = row and d = d and
          cond = "\<lambda>r. p_id r = p_id row \<and> active_row r", OF c row(1) a [unfolded canceled_row_def]])
      (use row(2) in simp_all)
  obtain m where m: "run (record_creation E ''rejected'') (at (Suc (Suc k)) (created_db d ?row ?op rq) w) =
      Some ((), at (Suc (Suc k)) (created_db d ?row ?op rq) (w\<lparr>w_metrics := m\<rparr>))"
    using run_record_creation [of E "''rejected''" "at (Suc (Suc k)) (created_db d ?row ?op rq) w"]
    by (auto simp: at_metrics)
  show ?thesis
    unfolding handle_create_failure_def Let_def
    using m e upd row(3) run_complete_operation [OF c o]
    by (intro exI [of _ "k + 2"] exI [of _ m]) (simp add: run_bindP run_bindE)
qed

subsection \<open>A whole creation\<close>

text \<open>The application, the default account and its credentials a new order finds.\<close>

definition can_order ::
  "service_env \<Rightarrow> application \<Rightarrow> string \<Rightarrow> create_payment_input \<Rightarrow> world \<Rightarrow> account_row \<Rightarrow> yk_client \<Rightarrow>
   payment_row \<Rightarrow> payment \<Rightarrow> operation_row \<Rightarrow> idempotency_row \<Rightarrow> bool" where
  "can_order E app key i w account client row p op rq \<longleftrightarrow>
     order_open E app account key (request_hash (se_sha E) i) i (w_now w) (w_db w) row p op rq \<and>
     clash_free payment_clash (payments_of w) \<and>
     get_default_provider_account (app_id app) Pool (w_db w) = (Inr account, w_db w) \<and>
     (\<exists>acc secret. one_row (\<lambda>r. c_id r = c_id account) (db_accounts (w_db w)) = Inr acc \<and>
        decrypt (se_cipher E) (c_encrypted_secret_key acc) = Inr secret \<and>
        client = new_client (se_base_url E) (c_shop_id acc) (string_of secret))"

text \<open>Up to the provider call nothing depends on the reply.\<close>

lemma run_create_up_to_call:
  assumes c: "calm w" and v: "validate (se_net E) (service_urls E) app key input = Inr i"
    and o: "can_order E app key i w account client row p op rq"
  shows "\<exists>k. run (create E app input key) w =
    run (charge_provider E (the_local E (w_db w) p op) i client)
      (at k (created_db (w_db w) (creating_row (w_db w) row) (started_op (w_db w) op) rq) w)"
proof -
  let ?d = "w_db w" and ?hash = "request_hash (se_sha E) i"
  obtain acc secret where acc: "one_row (\<lambda>r. c_id r = c_id account) (db_accounts ?d) = Inr acc"
    "decrypt (se_cipher E) (c_encrypted_secret_key acc) = Inr secret"
    "client = new_client (se_base_url E) (c_shop_id acc) (string_of secret)"
    and op: "order_open E app account key ?hash i (w_now w) ?d row p op rq"
    and cf: "clash_free payment_clash (payments_of w)"
    and def: "get_default_provider_account (app_id app) Pool ?d = (Inr account, ?d)"
    using o by (auto simp: can_order_def)
  have ready: "ready_to_call E ?d row p op client"
    using order_open_ready [OF op cf acc(1,2)] acc(3) by simp
  have texts: "pg_text key" "pg_text (in_order_id i)"
    and none: "one_row (\<lambda>r. i_application_id r = app_id app \<and> i_idempotency_key r = key) (db_idempotency ?d) =
      Inl (Sentinel ErrNoRows)"
    and paid: "\<not> list_ex (\<lambda>r. p_status r = StatusSucceeded) (order_rows (app_id app) (in_order_id i) (db_payments ?d))"
    using op by (auto simp: order_open_def order_new_def one_row_none list_all_iff list_ex_iff)
  have acct: "run (exec Pool (get_default_provider_account (app_id app) Pool)) (at n ?d w) =
      Some (Inr account, at (Suc n) ?d w)" for n
    using c def by (simp add: calm_run)
  have "run (create E app input key) (at (w_stmts w) ?d w) =
    run (call_provider E (the_local E ?d p op) i)
      (at (9 + Suc (Suc (Suc (w_stmts w)))) (created_db ?d row op rq) w)"
    using c v none paid texts acct
    by (simp add: create_def Let_def run_bindP run_bindE run_lookup_request create_new_def run_paid
        create_with_account_def run_create_local [OF op c])
  then show ?thesis
    using run_call_provider [OF ready c] by (auto simp: at_self)
qed

lemma can_order_calling:
  assumes "can_order E app key i w account client row p op rq"
  shows "calling_row (w_db w) (creating_row (w_db w) row) p (started_op (w_db w) op) E"
proof -
  let ?d = "w_db w"
  obtain acc secret where acc: "one_row (\<lambda>r. c_id r = c_id account) (db_accounts ?d) = Inr acc"
    "decrypt (se_cipher E) (c_encrypted_secret_key acc) = Inr secret"
    and op: "order_open E app account key (request_hash (se_sha E) i) i (w_now w) ?d row p op rq"
    and cf: "clash_free payment_clash (payments_of w)"
    using assms by (auto simp: can_order_def)
  note ready = order_open_ready [OF op cf acc]
  then have row: "alone ?d row" "p_status row = StatusCreated" "to_payment (se_decode_metadata E) row = Inr p"
    "p_provider_payment_id row = None" "free_of operation_clash op (db_operations ?d)"
    by (simp_all add: ready_to_call_def)
  have "alone ?d (creating_row ?d row)" unfolding creating_row_def
    by (rule alone_changed [OF row(1)]) (use row in simp_all)
  moreover have "\<exists>p0. to_payment (se_decode_metadata E) (creating_row ?d row) = Inr p0"
    using to_payment_changed [OF row(3), of "creating_row ?d row"] by (auto simp: creating_row_def)
  moreover have "free_of operation_clash (started_op ?d op) (db_operations ?d)"
    using row(5) by (simp add: oper.free_set operation_clash_def started_op_def)
  ultimately show ?thesis
    using row to_payment_of_row [OF row(3)]
    by (simp add: calling_row_def of_row_def creating_row_def)
qed

lemma run_charge:
  assumes c: "calm w"
    and reply: "yk_create_payment (se_yk E) client (provider_request E lc i) (w_replies w (w_calls w)) = (out, r)"
  shows "\<exists>m. run (charge_provider E lc i client) (at k d w) =
    run (case r of Inl e \<Rightarrow> handle_create_failure E lc e | Inr pp \<Rightarrow> record_created E lc pp)
      (at k d ((charged out w)\<lparr>w_metrics := m\<rparr>))"
proof -
  obtain m where m: "run (record_provider_call E OperationCreatePayment (error_of r) (w_now w))
      (at k d (charged out w)) = Some ((), at k d ((charged out w)\<lparr>w_metrics := m\<rparr>))"
    using run_record_provider_call [of E OperationCreatePayment "error_of r" "w_now w" "at k d (charged out w)"]
    by (auto simp: at_metrics)
  show ?thesis
    using m run_provider_call [of "yk_create_payment (se_yk E) client (provider_request E lc i)" w, OF reply]
    by (intro exI [of _ m]) (simp add: charge_provider_def run_bindP run_get_time)
qed

text \<open>The creation as a function of what the call made of the reply.\<close>

definition final_row :: "service_env \<Rightarrow> world \<Rightarrow> go_err + provider_payment \<Rightarrow> payment_row \<Rightarrow> payment_row" where
  "final_row E w r row = (let d = w_db w; row' = creating_row d row in
     case r of
       Inl e \<Rightarrow> if definitive (code_of_error e) then canceled_row d row' else unknown_row E (w_now w) d row'
     | Inr pp \<Rightarrow> pending_row E (w_now w) d pp row')"

definition final_op :: "world \<Rightarrow> go_err + provider_payment \<Rightarrow> operation_row \<Rightarrow> operation_row" where
  "final_op w r op = (let d = w_db w; op' = started_op d op in
     case r of
       Inl e \<Rightarrow> completed_op d (if definitive (code_of_error e) then OperationFailed else OperationUnknown)
         (error_text e) op'
     | Inr pp \<Rightarrow> completed_op d OperationSucceeded [] op')"

definition storable :: "database \<Rightarrow> payment_row \<Rightarrow> go_err + provider_payment \<Rightarrow> bool" where
  "storable d row r \<longleftrightarrow> (\<forall>pp. r = Inr pp \<longrightarrow>
     varchar 64 (pp_id pp) = Inr (pp_id pp) \<and> pg_text (pp_checkout_url pp) \<and>
     list_all (\<lambda>x. \<not> (p_provider x = p_provider row \<and> p_provider_payment_id x = Some (pp_id pp))) (db_payments d))"

definition final_answer :: "go_err + provider_payment \<Rightarrow> payment \<Rightarrow> go_err + create_result" where
  "final_answer r p = (case r of
     Inl e \<Rightarrow> if definitive (code_of_error e) then Inl e
       else Inr \<lparr>res_payment = p, res_replayed = False, res_pending = True, res_retry_after = 2\<rparr>
   | Inr _ \<Rightarrow> Inr \<lparr>res_payment = p, res_replayed = False, res_pending = False, res_retry_after = 0\<rparr>)"

lemma started_op_id [simp]: "o_id (started_op d op) = o_id op"
  by (simp add: started_op_def)

lemma run_create_order:
  assumes c: "calm w" and v: "validate (se_net E) (service_urls E) app key input = Inr i"
    and o: "can_order E app key i w account client row p op rq"
    and reply: "yk_create_payment (se_yk E) client (provider_request E (the_local E (w_db w) p op) i)
      (w_replies w (w_calls w)) = (out, r)"
    and st: "storable (w_db w) row r"
  shows "\<exists>p' v. run (create E app input key) w = Some (final_answer r p', v) \<and>
    of_row (final_row E w r row) p' \<and>
    w_db v = created_db (w_db w) (final_row E w r row) (final_op w r op) rq \<and>
    w_wire v = w_wire w @ (case out of None \<Rightarrow> [] | Some q \<Rightarrow> [q]) \<and> calm v \<and> w_now v = w_now w"
proof -
  let ?d = "w_db w" and ?lc = "the_local E (w_db w) p op"
  let ?row = "creating_row ?d row" and ?op = "started_op ?d op"
  note h = can_order_calling [OF o]
  obtain k where k: "run (create E app input key) w =
      run (charge_provider E ?lc i client) (at k (created_db ?d ?row ?op rq) w)"
    using run_create_up_to_call [OF c v o] by blast
  obtain m where m: "run (charge_provider E ?lc i client) (at k (created_db ?d ?row ?op rq) w) =
      run (case r of Inl e \<Rightarrow> handle_create_failure E ?lc e | Inr pp \<Rightarrow> record_created E ?lc pp)
        (at k (created_db ?d ?row ?op rq) ((charged out w)\<lparr>w_metrics := m\<rparr>))"
    using run_charge [OF c reply] by blast
  let ?w = "(charged out w)\<lparr>w_metrics := m\<rparr>"
  have c': "calm ?w" using c by simp
  have lc: "?lc = \<lparr>lc_payment = p, lc_operation_id = o_id ?op, lc_provider_key = lc_provider_key ?lc\<rparr>"
    by (simp add: the_local_def)
  have now: "w_now ?w = w_now w" by simp
  show ?thesis
  proof (cases r)
    case (Inr pp)
    have "list_all (\<lambda>x. \<not> (p_provider x = p_provider ?row \<and> p_provider_payment_id x = Some (pp_id pp)))
        (db_payments ?d)"
      using st Inr by (simp add: storable_def creating_row_def)
    from run_record_created [OF h c' _ _ this, unfolded now, where k = k and rq = rq and key = "lc_provider_key ?lc"] st Inr
    obtain p' k' n where p': "of_row (pending_row E (w_now w) ?d pp ?row) p'"
      "run (record_created E ?lc pp) (at k (created_db ?d ?row ?op rq) ?w) =
        Some (Inr \<lparr>res_payment = p', res_replayed = False, res_pending = False, res_retry_after = 0\<rparr>,
          at k' (created_db ?d (pending_row E (w_now w) ?d pp ?row) (completed_op ?d OperationSucceeded [] ?op) rq)
            (?w\<lparr>w_metrics := n\<rparr>))"
      using lc by (auto simp: storable_def)
    then show ?thesis
      using k m Inr c by (intro exI [of _ p'] exI) (auto simp: final_answer_def final_row_def final_op_def Let_def)
  next
    case (Inl e)
    show ?thesis
    proof (cases "definitive (code_of_error e)")
      case True
      obtain p' where p': "of_row (canceled_row ?d ?row) p'"
        using h to_payment_changed [of "se_decode_metadata E" ?row _ "canceled_row ?d ?row"]
        by (auto simp: calling_row_def canceled_row_def set_canceled_def)
      from run_creation_refused [OF h c' True, where k = k and rq = rq and key = "lc_provider_key ?lc"]
      show ?thesis
        using k m Inl True p' lc c
        by (intro exI [of _ p']) (auto simp: final_answer_def final_row_def final_op_def Let_def)
    next
      case False
      from run_creation_unknown [OF h c' False, unfolded now, where k = k and rq = rq and key = "lc_provider_key ?lc"]
      obtain p' k' n where "of_row (unknown_row E (w_now w) ?d ?row) p'"
        "run (handle_create_failure E ?lc e) (at k (created_db ?d ?row ?op rq) ?w) =
          Some (Inr \<lparr>res_payment = p', res_replayed = False, res_pending = True, res_retry_after = 2\<rparr>,
            at k' (created_db ?d (unknown_row E (w_now w) ?d ?row) (completed_op ?d OperationUnknown (error_text e) ?op) rq)
              (?w\<lparr>w_metrics := n\<rparr>))"
        using lc by auto
      then show ?thesis
        using k m Inl False c by (intro exI [of _ p'] exI) (auto simp: final_answer_def final_row_def final_op_def Let_def)
    qed
  qed
qed

subsection \<open>Orders that cannot be placed\<close>

lemma run_create_invalid:
  "validate (se_net E) (service_urls E) app key input = Inl e \<Longrightarrow> run (create E app input key) w = Some (Inl e, w)"
  by (simp add: create_def)

lemma run_create_unpaid:
  assumes c: "calm w" and v: "validate (se_net E) (service_urls E) app key input = Inr i"
    and new: "order_new (app_id app) key i (w_db w)"
  shows "run (create E app input key) w =
    run (bindP (exec Pool (get_default_provider_account (app_id app) Pool)) (\<lambda>r.
         case r of
           Inl e \<Rightarrow> Ret (Inl (if err_is e ErrNoRows then Sentinel PErrNoProviderAccount else e))
         | Inr account \<Rightarrow> create_with_account E app key (request_hash (se_sha E) i) i account))
      (at (Suc (Suc (w_stmts w))) (w_db w) w)"
proof -
  have texts: "pg_text key" "pg_text (in_order_id i)"
    and none: "one_row (\<lambda>r. i_application_id r = app_id app \<and> i_idempotency_key r = key) (idempotency_of w) =
      Inl (Sentinel ErrNoRows)"
    and paid: "\<not> list_ex (\<lambda>r. p_status r = StatusSucceeded) (order_rows (app_id app) (in_order_id i) (payments_of w))"
    using new by (auto simp: order_new_def one_row_none list_all_iff list_ex_iff)
  have "run (create E app input key) (at (w_stmts w) (w_db w) w) =
    run (bindP (exec Pool (get_default_provider_account (app_id app) Pool)) (\<lambda>r.
         case r of
           Inl e \<Rightarrow> Ret (Inl (if err_is e ErrNoRows then Sentinel PErrNoProviderAccount else e))
         | Inr account \<Rightarrow> create_with_account E app key (request_hash (se_sha E) i) i account))
      (at (Suc (Suc (w_stmts w))) (w_db w) w)"
    using c v none paid texts
    by (simp add: create_def Let_def run_bindP run_bindE run_lookup_request create_new_def run_paid)
  then show ?thesis by (simp add: at_self)
qed

lemma run_create_no_account:
  assumes "calm w" "validate (se_net E) (service_urls E) app key input = Inr i"
    and "order_new (app_id app) key i (w_db w)"
    and "get_default_provider_account (app_id app) Pool (w_db w) = (Inl (Sentinel ErrNoRows), w_db w)"
  shows "\<exists>v. run (create E app input key) w = Some (Inl (Sentinel PErrNoProviderAccount), v) \<and> untouched w v"
  unfolding run_create_unpaid [OF assms(1-3)]
  using assms(1,4) by (simp add: run_bindP calm_run untouched_def)

text \<open>An attempt of the order is still open: the unique index refuses the new one, and only the
  identifiers drawn are gone.\<close>

lemma run_create_active:
  assumes c: "calm w" and v: "validate (se_net E) (service_urls E) app key input = Inr i"
    and new: "order_new (app_id app) key i (w_db w)"
    and acct: "get_default_provider_account (app_id app) Pool (w_db w) = (Inr account, w_db w)"
    and row: "new_row E app account i (w_db w) = Inr row" "payment_checks row"
    and act: "r \<in> set (payments_of w)" "p_application_id r = app_id app" "p_order_id r = p_order_id row"
      "\<not> terminal (p_status r)"
  shows "\<exists>v. run (create E app input key) w = Some (Inl (Sentinel PErrActiveAttemptExists), v) \<and>
    w_wire v = w_wire w \<and> (\<exists>n. w_db v = (w_db w)\<lparr>db_next := n\<rparr>)"
proof -
  let ?d = "w_db w" and ?arg = "new_payment app account (attempt_of (app_id app) (in_order_id i) (w_db w)) i"
  let ?n = "db_next (w_db w)"
  have d: "db_txs ?d = []" using new by (simp add: order_new_def)
  have vals: "payment_values (se_pg E) ?arg (Suc ?n) (db_clock ?d) = Inr row"
    using row(1) by (simp add: new_row_def)
  then have "p_application_id row = app_id app" "p_status row = StatusCreated"
    by (auto simp: payment_values_def and_then_eq_Inr new_payment_def)
  then have clash: "\<not> free_of payment_clash row (db_payments ?d)"
    using act by (auto simp: pay.free_set payment_clash_def intro!: bexI [of _ r])
  have ins: "create_payment (se_pg E) ?arg (Tx ?n) (tx_db ?d (Suc ?n) x) =
      (Inl (unique_violation ''payments''), tx_db ?d (Suc (Suc ?n)) x)"
    and ready: "create_payment_ready (se_pg E) ?arg (Tx ?n) (tx_db ?d (Suc ?n) x)"
    if "t_id x = ?n" "t_payments x = []" "t_now x = db_clock ?d" for x
    using that vals row(2) clash
    by (simp_all add: create_payment_def create_payment_ready_def fresh_id_def split: sum.split)
  let ?x = "(new_tx ?n (db_clock ?d))\<lparr>t_locks := [lock_key (se_pg E) (se_uuid_text E (app_id app)) (in_order_id i)]\<rparr>"
  have pay: "run (local_payment E app account i ?n) (at k (tx_db ?d (Suc ?n) ?x) w) =
      Some (Inl (Sentinel PErrActiveAttemptExists), at (Suc (Suc k)) (tx_db ?d (Suc (Suc ?n)) ?x) w)" for k
    unfolding local_payment_def Let_def
    using c ins [of ?x] ready [of ?x] run_next_attempt [OF new, of ?x ?n "Suc ?n"]
    by (simp add: run_bindE run_bindP calm_run unique_violation_def)
  have close: "close_tx ?n (tx_db ?d m ?x) = ?d\<lparr>db_next := m\<rparr>" for m
    using d by (simp add: close_tx_def tx_db_def)
  have "run (create_local E app account key h i) (at k ?d w) =
      Some (Inl (Sentinel PErrActiveAttemptExists), at (6 + k) (?d\<lparr>db_next := Suc (Suc ?n)\<rparr>) w)" for k h
    unfolding create_local_def
    using c run_local_checks [OF new c, of "new_tx ?n (db_clock ?d)" ?n] pay close
    by (simp add: run_bindP run_bindE calm_run open_tx_db [OF d])
  then show ?thesis
    unfolding run_create_unpaid [OF c v new]
    using c acct by (auto simp: run_bindP calm_run create_with_account_def)
qed

end
