(* ===== verification/Demo.thy ===== *)
theory Demo
  imports PaymentSafety ChargeRuns
begin

text \<open>
  A small installation on which the programs are evaluated: one application with a default account,
  a cipher whose sealing is transparent, a provider that accepts the first payment. The witnesses of
  the properties run the service on it.
\<close>

definition demo_aead :: aead where
  "demo_aead = \<lparr>aead_seal = (\<lambda>_ p. p), aead_open = (\<lambda>_ c. Some c)\<rparr>"

definition demo_cipher :: cipher where
  "demo_cipher = \<lparr>primary_id = 0, primary = demo_aead, keys = [0 \<mapsto> demo_aead]\<rparr>"

definition demo_yk_env :: yk_env where
  "demo_yk_env = \<lparr>request_error = (\<lambda>_. None),
     decode_payment = (\<lambda>s. Inr \<lparr>api_id = ''pp'', api_status = s, api_paid = False,
       api_amount = \<lparr>amount_value = ''1.00'', amount_currency = ''RUB''\<rparr>, api_confirmation = Some ''c''\<rparr>),
     decode_error = (\<lambda>_. None)\<rparr>"

definition demo_env :: service_env where
  "demo_env = \<lparr>se_production = True, se_window = 100, se_poll = 10, se_recorder = False,
     se_base_url = ''h'', se_cipher = demo_cipher, se_sha = (\<lambda>m. [word_of_nat (length m)]),
     se_net = \<lparr>url_parse = (\<lambda>_. Inl []), parse_ip = (\<lambda>_. None), lookup_ip = (\<lambda>_. None), ip_text = (\<lambda>_. [])\<rparr>,
     se_pg = \<lparr>jsonb_in = Inr, lock_hash = (\<lambda>_. 0)\<rparr>, se_yk = demo_yk_env,
     se_uuid_text = (\<lambda>u. [''ABCDEFGHIJ'' ! (u mod 10)]),
     se_decode_metadata = (\<lambda>_. Inr [])\<rparr>"

definition demo_shop :: application where
  "demo_shop = \<lparr>app_id = 1, app_name = ''s'', app_slug = ''s'', app_status = ''active'',
     app_default_return_url = None, app_webhook_url = None, app_created_at = 0, app_updated_at = 0\<rparr>"

definition demo_order :: create_payment_input where
  "demo_order = \<lparr>in_order_id = ''1'', in_amount_minor = 100, in_currency = [], in_description = [],
     in_return_url = None, in_metadata = None\<rparr>"

definition demo_db :: database where
  "demo_db = \<lparr>db_payments = [], db_operations = [], db_idempotency = [],
     db_applications = [\<lparr>a_id = 1, a_name = ''s'', a_slug = ''s'', a_status = ''active'',
       a_default_return_url = None, a_webhook_url = None, a_webhook_secret_encrypted = None,
       a_created_at = 0, a_updated_at = 0\<rparr>],
     db_api_keys = [],
     db_accounts = [\<lparr>c_id = 2, c_provider = ''yookassa'', c_shop_id = ''9'',
       c_encrypted_secret_key = 1 # replicate 16 0, c_environment = ''test'', c_status = ''active'',
       c_created_at = 0, c_updated_at = 0\<rparr>],
     db_links = [\<lparr>l_application_id = 1, l_provider_account_id = 2, l_is_default = True, l_created_at = 0\<rparr>],
     db_txs = [], db_clock = 0, db_next = 3\<rparr>"

definition demo_world :: "(nat \<Rightarrow> transport) \<Rightarrow> world" where
  "demo_world replies = \<lparr>w_db = demo_db, w_now = 0, w_stmts = 0, w_faults = (\<lambda>_. NoFault), w_wire = [],
     w_calls = 0, w_replies = replies, w_draws = 0, w_random = (\<lambda>_ _. None), w_metrics = []\<rparr>"

lemma demo_uuid_text: "uuid_text_ok demo_env"
proof -
  have "list_all (\<lambda>c. pg_text [c]) ''ABCDEFGHIJ''" by code_simp
  then have "pg_text [''ABCDEFGHIJ'' ! (u mod 10)]" for u :: nat
    by (simp only: list_all_iff) (rule bspec, assumption, rule nth_mem, simp)
  then show ?thesis by (simp add: uuid_text_ok_def demo_env_def varchar_fits)
qed

lemma demo_fresh: "fresh demo_env (demo_world replies)"
  by (simp add: fresh_def demo_world_def demo_db_def demo_uuid_text)

lemma demo_calm: "calm (demo_world replies)"
  by (simp add: calm_def demo_world_def)

text \<open>The rows of the first order.\<close>

definition demo_norm :: create_payment_input where
  "demo_norm = demo_order\<lparr>in_currency := ''RUB''\<rparr>"

definition demo_account :: account_row where
  "demo_account = \<lparr>c_id = 2, c_provider = ''yookassa'', c_shop_id = ''9'',
       c_encrypted_secret_key = 1 # replicate 16 0, c_environment = ''test'', c_status = ''active'',
       c_created_at = 0, c_updated_at = 0\<rparr>"

definition demo_client :: yk_client where
  "demo_client = new_client ''h'' ''9'' []"

definition demo_row :: payment_row where
  "demo_row = \<lparr>p_id = 4, p_application_id = 1, p_provider_account_id = 2, p_order_id = ''1'',
     p_attempt_number = 1, p_provider = ''yookassa'', p_provider_payment_id = None, p_amount_minor = 100,
     p_currency = ''RUB'', p_description = [], p_status = StatusCreated, p_checkout_url = None,
     p_return_url = None, p_metadata = ''{}'', p_created_at = 0, p_updated_at = 0, p_completed_at = None,
     p_next_check_at = None\<rparr>"

definition demo_payment :: payment where
  "demo_payment = \<lparr>pay_id = 4, pay_application_id = 1, pay_provider_account_id = 2, pay_order_id = ''1'',
     pay_attempt_number = 1, pay_provider = ''yookassa'', pay_provider_payment_id = None,
     pay_amount_minor = 100, pay_currency = ''RUB'', pay_description = [], pay_status = StatusCreated,
     pay_checkout_url = None, pay_return_url = None, pay_metadata = [], pay_created_at = 0,
     pay_updated_at = 0, pay_completed_at = None, pay_next_check_at = None\<rparr>"

definition demo_op :: operation_row where
  "demo_op = \<lparr>o_id = 6, o_payment_id = 4, o_operation_type = OperationCreatePayment,
     o_provider_idempotency_key = ''F'', o_request_hash = [101],
     o_request_body = provider_request_body demo_norm,
     o_status = OperationPending, o_attempt_count = 0, o_last_error = None,
     o_idempotency_expires_at = Some 100, o_started_at = None, o_completed_at = None, o_created_at = 0\<rparr>"

definition demo_request :: idempotency_row where
  "demo_request = \<lparr>i_id = 7, i_application_id = 1, i_idempotency_key = ''k'', i_request_hash = [101],
     i_payment_id = Some 4, i_created_at = 0\<rparr>"

lemma demo_validate: "validate (se_net demo_env) (service_urls demo_env) demo_shop ''k'' demo_order = Inr demo_norm"
  by code_simp

lemma demo_hash: "request_hash (se_sha demo_env) demo_norm = [101]"
  by code_simp

lemma demo_new_row: "new_row demo_env demo_shop demo_account demo_norm demo_db = Inr demo_row"
  by code_simp

lemma demo_new_op: "new_op demo_env demo_row [101] demo_norm 0 demo_db = Inr demo_op"
  by code_simp

lemma demo_new_request: "new_request demo_shop ''k'' [101] demo_row demo_db = Inr demo_request"
  by code_simp

lemma demo_to_payment: "to_payment (se_decode_metadata demo_env) demo_row = Inr demo_payment"
  by code_simp

lemma demo_default: "get_default_provider_account (app_id demo_shop) Pool demo_db = (Inr demo_account, demo_db)"
  by code_simp

lemma demo_secret: "decrypt (se_cipher demo_env) (c_encrypted_secret_key demo_account) = Inr []"
  by code_simp

lemma demo_can_order:
  "can_order demo_env demo_shop ''k'' demo_norm (demo_world replies) demo_account demo_client
     demo_row demo_payment demo_op demo_request"
proof -
  have checks: "payment_checks demo_row" "pg_text ''k''" "pg_text (in_order_id demo_norm)" by code_simp+
  have "order_open demo_env demo_shop demo_account ''k'' [101] demo_norm 0 demo_db
      demo_row demo_payment demo_op demo_request"
    unfolding order_open_def order_new_def
    using checks demo_new_row demo_new_op demo_new_request demo_to_payment
    by (simp add: demo_db_def attempt_of_def order_rows_def int32_max_def demo_shop_def demo_account_def)
  moreover have "one_row (\<lambda>r. c_id r = c_id demo_account) (db_accounts demo_db) = Inr demo_account" by code_simp
  moreover have "demo_client = new_client (se_base_url demo_env) (c_shop_id demo_account) (string_of [])" by code_simp
  ultimately show ?thesis
    using demo_default demo_secret by (auto simp: can_order_def demo_hash demo_world_def demo_db_def)
qed

end
