(* ===== verification/DemoRuns.thy ===== *)
theory DemoRuns
  imports Demo
begin

text \<open>
  The demo installation at work: the first order under each kind of reply, and configurations of the
  running system in which it has been served once or twice.
\<close>

definition demo_wire :: wire_request where
  "demo_wire = \<lparr>wire_method = ''POST'', wire_url = ''h/v3/payments'', wire_auth = (''9'', []),
     wire_idempotence_key = Some ''F'',
     wire_body = Some \<lparr>body_amount = \<lparr>amount_value = ''1.00'', amount_currency = ''RUB''\<rparr>,
       body_capture = True, body_confirmation_type = ''redirect'', body_return_url = [],
       body_description = [], body_metadata = [(''order_id'', ''1''), (''payment_id'', ''E'')]\<rparr>\<rparr>"

definition demo_pp :: provider_payment where
  "demo_pp = \<lparr>pp_id = ''pp'', pp_status = ProvPending, pp_checkout_url = ''c'', pp_paid = False,
     pp_amount = 100, pp_currency = ''RUB''\<rparr>"

definition demo_refusal :: go_err where
  "demo_refusal = status_error (se_yk demo_env) 400 ''pending''"

definition demo_timeout :: go_err where
  "demo_timeout = perr CodeTimeout 0 ''x'' True"

abbreviation demo_call :: "transport \<Rightarrow> wire_request option \<times> (go_err + provider_payment)" where
  "demo_call \<equiv> yk_create_payment (se_yk demo_env) demo_client
     (provider_request demo_env (the_local demo_env demo_db demo_payment demo_op) demo_norm)"

lemma demo_request_sent:
  "do_request demo_client ''POST'' ''/v3/payments''
     (req_idempotency_key (provider_request demo_env (the_local demo_env demo_db demo_payment demo_op) demo_norm))
     (Some (create_payment_body (provider_request demo_env (the_local demo_env demo_db demo_payment demo_op) demo_norm)))
   = demo_wire"
  by code_simp

lemma demo_parse_amount: "parse_amount_minor ''1.00'' = Inr 100"
proof -
  have "format_amount_minor 100 = ''1.00''" by code_simp
  then show ?thesis using parse_format_amount [of 100] by simp
qed

lemma demo_body: "take max_response_body ''pending'' = ''pending''"
  by (rule take_all) (simp add: max_response_body_def)

lemma demo_do: "demo_call outcome = (Some demo_wire, payment_result (do_outcome (se_yk demo_env)
    (Some (decode_payment (se_yk demo_env))) outcome))"
proof -
  have "request_error (se_yk demo_env) x = None" for x by (simp add: demo_env_def demo_yk_env_def)
  then show ?thesis by (simp add: yk_create_payment_def yk_do_def demo_request_sent)
qed

lemma demo_accepted: "demo_call (HttpResp 200 ''pending'') = (Some demo_wire, Inr demo_pp)"
  unfolding demo_do do_outcome_def
  by (simp add: demo_body, simp add: demo_env_def demo_yk_env_def payment_result_def
      to_provider_payment_def map_status_def demo_pp_def demo_parse_amount)

lemma demo_refused: "demo_call (HttpResp 400 ''pending'') = (Some demo_wire, Inl demo_refusal)"
  unfolding demo_do do_outcome_def
  by (simp add: payment_result_def demo_refusal_def)

lemma demo_refusal_definitive: "definitive (code_of_error demo_refusal)"
  by (simp add: demo_refusal_def status_error_def Let_def demo_env_def demo_yk_env_def definitive_def)

lemma demo_timed_out: "demo_call (NetFail True ''x'') = (Some demo_wire, Inl demo_timeout)"
  by code_simp

lemma demo_reply [simp]:
  "w_replies (demo_world replies) = replies" "w_calls (demo_world replies) = 0"
  "w_db (demo_world replies) = demo_db" "w_wire (demo_world replies) = []" "w_now (demo_world replies) = 0"
  by (simp_all add: demo_world_def)

lemma demo_storable: "storable demo_db demo_row r" if "r = Inr demo_pp \<or> (\<exists>e. r = Inl e)"
proof -
  have "varchar 64 ''pp'' = Inr ''pp''" "pg_text ''c''" by code_simp+
  with that show ?thesis by (auto simp: storable_def demo_pp_def demo_db_def)
qed

text \<open>The first order, whatever the reply.\<close>

lemma demo_create_run:
  assumes "demo_call (replies 0) = (out, r)" "r = Inr demo_pp \<or> (\<exists>e. r = Inl e)"
  shows "\<exists>p' v. run (create demo_env demo_shop demo_order ''k'') (demo_world replies) =
      Some (final_answer r p', v) \<and> of_row (final_row demo_env (demo_world replies) r demo_row) p' \<and>
    w_db v = created_db demo_db (final_row demo_env (demo_world replies) r demo_row)
      (final_op (demo_world replies) r demo_op) demo_request \<and>
    w_wire v = (case out of None \<Rightarrow> [] | Some q \<Rightarrow> [q]) \<and> calm v \<and> w_now v = 0"
  using run_create_order [where w = "demo_world replies" and out = out and r = r,
      OF demo_calm demo_validate demo_can_order] assms demo_storable [OF assms(2)]
  by simp

text \<open>A request served alone is one of the runs of the system.\<close>

lemma served:
  assumes "reachable E w0 c" "threads c i = None" "run (serve E req) (shared c) = Some (a, v)"
  shows "\<exists>c'. reachable E w0 c' \<and> threads c' i = Some (Ret a) \<and> shared c' = v \<and>
    (\<forall>j. j \<noteq> i \<longrightarrow> threads c' j = threads c j)"
proof -
  let ?c = "\<lparr>threads = (threads c)(i := Some (serve E req)), shared = shared c\<rparr>"
  have "reachable E w0 ?c"
    unfolding reachable_def
    by (rule reach_step [OF assms(1) [unfolded reachable_def]], rule step_spawn) (use assms(2) in auto)
  from run_reach [OF assms(3) this [unfolded reachable_def], of i] show ?thesis
    unfolding reachable_def by fastforce
qed

lemma served_first:
  assumes "run (serve E req) w0 = Some (a, v)"
  shows "\<exists>c. reachable E w0 c \<and> threads c 0 = Some (Ret a) \<and> shared c = v \<and> (\<forall>j. j \<noteq> 0 \<longrightarrow> threads c j = None)"
proof -
  have "reachable E w0 \<lparr>threads = (\<lambda>_. None), shared = w0\<rparr>" by (simp add: reachable_def reach_init)
  from served [OF this, of 0 req a v] assms show ?thesis by simp
qed

lemma run_serve_create:
  "run (create E app input key) w = Some (r, v) \<Longrightarrow>
     run (serve E (ReqCreate app key input)) w = Some ((ReqCreate app key input, RespCreate r), v)"
  by (simp add: serve_def CreatePayment_def run_bindP)

definition demo_pending :: payment_row where
  "demo_pending = demo_row\<lparr>p_status := StatusPending, p_provider_payment_id := Some ''pp'',
     p_checkout_url := Some ''c'', p_next_check_at := Some 10\<rparr>"

lemma demo_final_row: "final_row demo_env (demo_world replies) (Inr demo_pp) demo_row = demo_pending"
  by (simp add: final_row_def demo_pending_def demo_row_def pending_row_def creating_row_def set_created_def
      demo_pp_def demo_env_def demo_db_def)

definition demo_accepting :: world where
  "demo_accepting = demo_world (\<lambda>_. HttpResp 200 ''pending'')"

abbreviation demo_create :: request where
  "demo_create \<equiv> ReqCreate demo_shop ''k'' demo_order"

text \<open>The first order served and accepted by the provider.\<close>

lemma demo_one:
  obtains c p where "reachable demo_env demo_accepting c" "threads c 1 = None" "calm (shared c)"
    "threads c 0 = Some (Ret (demo_create,
       RespCreate (Inr \<lparr>res_payment = p, res_replayed = False, res_pending = False, res_retry_after = 0\<rparr>)))"
    "of_row demo_pending p" "payments_of (shared c) = [demo_pending]" "idempotency_of (shared c) = [demo_request]"
    "operations_of (shared c) = [final_op demo_accepting (Inr demo_pp) demo_op]"
    "w_wire (shared c) = [demo_wire]" "w_now (shared c) = 0"
proof -
  obtain p v where v: "run (create demo_env demo_shop demo_order ''k'') demo_accepting =
      Some (Inr \<lparr>res_payment = p, res_replayed = False, res_pending = False, res_retry_after = 0\<rparr>, v)"
    "of_row demo_pending p" "calm v" "w_wire v = [demo_wire]" "w_now v = 0"
    "w_db v = created_db demo_db demo_pending (final_op demo_accepting (Inr demo_pp) demo_op) demo_request"
    using demo_create_run [of "\<lambda>_. HttpResp 200 ''pending''", OF demo_accepted]
    by (auto simp: demo_accepting_def demo_final_row final_answer_def)
  obtain c where c: "reachable demo_env demo_accepting c" "threads c 1 = None" "shared c = v"
    "threads c 0 = Some (Ret (demo_create,
       RespCreate (Inr \<lparr>res_payment = p, res_replayed = False, res_pending = False, res_retry_after = 0\<rparr>)))"
    using served_first [OF run_serve_create [OF v(1)]] by auto
  show thesis by (rule that [OF c(1,2) _ c(4) v(2)]) (use c(3) v in \<open>simp_all add: demo_db_def created_db_def\<close>)
qed

text \<open>The same order again: the retry is answered from the records.\<close>

lemma demo_two:
  obtains c p q where "reachable demo_env demo_accepting c"
    "threads c 0 = Some (Ret (demo_create,
       RespCreate (Inr \<lparr>res_payment = p, res_replayed = False, res_pending = False, res_retry_after = 0\<rparr>)))"
    "threads c 1 = Some (Ret (demo_create,
       RespCreate (Inr \<lparr>res_payment = q, res_replayed = True, res_pending = False, res_retry_after = 2\<rparr>)))"
    "of_row demo_pending p" "of_row demo_pending q" "payments_of (shared c) = [demo_pending]"
proof -
  obtain c p where c: "reachable demo_env demo_accepting c" "threads c 1 = None" "calm (shared c)"
    "threads c 0 = Some (Ret (demo_create,
       RespCreate (Inr \<lparr>res_payment = p, res_replayed = False, res_pending = False, res_retry_after = 0\<rparr>)))"
    "of_row demo_pending p" "payments_of (shared c) = [demo_pending]" "idempotency_of (shared c) = [demo_request]"
    by (rule demo_one)
  have key: "pg_text ''k''" by code_simp
  obtain q where q: "to_payment (se_decode_metadata demo_env) demo_pending = Inr q" "of_row demo_pending q"
    using to_payment_changed [OF demo_to_payment, of demo_pending] by (auto simp: demo_pending_def)
  have "pay_checkout_url q = Some ''c''" using q(2) by (simp add: of_row_def demo_pending_def)
  then obtain v where v: "run (create demo_env demo_shop demo_order ''k'') (shared c) =
      Some (Inr \<lparr>res_payment = q, res_replayed = True, res_pending = False, res_retry_after = 2\<rparr>, v)"
    "untouched (shared c) v"
    using run_create_replayed [OF c(3) demo_validate key, where rq = demo_request and row = demo_pending and p = q and pid = 4]
      c(6,7) q(1) by (auto simp: demo_request_def demo_hash one_row_def demo_pending_def demo_row_def demo_shop_def)
  obtain c' where c': "reachable demo_env demo_accepting c'" "threads c' 0 = threads c 0" "shared c' = v"
    "threads c' 1 = Some (Ret (demo_create,
       RespCreate (Inr \<lparr>res_payment = q, res_replayed = True, res_pending = False, res_retry_after = 2\<rparr>)))"
    using served [OF c(1,2) run_serve_create [OF v(1)]] by auto
  show thesis
    by (rule that [OF c'(1) _ c'(4) c(5) q(2)]) (use c'(2,3) c(4,6) v(2) in \<open>simp_all add: untouched_def\<close>)
qed

end
