(* ===== verification/ReadRuns.thy ===== *)
theory ReadRuns
  imports ChargeRuns
begin

text \<open>
  Reading alone: \<open>GetPayment\<close> with its refresh, \<open>ListPayments\<close> and the count of unfinished payments,
  on connections that do not fail.
\<close>

abbreviation owned :: "uuid \<Rightarrow> uuid \<Rightarrow> payment_row \<Rightarrow> bool" where
  "owned app pid r \<equiv> p_id r = pid \<and> p_application_id r = app"

lemma run_GetPayment_missing:
  assumes "calm w" "\<forall>r \<in> set (payments_of w). \<not> owned app pid r"
  shows "\<exists>v. run (GetPayment E app pid) w = Some (Inl (Sentinel PErrNotFound), v) \<and> untouched w v"
proof -
  have "one_row (owned app pid) (payments_of w) = Inl (Sentinel ErrNoRows)"
    using assms(2) by (simp add: one_row_none)
  then have "run (GetPayment E app pid) (at (w_stmts w) (w_db w) w) =
      Some (Inl (Sentinel PErrNotFound), at (Suc (w_stmts w)) (w_db w) w)"
    using assms(1) by (simp add: GetPayment_def get_payment_row_def run_bindE run_bindP calm_run
        get_payment_for_application_def visible_def own_txs_def)
  then show ?thesis by (simp add: at_self untouched_def)
qed

text \<open>The payments a read asks the provider about.\<close>

definition due :: "time \<Rightarrow> payment \<Rightarrow> bool" where
  "due t p \<longleftrightarrow> \<not> terminal (pay_status p) \<and> pay_provider_payment_id p \<noteq> None \<and>
     (\<forall>n. pay_next_check_at p = Some n \<longrightarrow> n \<le> t)"

lemma run_maybe_refresh_not_due:
  "\<not> due (w_now w) p \<Longrightarrow> run (maybe_refresh E p) w = Some (p, w)"
  by (auto simp: maybe_refresh_def due_def run_bindP run_get_time split: option.splits)

lemma run_GetPayment_not_due:
  assumes "calm w" "one_row (owned app pid) (payments_of w) = Inr row"
    and "to_payment (se_decode_metadata E) row = Inr p" "\<not> due (w_now w) p"
  shows "\<exists>v. run (GetPayment E app pid) w = Some (Inr p, v) \<and> untouched w v"
proof -
  have "run (GetPayment E app pid) (at (w_stmts w) (w_db w) w) =
      Some (Inr p, at (Suc (w_stmts w)) (w_db w) w)"
    using assms run_maybe_refresh_not_due [of "at (Suc (w_stmts w)) (w_db w) w" p E]
    by (simp add: GetPayment_def run_bindE run_bindP run_get_payment_row)
  then show ?thesis by (simp add: at_self untouched_def)
qed

subsection \<open>Refreshing\<close>

text \<open>The account whose credentials the call uses.\<close>

definition reads_with :: "service_env \<Rightarrow> payment \<Rightarrow> database \<Rightarrow> yk_client \<Rightarrow> bool" where
  "reads_with E p d client \<longleftrightarrow>
     (\<exists>acc secret. one_row (\<lambda>r. c_id r = pay_provider_account_id p) (db_accounts d) = Inr acc \<and>
        decrypt (se_cipher E) (c_encrypted_secret_key acc) = Inr secret \<and>
        client = new_client (se_base_url E) (c_shop_id acc) (string_of secret))"

text \<open>What a refresh makes of the rows: the payment takes the provider's status, if it is news.\<close>

definition news :: "payment \<Rightarrow> go_err + provider_payment \<Rightarrow> status option" where
  "news p r = (case r of Inl _ \<Rightarrow> None
     | Inr pp \<Rightarrow> (case internal_status (pp_status pp) of None \<Rightarrow> None
         | Some s \<Rightarrow> if can_transition (pay_status p) s then Some s else None))"

definition refreshed_row :: "service_env \<Rightarrow> time \<Rightarrow> database \<Rightarrow> status \<Rightarrow> payment_row \<Rightarrow> payment_row" where
  "refreshed_row E t d s row =
     stamped (apply_status s (Some (t + se_poll E)) (db_clock d)) (db_clock d) row"

definition refreshed_db :: "service_env \<Rightarrow> time \<Rightarrow> uuid \<Rightarrow> status \<Rightarrow> database \<Rightarrow> database" where
  "refreshed_db E t pid s d = d\<lparr>db_payments :=
     update_where (\<lambda>r. p_id r = pid \<and> active_row r) (refreshed_row E t d s) (db_payments d)\<rparr>"

lemma clash_free_map:
  "(\<And>r s. clash (h r) (h s) \<Longrightarrow> clash r s) \<Longrightarrow> clash_free clash rows \<Longrightarrow> clash_free clash (map h rows)"
  by (induction rows) (auto simp: free_of_def list_all_iff)

definition key_fields :: "payment_row \<Rightarrow> payment_row \<Rightarrow> bool" where
  "key_fields r' r \<longleftrightarrow> p_id r' = p_id r \<and> p_application_id r' = p_application_id r \<and>
     p_order_id r' = p_order_id r \<and> p_attempt_number r' = p_attempt_number r \<and> p_provider r' = p_provider r \<and>
     p_provider_payment_id r' = p_provider_payment_id r \<and> (active_row r' \<longrightarrow> active_row r)"

lemma clash_keys:
  "key_fields x' x \<Longrightarrow> key_fields y' y \<Longrightarrow> payment_clash x' y' \<Longrightarrow> payment_clash x y"
  by (auto simp: key_fields_def payment_clash_def)

lemma refreshed_clash_free:
  assumes "clash_free payment_clash (db_payments d)"
  shows "clash_free payment_clash (db_payments (refreshed_db E t pid s d))"
proof -
  let ?h = "\<lambda>r. if p_id r = pid \<and> active_row r then refreshed_row E t d s r else r"
  have "payment_clash (?h x) (?h y) \<Longrightarrow> payment_clash x y" for x y
    by (rule clash_keys [of "?h x" x "?h y" y]) (simp_all add: key_fields_def refreshed_row_def apply_status_def)
  then have "clash_free payment_clash (map ?h (db_payments d))"
    using assms by (rule clash_free_map)
  then show ?thesis by (simp add: refreshed_db_def update_where_def)
qed

lemma run_apply_status:
  assumes c: "calm w" and d: "db_txs d = []" "clash_free payment_clash (db_payments d)"
  shows "run (apply_provider_status pid s (Some (t + se_poll E))) (at k d w) =
    Some (Inr (), at (Suc k) (refreshed_db E t pid s d) w)"
proof -
  let ?f = "apply_status s (Some (t + se_poll E)) (db_clock d)"
  have u: "updated_payments (\<lambda>r. p_id r = pid \<and> active_row r) ?f d = db_payments (refreshed_db E t pid s d)"
    by (simp add: updated_payments_def refreshed_db_def refreshed_row_def update_where_def)
  show ?thesis
    using c d(1) refreshed_clash_free [OF d(2), of E t pid s]
    by (simp add: apply_provider_status_def exec_update_at_def calm_run update_payments_def
        update_payments_ready_def u foreign_def other_txs_def list_all_iff)
      (simp add: refreshed_db_def)
qed

lemma refreshed_one_row:
  assumes "one_row (owned app pid) (db_payments d) = Inr row" "active_row row"
  shows "one_row (owned app pid) (db_payments (refreshed_db E t pid s d)) = Inr (refreshed_row E t d s row)"
proof -
  have keep: "owned app pid (if c r then refreshed_row E t d s r else r) = owned app pid r" for c r
    by (simp add: refreshed_row_def apply_status_def)
  have "find (owned app pid) (update_where c (refreshed_row E t d s) rows) =
      map_option (\<lambda>r. if c r then refreshed_row E t d s r else r) (find (owned app pid) rows)" for c rows
    using keep by (induction rows) (auto simp: update_where_def)
  then have f: "find (owned app pid) (db_payments (refreshed_db E t pid s d)) =
      map_option (\<lambda>r. if p_id r = pid \<and> active_row r then refreshed_row E t d s r else r)
        (find (owned app pid) (db_payments d))"
    by (simp add: refreshed_db_def)
  have "find (owned app pid) (db_payments d) = Some row" "p_id row = pid"
    using assms(1) one_row_Inr [OF assms(1)] by (auto simp: one_row_def split: option.splits)
  then show ?thesis using assms(2) unfolding one_row_def f by simp
qed

lemma run_apply_provider_state:
  assumes c: "calm w" and d: "db_txs d = []" "clash_free payment_clash (db_payments d)"
    and row: "one_row (owned app pid) (db_payments d) = Inr row" "to_payment (se_decode_metadata E) row = Inr p"
    and s: "news p (Inr pp) = Some s"
  shows "\<exists>p' k'. of_row (refreshed_row E (w_now w) d s row) p' \<and>
    run (apply_provider_state E p pp) (at k d w) =
      Some (Inr p', at k' (refreshed_db E (w_now w) pid s d) w)"
proof -
  let ?d = "refreshed_db E (w_now w) pid s d" and ?row = "refreshed_row E (w_now w) d s row"
  have st: "internal_status (pp_status pp) = Some s" "can_transition (pay_status p) s"
    using s by (auto simp: news_def split: option.splits if_splits)
  have p: "pay_id p = pid" "pay_application_id p = app" "pay_status p = p_status row"
    using one_row_Inr [OF row(1)] to_payment_of_row [OF row(2)] by (auto simp: of_row_def)
  have act: "active_row row"
    using st(2) p(3) terminal_iff_no_transition [of "p_status row"] by auto
  obtain p' where p': "to_payment (se_decode_metadata E) ?row = Inr p'" "of_row ?row p'"
    using to_payment_changed [OF row(2), of ?row] by (auto simp: refreshed_row_def apply_status_def)
  have "run (get_payment_row E app pid) (at (Suc k) ?d w) = Some (Inr p', at (Suc (Suc k)) ?d w)"
    using run_get_payment_row [OF c refreshed_one_row [OF row(1) act]] p'(1) by simp
  then show ?thesis
    using st p(1,2) run_apply_status [OF c d] p'(2)
    by (intro exI [of _ p'] exI [of _ "Suc (Suc k)"])
      (simp add: apply_provider_state_def run_bindP run_bindE run_get_time)
qed

lemma run_refresh:
  assumes c: "calm w" and cr: "reads_with E p d client"
    and reply: "yk_get_payment (se_yk E) client (deref_string (pay_provider_payment_id p))
      (w_replies w (w_calls w)) = (out, r)"
  shows "\<exists>m. run (refresh E p) (at k d w) =
    run (case r of Inl e \<Rightarrow> Ret (Inl e) | Inr pp \<Rightarrow> apply_provider_state E p pp)
      (at (Suc k) d ((charged out w)\<lparr>w_metrics := m\<rparr>))"
proof -
  obtain acc secret where acc: "one_row (\<lambda>r. c_id r = pay_provider_account_id p) (db_accounts d) = Inr acc"
    "decrypt (se_cipher E) (c_encrypted_secret_key acc) = Inr secret"
    "client = new_client (se_base_url E) (c_shop_id acc) (string_of secret)"
    using cr by (auto simp: reads_with_def)
  have creds: "run (provider_credentials E (pay_provider_account_id p)) (at k d w) =
      Some (Inr (c_shop_id acc, string_of secret), at (Suc k) d w)"
    using c acc by (simp add: provider_credentials_def run_bindP calm_run get_provider_account_def
        visible_def own_txs_def)
  obtain m where m: "run (record_provider_call E OperationGetPayment (error_of r) (w_now w))
      (at (Suc k) d (charged out w)) = Some ((), at (Suc k) d ((charged out w)\<lparr>w_metrics := m\<rparr>))"
    using run_record_provider_call [of E OperationGetPayment "error_of r" "w_now w" "at (Suc k) d (charged out w)"]
    by (auto simp: at_metrics)
  show ?thesis
    using m creds run_provider_call [of "yk_get_payment (se_yk E) client (deref_string (pay_provider_payment_id p))" w,
        OF reply] acc(3)
    by (intro exI [of _ m]) (simp add: refresh_def run_bindP run_bindE run_get_time)
qed

text \<open>A due payment: the provider is asked once; only news changes the row, and an answer that is an
  error or no news leaves everything as it was.\<close>

lemma run_GetPayment_due:
  assumes c: "calm w" and d: "txs_of w = []" "clash_free payment_clash (payments_of w)"
    and row: "one_row (owned app pid) (payments_of w) = Inr row" "to_payment (se_decode_metadata E) row = Inr p"
    and due: "due (w_now w) p" and cr: "reads_with E p (w_db w) client"
    and reply: "yk_get_payment (se_yk E) client (deref_string (pay_provider_payment_id p))
      (w_replies w (w_calls w)) = (out, r)"
  shows "\<exists>p' v. run (GetPayment E app pid) w = Some (Inr p', v) \<and>
    w_wire v = w_wire w @ (case out of None \<Rightarrow> [] | Some q \<Rightarrow> [q]) \<and>
    (case news p r of
       None \<Rightarrow> p' = p \<and> w_db v = w_db w
     | Some s \<Rightarrow> of_row (refreshed_row E (w_now w) (w_db w) s row) p' \<and>
         w_db v = refreshed_db E (w_now w) pid s (w_db w))"
proof -
  let ?d = "w_db w" and ?k = "Suc (w_stmts w)"
  obtain m where m: "run (refresh E p) (at ?k ?d w) =
      run (case r of Inl e \<Rightarrow> Ret (Inl e) | Inr pp \<Rightarrow> apply_provider_state E p pp)
        (at (Suc ?k) ?d ((charged out w)\<lparr>w_metrics := m\<rparr>))"
    using run_refresh [OF c cr reply] by blast
  let ?w = "(charged out w)\<lparr>w_metrics := m\<rparr>"
  have get: "run (GetPayment E app pid) (at (w_stmts w) ?d w) =
      (case run (refresh E p) (at ?k ?d w) of None \<Rightarrow> None
       | Some (x, v) \<Rightarrow> Some (Inr (case x of Inl _ \<Rightarrow> p | Inr p' \<Rightarrow> p'), v))"
    using c row due
    by (auto simp: GetPayment_def run_bindE run_bindP run_get_payment_row maybe_refresh_def due_def run_get_time
        split: option.splits)
  have self: "run (GetPayment E app pid) (at (w_stmts w) ?d w) = run (GetPayment E app pid) w"
    by (simp add: at_self)
  show ?thesis
  proof (cases "news p r")
    case (Some s)
    then obtain pp where pp: "r = Inr pp" by (auto simp: news_def split: sum.splits)
    have "calm ?w" using c by simp
    from run_apply_provider_state [OF this d row Some [unfolded pp], of "Suc ?k"] m pp get self Some
    show ?thesis by auto
  next
    case None
    then have "run (refresh E p) (at ?k ?d w) = Some (case r of Inl e \<Rightarrow> Inl e | Inr _ \<Rightarrow> Inr p, at (Suc ?k) ?d ?w)"
      unfolding m by (auto simp: news_def apply_provider_state_def split: sum.splits option.splits if_splits)
    then show ?thesis using get self None by (auto split: sum.splits)
  qed
qed

text \<open>A due payment of which the provider has no news: only the request went out, and the connections,
  the provider and the records are as before.\<close>

lemma run_GetPayment_no_news:
  assumes c: "calm w" and row: "one_row (owned app pid) (payments_of w) = Inr row" "to_payment (se_decode_metadata E) row = Inr p"
    and due: "due (w_now w) p" and cr: "reads_with E p (w_db w) client"
    and reply: "yk_get_payment (se_yk E) client (deref_string (pay_provider_payment_id p))
      (w_replies w (w_calls w)) = (out, r)"
    and none: "news p r = None"
  shows "\<exists>v. run (GetPayment E app pid) w = Some (Inr p, v) \<and> w_db v = w_db w \<and>
    w_wire v = w_wire w @ (case out of None \<Rightarrow> [] | Some q \<Rightarrow> [q]) \<and> w_replies v = w_replies w \<and> calm v"
proof -
  let ?d = "w_db w" and ?k = "Suc (w_stmts w)"
  obtain m where m: "run (refresh E p) (at ?k ?d w) =
      run (case r of Inl e \<Rightarrow> Ret (Inl e) | Inr pp \<Rightarrow> apply_provider_state E p pp)
        (at (Suc ?k) ?d ((charged out w)\<lparr>w_metrics := m\<rparr>))"
    using run_refresh [OF c cr reply] by blast
  let ?v = "at (Suc ?k) ?d ((charged out w)\<lparr>w_metrics := m\<rparr>)"
  have "run (refresh E p) (at ?k ?d w) = Some (case r of Inl e \<Rightarrow> Inl e | Inr _ \<Rightarrow> Inr p, ?v)"
    unfolding m using none by (auto simp: news_def apply_provider_state_def split: sum.splits option.splits if_splits)
  moreover have "run (GetPayment E app pid) (at (w_stmts w) ?d w) =
      (case run (refresh E p) (at ?k ?d w) of None \<Rightarrow> None
       | Some (x, v) \<Rightarrow> Some (Inr (case x of Inl _ \<Rightarrow> p | Inr p' \<Rightarrow> p'), v))"
    using c row due
    by (auto simp: GetPayment_def run_bindE run_bindP run_get_payment_row maybe_refresh_def due_def run_get_time
        split: option.splits)
  ultimately have "run (GetPayment E app pid) w = Some (Inr p, ?v)" by (simp add: at_self split: sum.splits)
  moreover have "w_replies (charged out w) = w_replies w" by (simp add: charged_def split: option.split)
  ultimately show ?thesis using c by (intro exI [of _ ?v]) simp
qed

subsection \<open>Lists and counts\<close>

text \<open>The rows a list answers with.\<close>

definition list_order :: "string \<Rightarrow> string option" where
  "list_order q = (if trim_space q \<noteq> [] then Some (trim_space q) else None)"

definition listed_rows :: "uuid \<Rightarrow> list_query \<Rightarrow> payment_row list \<Rightarrow> payment_row list" where
  "listed_rows app query rows =
     take (nat (effective_limit (lq_limit query))) (sort_key (\<lambda>r. - p_created_at r)
       (filter (\<lambda>r. p_application_id r = app \<and>
          (list_order (lq_order_id query) = None \<or> list_order (lq_order_id query) = Some (p_order_id r))) rows))"

lemma run_ListPayments:
  assumes "calm w" "pg_text (trim_space (lq_order_id query))"
  shows "\<exists>v. run (ListPayments E app query) w =
    Some (to_payments (se_decode_metadata E) (listed_rows app query (payments_of w)), v) \<and> untouched w v"
proof -
  have "run (ListPayments E app query) (at (w_stmts w) (w_db w) w) =
      Some (to_payments (se_decode_metadata E) (listed_rows app query (payments_of w)),
        at (Suc (w_stmts w)) (w_db w) w)"
    using assms
    by (simp add: ListPayments_def Let_def run_bindE calm_run list_payments_for_application_def
        with_text_opt_def with_text_def pg_value_def visible_def own_txs_def listed_rows_def list_order_def)
  then show ?thesis by (simp add: at_self untouched_def)
qed

lemma run_UnfinishedCount:
  assumes "calm w"
  shows "\<exists>v. run UnfinishedCount w = Some (Inr (int (length (filter active_row (payments_of w)))), v) \<and> untouched w v"
proof -
  have "run UnfinishedCount (at (w_stmts w) (w_db w) w) =
      Some (Inr (int (length (filter active_row (payments_of w)))), at (Suc (w_stmts w)) (w_db w) w)"
    using assms by (simp add: UnfinishedCount_def calm_run count_unfinished_payments_def visible_def own_txs_def)
  then show ?thesis by (simp add: at_self untouched_def)
qed


end
