(* ===== verification/SafetyProperties.thy ===== *)
theory SafetyProperties
  imports DemoRuns ReadRuns
begin

text \<open>
  The safety and isolation properties of the running system, for every interleaving, every fault and
  every behaviour of the provider, from a fresh installation on. Each is applied to a configuration
  of the demo installation in which an order has been served.
\<close>

lemma demo_is_fresh: "fresh demo_env demo_accepting"
  by (simp add: demo_accepting_def demo_fresh)

lemma demo_pending_sel [simp]:
  "p_id demo_pending = 4" "p_application_id demo_pending = 1" "p_order_id demo_pending = ''1''"
  "p_status demo_pending = StatusPending" "p_attempt_number demo_pending = 1"
  "p_amount_minor demo_pending = 100"
  by (simp_all add: demo_pending_def demo_row_def)

lemma demo_create_args [simp]: "create_args demo_env demo_create = Some (demo_shop, ''k'', [101])"
  by (simp add: hash_of_def demo_validate demo_hash)

text \<open>After the first order has been placed, it is read and listed.\<close>

lemma demo_read:
  obtains c p where "reachable demo_env demo_accepting c" "of_row demo_pending p"
    "threads c 1 = Some (Ret (ReqGet 1 4, RespGet (Inr p)))"
proof -
  obtain c where c: "reachable demo_env demo_accepting c" "threads c 1 = None" "calm (shared c)"
    "payments_of (shared c) = [demo_pending]" "w_now (shared c) = 0"
    by (rule demo_one)
  obtain p where p: "to_payment (se_decode_metadata demo_env) demo_pending = Inr p" "of_row demo_pending p"
    using to_payment_changed [OF demo_to_payment, of demo_pending] by (auto simp: demo_pending_def)
  have row: "one_row (owned 1 4) (payments_of (shared c)) = Inr demo_pending"
    by (simp add: c(4) one_row_def demo_pending_def demo_row_def)
  have "\<not> due (w_now (shared c)) p"
    using p(2) by (simp add: c(5) due_def of_row_def demo_pending_def)
  from run_GetPayment_not_due [OF c(3) row p(1) this] obtain v where
    "run (GetPayment demo_env 1 4) (shared c) = Some (Inr p, v)" by blast
  then have "run (serve demo_env (ReqGet 1 4)) (shared c) = Some ((ReqGet 1 4, RespGet (Inr p)), v)"
    by (simp add: serve_def run_bindP)
  from served [OF c(1,2) this] obtain c' where "reachable demo_env demo_accepting c'"
    "threads c' 1 = Some (Ret (ReqGet 1 4, RespGet (Inr p)))" by blast
  with p(2) that show thesis by blast
qed

abbreviation demo_query :: list_query where
  "demo_query \<equiv> \<lparr>lq_order_id = [], lq_limit = 0\<rparr>"

lemma demo_list:
  obtains c p where "reachable demo_env demo_accepting c" "of_row demo_pending p"
    "threads c 1 = Some (Ret (ReqList 1 demo_query, RespList (Inr [p])))"
proof -
  obtain c where c: "reachable demo_env demo_accepting c" "threads c 1 = None" "calm (shared c)"
    "payments_of (shared c) = [demo_pending]"
    by (rule demo_one)
  obtain p where p: "to_payment (se_decode_metadata demo_env) demo_pending = Inr p" "of_row demo_pending p"
    using to_payment_changed [OF demo_to_payment, of demo_pending] by (auto simp: demo_pending_def)
  have trim: "trim_space [] = []" by simp
  have "pg_text []" by code_simp
  with run_ListPayments [OF c(3), of demo_query demo_env 1] obtain v where
    "run (ListPayments demo_env 1 demo_query) (shared c) = Some (to_payments (se_decode_metadata demo_env)
       (listed_rows 1 demo_query [demo_pending]), v)"
    by (auto simp: c(4) trim)
  moreover have "listed_rows 1 demo_query [demo_pending] = [demo_pending]"
    by (simp add: listed_rows_def list_order_def trim effective_limit_def limit_defs demo_pending_def demo_row_def)
  ultimately have "run (serve demo_env (ReqList 1 demo_query)) (shared c) =
      Some ((ReqList 1 demo_query, RespList (Inr [p])), v)"
    using p(1) by (simp add: serve_def run_bindP to_payments_def)
  from served [OF c(1,2) this] obtain c' where "reachable demo_env demo_accepting c'"
    "threads c' 1 = Some (Ret (ReqList 1 demo_query, RespList (Inr [p])))" by blast
  with p(2) that show thesis by blast
qed

subsection \<open>What holds in every reachable configuration\<close>

lemma wire_keys_distinct:
  assumes "wire_wf E w"
  shows "distinct (filter (\<lambda>k. k \<noteq> None) (map wire_idempotence_key (w_wire w)))"
proof -
  have "distinct (filter (\<lambda>k. k \<noteq> None) ks)"
    if "\<And>k. length (filter (\<lambda>x. x = Some k) ks) \<le> 1" for ks :: "string option list"
    using that
  proof (induction ks)
    case (Cons a ks)
    have "length (filter (\<lambda>x. x = Some k) ks) \<le> 1" for k
      using Cons.prems [of k] by (simp split: if_splits)
    then have "distinct (filter (\<lambda>k. k \<noteq> None) ks)" by (rule Cons.IH)
    moreover have "a \<notin> set ks" if "a = Some k" for k
      using Cons.prems [of k] that by (auto simp: filter_empty_conv)
    ultimately show ?case by auto
  qed simp
  moreover have "length (filter (\<lambda>x. x = Some k) (map wire_idempotence_key (w_wire w))) \<le> 1" for k
    using assms by (simp add: wire_wf_def key_count_def filter_map comp_def)
  ultimately show ?thesis by blast
qed

text \<open>C1. No order is ever paid twice at a time, under any concurrency and any failures: in every
  reachable configuration two different attempts of an order have different numbers, and at most one
  of them is not final; payment ids and provider payment ids are never shared.\<close>

theorem one_active_attempt:
  assumes "reachable E w0 c" "fresh E w0"
    and "r \<in> set (db_payments (w_db (shared c)))" "s \<in> set (db_payments (w_db (shared c)))"
    and "p_application_id r = p_application_id s" "p_order_id r = p_order_id s"
    and "p_attempt_number r = p_attempt_number s \<or> \<not> terminal (p_status r) \<and> \<not> terminal (p_status s)"
  shows "r = s"
proof -
  have "clash_free payment_clash (payments_of (shared c))"
    using reachable_invariant [OF assms(1,2)]
    by (simp add: invariant_def no_clashes_def all_rows_def pay.append_iff)
  then show ?thesis by (rule pay.no_two) (use assms in \<open>auto simp: payment_clash_def\<close>)
qed

theorem one_active_attempt_witness:
  "\<exists>c r s. reachable demo_env demo_accepting c \<and> r \<in> set (payments_of (shared c)) \<and>
     s \<in> set (payments_of (shared c)) \<and> \<not> terminal (p_status r) \<and> r = s"
proof -
  obtain c where c: "reachable demo_env demo_accepting c" "payments_of (shared c) = [demo_pending]"
    by (rule demo_one)
  have "demo_pending = demo_pending"
    by (rule one_active_attempt [OF c(1) demo_is_fresh]) (simp_all add: c(2))
  with c show ?thesis by fastforce
qed

text \<open>C4. One action of any request moves payments only forward: every payment keeps its identity
  (application, account, order, amount, currency, description, metadata), changes its status only
  along an allowed transition, keeps its provider payment and checkout page once it has them, and is
  frozen when final; new payments start as created, and none disappears.\<close>

theorem steps_follow_lifecycle:
  assumes "reachable E w0 c" "fresh E w0" "service_step E c c'"
  shows "(\<forall>r \<in> set (db_payments (w_db (shared c))). \<exists>s \<in> set (db_payments (w_db (shared c'))).
        p_id s = p_id r \<and> p_application_id s = p_application_id r \<and> p_order_id s = p_order_id r \<and>
        p_amount_minor s = p_amount_minor r \<and> p_currency s = p_currency r \<and>
        p_provider_account_id s = p_provider_account_id r \<and> p_description s = p_description r \<and>
        p_metadata s = p_metadata r \<and>
        (terminal (p_status r) \<longrightarrow> s = r) \<and>
        (s = r \<or> can_transition (p_status r) (p_status s)) \<and>
        (p_provider_payment_id r \<noteq> None \<longrightarrow> p_provider_payment_id s = p_provider_payment_id r \<and>
           p_checkout_url s = p_checkout_url r)) \<and>
     (\<forall>s \<in> set (db_payments (w_db (shared c'))). p_status s = StatusCreated \<or>
        (\<exists>r \<in> set (db_payments (w_db (shared c))). p_id r = p_id s))"
proof -
  have step: "step_ok (shared c) (shared c')" by (rule reachable_step [OF assms])
  have one: "p_id s = p_id r \<and> p_application_id s = p_application_id r \<and> p_order_id s = p_order_id r \<and>
      p_amount_minor s = p_amount_minor r \<and> p_currency s = p_currency r \<and>
      p_provider_account_id s = p_provider_account_id r \<and> p_description s = p_description r \<and>
        p_metadata s = p_metadata r \<and>
      (terminal (p_status r) \<longrightarrow> s = r) \<and> (s = r \<or> can_transition (p_status r) (p_status s)) \<and>
      (p_provider_payment_id r \<noteq> None \<longrightarrow> p_provider_payment_id s = p_provider_payment_id r \<and>
         p_checkout_url s = p_checkout_url r)" if "payment_moves r s" for r s
    using that moves_terminal [OF that] by (auto simp: payment_moves_def same_identity_def)
  have "p_id r = p_id s" if "payment_moves r s" for r s using one [OF that] by simp
  then have new: "p_status s = StatusCreated \<or> (\<exists>r \<in> set (payments_of (shared c)). p_id r = p_id s)"
    if "s \<in> set (payments_of (shared c'))" for s
    using step that unfolding step_ok_def by blast
  show ?thesis
  proof (intro conjI ballI)
    fix r
    assume "r \<in> set (payments_of (shared c))"
    then obtain s where "s \<in> set (payments_of (shared c'))" "payment_moves r s"
      using step unfolding step_ok_def by blast
    then show "\<exists>s \<in> set (payments_of (shared c')).
        p_id s = p_id r \<and> p_application_id s = p_application_id r \<and> p_order_id s = p_order_id r \<and>
        p_amount_minor s = p_amount_minor r \<and> p_currency s = p_currency r \<and>
        p_provider_account_id s = p_provider_account_id r \<and> p_description s = p_description r \<and>
        p_metadata s = p_metadata r \<and>
        (terminal (p_status r) \<longrightarrow> s = r) \<and>
        (s = r \<or> can_transition (p_status r) (p_status s)) \<and>
        (p_provider_payment_id r \<noteq> None \<longrightarrow> p_provider_payment_id s = p_provider_payment_id r \<and>
           p_checkout_url s = p_checkout_url r)"
      using one by (intro bexI [of _ s]) blast+
  qed (rule new)
qed

theorem steps_follow_lifecycle_witness:
  "\<exists>c c' r s. reachable demo_env demo_accepting c \<and> service_step demo_env c c' \<and>
     r \<in> set (payments_of (shared c)) \<and> s \<in> set (payments_of (shared c')) \<and>
     p_id s = p_id r \<and> p_amount_minor s = p_amount_minor r"
proof -
  obtain c where c: "reachable demo_env demo_accepting c" "threads c 1 = None"
    "payments_of (shared c) = [demo_pending]"
    by (rule demo_one)
  let ?c = "\<lparr>threads = (threads c)(1 := Some (serve demo_env demo_create)), shared = shared c\<rparr>"
  have step: "service_step demo_env c ?c"
    unfolding service_step_def by (rule step_spawn) (use c(2) in auto)
  from steps_follow_lifecycle [OF c(1) demo_is_fresh step] c(3)
  obtain s where "s \<in> set (payments_of (shared ?c))" "p_id s = p_id demo_pending"
    "p_amount_minor s = p_amount_minor demo_pending"
    by auto
  with c step show ?thesis by (intro exI [of _ c] exI [of _ ?c]) auto
qed

text \<open>C2. A payment is charged at most once: over the whole history no two requests to the provider
  carry the same idempotence key, and every request with a key belongs to a recorded operation that
  had been marked as started, of a recorded payment whose amount, currency, id and order it
  carries.\<close>

theorem charged_at_most_once:
  assumes "reachable E w0 c" "fresh E w0"
  shows "distinct (filter (\<lambda>k. k \<noteq> None) (map wire_idempotence_key (w_wire (shared c)))) \<and>
    (\<forall>q k. q \<in> set (w_wire (shared c)) \<longrightarrow> wire_idempotence_key q = Some k \<longrightarrow>
      (\<exists>op \<in> set (db_operations (w_db (shared c))). \<exists>r \<in> set (db_payments (w_db (shared c))).
         o_provider_idempotency_key op = k \<and> o_status op \<noteq> OperationPending \<and>
         o_payment_id op = p_id r \<and> charge_of E q r))"
proof -
  have wire: "wire_wf E (shared c)" using reachable_invariant [OF assms] by (simp add: invariant_def)
  have "distinct (filter (\<lambda>k. k \<noteq> None) (map wire_idempotence_key (w_wire (shared c))))"
    by (rule wire_keys_distinct [OF wire])
  moreover have "\<exists>op \<in> set (operations_of (shared c)). \<exists>r \<in> set (payments_of (shared c)).
         o_provider_idempotency_key op = k \<and> o_status op \<noteq> OperationPending \<and>
         o_payment_id op = p_id r \<and> charge_of E q r"
    if "q \<in> set (w_wire (shared c))" "wire_idempotence_key q = Some k" for q k
    using wire that unfolding wire_wf_def by metis
  ultimately show ?thesis by blast
qed

theorem charged_at_most_once_witness:
  "\<exists>c. reachable demo_env demo_accepting c \<and> w_wire (shared c) = [demo_wire] \<and>
     (\<exists>op r. op \<in> set (operations_of (shared c)) \<and> r \<in> set (payments_of (shared c)) \<and>
        o_provider_idempotency_key op = ''F'' \<and> o_payment_id op = p_id r \<and> charge_of demo_env demo_wire r)"
proof -
  obtain c where c: "reachable demo_env demo_accepting c" "w_wire (shared c) = [demo_wire]"
    by (rule demo_one)
  have "wire_idempotence_key demo_wire = Some ''F''" by (simp add: demo_wire_def)
  with charged_at_most_once [OF c(1) demo_is_fresh] c show ?thesis by fastforce
qed

text \<open>C14. Each payment has at most one creation operation, so it is asked for at most once; and no two
  operations share a provider key.\<close>

theorem one_operation_per_payment:
  assumes "reachable E w0 c" "fresh E w0"
    and "x \<in> set (db_operations (w_db (shared c)))" "y \<in> set (db_operations (w_db (shared c)))"
    and "o_payment_id x = o_payment_id y \<or> o_provider_idempotency_key x = o_provider_idempotency_key y"
  shows "x = y"
proof -
  have "clash_free creation_clash (operations_of (shared c))"
    using reachable_invariant [OF assms(1,2)]
    by (simp add: invariant_def no_clashes_def all_rows_def crea.append_iff)
  then show ?thesis
    by (rule crea.no_two) (use assms in \<open>auto simp: creation_clash_def operation_clash_def\<close>)
qed

theorem one_operation_per_payment_witness:
  "\<exists>c x y. reachable demo_env demo_accepting c \<and> x \<in> set (operations_of (shared c)) \<and>
     y \<in> set (operations_of (shared c)) \<and> o_payment_id x = o_payment_id y \<and> x = y"
proof -
  let ?op = "final_op demo_accepting (Inr demo_pp) demo_op"
  obtain c where c: "reachable demo_env demo_accepting c" "operations_of (shared c) = [?op]"
    by (rule demo_one)
  have "?op = ?op"
    by (rule one_operation_per_payment [OF c(1) demo_is_fresh]) (simp_all add: c(2))
  with c show ?thesis by fastforce
qed

subsection \<open>What the answers say\<close>

lemma answers_same_key:
  assumes "answers app key hash pid rq" "length key \<le> 64"
  shows "i_idempotency_key rq = key"
proof -
  have "k = key" if "varchar 64 key = Inr k" for k
    using that assms(2) char_count_le [of key] by (auto simp: varchar_def split: if_splits)
  with assms(1) show ?thesis by (auto simp: answers_def)
qed

text \<open>C3. Idempotency: two successful creates (either endpoint) of the same application with the same
  Idempotency-Key (as sent, up to 64 bytes), however they are interleaved and whichever of them was a
  retry, are answered with the same payment, and were made for the same request fingerprint.\<close>

theorem creates_are_idempotent:
  assumes "reachable E w0 c" "fresh E w0"
    and "threads c i = Some (Ret (req, RespCreate (Inr res)))" "create_args E req = Some (app, key, hash)"
    and "threads c j = Some (Ret (req', RespCreate (Inr res')))" "create_args E req' = Some (app', key, hash')"
    and "app_id app = app_id app'" "length key \<le> 64"
  shows "pay_id (res_payment res) = pay_id (res_payment res') \<and> hash = hash'"
proof -
  let ?v = "shared c"
  from reachable_sound [OF assms(1,2,3)] assms(4) obtain rq where
    rq: "rq \<in> set (idempotency_of ?v)" "answers app key hash (pay_id (res_payment res)) rq"
    by (auto simp: sound_def result_of_def)
  from reachable_sound [OF assms(1,2,5)] assms(6) obtain rq' where
    rq': "rq' \<in> set (idempotency_of ?v)" "answers app' key hash' (pay_id (res_payment res')) rq'"
    by (auto simp: sound_def result_of_def)
  have "clash_free idempotency_clash (idempotency_of ?v)"
    using reachable_invariant [OF assms(1,2)]
    by (simp add: invariant_def no_clashes_def all_rows_def idem.append_iff)
  then have "rq = rq'"
    by (rule idem.no_two [OF _ rq(1) rq'(1)])
      (use rq(2) rq'(2) assms(7) answers_same_key [OF rq(2) assms(8)] answers_same_key [OF rq'(2) assms(8)]
        in \<open>auto simp: idempotency_clash_def answers_def\<close>)
  with rq(2) rq'(2) show ?thesis by (auto simp: answers_def)
qed

theorem creates_are_idempotent_witness:
  "\<exists>c res res'. reachable demo_env demo_accepting c \<and>
     threads c 0 = Some (Ret (demo_create, RespCreate (Inr res))) \<and> \<not> res_replayed res \<and>
     threads c 1 = Some (Ret (demo_create, RespCreate (Inr res'))) \<and> res_replayed res' \<and>
     pay_id (res_payment res) = pay_id (res_payment res')"
proof -
  obtain c p q where c: "reachable demo_env demo_accepting c"
    "threads c 0 = Some (Ret (demo_create,
       RespCreate (Inr \<lparr>res_payment = p, res_replayed = False, res_pending = False, res_retry_after = 0\<rparr>)))"
    "threads c 1 = Some (Ret (demo_create,
       RespCreate (Inr \<lparr>res_payment = q, res_replayed = True, res_pending = False, res_retry_after = 2\<rparr>)))"
    by (rule demo_two)
  from creates_are_idempotent [OF c(1) demo_is_fresh c(2) demo_create_args c(3) demo_create_args]
  have "pay_id p = pay_id q" by simp
  with c show ?thesis by (intro exI [of _ c] exI conjI) (assumption | simp)+
qed

text \<open>C15. Tenant isolation: a payment returned by \<open>GetPayment\<close> is the one asked for and belongs to the
  caller's application, and a final status it reports is the status of that payment ever after.\<close>

theorem get_payment_isolated:
  assumes "reachable E w0 c" "fresh E w0"
    and "threads c i = Some (Ret (ReqGet app pid, RespGet (Inr p)))"
  shows "pay_id p = pid \<and> pay_application_id p = app \<and>
    (\<exists>r \<in> set (db_payments (w_db (shared c))). p_id r = pid \<and> p_application_id r = app \<and>
       may_become (pay_status p) (p_status r) \<and> (terminal (pay_status p) \<longrightarrow> p_status r = pay_status p))"
proof -
  from reachable_sound [OF assms] have p: "pay_id p = pid" "pay_application_id p = app" "seen p (shared c)"
    by (auto simp: sound_def)
  from p(3) obtain r0 r where r: "of_row r0 p" "r \<in> set (payments_of (shared c))" "payment_becomes r0 r"
    by (auto simp: seen_def)
  have "p_id r = pid \<and> p_application_id r = app \<and> may_become (pay_status p) (p_status r)"
    using becomes_identity [OF r(3)] becomes_status [OF r(3)] r(1) p(1,2)
    by (auto simp: same_identity_def of_row_def)
  then show ?thesis using p(1,2) r(2) may_become_terminal by blast
qed

theorem get_payment_isolated_witness:
  "\<exists>c p. reachable demo_env demo_accepting c \<and> threads c 1 = Some (Ret (ReqGet 1 4, RespGet (Inr p))) \<and>
     pay_id p = 4 \<and> pay_application_id p = 1"
proof -
  obtain c p where c: "reachable demo_env demo_accepting c"
    "threads c 1 = Some (Ret (ReqGet 1 4, RespGet (Inr p)))"
    by (rule demo_read)
  with get_payment_isolated [OF c(1) demo_is_fresh c(2)] show ?thesis by blast
qed

text \<open>C16. A list answers with at most 100 payments, all of the caller's application.\<close>

theorem list_isolated:
  assumes "reachable E w0 c" "fresh E w0"
    and "threads c i = Some (Ret (ReqList app query, RespList (Inr ps)))"
  shows "length ps \<le> 100 \<and> (\<forall>p \<in> set ps. pay_application_id p = app)"
  using reachable_sound [OF assms] by (auto simp: sound_def listed_def)

theorem list_isolated_witness:
  "\<exists>c p. reachable demo_env demo_accepting c \<and>
     threads c 1 = Some (Ret (ReqList 1 demo_query, RespList (Inr [p]))) \<and> pay_application_id p = 1"
proof -
  obtain c p where c: "reachable demo_env demo_accepting c"
    "threads c 1 = Some (Ret (ReqList 1 demo_query, RespList (Inr [p])))"
    by (rule demo_list)
  with list_isolated [OF c(1) demo_is_fresh c(2)] show ?thesis by auto
qed

text \<open>C17. A payment returned by a create belongs to the caller's application, and the request record
  that points to it is in the database: the answer survives a crash of the service.\<close>

theorem create_result_recorded:
  assumes "reachable E w0 c" "fresh E w0"
    and "threads c i = Some (Ret (req, RespCreate (Inr res)))" "create_args E req = Some (app, key, hash)"
  shows "pay_application_id (res_payment res) = app_id app \<and>
    (\<exists>rq \<in> set (db_idempotency (w_db (shared c))). \<exists>r \<in> set (db_payments (w_db (shared c))).
       i_application_id rq = app_id app \<and> i_request_hash rq = hash \<and>
       i_payment_id rq = Some (p_id r) \<and> p_id r = pay_id (res_payment res) \<and>
       may_become (pay_status (res_payment res)) (p_status r))"
proof -
  let ?p = "res_payment res"
  from reachable_sound [OF assms(1,2,3)] assms(4) obtain rq where
    rq: "rq \<in> set (idempotency_of (shared c))" "answers app key hash (pay_id ?p) rq"
    and p: "pay_application_id ?p = app_id app" "seen ?p (shared c)"
    by (auto simp: sound_def result_of_def)
  from p(2) obtain r0 r where r: "of_row r0 ?p" "r \<in> set (payments_of (shared c))" "payment_becomes r0 r"
    by (auto simp: seen_def)
  have "p_id r = pay_id ?p" "may_become (pay_status ?p) (p_status r)"
    using becomes_identity [OF r(3)] becomes_status [OF r(3)] r(1)
    by (auto simp: same_identity_def of_row_def)
  with rq r(2) p(1) show ?thesis
    by (intro conjI bexI [of _ rq] bexI [of _ r]) (auto simp: answers_def)
qed

theorem create_result_recorded_witness:
  "\<exists>c res. reachable demo_env demo_accepting c \<and>
     threads c 0 = Some (Ret (demo_create, RespCreate (Inr res))) \<and>
     pay_application_id (res_payment res) = app_id demo_shop"
proof -
  obtain c p q where c: "reachable demo_env demo_accepting c"
    "threads c 0 = Some (Ret (demo_create,
       RespCreate (Inr \<lparr>res_payment = p, res_replayed = False, res_pending = False, res_retry_after = 0\<rparr>)))"
    by (rule demo_two)
  from create_result_recorded [OF c(1) demo_is_fresh c(2) demo_create_args]
  have "pay_application_id p = app_id demo_shop" by simp
  with c show ?thesis by (intro exI [of _ c] exI conjI) (assumption | simp)+
qed

end
