(* ===== verification/FunctionalProperties.thy ===== *)
theory FunctionalProperties
  imports ReadRuns DemoRuns
begin

text \<open>
  What each operation of the payment service does when it runs alone on connections that do not
  fail, on every branch: the answer, the rows it leaves and the requests it sends. The witnesses run
  the demo installation.
\<close>

subsection \<open>Creating\<close>

text \<open>C19. A valid new order is recorded before the provider is asked and exactly once: one payment, one
  operation and one request record are added, one request goes out. The reply decides the rest. An
  accepted payment is pending with the provider's id and checkout page; a definitive error cancels it
  and is the answer; any other error leaves it as unknown and the caller is told to wait.\<close>

theorem create_outcome:
  assumes "calm w" "validate (se_net E) (service_urls E) app key input = Inr i"
    and "can_order E app key i w account client row p op rq"
    and "yk_create_payment (se_yk E) client (provider_request E (the_local E (w_db w) p op) i)
      (w_replies w (w_calls w)) = (out, r)"
    and "storable (w_db w) row r"
  shows "\<exists>v p' row' op'. run (CreatePayment E app key input) w = Some (final_answer r p', v) \<and>
    of_row row' p' \<and>
    db_payments (w_db v) = db_payments (w_db w) @ [row'] \<and>
    db_operations (w_db v) = db_operations (w_db w) @ [op'] \<and>
    db_idempotency (w_db v) = db_idempotency (w_db w) @ [rq] \<and> i_payment_id rq = Some (p_id row') \<and>
    w_wire v = w_wire w @ (case out of None \<Rightarrow> [] | Some q \<Rightarrow> [q]) \<and>
    (case r of
       Inr pp \<Rightarrow> p_status row' = StatusPending \<and> p_provider_payment_id row' = Some (pp_id pp) \<and>
         p_checkout_url row' = Some (pp_checkout_url pp) \<and> p_next_check_at row' = Some (w_now w + se_poll E)
     | Inl e \<Rightarrow> p_provider_payment_id row' = None \<and>
         (if definitive (code_of_error e)
          then p_status row' = StatusCanceled \<and> p_completed_at row' = Some (db_clock (w_db w))
          else p_status row' = StatusCreationUnknown))"
proof -
  obtain p' v where v: "run (create E app input key) w = Some (final_answer r p', v)"
    "of_row (final_row E w r row) p'" "w_wire v = w_wire w @ (case out of None \<Rightarrow> [] | Some q \<Rightarrow> [q])"
    "w_db v = created_db (w_db w) (final_row E w r row) (final_op w r op) rq"
    using run_create_order [OF assms] by blast
  have "p_provider_payment_id (creating_row (w_db w) row) = None"
    using can_order_calling [OF assms(3)] by (simp add: calling_row_def)
  moreover have "i_payment_id rq = Some (p_id row)"
    using assms(3) by (auto simp: can_order_def order_open_def new_request_def idempotency_values_def and_then_eq_Inr)
  moreover have "p_id (final_row E w r row) = p_id row"
    by (simp add: final_row_def Let_def creating_row_def canceled_row_def unknown_row_def pending_row_def
        set_created_def set_canceled_def split: sum.split)
  ultimately show ?thesis
    using v by (intro exI [of _ v] exI [of _ p'] exI [of _ "final_row E w r row"] exI [of _ "final_op w r op"])
      (auto simp: CreatePayment_def final_row_def Let_def canceled_row_def unknown_row_def pending_row_def
        set_created_def set_canceled_def split: sum.split)
qed

theorem create_outcome_witness:
  "(\<exists>v p. run (CreatePayment demo_env demo_shop ''k'' demo_order) (demo_world (\<lambda>_. HttpResp 200 ''pending'')) =
      Some (Inr \<lparr>res_payment = p, res_replayed = False, res_pending = False, res_retry_after = 0\<rparr>, v) \<and>
      w_wire v = [demo_wire]) \<and>
   (\<exists>v. run (CreatePayment demo_env demo_shop ''k'' demo_order) (demo_world (\<lambda>_. HttpResp 400 ''pending'')) =
      Some (Inl demo_refusal, v) \<and> map p_status (db_payments (w_db v)) = [StatusCanceled]) \<and>
   (\<exists>v p. run (CreatePayment demo_env demo_shop ''k'' demo_order) (demo_world (\<lambda>_. NetFail True ''x'')) =
      Some (Inr \<lparr>res_payment = p, res_replayed = False, res_pending = True, res_retry_after = 2\<rparr>, v) \<and>
      map p_status (db_payments (w_db v)) = [StatusCreationUnknown])"
proof (intro conjI)
  let ?w = "\<lambda>r. demo_world (\<lambda>_. r)"
  note out = create_outcome [OF demo_calm demo_validate demo_can_order]
  from out [of "\<lambda>_. HttpResp 200 ''pending''", simplified, OF demo_accepted] demo_storable
  show "\<exists>v p. run (CreatePayment demo_env demo_shop ''k'' demo_order) (?w (HttpResp 200 ''pending'')) =
      Some (Inr \<lparr>res_payment = p, res_replayed = False, res_pending = False, res_retry_after = 0\<rparr>, v) \<and>
      w_wire v = [demo_wire]"
    by (fastforce simp: final_answer_def)
  from out [of "\<lambda>_. HttpResp 400 ''pending''", simplified, OF demo_refused] demo_storable demo_refusal_definitive
  show "\<exists>v. run (CreatePayment demo_env demo_shop ''k'' demo_order) (?w (HttpResp 400 ''pending'')) =
      Some (Inl demo_refusal, v) \<and> map p_status (db_payments (w_db v)) = [StatusCanceled]"
    by (fastforce simp: final_answer_def demo_db_def)
  have "\<not> definitive (code_of_error demo_timeout)" by (simp add: demo_timeout_def definitive_def)
  with out [of "\<lambda>_. NetFail True ''x''", simplified, OF demo_timed_out] demo_storable
  show "\<exists>v p. run (CreatePayment demo_env demo_shop ''k'' demo_order) (?w (NetFail True ''x'')) =
      Some (Inr \<lparr>res_payment = p, res_replayed = False, res_pending = True, res_retry_after = 2\<rparr>, v) \<and>
      map p_status (db_payments (w_db v)) = [StatusCreationUnknown]"
    by (fastforce simp: final_answer_def demo_db_def)
qed

text \<open>C20. A retry with a used key and the same fingerprint is answered with the stored payment as it is
  now, and nothing is written or sent; with another fingerprint it is refused as a conflict, and
  nothing is written or sent either.\<close>

theorem create_with_used_key:
  assumes "calm w" "validate (se_net E) (service_urls E) app key input = Inr i" "pg_text key"
    and "one_row (\<lambda>r. i_application_id r = app_id app \<and> i_idempotency_key r = key) (db_idempotency (w_db w)) = Inr rq"
    and "i_payment_id rq = Some pid"
    and "one_row (\<lambda>r. p_id r = pid \<and> p_application_id r = app_id app) (db_payments (w_db w)) = Inr row"
    and "to_payment (se_decode_metadata E) row = Inr p"
  shows "\<exists>v. run (CreatePayment E app key input) w = Some
      (if i_request_hash rq = request_hash (se_sha E) i
       then Inr \<lparr>res_payment = p, res_replayed = True,
              res_pending = (\<not> terminal (p_status row) \<and> p_checkout_url row = None), res_retry_after = 2\<rparr>
       else Inl (Sentinel PErrIdempotencyConflict), v) \<and>
    w_db v = w_db w \<and> w_wire v = w_wire w"
proof -
  have "pay_status p = p_status row" "pay_checkout_url p = p_checkout_url row"
    using to_payment_of_row [OF assms(7)] by (simp_all add: of_row_def)
  then show ?thesis
    using run_create_replayed [OF assms(1-5) _ assms(6,7)] run_create_conflict [OF assms(1-4)]
    by (auto simp: CreatePayment_def untouched_def)
qed

definition demo_dearer :: create_payment_input where
  "demo_dearer = demo_order\<lparr>in_amount_minor := 1000\<rparr>"

lemma demo_dearer_valid:
  "validate (se_net demo_env) (service_urls demo_env) demo_shop ''k'' demo_dearer =
     Inr (demo_norm\<lparr>in_amount_minor := 1000\<rparr>)"
  "request_hash (se_sha demo_env) (demo_norm\<lparr>in_amount_minor := 1000\<rparr>) = [102]"
  by code_simp+

text \<open>The demo installation after its first order.\<close>

definition demo_later :: "payment_row \<Rightarrow> world" where
  "demo_later row = (demo_world (\<lambda>_. NetFail True ''x''))\<lparr>w_db := demo_db\<lparr>db_next := 8,
     db_payments := [row], db_idempotency := [demo_request]\<rparr>\<rparr>"

lemma demo_later_sel [simp]:
  "calm (demo_later row)" "db_payments (w_db (demo_later row)) = [row]" "w_now (demo_later row) = 0"
  "db_idempotency (w_db (demo_later row)) = [demo_request]" "w_wire (demo_later row) = []"
  "db_txs (w_db (demo_later row)) = []" "db_accounts (w_db (demo_later row)) = [demo_account]"
  by (simp_all add: demo_later_def calm_def demo_world_def demo_db_def demo_account_def)

lemma demo_pending_fields [simp]:
  "p_id demo_pending = 4" "p_application_id demo_pending = 1" "p_order_id demo_pending = ''1''"
  "p_status demo_pending = StatusPending" "p_checkout_url demo_pending = Some ''c''"
  by (simp_all add: demo_pending_def demo_row_def)

lemma demo_pending_payment: "\<exists>p. to_payment (se_decode_metadata demo_env) demo_pending = Inr p \<and> of_row demo_pending p"
  by (rule to_payment_changed [OF demo_to_payment]) (simp add: demo_pending_def)

theorem create_with_used_key_witness:
  "(\<exists>p v. run (CreatePayment demo_env demo_shop ''k'' demo_order) (demo_later demo_pending) = Some
      (Inr \<lparr>res_payment = p, res_replayed = True, res_pending = False, res_retry_after = 2\<rparr>, v)) \<and>
   (\<exists>v. run (CreatePayment demo_env demo_shop ''k'' demo_dearer) (demo_later demo_pending) =
      Some (Inl (Sentinel PErrIdempotencyConflict), v))"
proof -
  obtain p where p: "to_payment (se_decode_metadata demo_env) demo_pending = Inr p" using demo_pending_payment by blast
  have key: "pg_text ''k''" by code_simp
  have rq: "one_row (\<lambda>r. i_application_id r = app_id demo_shop \<and> i_idempotency_key r = ''k'')
      (db_idempotency (w_db (demo_later demo_pending))) = Inr demo_request"
    "i_payment_id demo_request = Some 4" "i_request_hash demo_request = [101]"
    "one_row (\<lambda>r. p_id r = 4 \<and> p_application_id r = app_id demo_shop) (db_payments (w_db (demo_later demo_pending)))
      = Inr demo_pending"
    by (simp_all add: one_row_def demo_request_def demo_shop_def)
  show ?thesis
    using create_with_used_key [OF demo_later_sel(1) demo_validate key rq(1,2,4) p]
      create_with_used_key [OF demo_later_sel(1) demo_dearer_valid(1) key rq(1,2,4) p]
    by (fastforce simp: rq demo_hash demo_dearer_valid)
qed

text \<open>C21. A new request for an order that is paid, or has an open attempt, or whose application has no
  default account is refused with the error for that case; no row is written and nothing is sent.\<close>

theorem create_refused:
  assumes "calm w" "validate (se_net E) (service_urls E) app key input = Inr i" "pg_text key" "pg_text (in_order_id i)"
    and "list_all (\<lambda>r. \<not> (i_application_id r = app_id app \<and> i_idempotency_key r = key)) (db_idempotency (w_db w))"
    and "(e = PErrOrderAlreadySucceeded \<and>
        (\<exists>r. r \<in> set (order_rows (app_id app) (in_order_id i) (db_payments (w_db w))) \<and> p_status r = StatusSucceeded)) \<or>
      (order_new (app_id app) key i (w_db w) \<and>
        (e = PErrNoProviderAccount \<and>
           get_default_provider_account (app_id app) Pool (w_db w) = (Inl (Sentinel ErrNoRows), w_db w) \<or>
         e = PErrActiveAttemptExists \<and>
           (\<exists>account row r. get_default_provider_account (app_id app) Pool (w_db w) = (Inr account, w_db w) \<and>
              new_row E app account i (w_db w) = Inr row \<and> payment_checks row \<and>
              r \<in> set (order_rows (app_id app) (p_order_id row) (db_payments (w_db w))) \<and> \<not> terminal (p_status r))))"
  shows "\<exists>v n. run (CreatePayment E app key input) w = Some (Inl (Sentinel e), v) \<and>
    w_db v = (w_db w)\<lparr>db_next := n\<rparr> \<and> w_wire v = w_wire w"
proof -
  have self: "\<exists>n. w_db w = (w_db w)\<lparr>db_next := n\<rparr>" by (rule exI [of _ "db_next (w_db w)"]) simp
  from assms(6) consider
      (paid) r where "e = PErrOrderAlreadySucceeded" "r \<in> set (payments_of w)" "p_application_id r = app_id app"
        "p_order_id r = in_order_id i" "p_status r = StatusSucceeded"
    | (none) "e = PErrNoProviderAccount" "order_new (app_id app) key i (w_db w)"
        "get_default_provider_account (app_id app) Pool (w_db w) = (Inl (Sentinel ErrNoRows), w_db w)"
    | (active) account row r where "e = PErrActiveAttemptExists" "order_new (app_id app) key i (w_db w)"
        "get_default_provider_account (app_id app) Pool (w_db w) = (Inr account, w_db w)"
        "new_row E app account i (w_db w) = Inr row" "payment_checks row" "r \<in> set (payments_of w)"
        "p_application_id r = app_id app" "p_order_id r = p_order_id row" "\<not> terminal (p_status r)"
    by (auto simp: order_rows_def)
  then show ?thesis
  proof cases
    case paid
    have rq: "\<forall>r \<in> set (idempotency_of w). \<not> (i_application_id r = app_id app \<and> i_idempotency_key r = key)"
      using assms(5) by (simp add: list_all_iff)
    show ?thesis
      using run_create_paid [OF assms(1-4) rq paid(2-5)] paid(1) self
      by (auto simp: CreatePayment_def untouched_def)
  next
    case none
    then show ?thesis
      using run_create_no_account [OF assms(1,2)] self by (auto simp: CreatePayment_def untouched_def)
  next
    case active
    then show ?thesis
      using run_create_active [OF assms(1,2) active(2-9)] by (auto simp: CreatePayment_def)
  qed
qed

definition demo_new_key :: "payment_row list \<Rightarrow> link_row list \<Rightarrow> world" where
  "demo_new_key rows links = (demo_world (\<lambda>_. NetFail True ''x''))\<lparr>w_db := demo_db\<lparr>db_next := 8,
     db_payments := rows, db_links := links\<rparr>\<rparr>"

lemma demo_new_key_sel [simp]:
  "calm (demo_new_key rows links)" "db_payments (w_db (demo_new_key rows links)) = rows"
  "db_idempotency (w_db (demo_new_key rows links)) = []" "db_txs (w_db (demo_new_key rows links)) = []"
  by (simp_all add: demo_new_key_def calm_def demo_world_def demo_db_def)

lemma demo_texts: "pg_text ''k''" "pg_text (in_order_id demo_norm)"
  by code_simp+

lemma demo_second_row:
  "new_row demo_env demo_shop demo_account demo_norm (w_db (demo_new_key [demo_pending] (db_links demo_db))) =
     Inr (demo_row\<lparr>p_id := 9, p_attempt_number := 2\<rparr>)"
  "payment_checks (demo_row\<lparr>p_id := 9, p_attempt_number := 2\<rparr>)"
  "get_default_provider_account (app_id demo_shop) Pool (w_db (demo_new_key [demo_pending] (db_links demo_db))) =
     (Inr demo_account, w_db (demo_new_key [demo_pending] (db_links demo_db)))"
  "get_default_provider_account (app_id demo_shop) Pool (w_db (demo_new_key [] [])) =
     (Inl (Sentinel ErrNoRows), w_db (demo_new_key [] []))"
  by code_simp+

theorem create_refused_witness:
  "(\<exists>v. run (CreatePayment demo_env demo_shop ''k'' demo_order)
       (demo_new_key [demo_pending\<lparr>p_status := StatusSucceeded\<rparr>] []) =
     Some (Inl (Sentinel PErrOrderAlreadySucceeded), v)) \<and>
   (\<exists>v. run (CreatePayment demo_env demo_shop ''k'' demo_order) (demo_new_key [demo_pending] (db_links demo_db)) =
     Some (Inl (Sentinel PErrActiveAttemptExists), v)) \<and>
   (\<exists>v. run (CreatePayment demo_env demo_shop ''k'' demo_order) (demo_new_key [] []) =
     Some (Inl (Sentinel PErrNoProviderAccount), v))"
proof (intro conjI)
  let ?paid = "demo_pending\<lparr>p_status := StatusSucceeded\<rparr>"
  have ids: "app_id demo_shop = 1" "in_order_id demo_norm = ''1''" "p_attempt_number demo_pending = 1"
    by (simp_all add: demo_shop_def demo_norm_def demo_order_def demo_pending_def demo_row_def)
  have new: "order_new (app_id demo_shop) ''k'' demo_norm (w_db (demo_new_key rows links))"
    if "rows = [] \<or> rows = [demo_pending]" for rows links
    using that demo_texts by (auto simp: order_new_def attempt_of_def order_rows_def int32_max_def ids)
  show "\<exists>v. run (CreatePayment demo_env demo_shop ''k'' demo_order) (demo_new_key [?paid] []) =
     Some (Inl (Sentinel PErrOrderAlreadySucceeded), v)"
    using create_refused [of "demo_new_key [?paid] []", OF _ demo_validate demo_texts, of PErrOrderAlreadySucceeded]
    by (auto simp: order_rows_def ids)
  show "\<exists>v. run (CreatePayment demo_env demo_shop ''k'' demo_order) (demo_new_key [demo_pending] (db_links demo_db)) =
     Some (Inl (Sentinel PErrActiveAttemptExists), v)"
    using create_refused [of "demo_new_key [demo_pending] (db_links demo_db)", OF _ demo_validate demo_texts,
        of PErrActiveAttemptExists] demo_second_row(1-3) new [of "[demo_pending]"]
    by (auto simp: order_rows_def ids demo_row_def)
  show "\<exists>v. run (CreatePayment demo_env demo_shop ''k'' demo_order) (demo_new_key [] []) =
     Some (Inl (Sentinel PErrNoProviderAccount), v)"
    using create_refused [of "demo_new_key [] []", OF _ demo_validate demo_texts, of PErrNoProviderAccount]
      demo_second_row(4) new [of "[]" "[]"]
    by auto
qed

subsection \<open>Reading\<close>

text \<open>C22. \<open>GetPayment\<close> asks the provider at most once, and only about an unfinished payment it knows by
  the provider's id and whose check is due. A final status the provider reports is recorded with the
  completion time and returned; an error, an unchanged status or an illegal one changes nothing and
  the stored payment is returned.\<close>

theorem get_payment_refreshes:
  assumes "calm w" "db_txs (w_db w) = []" "clash_free payment_clash (db_payments (w_db w))"
    and "one_row (\<lambda>r. p_id r = pid \<and> p_application_id r = app) (db_payments (w_db w)) = Inr row"
    and "to_payment (se_decode_metadata E) row = Inr p" "reads_with E p (w_db w) client"
    and "yk_get_payment (se_yk E) client (deref_string (p_provider_payment_id row)) (w_replies w (w_calls w)) = (out, r)"
  shows "\<exists>v p'. run (GetPayment E app pid) w = Some (Inr p', v) \<and>
    (if terminal (p_status row) \<or> p_provider_payment_id row = None \<or>
        (\<exists>n. p_next_check_at row = Some n \<and> w_now w < n)
     then p' = p \<and> w_db v = w_db w \<and> w_wire v = w_wire w
     else w_wire v = w_wire w @ (case out of None \<Rightarrow> [] | Some q \<Rightarrow> [q]) \<and>
       (case news p r of
          None \<Rightarrow> p' = p \<and> w_db v = w_db w
        | Some s \<Rightarrow> pay_status p' = s \<and>
            w_db v = (w_db w)\<lparr>db_payments := map (\<lambda>x. if p_id x = pid \<and> \<not> terminal (p_status x)
              then x\<lparr>p_status := s, p_completed_at := (if terminal s then Some (db_clock (w_db w)) else p_completed_at x),
                     p_next_check_at := Some (w_now w + se_poll E), p_updated_at := db_clock (w_db w)\<rparr>
              else x) (db_payments (w_db w))\<rparr>))"
proof -
  have p: "pay_status p = p_status row" "pay_provider_payment_id p = p_provider_payment_id row"
    "pay_next_check_at p = p_next_check_at row"
    using to_payment_of_row [OF assms(5)] by (simp_all add: of_row_def)
  then have due: "due (w_now w) p \<longleftrightarrow> \<not> (terminal (p_status row) \<or> p_provider_payment_id row = None \<or>
        (\<exists>n. p_next_check_at row = Some n \<and> w_now w < n))"
    by (auto simp: due_def)
  show ?thesis
  proof (cases "due (w_now w) p")
    case False
    with run_GetPayment_not_due [OF assms(1,4,5) False] due show ?thesis by (auto simp: untouched_def)
  next
    case True
    from run_GetPayment_due [OF assms(1-5) True assms(6), of out r] assms(7) p(2)
    obtain p' v where v: "run (GetPayment E app pid) w = Some (Inr p', v)"
      "w_wire v = w_wire w @ (case out of None \<Rightarrow> [] | Some q \<Rightarrow> [q])"
      "case news p r of None \<Rightarrow> p' = p \<and> w_db v = w_db w
       | Some s \<Rightarrow> of_row (refreshed_row E (w_now w) (w_db w) s row) p' \<and>
           w_db v = refreshed_db E (w_now w) pid s (w_db w)"
      by auto
    have "of_row (refreshed_row E t d s row) q \<Longrightarrow> pay_status q = s" for t d s q
      by (simp add: of_row_def refreshed_row_def apply_status_def)
    with v True due show ?thesis
      by (intro exI [of _ v] exI [of _ p'])
        (auto simp: refreshed_db_def update_where_def refreshed_row_def apply_status_def cong: if_cong split: option.splits)
  qed
qed

text \<open>The demo payment, and a world whose provider answers reads with a given status.\<close>

definition demo_due :: payment_row where
  "demo_due = demo_pending\<lparr>p_next_check_at := Some 0\<rparr>"

definition demo_reading :: "string \<Rightarrow> world" where
  "demo_reading status = (demo_later demo_due)\<lparr>w_replies := \<lambda>_. HttpResp 200 status\<rparr>"

lemma demo_reading_sel [simp]:
  "calm (demo_reading st)" "w_db (demo_reading st) = w_db (demo_later demo_due)" "w_now (demo_reading st) = 0"
  "w_wire (demo_reading st) = []" "w_replies (demo_reading st) n = HttpResp 200 st"
  by (simp_all add: demo_reading_def calm_def) (simp_all add: demo_later_def demo_world_def)

definition demo_question :: wire_request where
  "demo_question = do_request demo_client ''GET'' ''/v3/payments/pp'' [] None"

lemma demo_answer:
  assumes "length st < 100" "map_status st = Inr s"
  shows "yk_get_payment (se_yk demo_env) demo_client ''pp'' (HttpResp 200 st) =
    (Some demo_question, Inr (demo_pp\<lparr>pp_status := s\<rparr>))"
proof -
  have "request_error (se_yk demo_env) x = None" for x by (simp add: demo_env_def demo_yk_env_def)
  moreover have "take max_response_body st = st" using assms(1) by (simp add: max_response_body_def)
  moreover have "decode_payment (se_yk demo_env) x = Inr \<lparr>api_id = ''pp'', api_status = x, api_paid = False,
       api_amount = \<lparr>amount_value = ''1.00'', amount_currency = ''RUB''\<rparr>, api_confirmation = Some ''c''\<rparr>" for x
    by (simp add: demo_env_def demo_yk_env_def)
  ultimately show ?thesis
    using assms(2) demo_parse_amount
    by (simp add: yk_get_payment_def yk_do_def do_outcome_def payment_result_def to_provider_payment_def
        demo_question_def demo_pp_def)
qed

lemma demo_due_payment:
  obtains p where "to_payment (se_decode_metadata demo_env) demo_due = Inr p" "of_row demo_due p"
  using to_payment_changed [OF demo_to_payment, of demo_due] by (auto simp: demo_due_def demo_pending_def)

lemma demo_due_fields [simp]:
  "p_id demo_due = 4" "p_application_id demo_due = 1" "p_status demo_due = StatusPending"
  "p_provider_payment_id demo_due = Some ''pp''" "p_next_check_at demo_due = Some 0"
  "p_provider_account_id demo_due = 2"
  by (simp_all add: demo_due_def demo_pending_def demo_row_def)

lemma demo_reads_with:
  "of_row demo_due p \<Longrightarrow> reads_with demo_env p (w_db (demo_reading st)) demo_client"
proof -
  assume "of_row demo_due p"
  then have "pay_provider_account_id p = 2" by (simp add: of_row_def)
  moreover have "c_id demo_account = 2" "c_shop_id demo_account = ''9''" "se_base_url demo_env = ''h''"
    by (simp_all add: demo_account_def demo_env_def)
  ultimately show ?thesis
    using demo_secret by (auto simp: reads_with_def one_row_def demo_client_def string_of_def)
qed

theorem get_payment_refreshes_witness:
  "\<exists>v p. run (GetPayment demo_env 1 4) (demo_reading ''succeeded'') = Some (Inr p, v) \<and>
     pay_status p = StatusSucceeded \<and> w_wire v = [demo_question]"
proof -
  let ?w = "demo_reading ''succeeded''"
  obtain p where p: "to_payment (se_decode_metadata demo_env) demo_due = Inr p" "of_row demo_due p"
    by (rule demo_due_payment)
  have rows: "one_row (\<lambda>r. p_id r = 4 \<and> p_application_id r = 1) (db_payments (w_db ?w)) = Inr demo_due"
    by (simp add: one_row_def)
  have cf: "clash_free payment_clash (db_payments (w_db ?w))" "db_txs (w_db ?w) = []" by simp_all
  have ans: "yk_get_payment (se_yk demo_env) demo_client (deref_string (p_provider_payment_id demo_due))
      (w_replies ?w (w_calls ?w)) = (Some demo_question, Inr (demo_pp\<lparr>pp_status := ProvSucceeded\<rparr>))"
    using demo_answer [of "''succeeded''" ProvSucceeded] by (simp add: deref_string_def map_status_def)
  have "pay_status p = StatusPending" using p(2) by (simp add: of_row_def)
  then have "news p (Inr (demo_pp\<lparr>pp_status := ProvSucceeded\<rparr>)) = Some StatusSucceeded"
    by (simp add: news_def can_transition_def)
  then show ?thesis
    using get_payment_refreshes [OF _ cf(2,1) rows p(1) demo_reads_with [OF p(2)] ans] by auto
qed

text \<open>Reading the same payment at a list of times, one read after the other.\<close>

fun reads_at :: "service_env \<Rightarrow> uuid \<Rightarrow> uuid \<Rightarrow> time list \<Rightarrow> world \<Rightarrow> ((go_err + payment) list \<times> world) option" where
  "reads_at E app pid [] w = Some ([], w)"
| "reads_at E app pid (t # ts) w =
     (case run (GetPayment E app pid) (w\<lparr>w_now := t\<rparr>) of
        None \<Rightarrow> None
      | Some (res, v) \<Rightarrow>
          (case reads_at E app pid ts v of None \<Rightarrow> None | Some (rest, u) \<Rightarrow> Some (res # rest, u)))"

text \<open>C24. The time of the next check moves only with the status. As long as the provider answers pending,
  a payment whose first check time has passed is asked about at every read from then on, however many
  reads there are and however close together: each returns the same payment, writes nothing, and sends
  one more request. The polling interval that \<open>next_check_at\<close> stands for is not observed.\<close>

theorem get_payment_keeps_asking:
  assumes "calm w" "one_row (\<lambda>r. p_id r = pid \<and> p_application_id r = app) (db_payments (w_db w)) = Inr row"
    and "to_payment (se_decode_metadata E) row = Inr p" "reads_with E p (w_db w) client"
    and "p_status row = StatusPending" "p_provider_payment_id row = Some ppid" "p_next_check_at row = Some n"
    and "\<And>k. \<exists>pp. yk_get_payment (se_yk E) client ppid (w_replies w k) = (Some q, Inr pp) \<and> pp_status pp = ProvPending"
    and "\<forall>t \<in> set ts. n \<le> t"
  shows "\<exists>v. reads_at E app pid ts w = Some (replicate (length ts) (Inr p), v) \<and>
    w_db v = w_db w \<and> w_wire v = w_wire w @ replicate (length ts) q"
  using assms(1,2,4,8,9)
proof (induction ts arbitrary: w)
  case (Cons t ts)
  let ?w = "w\<lparr>w_now := t\<rparr>"
  have p: "pay_status p = StatusPending" "pay_provider_payment_id p = Some ppid" "pay_next_check_at p = Some n"
    using to_payment_of_row [OF assms(3)] assms(5-7) by (simp_all add: of_row_def)
  obtain pp where pp: "yk_get_payment (se_yk E) client (deref_string (pay_provider_payment_id p))
      (w_replies ?w (w_calls ?w)) = (Some q, Inr pp)" "pp_status pp = ProvPending"
    using Cons.prems(4) [of "w_calls w"] p(2) by (auto simp: deref_string_def)
  have "calm ?w" "due (w_now ?w) p" "news p (Inr pp) = None"
    using Cons.prems(1,5) p pp(2) by (simp_all add: calm_def due_def news_def can_transition_def)
  then obtain v where v: "run (GetPayment E app pid) ?w = Some (Inr p, v)" "w_db v = w_db w"
    "w_wire v = w_wire w @ [q]" "w_replies v = w_replies w" "calm v"
    using run_GetPayment_no_news [OF _ _ assms(3) _ _ pp(1), where app = app and pid = pid] Cons.prems(2,3) by auto
  then obtain u where "reads_at E app pid ts v = Some (replicate (length ts) (Inr p), u)"
    "w_db u = w_db v" "w_wire u = w_wire v @ replicate (length ts) q"
    using Cons.IH [of v] Cons.prems by auto
  with v show ?case by simp
qed simp

theorem get_payment_keeps_asking_witness:
  "\<exists>v p. reads_at demo_env 1 4 [0, 1, 1, 2] (demo_reading ''pending'') = Some (replicate 4 (Inr p), v) \<and>
     db_payments (w_db v) = [demo_due] \<and> w_wire v = replicate 4 demo_question"
proof -
  let ?w = "demo_reading ''pending''"
  obtain p where p: "to_payment (se_decode_metadata demo_env) demo_due = Inr p" "of_row demo_due p"
    by (rule demo_due_payment)
  have rows: "one_row (\<lambda>r. p_id r = 4 \<and> p_application_id r = 1) (db_payments (w_db ?w)) = Inr demo_due"
    by (simp add: one_row_def)
  have ans: "\<exists>pp. yk_get_payment (se_yk demo_env) demo_client ''pp'' (w_replies ?w k) =
      (Some demo_question, Inr pp) \<and> pp_status pp = ProvPending" for k
    using demo_answer [of "''pending''" ProvPending] by (simp add: map_status_def)
  have "\<exists>v. reads_at demo_env 1 4 [0, 1, 1, 2] ?w = Some (replicate 4 (Inr p), v) \<and>
      w_db v = w_db ?w \<and> w_wire v = w_wire ?w @ replicate 4 demo_question"
    using get_payment_keeps_asking [where ts = "[0, 1, 1, 2]", OF demo_reading_sel(1) rows p(1) demo_reads_with [OF p(2)] _ _ _ ans]
    by (simp del: reads_at.simps add: eval_nat_numeral)
  then show ?thesis unfolding demo_reading_sel demo_later_sel by auto
qed

text \<open>The first rows of a table, newest first.\<close>

lemma newest_first:
  fixes age :: "'r \<Rightarrow> int"
  defines "firsts \<equiv> \<lambda>n rows. take n (sort_key (\<lambda>r. - age r) rows)"
  shows "sorted (map (\<lambda>r. - age r) (firsts n rows))" "length (firsts n rows) = min n (length rows)"
    "mset (firsts n rows) \<subseteq># mset rows"
    "\<And>x r. r \<in> set (firsts n rows) \<Longrightarrow> x \<in> set rows \<Longrightarrow> x \<notin> set (firsts n rows) \<Longrightarrow> age x \<le> age r"
proof -
  let ?s = "sort_key (\<lambda>r. - age r) rows"
  have split: "take n ?s @ drop n ?s = ?s" by simp
  have sorted: "sorted (map (\<lambda>r. - age r) (take n ?s @ drop n ?s))" unfolding split by simp
  show "sorted (map (\<lambda>r. - age r) (firsts n rows))" using sorted unfolding firsts_def map_append sorted_append by blast
  show "length (firsts n rows) = min n (length rows)" by (simp add: firsts_def)
  have "mset rows = mset (take n ?s) + mset (drop n ?s)"
    unfolding mset_append [symmetric] split mset_sort by (rule refl)
  then show "mset (firsts n rows) \<subseteq># mset rows" by (simp only: firsts_def mset_subset_eq_add_left)
  fix x r
  assume r: "r \<in> set (firsts n rows)" and x: "x \<in> set rows" "x \<notin> set (firsts n rows)"
  have "x \<in> set (take n ?s @ drop n ?s)" unfolding split using x(1) by simp
  then have "x \<in> set (drop n ?s)" using x(2) unfolding firsts_def set_append by blast
  with r have "- age r \<le> - age x" using sorted unfolding firsts_def map_append sorted_append by auto
  then show "age x \<le> age r" by simp
qed

text \<open>C25. \<open>ListPayments\<close> returns the newest payments of the application, of the order asked for if one
  is given, at most as many as asked for, 20 by default and never more than 100.\<close>

theorem list_payments_newest:
  assumes "calm w" "pg_text (trim_space (lq_order_id query))"
  shows "\<exists>v rows. run (ListPayments E app query) w = Some (to_payments (se_decode_metadata E) rows, v) \<and>
    w_db v = w_db w \<and> w_wire v = w_wire w \<and>
    sorted (map (\<lambda>r. - p_created_at r) rows) \<and>
    (let wanted = filter (\<lambda>r. p_application_id r = app \<and>
           (trim_space (lq_order_id query) = [] \<or> p_order_id r = trim_space (lq_order_id query))) (db_payments (w_db w));
         limit = (if lq_limit query \<le> 0 then 20 else min 100 (nat (lq_limit query)))
     in length rows = min limit (length wanted) \<and>
        mset rows \<subseteq># mset wanted \<and>
        (\<forall>x r. r \<in> set rows \<and> x \<in> set wanted \<and> x \<notin> set rows \<longrightarrow> p_created_at x \<le> p_created_at r))"
proof -
  let ?wanted = "filter (\<lambda>r. p_application_id r = app \<and>
       (trim_space (lq_order_id query) = [] \<or> p_order_id r = trim_space (lq_order_id query))) (db_payments (w_db w))"
  let ?limit = "if lq_limit query \<le> 0 then 20 else min 100 (nat (lq_limit query))"
  let ?top = "take ?limit (sort_key (\<lambda>r. - p_created_at r) ?wanted)"
  have "nat (effective_limit (lq_limit query)) = ?limit"
    by (auto simp: effective_limit_def limit_defs)
  then have rows: "listed_rows app query (payments_of w) = ?top"
    unfolding listed_rows_def
    by (simp only:) (rule arg_cong [where f = "\<lambda>x. take ?limit (sort_key (\<lambda>r. - p_created_at r) x)"], rule filter_cong,
      auto simp: list_order_def)
  obtain v where "run (ListPayments E app query) w = Some (to_payments (se_decode_metadata E) ?top, v)" "untouched w v"
    using run_ListPayments [OF assms, of E app] unfolding rows by blast
  then show ?thesis
    using newest_first [where age = p_created_at and n = ?limit and rows = ?wanted] unfolding Let_def untouched_def
    by (intro exI [of _ v] exI [of _ ?top]) blast
qed

theorem list_payments_newest_witness:
  "\<exists>v ps. run (ListPayments demo_env 1 \<lparr>lq_order_id = [], lq_limit = 0\<rparr>) (demo_later demo_pending) = Some (ps, v) \<and>
     w_db v = w_db (demo_later demo_pending)"
proof -
  have "pg_text (trim_space (lq_order_id \<lparr>lq_order_id = [], lq_limit = 0\<rparr>))" by code_simp
  from list_payments_newest [OF demo_later_sel(1) this, of demo_env 1 demo_pending] show ?thesis by blast
qed

text \<open>\<open>UnfinishedCount\<close> counts the payments that are not final, of every application, and changes
  nothing.\<close>

theorem unfinished_count_exact:
  assumes "calm w"
  shows "\<exists>v. run UnfinishedCount w =
      Some (Inr (int (card {k. k < length (db_payments (w_db w)) \<and> \<not> terminal (p_status (db_payments (w_db w) ! k))})), v) \<and>
    w_db v = w_db w \<and> w_wire v = w_wire w"
  using run_UnfinishedCount [OF assms] by (simp add: untouched_def length_filter_conv_card)

theorem unfinished_count_exact_witness:
  "\<exists>v n. run UnfinishedCount (demo_later demo_pending) = Some (Inr n, v) \<and> w_wire v = []"
  using unfinished_count_exact [OF demo_later_sel(1)] by fastforce

end
