(* ===== verification/Fingerprint.thy ===== *)
theory Fingerprint
  imports Validation
begin

text \<open>
  What the request fingerprint tells apart. \<open>requestHash\<close> hashes the JSON text of the validated
  input; each member of that text is written by a \<open>delimited\<close> encoder, so two inputs with the same
  text agree on every member, and the fingerprint separates any two different requests unless
  SHA-256 itself collides on their texts.
\<close>

subsection \<open>Numbers and optional maps as delimited encoders\<close>

lemma format_int_no_comma: "CHR '','' \<notin> set (format_int i)"
  by (auto simp: format_int_def is_digit_def dest!: dec_digits)

lemma split_at_first:
  "c \<notin> set p \<Longrightarrow> c \<notin> set q \<Longrightarrow> p @ c # r = q @ c # r' \<Longrightarrow> p = q \<and> r = r'"
proof (induction p arbitrary: q)
  case Nil
  then show ?case by (cases q) auto
next
  case (Cons x p)
  then show ?case by (cases q) auto
qed

definition int64_range :: "int \<Rightarrow> bool" where
  "int64_range i \<longleftrightarrow> - (2 ^ 63) \<le> i \<and> i < 2 ^ 63"

lemma int64_range_sint [simp]: "int64_range (sint (m :: int64))"
proof -
  have len: "LENGTH(64) - Suc 0 = 63" "LENGTH(64) - 1 = 63" by simp_all
  have "sint m < 2 ^ 63" using sint_less [of m] unfolding len(1) .
  moreover have "- (2 ^ 63) \<le> sint m" using sint_ge [of m] unfolding len(2) .
  ultimately show ?thesis unfolding int64_range_def by blast
qed

lemma format_int_inj: "int64_range i \<Longrightarrow> int64_range j \<Longrightarrow> format_int i = format_int j \<Longrightarrow> i = j"
proof -
  have len: "64 - 1 = (63 :: nat)" by simp
  have p: "parse_int 64 (format_int i) = Some i" if "int64_range i" for i
    using parse_format_int [of 64 i] that unfolding len int64_range_def by blast
  assume "int64_range i" "int64_range j" "format_int i = format_int j"
  with p [of i] p [of j] show ?thesis by (metis option.inject)
qed

interpretation json_num: delimited int64_range "\<lambda>i. format_int i @ '',''"
proof
  fix x y r r'
  assume v: "int64_range x" "int64_range y"
    and "(format_int x @ '','') @ r = (format_int y @ '','') @ r'"
  then have "format_int x = format_int y \<and> r = r'"
    by (intro split_at_first [OF format_int_no_comma format_int_no_comma]) simp
  with v show "x = y \<and> r = r'" using format_int_inj by blast
qed

lemma json_map_brace: "\<exists>t. json_map m = CHR ''{'' # t"
  by (cases m) auto

definition valid_map_opt :: "go_map option \<Rightarrow> bool" where
  "valid_map_opt m \<longleftrightarrow> (case m of None \<Rightarrow> True | Some m \<Rightarrow> valid_map m)"

interpretation json_opt: delimited valid_map_opt json_map_opt
proof
  fix x y r r'
  assume v: "valid_map_opt x" "valid_map_opt y" and e: "json_map_opt x @ r = json_map_opt y @ r'"
  show "x = y \<and> r = r'"
  proof (cases x)
    case None
    show ?thesis
    proof (cases y)
      case (Some m)
      with None e json_map_brace [of m] show ?thesis by (auto simp: json_map_opt_def)
    qed (use None e in \<open>simp add: json_map_opt_def\<close>)
  next
    case (Some m)
    then obtain m' where y: "y = Some m'"
      using e json_map_brace [of m] by (cases y) (auto simp: json_map_opt_def)
    have "m = m' \<and> r = r'"
      using v e unfolding Some y by (intro json_obj.delimited) (simp_all add: valid_map_opt_def json_map_opt_def)
    with Some y show ?thesis by simp
  qed
qed

subsection \<open>The whole document\<close>

text \<open>JSON text is UTF-8; \<open>json.Marshal\<close> replaces anything else by U+FFFD.\<close>

definition input_utf8 :: "create_payment_input \<Rightarrow> bool" where
  "input_utf8 i \<longleftrightarrow> utf8_valid (in_order_id i) \<and> utf8_valid (in_currency i) \<and>
     utf8_valid (in_description i) \<and> utf8_valid (deref_string (in_return_url i)) \<and>
     valid_map_opt (in_metadata i)"

text \<open>An input without a return URL has the fingerprint of one with an empty return URL.\<close>

definition same_request :: "create_payment_input \<Rightarrow> create_payment_input \<Rightarrow> bool" where
  "same_request i j \<longleftrightarrow> in_order_id i = in_order_id j \<and> in_amount_minor i = in_amount_minor j \<and>
     in_currency i = in_currency j \<and> in_description i = in_description j \<and>
     deref_string (in_return_url i) = deref_string (in_return_url j) \<and>
     in_metadata i = in_metadata j"

lemma json_str_step:
  "utf8_valid x \<Longrightarrow> utf8_valid y \<Longrightarrow> json_string x @ r = json_string y @ r' \<Longrightarrow> x = y \<and> r = r'"
  by (rule json_str.delimited)

lemma request_json_tail:
  assumes v: "input_utf8 i" "input_utf8 j"
    and e: "json_string (in_currency i) @ '','' @ json_key ''description'' @ json_string (in_description i)
      @ '','' @ json_key ''return_url'' @ json_string (deref_string (in_return_url i))
      @ '','' @ json_key ''metadata'' @ json_map_opt (in_metadata i) @ ''}'' =
     json_string (in_currency j) @ '','' @ json_key ''description'' @ json_string (in_description j)
      @ '','' @ json_key ''return_url'' @ json_string (deref_string (in_return_url j))
      @ '','' @ json_key ''metadata'' @ json_map_opt (in_metadata j) @ ''}''"
  shows "in_currency i = in_currency j \<and> in_description i = in_description j \<and>
     deref_string (in_return_url i) = deref_string (in_return_url j) \<and> in_metadata i = in_metadata j"
proof -
  note e1 = json_str_step [OF _ _ e]
  have c: "in_currency i = in_currency j" using v e1 unfolding input_utf8_def by blast
  from v e1 have "json_string (in_description i)
      @ '','' @ json_key ''return_url'' @ json_string (deref_string (in_return_url i))
      @ '','' @ json_key ''metadata'' @ json_map_opt (in_metadata i) @ ''}'' =
     json_string (in_description j)
      @ '','' @ json_key ''return_url'' @ json_string (deref_string (in_return_url j))
      @ '','' @ json_key ''metadata'' @ json_map_opt (in_metadata j) @ ''}''"
    unfolding input_utf8_def by simp
  note e2 = json_str_step [OF _ _ this]
  have d: "in_description i = in_description j" using v e2 unfolding input_utf8_def by blast
  from v e2 have "json_string (deref_string (in_return_url i))
      @ '','' @ json_key ''metadata'' @ json_map_opt (in_metadata i) @ ''}'' =
     json_string (deref_string (in_return_url j))
      @ '','' @ json_key ''metadata'' @ json_map_opt (in_metadata j) @ ''}''"
    unfolding input_utf8_def by simp
  note e3 = json_str_step [OF _ _ this]
  have u: "deref_string (in_return_url i) = deref_string (in_return_url j)"
    using v e3 unfolding input_utf8_def by blast
  from v e3 have "json_map_opt (in_metadata i) @ ''}'' = json_map_opt (in_metadata j) @ ''}''"
    unfolding input_utf8_def by simp
  then have "in_metadata i = in_metadata j"
    using json_opt.delimited [of "in_metadata i" "in_metadata j"] v unfolding input_utf8_def by blast
  with c d u show ?thesis by blast
qed

lemma request_json_inj:
  assumes v: "input_utf8 i" "input_utf8 j" and e: "request_json i = request_json j"
  shows "same_request i j"
proof -
  let ?rest = "\<lambda>k. json_key ''currency'' @ json_string (in_currency k)
      @ '','' @ json_key ''description'' @ json_string (in_description k)
      @ '','' @ json_key ''return_url'' @ json_string (deref_string (in_return_url k))
      @ '','' @ json_key ''metadata'' @ json_map_opt (in_metadata k) @ ''}''"
  from e have "json_string (in_order_id i) @ '','' @ json_key ''amount_minor''
      @ format_int (sint (in_amount_minor i)) @ '','' @ ?rest i =
     json_string (in_order_id j) @ '','' @ json_key ''amount_minor''
      @ format_int (sint (in_amount_minor j)) @ '','' @ ?rest j"
    by (simp add: request_json_def)
  note e1 = json_str_step [OF _ _ this]
  have ord: "in_order_id i = in_order_id j" using v e1 unfolding input_utf8_def by blast
  from v e1 have "(format_int (sint (in_amount_minor i)) @ '','') @ ?rest i =
     (format_int (sint (in_amount_minor j)) @ '','') @ ?rest j"
    unfolding input_utf8_def by simp
  then have "sint (in_amount_minor i) = sint (in_amount_minor j) \<and> ?rest i = ?rest j"
    by (intro json_num.delimited) simp_all
  then have "in_amount_minor i = in_amount_minor j" and rest: "?rest i = ?rest j"
    by (metis int64_of_sint, blast)
  moreover have "in_currency i = in_currency j \<and> in_description i = in_description j \<and>
     deref_string (in_return_url i) = deref_string (in_return_url j) \<and> in_metadata i = in_metadata j"
    by (rule request_json_tail [OF v]) (use rest in simp)
  ultimately show ?thesis using ord by (simp add: same_request_def)
qed

lemma request_hash_collision:
  assumes "input_utf8 i" "input_utf8 j" "request_hash sha i = request_hash sha j" "\<not> same_request i j"
  shows "\<exists>a b. a \<noteq> b \<and> sha a = sha b"
proof -
  have "bytes_of (request_json i) \<noteq> bytes_of (request_json j)"
    using request_json_inj [OF assms(1,2)] assms(4) by (auto simp: bytes_of_inj)
  with assms(3) show ?thesis unfolding request_hash_def by blast
qed

end
