(* ===== verification/ComponentProperties.thy ===== *)
theory ComponentProperties
  imports Fingerprint YookassaClient
begin

text \<open>
  The properties of the parts that keep no state of their own: the state machine, the vault, API
  keys, the guard on outbound URLs, amounts, the provider adapter, and the validation of requests.
\<close>

subsection \<open>The state machine\<close>

lemma successively_can_transition_sorted: "successively can_transition path \<Longrightarrow> sorted_wrt (<) path"
  by (subst successively_conv_sorted_wrt [symmetric])
     (auto intro: transpI elim: successively_mono dest: can_transition_less)

lemma status_ranks_below: "sorted_wrt (<) path \<Longrightarrow> distinct (map status_rank path)"
  by (induction path) (auto simp: less_status_def dest!: less_imp_neq)

text \<open>C26. Payments never move backwards: along any history of legal transitions the statuses
  strictly increase, no status is entered twice, only the last one may be final, and a history has at
  most five statuses.\<close>

theorem status_history_bounded:
  assumes "successively can_transition path" "path \<noteq> []"
  shows "sorted_wrt (<) path \<and> (\<forall>s \<in> set (butlast path). \<not> terminal s) \<and> length path \<le> 5"
proof -
  have s: "sorted_wrt (<) path" by (rule successively_can_transition_sorted [OF assms(1)])
  have b: "\<not> terminal s" if "s \<in> set (butlast path)" for s
    using that assms(1)
    by (induction path rule: induct_list012) (auto simp: terminal_iff_no_transition)
  have "length path \<le> 5"
  proof (rule ccontr)
    assume "\<not> length path \<le> 5"
    moreover have "distinct (map status_rank (butlast path))"
      using status_ranks_below [OF s] by (metis distinct_butlast map_butlast)
    moreover have "set (map status_rank (butlast path)) \<subseteq> {0, 1, 2, 3}"
    proof
      fix n
      assume "n \<in> set (map status_rank (butlast path))"
      then obtain x where "x \<in> set (butlast path)" "n = status_rank x" by auto
      with b [of x] show "n \<in> {0, 1, 2, 3}" by (cases x) auto
    qed
    then have "card (set (map status_rank (butlast path))) \<le> card {0, 1, 2, 3 :: nat}"
      by (intro card_mono) auto
    moreover have "card {0, 1, 2, 3 :: nat} = 4" by simp
    ultimately show False using distinct_card [of "map status_rank (butlast path)"]
      by (simp only: length_map length_butlast)
  qed
  with s b show ?thesis by blast
qed

theorem status_history_bounded_witness:
  "length [StatusCreated, StatusCreating, StatusCreationUnknown, StatusPending, StatusSucceeded] \<le> 5"
  using status_history_bounded
    [of "[StatusCreated, StatusCreating, StatusCreationUnknown, StatusPending, StatusSucceeded]"]
  by (simp add: can_transition_def)

subsection \<open>The vault\<close>

text \<open>A cipher suite to evaluate: sealing appends the nonce's first byte, the hash is the identity.\<close>

definition demo_crypto :: crypto where
  "demo_crypto = \<lparr>sha256 = (\<lambda>m. m),
     new_gcm = (\<lambda>k. \<lparr>aead_seal = (\<lambda>n p. p @ [hd n]),
                      aead_open = (\<lambda>n c. if c \<noteq> [] \<and> last c = hd n then Some (butlast c) else None)\<rparr>)\<rparr>"

definition demo_old_key :: bytes where "demo_old_key = replicate 32 7"
definition demo_new_key :: bytes where "demo_new_key = replicate 32 9"

lemma demo_keys_parse:
  "parse_key (hex_encode demo_old_key) = Inr demo_old_key"
  "parse_key (hex_encode demo_new_key) = Inr demo_new_key"
  by (rule parse_generated_key; simp add: generate_key_def demo_old_key_def demo_new_key_def)+

definition demo_old_cipher :: cipher where
  "demo_old_cipher = (case new_cipher demo_crypto (hex_encode demo_old_key) [] of Inr c \<Rightarrow> c)"

definition demo_new_cipher :: cipher where
  "demo_new_cipher =
     (case new_cipher demo_crypto (hex_encode demo_new_key) (hex_encode demo_old_key) of Inr c \<Rightarrow> c)"

text \<open>C27. Secrets survive master key rotation: what was encrypted under one primary key decrypts
  under every later cipher that still lists that key, as primary or among the retired ones. The keys of
  the later cipher must have distinct 4-byte ids (\<open>ids_distinct\<close>): \<open>NewCipher\<close> does not check that, and
  a listed key whose id another key shares replaces it silently.\<close>

theorem vault_rotation:
  assumes "aead_correct C"
    and "new_cipher C pk prev = Inr c" "parse_key pk = Inr raw"
    and "new_cipher C pk' prev' = Inr d" "parse_key pk' = Inr raw'"
    and "raw \<in> set (raw' # ring_keys (split_char CHR '','' prev'))"
    and "ids_distinct C (raw' # ring_keys (split_char CHR '','' prev'))"
    and "length nonce = nonce_len" "encrypt c (Some nonce) p = Inr ct"
  shows "decrypt d ct = Inr p"
  using assms by (rule ring_decrypts)

lemma hex_key_nonempty: "hex_encode demo_old_key \<noteq> []"
proof -
  have "length (hex_encode demo_old_key) = 64"
    unfolding length_hex_encode by (simp add: demo_old_key_def)
  then show ?thesis by (metis list.size(3) zero_neq_numeral)
qed

lemma demo_ring: "split_char CHR '','' (hex_encode demo_old_key) = [hex_encode demo_old_key]"
  "ring_keys [hex_encode demo_old_key] = [demo_old_key]" "trim_space (hex_encode demo_old_key) = hex_encode demo_old_key"
proof -
  have "CHR '','' \<notin> hex_alphabet" by (simp add: hex_alphabet_def)
  then show "split_char CHR '','' (hex_encode demo_old_key) = [hex_encode demo_old_key]"
    by (intro split_char_plain hexc.enc_free_of)
  show t: "trim_space (hex_encode demo_old_key) = hex_encode demo_old_key"
    by (rule trim_space_hex [OF hexc.enc_alphabet])
  show "ring_keys [hex_encode demo_old_key] = [demo_old_key]" by (simp add: t demo_keys_parse hex_key_nonempty)
qed

theorem vault_rotation_witness:
  "decrypt demo_new_cipher ([1, 7, 7, 7, 7] @ replicate 12 5 @ [115, 107, 5]) = Inr [115, 107]"
proof (rule vault_rotation)
  show "aead_correct demo_crypto" by (auto simp: aead_correct_def demo_crypto_def)
  show "parse_key (hex_encode demo_old_key) = Inr demo_old_key"
    "parse_key (hex_encode demo_new_key) = Inr demo_new_key"
    by (rule demo_keys_parse)+
  show c: "new_cipher demo_crypto (hex_encode demo_old_key) [] = Inr demo_old_cipher"
    unfolding demo_old_cipher_def by (simp add: new_cipher_def demo_keys_parse)
  show "new_cipher demo_crypto (hex_encode demo_new_key) (hex_encode demo_old_key) = Inr demo_new_cipher"
    unfolding demo_new_cipher_def
    by (simp add: new_cipher_def demo_keys_parse demo_ring hex_key_nonempty)
  show "demo_old_key \<in> set (demo_new_key # ring_keys (split_char CHR '','' (hex_encode demo_old_key)))"
    by (simp only: demo_ring) simp
  show "ids_distinct demo_crypto (demo_new_key # ring_keys (split_char CHR '','' (hex_encode demo_old_key)))"
    unfolding demo_ring by code_simp
  show "length (replicate 12 (5 :: byte)) = nonce_len" by (simp add: nonce_len_def)
  have "primary_id demo_old_cipher = key_id demo_crypto demo_old_key"
    "primary demo_old_cipher = new_gcm demo_crypto demo_old_key"
    using new_cipher_primary [OF c demo_keys_parse(1)] by simp_all
  moreover have "id_bytes (key_id demo_crypto demo_old_key) = [7, 7, 7, 7]" by code_simp
  ultimately show "encrypt demo_old_cipher (Some (replicate 12 5)) [115, 107] =
      Inr ([1, 7, 7, 7, 7] @ replicate 12 5 @ [115, 107, 5])"
    by (simp add: encrypt_def envelope_version_def demo_crypto_def numeral_eq_Suc)
qed

text \<open>Dropping a retired key makes what it sealed unreadable, and says so: a cipher whose ring has no
  key with the id in the envelope answers \<open>ErrUnknownKeyID\<close>, never a wrong plaintext.\<close>

theorem vault_dropped_key:
  assumes "encrypt c (Some nonce) p = Inr ct" "length nonce = nonce_len"
    and "new_cipher C pk prev = Inr d" "parse_key pk = Inr raw"
    and "\<forall>k \<in> set (raw # ring_keys (split_char CHR '','' prev)). key_id C k \<noteq> primary_id c"
  shows "decrypt d ct = Inl (Sentinel SErrUnknownKeyID)"
proof -
  obtain m where m: "add_previous C (split_char CHR '','' prev) [key_id C raw \<mapsto> new_gcm C raw] = Inr m"
    and d: "keys d = m"
    using assms(3,4) by (auto simp: new_cipher_def split: sum.splits)
  have "find (\<lambda>k. key_id C k = primary_id c) (rev (ring_keys (split_char CHR '','' prev))) = None"
    using assms(5) by (auto simp: find_None_iff)
  then have "keys d (primary_id c) = None"
    using assms(5) by (auto simp: d add_previous_lookup [OF m])
  moreover have "ct = envelope_version # id_bytes (primary_id c) @ nonce @ aead_seal (primary c) nonce p"
    using assms(1) by (simp add: encrypt_def)
  ultimately show ?thesis using assms(2) by (simp add: decrypt_envelope)
qed

theorem vault_dropped_key_witness:
  "decrypt demo_old_cipher ([1, 9, 9, 9, 9] @ replicate 12 5 @ [115, 107, 5]) =
     Inl (Sentinel SErrUnknownKeyID)"
proof (rule vault_dropped_key)
  let ?c = "\<lparr>primary_id = key_id demo_crypto demo_new_key, primary = new_gcm demo_crypto demo_new_key,
    keys = Map.empty\<rparr>"
  have "id_bytes (key_id demo_crypto demo_new_key) = [9, 9, 9, 9]" by code_simp
  then show "encrypt ?c (Some (replicate 12 5)) [115, 107] =
      Inr ([1, 9, 9, 9, 9] @ replicate 12 5 @ [115, 107, 5])"
    by (simp add: encrypt_def envelope_version_def demo_crypto_def numeral_eq_Suc)
  show "parse_key (hex_encode demo_old_key) = Inr demo_old_key" by (rule demo_keys_parse)
  show "new_cipher demo_crypto (hex_encode demo_old_key) [] = Inr demo_old_cipher"
    unfolding demo_old_cipher_def by (simp add: new_cipher_def demo_keys_parse)
  have "key_id demo_crypto demo_old_key \<noteq> key_id demo_crypto demo_new_key" by code_simp
  then show "\<forall>k \<in> set (demo_old_key # ring_keys (split_char CHR '','' [])).
      key_id demo_crypto k \<noteq> primary_id ?c" by simp
  show "length (replicate 12 (5 :: byte)) = nonce_len" by (simp add: nonce_len_def)
qed

text \<open>A provisioned master key is accepted: \<open>ParseKey\<close> reads back the 32 random bytes that
  \<open>GenerateKey\<close> printed.\<close>

theorem master_key_roundtrip:
  assumes "generate_key (Some raw) = Inr s" "length raw = 32"
  shows "parse_key s = Inr raw"
  using assms by (rule parse_generated_key)

theorem master_key_roundtrip_witness:
  "parse_key (hex_encode (replicate 32 1)) = Inr (replicate 32 1)"
  by (rule master_key_roundtrip) (simp_all add: generate_key_def)

subsection \<open>API keys\<close>

text \<open>C28. A key that was issued works: it passes the shape check, its prefix is the one stored for the
  lookup, it verifies against the stored hash, and any other presented string that verifies has the
  same SHA-256 hash.\<close>

theorem issued_key_verifies:
  assumes "generate sha (Some token) = Inr k" "length token = 32" "\<And>m. sha m \<noteq> []"
  shows "looks_valid (key_full k) \<and> length (key_full k) = 52 \<and>
    prefix_of (key_full k) = key_prefix k \<and> length (key_prefix k) = 16 \<and>
    (\<forall>s. verify sha (key_hash k) s \<longleftrightarrow> sha (bytes_of s) = sha (bytes_of (key_full k)))"
proof -
  have t: "length token = token_bytes" using assms(2) by (simp add: token_bytes_def)
  have h: "key_hash k = sha (bytes_of (key_full k))"
    using assms(1) by (auto simp: generate_def hash_key_def Let_def)
  have "verify sha (key_hash k) s \<longleftrightarrow> sha (bytes_of s) = sha (bytes_of (key_full k))" for s
    using assms(3) by (auto simp: verify_def h hash_key_def)
  then show ?thesis
    using generate_verifies [OF assms(1) t assms(3)] generate_shape [OF assms(1) t]
    by (simp add: prefix_len_def)
qed

theorem issued_key_verifies_witness:
  "looks_valid (KeyPrefix @ b64_encode RawURLEncoding (replicate 32 3))"
  using issued_key_verifies [of "\<lambda>m. 0 # m" "replicate 32 3"] by (simp add: generate_def Let_def)

subsection \<open>The guard on outbound URLs\<close>

text \<open>C29. With the production options a URL is accepted exactly when all of this holds: it is not blank
  and parses; it is https, without credentials, with a host; the host's name (one final dot dropped, in
  lower case) has at least two labels, the last of them none of \<open>localhost\<close>, \<open>local\<close> and
  \<open>internal\<close>; and the host is an address literal that is not internal, or the resolver finds at
  least one address for it and none of those it finds is internal.\<close>

theorem outbound_guard_production:
  "validate_outbound_url N raw \<lparr>allow_http = False, allow_private = False\<rparr> = Inr () \<longleftrightarrow>
    (\<exists>u. trim_space raw \<noteq> [] \<and> url_parse N (trim_space raw) = Inr u \<and> url_scheme u = ''https'' \<and>
       \<not> url_has_user u \<and> url_hostname u \<noteq> [] \<and>
       (let names = split_char CHR ''.'' (to_lower (trim_suffix (url_hostname u) ''.'')) in
        2 \<le> length names \<and> last names \<notin> {''localhost'', ''local'', ''internal''}) \<and>
       (case parse_ip N (url_hostname u) of
          Some i \<Rightarrow> \<not> is_internal_ip i
        | None \<Rightarrow> (\<exists>ips. lookup_ip N (url_hostname u) = Some ips \<and> ips \<noteq> [] \<and> list_all (\<lambda>i. \<not> is_internal_ip i) ips)))"
proof -
  have two: "length (labels h) = 1 \<longleftrightarrow> \<not> 2 \<le> length (labels h)" for h
    using split_char_nonempty [of "CHR ''.''"] by (cases "labels h") (auto simp: labels_def Suc_le_eq)
  have addresses: "(\<exists>ips. resolve_host N h = Some ips \<and> (\<forall>i \<in> set ips. \<not> is_internal_ip i)) \<longleftrightarrow>
      (case parse_ip N h of Some i \<Rightarrow> \<not> is_internal_ip i
       | None \<Rightarrow> (\<exists>ips. lookup_ip N h = Some ips \<and> ips \<noteq> [] \<and> list_all (\<lambda>i. \<not> is_internal_ip i) ips))" for h
    by (auto simp: resolve_host_iff list_all_iff split: option.split)
  have "validate_outbound_url N raw \<lparr>allow_http = False, allow_private = False\<rparr> = Inr () \<longleftrightarrow>
    (\<exists>u. trim_space raw \<noteq> [] \<and> url_parse N (trim_space raw) = Inr u \<and> url_scheme u = ''https'' \<and>
       \<not> url_has_user u \<and> url_hostname u \<noteq> [] \<and> \<not> is_internal_hostname (url_hostname u) \<and>
       (\<exists>ips. resolve_host N (url_hostname u) = Some ips \<and> (\<forall>i \<in> set ips. \<not> is_internal_ip i)))"
    by (subst production_accepts_iff) auto
  then show ?thesis
    unfolding addresses internal_hostname_labels two Let_def labels_def [symmetric] by simp
qed

theorem outbound_guard_production_witness:
  "validate_outbound_url
     \<lparr>url_parse = (\<lambda>_. Inr \<lparr>url_scheme = ''https'', url_has_user = False, url_hostname = ''a.b''\<rparr>),
      parse_ip = (\<lambda>_. None), lookup_ip = (\<lambda>_. Some [[8, 8, 8, 8], [10, 0, 0, 1]]), ip_text = (\<lambda>_. [])\<rparr>
     ''x'' \<lparr>allow_http = False, allow_private = False\<rparr> \<noteq> Inr ()"
proof -
  have "is_internal_ip [10, 0, 0, 1]" by code_simp
  then show ?thesis
    unfolding outbound_guard_production by auto
qed

text \<open>C30. The bit tests of \<open>isInternalIP\<close> are the documented address blocks: loopback, the private
  ranges, link-local, multicast and the unspecified address, no more and no less; and an IPv4
  address cannot be disguised as an IPv4-mapped IPv6 one.\<close>

theorem internal_addresses:
  "is_internal_ip [a, b, c, d] = is_internal_ip (mapped_v6 [a, b, c, d]) \<and>
   (is_internal_ip [a, b, c, d] \<longleftrightarrow>
     a = 127 \<or> a = 10 \<or> (a = 172 \<and> 16 \<le> unat b \<and> unat b \<le> 31) \<or> (a = 192 \<and> b = 168) \<or>
     (a = 169 \<and> b = 254) \<or> (a = 0 \<and> b = 0 \<and> c = 0 \<and> d = 0) \<or> (224 \<le> unat a \<and> unat a \<le> 239))"
  using internal_mapped_v6 [of "[a, b, c, d]"] internal_ipv4_ranges [of a b c d] by simp

subsection \<open>Amounts\<close>

text \<open>C31. Every non-negative amount of minor units survives the trip through the provider's decimal
  notation, up to the largest 64-bit value.\<close>

theorem amount_roundtrip:
  assumes "0 \<le> sint m"
  shows "parse_amount_minor (format_amount_minor m) = Inr m"
  using assms by (rule parse_format_amount)

theorem amount_roundtrip_witness: "parse_amount_minor (format_amount_minor 12345) = Inr 12345"
  by (rule amount_roundtrip) simp

text \<open>C32. Outside the amounts the service sends the notation is lossy: between -99 and -1 kopecks the
  sign disappears on the way back.\<close>

theorem amount_sign_lost:
  assumes "-100 < sint m" "sint m < 0"
  shows "parse_amount_minor (format_amount_minor m) = Inr (- m)"
  using assms by (rule parse_format_amount_negative)

theorem amount_sign_lost_witness: "parse_amount_minor (format_amount_minor (- 5)) = Inr 5"
  using amount_sign_lost [of "- 5"] by simp



subsection \<open>The provider adapter\<close>

text \<open>C34. A failed creation call is reported with a definitive code, on which the service cancels the
  payment, exactly when no request was sent or the provider answered with a status other than 429,
  below 500 and not 2xx; a lost connection, a timeout, a rate limit, a server error, an unreadable
  answer and an unknown status all leave the outcome open.\<close>

theorem creation_error_definitive:
  assumes "yk_create_payment E c req outcome = (sent, Inl e)"
  shows "definitive (code_of_error e) \<longleftrightarrow> sent = None \<or>
    (\<exists>status body. outcome = HttpResp status body \<and> \<not> (200 \<le> status \<and> status < 300) \<and>
       status \<noteq> 429 \<and> status < 500)"
  using create_payment_definitive [OF assms]
  by (auto simp: refused_def split: transport.splits)

definition demo_yk :: yk_env where
  "demo_yk = \<lparr>request_error = (\<lambda>_. None), decode_payment = (\<lambda>_. Inl ''bad''), decode_error = (\<lambda>_. None)\<rparr>"

definition demo_request :: create_request where
  "demo_request = \<lparr>req_amount = 100, req_currency = ''RUB'', req_description = [],
     req_return_url = [], req_metadata = [], req_idempotency_key = ''k''\<rparr>"

theorem creation_error_definitive_witness:
  "\<not> definitive (code_of_error (perr CodeUnavailable 503 ''provider is unavailable'' True))"
proof -
  have "yk_create_payment demo_yk (new_client [] ''1'' ''s'') demo_request (HttpResp 503 []) =
      (Some (do_request (new_client [] ''1'' ''s'') ''POST'' ''/v3/payments'' ''k''
         (Some (create_payment_body demo_request))),
       Inl (perr CodeUnavailable 503 ''provider is unavailable'' True))"
    by (simp add: yk_create_payment_def yk_do_def demo_yk_def demo_request_def do_outcome_def
        status_error_def Let_def payment_result_def)
  from creation_error_definitive [OF this] show ?thesis by simp
qed

subsection \<open>Validation and fingerprint of a create request\<close>

text \<open>The limits of the code, stated on the raw request. Lengths are in bytes, as \<open>len\<close> of a Go string.\<close>

definition metadata_within_limits :: "go_map \<Rightarrow> bool" where
  "metadata_within_limits m \<longleftrightarrow> length m \<le> 20 \<and>
     (\<forall>(k, v) \<in> set m. 1 \<le> length k \<and> length k \<le> 40 \<and> length v \<le> 64)"

definition return_url_acceptable :: "net_env \<Rightarrow> outbound_url_options \<Rightarrow> string option \<Rightarrow> bool" where
  "return_url_acceptable N urls url \<longleftrightarrow> (case url of None \<Rightarrow> True
     | Some u \<Rightarrow> trim_space u = [] \<or> validate_outbound_url N (trim_space u) urls = Inr ())"

definition acceptable :: "net_env \<Rightarrow> outbound_url_options \<Rightarrow> string \<Rightarrow> create_payment_input \<Rightarrow> bool" where
  "acceptable N urls key i \<longleftrightarrow>
     1 \<le> length (trim_space key) \<and> length (trim_space key) \<le> 64 \<and>
     1 \<le> length (trim_space (in_order_id i)) \<and> length (trim_space (in_order_id i)) \<le> 128 \<and>
     0 < sint (in_amount_minor i) \<and> (in_currency i = [] \<or> in_currency i = ''RUB'') \<and>
     length (trim_space (in_description i)) \<le> 128 \<and>
     (\<forall>m \<in> set_option (in_metadata i). metadata_within_limits m) \<and>
     return_url_acceptable N urls (in_return_url i)"

definition normalized :: "application \<Rightarrow> create_payment_input \<Rightarrow> create_payment_input" where
  "normalized app i = i\<lparr>in_order_id := trim_space (in_order_id i), in_currency := ''RUB'',
     in_description := trim_space (in_description i),
     in_return_url := (case in_return_url i of None \<Rightarrow> app_default_return_url app
       | Some u \<Rightarrow> if trim_space u = [] then app_default_return_url app else Some (trim_space u))\<rparr>"

lemma check_metadata_iff:
  "check_metadata m = None \<longleftrightarrow> (\<forall>(k, v) \<in> set m. 1 \<le> length k \<and> length k \<le> 40 \<and> length v \<le> 64)"
  by (induction m rule: check_metadata.induct)
     (auto simp: limit_defs Suc_le_eq not_less)

lemma validate_return_url_iff:
  "validate_return_url N urls app url = Inr r \<longleftrightarrow> return_url_acceptable N urls url \<and>
     r = (case url of None \<Rightarrow> app_default_return_url app
       | Some u \<Rightarrow> if trim_space u = [] then app_default_return_url app else Some (trim_space u))"
  by (auto simp: validate_return_url_def return_url_acceptable_def Let_def
        split: option.splits sum.splits)

lemma metadata_cases:
  "(case in_metadata i of None \<Rightarrow> [] | Some m \<Rightarrow> m) = m \<Longrightarrow>
     (length m \<le> 20 \<and> check_metadata m = None) =
     (\<forall>m \<in> set_option (in_metadata i). metadata_within_limits m)"
  by (auto simp: check_metadata_iff metadata_within_limits_def split: option.splits)

lemma validate_iff:
  "validate N urls app key i = Inr j \<longleftrightarrow> acceptable N urls key i \<and> j = normalized app i"
proof -
  let ?m = "case in_metadata i of None \<Rightarrow> [] | Some m \<Rightarrow> m"
  have c: "(if in_currency i = [] then ''RUB'' else in_currency i) = ''RUB'' \<longleftrightarrow>
      in_currency i = [] \<or> in_currency i = ''RUB''" by auto
  have n: "s \<noteq> [] \<longleftrightarrow> 1 \<le> length s" for s :: string by (cases s) auto
  show ?thesis
    unfolding validate_def acceptable_def normalized_def Let_def metadata_cases [OF refl, symmetric] n [symmetric]
    by (auto simp: validate_return_url_iff and_then_eq_Inr limit_defs c
          split: option.splits if_splits)
qed

text \<open>What \<open>api/openapi.yaml\<close> says of the same request (\<open>CreatePaymentRequest\<close> and the parameter
  \<open>IdempotencyKey\<close>). Its lengths are in characters, those of the code in bytes;
  \<open>char_count\<close> is the number of characters of UTF-8 text.\<close>

definition within_schema :: "string \<Rightarrow> create_payment_input \<Rightarrow> bool" where
  "within_schema key i \<longleftrightarrow> key \<noteq> [] \<and> char_count key \<le> 64 \<and> char_count (in_order_id i) \<le> 128 \<and>
     1 \<le> sint (in_amount_minor i) \<and> in_currency i = ''RUB'' \<and> char_count (in_description i) \<le> 128 \<and>
     (\<forall>m \<in> set_option (in_metadata i). length m \<le> 20)"

definition trimmed :: "create_payment_input \<Rightarrow> create_payment_input" where
  "trimmed i = i\<lparr>in_order_id := trim_space (in_order_id i), in_description := trim_space (in_description i)\<rparr>"

definition ascii_text :: "string \<Rightarrow> bool" where
  "ascii_text s \<longleftrightarrow> list_all (\<lambda>c. code_of c < 128) s"

lemma char_count_ascii: "ascii_text s \<Longrightarrow> char_count s = length s"
proof (induction s)
  case (Cons c s)
  then have "rune_len (c # s) = 1" by (simp add: ascii_text_def rune_len.simps(2))
  then have "segments (c # s) = [c] # segments s" by (simp add: segments.simps(2) Let_def)
  then show ?case using Cons by (simp add: char_count_def ascii_text_def)
qed (simp add: char_count_def)

lemma ascii_trim: "ascii_text s \<Longrightarrow> ascii_text (trim_space s)"
  using trim_space_substring [of s] unfolding ascii_text_def
  by (metis list_all_append)

lemma acceptable_within:
  "acceptable N urls key i \<Longrightarrow> within_schema (trim_space key) ((trimmed i)\<lparr>in_currency := ''RUB''\<rparr>)"
  using char_count_le [of "trim_space key"] char_count_le [of "trim_space (in_order_id i)"]
    char_count_le [of "trim_space (in_description i)"]
  by (auto simp: acceptable_def within_schema_def trimmed_def metadata_within_limits_def)

lemma within_acceptable:
  assumes "within_schema (trim_space key) (trimmed i)"
    and "ascii_text key" "ascii_text (in_order_id i)" "ascii_text (in_description i)"
    and "trim_space (in_order_id i) \<noteq> []" "\<forall>m \<in> set_option (in_metadata i). metadata_within_limits m"
    and "return_url_acceptable N urls (in_return_url i)"
  shows "acceptable N urls key i"
  using assms ascii_trim [THEN char_count_ascii]
  by (auto simp: acceptable_def within_schema_def trimmed_def Suc_le_eq)

text \<open>C35. What \<open>validate\<close> accepts, against its own limits and against those of the API document.
  It accepts exactly the requests within the limits of the code, each measured in bytes after trimming,
  and hands on the normalized request: trimmed, in rubles, with the application's default return URL
  where none was given. Such a request, trimmed and with its currency filled in, is within the limits of
  \<open>api/openapi.yaml\<close>, which are in characters. The converse needs ASCII texts, a currency, an order
  id and metadata within the code's own limits: a description of a hundred Cyrillic letters is within the
  documented 128 characters and is refused, and an empty currency is accepted though the document
  requires one.\<close>

theorem validate_accepts_exactly:
  "(validate N urls app key i = Inr j \<longleftrightarrow> acceptable N urls key i \<and> j = normalized app i) \<and>
   (acceptable N urls key i \<longrightarrow> within_schema (trim_space key) ((trimmed i)\<lparr>in_currency := ''RUB''\<rparr>)) \<and>
   (within_schema (trim_space key) (trimmed i) \<and>
      ascii_text key \<and> ascii_text (in_order_id i) \<and> ascii_text (in_description i) \<and>
      trim_space (in_order_id i) \<noteq> [] \<and> (\<forall>m \<in> set_option (in_metadata i). metadata_within_limits m) \<and>
      return_url_acceptable N urls (in_return_url i) \<longrightarrow>
    validate N urls app key i = Inr (normalized app i))"
  using validate_iff acceptable_within within_acceptable by blast

text \<open>Whatever is refused is refused as a validation error, which the handlers answer with 400.\<close>

theorem validate_errors:
  assumes "validate N urls app key i = Inl e"
  shows "err_is e PErrValidation \<and> \<not> acceptable N urls key i"
  using assms validate_refuses [OF assms] validate_iff [of N urls app key i "normalized app i"] by auto

definition demo_net :: net_env where
  "demo_net = \<lparr>url_parse = (\<lambda>_. Inl ''no''), parse_ip = (\<lambda>_. None), lookup_ip = (\<lambda>_. None),
     ip_text = (\<lambda>_. [])\<rparr>"

definition demo_app :: application where
  "demo_app = \<lparr>app_id = 1, app_name = ''shop'', app_slug = ''shop'', app_status = ''active'',
     app_default_return_url = None, app_webhook_url = None, app_created_at = 0, app_updated_at = 0\<rparr>"

definition demo_input :: create_payment_input where
  "demo_input = \<lparr>in_order_id = ''1'', in_amount_minor = 100, in_currency = ''RUB'', in_description = [],
     in_return_url = None, in_metadata = None\<rparr>"

definition demo_urls :: outbound_url_options where
  "demo_urls = \<lparr>allow_http = False, allow_private = False\<rparr>"

definition cyrillic :: "create_payment_input" where
  "cyrillic = demo_input\<lparr>in_description := concat (replicate 100 [CHR 0xD0, CHR 0xB0])\<rparr>"

theorem validate_accepts_exactly_witness:
  "validate demo_net demo_urls demo_app ''k'' demo_input = Inr (normalized demo_app demo_input) \<and>
   validate demo_net demo_urls demo_app ''k'' (demo_input\<lparr>in_currency := []\<rparr>) = Inr (normalized demo_app demo_input) \<and>
   within_schema ''k'' (trimmed cyrillic) \<and>
   validate demo_net demo_urls demo_app ''k'' cyrillic \<noteq> Inr (normalized demo_app cyrillic)"
proof -
  have "within_schema (trim_space ''k'') (trimmed demo_input)" "ascii_text ''k''" "ascii_text (in_order_id demo_input)"
    "ascii_text (in_description demo_input)" "trim_space (in_order_id demo_input) \<noteq> []" by code_simp+
  moreover have "in_metadata demo_input = None" "in_return_url demo_input = None" by (simp_all add: demo_input_def)
  moreover have "acceptable demo_net demo_urls ''k'' (demo_input\<lparr>in_currency := []\<rparr>)"
    "normalized demo_app (demo_input\<lparr>in_currency := []\<rparr>) = normalized demo_app demo_input"
    "within_schema ''k'' (trimmed cyrillic)" by code_simp+
  moreover have "\<not> acceptable demo_net demo_urls ''k'' cyrillic" by code_simp
  ultimately show ?thesis
    using validate_accepts_exactly [of demo_net demo_urls demo_app "''k''" demo_input]
      validate_accepts_exactly [of demo_net demo_urls demo_app "''k''" "demo_input\<lparr>in_currency := []\<rparr>"]
      validate_accepts_exactly [of demo_net demo_urls demo_app "''k''" cyrillic]
    by (auto simp: return_url_acceptable_def)
qed

theorem validate_errors_witness:
  "err_is (invalid ''Idempotency-Key header is required'') PErrValidation"
  using validate_errors [of demo_net "\<lparr>allow_http = False, allow_private = False\<rparr>" demo_app "[]" demo_input]
  by (simp add: validate_def Let_def)

text \<open>C36. The request fingerprint is faithful: two requests (valid UTF-8) with the same fingerprint
  are the same request in every field, or SHA-256 collides on two different texts; so a reused
  Idempotency-Key with a changed body is always detected.\<close>

theorem fingerprint_faithful:
  assumes "input_utf8 i" "input_utf8 j" "request_hash sha i = request_hash sha j"
  shows "same_request i j \<or> (\<exists>a b. a \<noteq> b \<and> sha a = sha b)"
  using request_hash_collision [OF assms] by blast

theorem fingerprint_faithful_witness:
  "request_hash (\<lambda>m. m) demo_input = request_hash (\<lambda>m. m) (demo_input\<lparr>in_return_url := Some []\<rparr>) \<and>
   (same_request demo_input (demo_input\<lparr>in_return_url := Some []\<rparr>) \<or> (\<exists>a b :: bytes. a \<noteq> b \<and> a = b))"
proof
  show e: "request_hash (\<lambda>m. m) demo_input = request_hash (\<lambda>m. m) (demo_input\<lparr>in_return_url := Some []\<rparr>)"
    by (simp add: request_hash_def request_json_def demo_input_def deref_string_def)
  have "utf8_valid []" "utf8_valid ''1''" "utf8_valid ''RUB''" by code_simp+
  then have "input_utf8 demo_input" "input_utf8 (demo_input\<lparr>in_return_url := Some []\<rparr>)"
    by (simp_all add: input_utf8_def demo_input_def deref_string_def valid_map_opt_def)
  from fingerprint_faithful [OF this e]
  show "same_request demo_input (demo_input\<lparr>in_return_url := Some []\<rparr>) \<or> (\<exists>a b :: bytes. a \<noteq> b \<and> a = b)" .
qed

text \<open>C37. A client cannot forge the link between a provider payment and its order: whatever metadata
  it sends, the provider is told this payment's id and order, and every other key is passed on.\<close>

theorem provider_metadata_not_forgeable:
  "map_of (provider_metadata text p) ''payment_id'' = Some (text (pay_id p)) \<and>
   map_of (provider_metadata text p) ''order_id'' = Some (pay_order_id p) \<and>
   (k \<notin> {''payment_id'', ''order_id''} \<longrightarrow>
      map_of (provider_metadata text p) k = map_of (pay_metadata p) k)"
  by (simp add: provider_metadata_def)

definition demo_payment :: payment where
  "demo_payment = \<lparr>pay_id = 5, pay_application_id = 1, pay_provider_account_id = 2, pay_order_id = ''7'',
     pay_attempt_number = 1, pay_provider = ''yookassa'', pay_provider_payment_id = None,
     pay_amount_minor = 100, pay_currency = ''RUB'', pay_description = [], pay_status = StatusCreated,
     pay_checkout_url = None, pay_return_url = None,
     pay_metadata = [(''a'', ''b''), (''payment_id'', ''x'')], pay_created_at = 0, pay_updated_at = 0,
     pay_completed_at = None, pay_next_check_at = None\<rparr>"

theorem provider_metadata_not_forgeable_witness:
  "map_of (provider_metadata (\<lambda>_. ''u'') demo_payment) ''a'' = Some ''b''"
  using provider_metadata_not_forgeable [of "\<lambda>_. ''u''" demo_payment "''a''"]
  by (simp add: demo_payment_def)

end
