(* ===== verification/Slug.thy ===== *)
theory Slug
  imports Encoding
begin

text \<open>
  The slugs of applications (\<open>slugify\<close>, \<open>truncate\<close> and the retry suffix of
  \<open>internal/applications/service.go\<close>). A slug is a sequence of words of small Latin letters and
  digits joined by single hyphens; what is proved is that every generated slug is one, that it fits
  the 64 characters of its column, and that making a slug of a slug gives it back.
\<close>

definition maxSlugLen :: nat where "maxSlugLen = 64"

definition slug_char :: "char \<Rightarrow> bool" where
  "slug_char c \<longleftrightarrow> (97 \<le> code_of c \<and> code_of c \<le> 122) \<or> (48 \<le> code_of c \<and> code_of c \<le> 57)"

abbreviation hyphen :: char where "hyphen \<equiv> CHR ''-''"

text \<open>\<open>nonSlugChars.ReplaceAllString(s, "-")\<close>: each longest run of other characters becomes one
  hyphen. No byte of a character outside ASCII is a slug character, so the bytes can be taken one by
  one; the flag says that the run has been replaced already.\<close>

fun hyphenate :: "bool \<Rightarrow> string \<Rightarrow> string" where
  "hyphenate r [] = []"
| "hyphenate r (c # s) =
     (if slug_char c then c # hyphenate False s
      else if r then hyphenate True s else hyphen # hyphenate True s)"

definition truncate :: "string \<Rightarrow> nat \<Rightarrow> string" where
  "truncate s n = (if length s \<le> n then trim_char hyphen s else trim_char hyphen (take n s))"

definition slugify :: "string \<Rightarrow> string" where
  "slugify name =
     (let slug = trim_char hyphen (hyphenate False (to_lower (trim_space name)))
      in truncate (if slug = [] then ''app'' else slug) maxSlugLen)"

text \<open>The slug of a later attempt of \<open>CreateApplication\<close>: the base, shortened, and a random suffix.\<close>

definition retry_slug :: "string \<Rightarrow> string \<Rightarrow> string" where
  "retry_slug base suffix = truncate base (maxSlugLen - length suffix - 1) @ ''-'' @ suffix"

subsection \<open>Well-formed slugs\<close>

fun no_double :: "string \<Rightarrow> bool" where
  "no_double (a # b # s) \<longleftrightarrow> \<not> (a = hyphen \<and> b = hyphen) \<and> no_double (b # s)"
| "no_double _ \<longleftrightarrow> True"

definition slug_text :: "string \<Rightarrow> bool" where
  "slug_text s \<longleftrightarrow> list_all (\<lambda>c. slug_char c \<or> c = hyphen) s \<and> no_double s"

definition slug_ok :: "string \<Rightarrow> bool" where
  "slug_ok s \<longleftrightarrow> s \<noteq> [] \<and> slug_text s \<and> hd s \<noteq> hyphen \<and> last s \<noteq> hyphen"

lemma hyphen_not_slug [simp]: "\<not> slug_char hyphen"
  by (simp add: slug_char_def)

lemma no_double_Cons: "no_double (c # s) \<longleftrightarrow> (c = hyphen \<longrightarrow> s = [] \<or> hd s \<noteq> hyphen) \<and> no_double s"
  by (cases s) auto

lemma no_double_append:
  "no_double (s @ t) \<longleftrightarrow>
     no_double s \<and> no_double t \<and> \<not> (s \<noteq> [] \<and> t \<noteq> [] \<and> last s = hyphen \<and> hd t = hyphen)"
  by (induction s) (auto simp: no_double_Cons)

lemma slug_text_append:
  "slug_text (s @ t) \<longleftrightarrow>
     slug_text s \<and> slug_text t \<and> \<not> (s \<noteq> [] \<and> t \<noteq> [] \<and> last s = hyphen \<and> hd t = hyphen)"
  by (auto simp: slug_text_def no_double_append)

lemma hyphenate_text: "slug_text (hyphenate r s) \<and> (r \<longrightarrow> hyphenate r s = [] \<or> hd (hyphenate r s) \<noteq> hyphen)"
  by (induction r s rule: hyphenate.induct) (auto simp: slug_text_def no_double_Cons)

lemma slug_text_dropWhile: "slug_text s \<Longrightarrow> slug_text (dropWhile P s)"
  using slug_text_append [of "takeWhile P s" "dropWhile P s"] by simp

lemma trim_right_rest: "\<exists>t. s = trim_right_char c s @ t \<and> set t \<subseteq> {c}"
proof -
  have "rev s = takeWhile (\<lambda>x. x = c) (rev s) @ dropWhile (\<lambda>x. x = c) (rev s)" by simp
  then have "s = rev (dropWhile (\<lambda>x. x = c) (rev s)) @ rev (takeWhile (\<lambda>x. x = c) (rev s))"
    by (metis rev_append rev_rev_ident)
  moreover have "set (rev (takeWhile (\<lambda>x. x = c) (rev s))) \<subseteq> {c}" by (auto dest: set_takeWhileD)
  ultimately show ?thesis unfolding trim_right_char_def by blast
qed

lemma slug_text_trim: "slug_text s \<Longrightarrow> slug_text (trim_char hyphen s)"
proof -
  assume "slug_text s"
  then have d: "slug_text (dropWhile (\<lambda>x. x = hyphen) s)" by (rule slug_text_dropWhile)
  obtain t where "dropWhile (\<lambda>x. x = hyphen) s = trim_char hyphen s @ t"
    using trim_right_rest unfolding trim_char_def by blast
  with d show ?thesis by (simp add: slug_text_append)
qed

lemma slug_text_take: "slug_text s \<Longrightarrow> slug_text (take n s)"
  using slug_text_append [of "take n s" "drop n s"] by simp

lemma trim_slug_ok: "slug_text s \<Longrightarrow> trim_char hyphen s \<noteq> [] \<Longrightarrow> slug_ok (trim_char hyphen s)"
  using trim_char_ends by (auto simp: slug_ok_def intro: slug_text_trim)

lemma length_truncate: "length (truncate s n) \<le> n"
  using length_trim_char [of hyphen s] length_trim_char [of hyphen "take n s"]
  by (auto simp: truncate_def intro: le_trans)

lemma truncate_ok:
  assumes "slug_ok s" "0 < n"
  shows "slug_ok (truncate s n)"
proof -
  let ?t = "if length s \<le> n then s else take n s"
  have t: "slug_text ?t" using assms(1) by (auto simp: slug_ok_def intro: slug_text_take)
  have "hd s \<in> set ?t" using assms by (cases s; cases n) (auto simp: slug_ok_def)
  then have "trim_char hyphen ?t \<noteq> []"
    using assms(1) by (intro trim_char_nonempty) (auto simp: slug_ok_def)
  with trim_slug_ok [OF t] show ?thesis by (auto simp: truncate_def)
qed

lemma slug_ok_app: "slug_ok ''app''"
  by code_simp

lemma slugify_ok: "slug_ok (slugify name)"
proof -
  let ?slug = "trim_char hyphen (hyphenate False (to_lower (trim_space name)))"
  have "slug_ok (if ?slug = [] then ''app'' else ?slug)"
    using trim_slug_ok hyphenate_text slug_ok_app by auto
  then show ?thesis
    unfolding slugify_def Let_def by (rule truncate_ok) (simp add: maxSlugLen_def)
qed

lemma hex_slug: "slug_text (hex_encode bs) \<and> list_all slug_char (hex_encode bs)"
proof -
  have "list_all slug_char ''0123456789abcdef''" by code_simp
  then have "list_all slug_char (hex_encode bs)"
    using hex_encode_alphabet [of bs] by (auto simp: list_all_iff hex_alphabet_def)
  moreover have "no_double s" if "list_all slug_char s" for s
    using that by (induction s) (auto simp: no_double_Cons)
  ultimately show ?thesis by (auto simp: slug_text_def list_all_iff)
qed

lemma retry_slug_ok:
  assumes "slug_ok base" "length bs = 3"
  shows "slug_ok (retry_slug base (hex_encode bs))" "length (retry_slug base (hex_encode bs)) \<le> maxSlugLen"
proof -
  let ?b = "truncate base (maxSlugLen - length (hex_encode bs) - 1)" and ?s = "hex_encode bs"
  have len: "length ?s = 6" using assms(2) by simp
  then have b: "slug_ok ?b" using assms(1) by (intro truncate_ok) (simp_all add: maxSlugLen_def)
  have s: "list_all slug_char ?s" "slug_text ?s" using hex_slug by auto
  have s3: "?s \<noteq> []" using len by (metis list.size(3) zero_neq_numeral)
  then have ends: "hd ?s \<noteq> hyphen" "last ?s \<noteq> hyphen"
    using s(1) s3 hyphen_not_slug unfolding list_all_iff by (metis hd_in_set, metis last_in_set)
  have "slug_text ''-''" by (simp add: slug_text_def)
  then have "slug_text (''-'' @ ?s)" using s(2) ends by (simp add: slug_text_append del: append_Cons append_Nil)
  then show "slug_ok (retry_slug base ?s)"
    using b s3 ends by (auto simp: retry_slug_def slug_ok_def slug_text_append)
  show "length (retry_slug base ?s) \<le> maxSlugLen"
    using length_truncate [of base "maxSlugLen - length ?s - 1"] len
    by (simp add: retry_slug_def maxSlugLen_def)
qed

text \<open>A slug is left as it is.\<close>

lemma hyphenate_fix: "slug_text s \<Longrightarrow> hyphenate False s = s"
proof (induction s)
  case (Cons c s)
  have "slug_text s" using Cons.prems by (auto simp: slug_text_def no_double_Cons)
  show ?case
  proof (cases "slug_char c")
    case True
    then show ?thesis using Cons.IH \<open>slug_text s\<close> by simp
  next
    case False
    then have c: "c = hyphen" using Cons.prems by (simp add: slug_text_def)
    then have hd: "s = [] \<or> hd s \<noteq> hyphen" using Cons.prems by (simp add: slug_text_def no_double_Cons)
    have "hyphenate True s = hyphenate False s"
      using hd \<open>slug_text s\<close> by (cases s) (auto simp: slug_text_def)
    then show ?thesis using Cons.IH \<open>slug_text s\<close> c by simp
  qed
qed simp

lemma to_lower_slug: "list_all (\<lambda>c. slug_char c \<or> c = hyphen) s \<Longrightarrow> to_lower s = s"
  by (induction s rule: to_lower.induct) (auto simp: slug_char_def ascii_lower_def)

lemma slug_plain: "list_all (\<lambda>c. slug_char c \<or> c = hyphen) s \<Longrightarrow> c \<in> set s \<Longrightarrow> plain_char c"
  by (auto simp: list_all_iff slug_char_def plain_char_def space1_def)

lemma slugify_slug:
  assumes "slug_ok s" "length s \<le> maxSlugLen"
  shows "slugify s = s"
proof -
  have chars: "list_all (\<lambda>c. slug_char c \<or> c = hyphen) s" using assms(1) by (simp add: slug_ok_def slug_text_def)
  have "trim_space s = s" by (intro trim_space_plain ballI slug_plain [OF chars])
  moreover have "hyphenate False s = s" using assms(1) by (intro hyphenate_fix) (simp add: slug_ok_def)
  moreover have "trim_char hyphen s = s" using assms(1) by (intro trim_char_fix) (auto simp: slug_ok_def)
  ultimately show ?thesis
    using assms to_lower_slug [OF chars] by (simp add: slugify_def Let_def truncate_def slug_ok_def)
qed

lemma length_slugify: "length (slugify name) \<le> maxSlugLen"
  by (simp add: slugify_def Let_def length_truncate)

subsection \<open>The words of a name\<close>

text \<open>What a slug is made of, said independently of the code: the longest runs of slug characters, in
  order, joined by single hyphens.\<close>

function slug_words :: "string \<Rightarrow> string list" where
  "slug_words [] = []"
| "slug_words (c # s) =
     (if slug_char c then (c # takeWhile slug_char s) # slug_words (dropWhile slug_char s) else slug_words s)"
  by pat_completeness auto
termination by (relation "measure length") (auto simp: le_imp_less_Suc length_dropWhile_le)

fun join_words :: "string list \<Rightarrow> string" where
  "join_words [] = []"
| "join_words [w] = w"
| "join_words (w # v # ws) = w @ hyphen # join_words (v # ws)"

lemma join_words_Cons: "join_words (w # ws) = w @ (if ws = [] then [] else hyphen # join_words ws)"
  by (cases ws) simp_all

lemma slug_words_chars: "w \<in> set (slug_words s) \<Longrightarrow> w \<noteq> [] \<and> list_all slug_char w"
proof (induction s rule: slug_words.induct)
  case (2 c s)
  show ?case
  proof (cases "slug_char c")
    case True
    with 2(1) [OF True] 2(3) show ?thesis by (auto simp: list_all_iff dest: set_takeWhileD)
  next
    case False
    with 2(2) [OF False] 2(3) show ?thesis by simp
  qed
qed simp

lemma slug_words_none: "slug_words s = [] \<longleftrightarrow> list_all (\<lambda>c. \<not> slug_char c) s"
  by (induction s rule: slug_words.induct) auto

text \<open>The hyphen \<open>hyphenate\<close> leaves after the last word.\<close>

definition trailing :: "string \<Rightarrow> string" where
  "trailing s = (if slug_words s \<noteq> [] \<and> \<not> slug_char (last s) then [hyphen] else [])"

lemma hyphenate_word: "hyphenate False (w @ s) = w @ hyphenate False s" if "list_all slug_char w"
  using that by (induction w) simp_all

lemma takeWhile_chars: "\<forall>c \<in> set (takeWhile P s). P c"
  by (auto dest: set_takeWhileD)

lemma hyphenate_words: "hyphenate True s = join_words (slug_words s) @ trailing s"
proof (induction s rule: slug_words.induct)
  case (2 c s)
  show ?case
  proof (cases "slug_char c")
    case False
    have "trailing (c # s) = trailing s"
      using False by (cases "s = []") (simp_all add: trailing_def)
    with False 2(2) show ?thesis by simp
  next
    case True
    let ?d = "dropWhile slug_char s"
    have split: "takeWhile slug_char s @ ?d = s" by simp
    have h: "hyphenate True (c # s) = c # takeWhile slug_char s @ hyphenate False ?d"
    proof -
      have "hyphenate False (takeWhile slug_char s @ ?d) = takeWhile slug_char s @ hyphenate False ?d"
        by (rule hyphenate_word) (simp add: list_all_iff takeWhile_chars)
      then show ?thesis using True unfolding split by (simp only: hyphenate.simps if_True)
    qed
    show ?thesis
    proof (cases ?d)
      case Nil
      then have "list_all slug_char (c # s)" using True by (simp add: dropWhile_eq_Nil_conv list_all_iff)
      then have "slug_char (last (c # s))"
        using last_in_set [of "c # s"] unfolding list_all_iff by blast
      then show ?thesis using h True by (simp add: trailing_def Nil del: last.simps dropWhile_eq_Nil_conv)
    next
      case (Cons e d)
      then have e: "\<not> slug_char e" using hd_dropWhile [of slug_char s] by simp
      have l: "last (c # s) = last ?d"
        using Cons split by (metis last_ConsR last_appendR append_is_Nil_conv list.discI)
      have rest: "join_words (slug_words ?d) @ trailing ?d = hyphenate True d"
        using 2(1) [OF True] e Cons by simp
      have none: "slug_words ?d = [] \<Longrightarrow> \<not> slug_char (last ?d)"
        unfolding slug_words_none list_all_iff using Cons by (metis last_in_set list.discI)
      have "trailing (c # s) = (if slug_char (last ?d) then [] else [hyphen])"
        using True l by (simp add: trailing_def)
      then have "hyphen # hyphenate True d = (if slug_words ?d = [] then [] else hyphen # join_words (slug_words ?d))
          @ trailing (c # s)"
        using rest none by (auto simp: trailing_def)
      then show ?thesis using h True e Cons by (simp add: join_words_Cons)
    qed
  qed
qed (simp add: trailing_def)

lemma join_words_ends:
  assumes "ws \<noteq> []" "\<And>w. w \<in> set ws \<Longrightarrow> w \<noteq> [] \<and> list_all slug_char w"
  shows "join_words ws \<noteq> []" "hd (join_words ws) \<noteq> hyphen" "last (join_words ws) \<noteq> hyphen"
proof -
  have "join_words ws \<noteq> [] \<and> slug_char (hd (join_words ws)) \<and> slug_char (last (join_words ws))"
    using assms
  proof (induction ws)
    case (Cons w ws)
    have w: "w \<noteq> []" "slug_char (hd w)" "slug_char (last w)"
      using Cons.prems(2) [of w] by (auto simp: list_all_iff)
    show ?case
    proof (cases "ws = []")
      case False
      then have "join_words ws \<noteq> [] \<and> slug_char (last (join_words ws))" using Cons by simp
      then show ?thesis using w False by (simp add: join_words_Cons)
    qed (use w in simp)
  qed simp
  then show "join_words ws \<noteq> []" "hd (join_words ws) \<noteq> hyphen" "last (join_words ws) \<noteq> hyphen"
    by auto
qed

lemma trim_char_surrounded:
  assumes "s = [] \<or> hd s \<noteq> c \<and> last s \<noteq> c" "set p \<subseteq> {c}" "set q \<subseteq> {c}"
  shows "trim_char c (p @ s @ q) = s"
proof -
  have all: "dropWhile (\<lambda>x. x = c) t = []" if "set t \<subseteq> {c}" for t
    using that by (auto simp: dropWhile_eq_Nil_conv)
  show ?thesis
  proof (cases "s = []")
    case True
    have "set (p @ q) \<subseteq> {c}" using assms(2,3) by simp
    with all [OF this] True show ?thesis
      by (simp only: append_Nil trim_char_def trim_right_char_def) simp
  next
    case False
    then have "dropWhile (\<lambda>x. x = c) (p @ s @ q) = s @ q"
      using assms(1,2) by (auto simp: dropWhile_append2 subset_iff intro: dropWhile_hd_fix)
    moreover have "dropWhile (\<lambda>x. x = c) (rev q @ rev s) = rev s"
    proof -
      have "dropWhile (\<lambda>x. x = c) (rev q @ rev s) = dropWhile (\<lambda>x. x = c) (rev s)"
        using assms(3) by (intro dropWhile_append2) auto
      also have "\<dots> = rev s" using False assms(1) by (intro dropWhile_hd_fix) (auto simp: hd_rev)
      finally show ?thesis .
    qed
    ultimately show ?thesis by (simp add: trim_char_def trim_right_char_def)
  qed
qed

lemma trim_hyphenate: "trim_char hyphen (hyphenate False s) = join_words (slug_words s)"
proof -
  have "\<exists>p. set p \<subseteq> {hyphen} \<and> hyphenate False s = p @ join_words (slug_words s) @ trailing s"
  proof (cases s)
    case (Cons c t)
    then have "hyphenate False s = (if slug_char c then [] else [hyphen]) @ hyphenate True s" by simp
    then show ?thesis unfolding hyphenate_words by (intro exI [of _ "if slug_char c then [] else [hyphen]"]) simp
  qed (simp add: trailing_def)
  moreover have "set (trailing s) \<subseteq> {hyphen}" by (auto simp: trailing_def)
  moreover have "join_words (slug_words s) = [] \<or>
      hd (join_words (slug_words s)) \<noteq> hyphen \<and> last (join_words (slug_words s)) \<noteq> hyphen"
    using join_words_ends [of "slug_words s"] slug_words_chars by (cases "slug_words s = []") auto
  ultimately show ?thesis using trim_char_surrounded by metis
qed

lemma slugify_words:
  "slugify name = (let ws = slug_words (to_lower (trim_space name)) in
     truncate (if ws = [] then ''app'' else join_words ws) maxSlugLen)"
proof -
  have "join_words ws = [] \<longleftrightarrow> ws = []" if "ws = slug_words s" for ws s
    using that join_words_ends(1) [of ws] slug_words_chars by auto
  then show ?thesis by (simp add: slugify_def trim_hyphenate)
qed

lemma truncate_take: "truncate s n = trim_char hyphen (take n s)"
  by (simp add: truncate_def)

text \<open>The slug of a retry with a suffix of six characters.\<close>

lemma retry_slug_parts:
  assumes "slug_ok base" "length bs = 3"
  shows "\<exists>p t. p \<noteq> [] \<and> take 57 base = p @ t \<and> set t \<subseteq> {hyphen} \<and>
    retry_slug base (hex_encode bs) = p @ ''-'' @ hex_encode bs"
proof -
  have "take 57 base \<noteq> []" "hd (take 57 base) \<noteq> hyphen" using assms(1) by (cases base; simp add: slug_ok_def)+
  then have "trim_char hyphen (take 57 base) = trim_right_char hyphen (take 57 base)"
    by (simp add: trim_char_def dropWhile_hd_fix)
  moreover obtain t where "take 57 base = trim_right_char hyphen (take 57 base) @ t" "set t \<subseteq> {hyphen}"
    using trim_right_rest by blast
  moreover have "truncate base 57 \<noteq> []" using truncate_ok [OF assms(1), of 57] by (simp add: slug_ok_def)
  moreover have "length (hex_encode bs) = 6" using assms(2) by simp
  ultimately show ?thesis by (intro exI [of _ "trim_char hyphen (take 57 base)"] exI [of _ t])
    (simp add: retry_slug_def maxSlugLen_def truncate_take)
qed

end
