(* ===== verification/ApplicationService.thy ===== *)
theory ApplicationService
  imports Slug PaymentService UrlCheck
begin

text \<open>
  \<open>internal/applications/service.go\<close>: the application service as programs over the \<open>world\<close>. What
  the service was wired with (the cipher, \<open>Options\<close>) and the parameters of the model (SHA-256, URL
  parsing and name resolution) are the record \<open>apps_env\<close>; the database pool is the world's.
  \<open>ProviderCredentials\<close> and \<open>mapNotFound\<close> are in \<open>PaymentService\<close>, whose credentials provider
  this service is.
\<close>

record apps_env =
  ap_production :: bool
  ap_cipher :: cipher
  ap_sha :: "bytes \<Rightarrow> bytes"
  ap_net :: net_env

definition apps_urls :: "apps_env \<Rightarrow> outbound_url_options" where
  "apps_urls A = \<lparr>allow_http = \<not> ap_production A, allow_private = \<not> ap_production A\<rparr>"

definition app_validation :: "string \<Rightarrow> go_err" where
  "app_validation msg = Suffixed (Sentinel AErrValidation) msg"

subsection \<open>Inputs\<close>

definition normalize_optional :: "string option \<Rightarrow> string option" where
  "normalize_optional s =
     (case s of None \<Rightarrow> None
      | Some t \<Rightarrow> (let trimmed = trim_space t in if trimmed = [] then None else Some trimmed))"

definition validate_url :: "apps_env \<Rightarrow> string \<Rightarrow> string option \<Rightarrow> go_err + unit" where
  "validate_url A field raw =
     (case raw of
        None \<Rightarrow> Inr ()
      | Some r \<Rightarrow>
          if trim_space r = [] then Inr ()
          else case validate_outbound_url (ap_net A) r (apps_urls A) of
            Inl e \<Rightarrow> Inl (app_validation (field @ '': '' @
              trim_prefix (error_text e) (sentinel_text SErrInvalidURL @ '': '')))
          | Inr _ \<Rightarrow> Inr ())"

definition validate_provider_input :: "attach_provider_input \<Rightarrow> go_err + unit" where
  "validate_provider_input i =
     (if at_provider i \<noteq> ProviderYooKassa then
        Inl (app_validation (''unsupported provider '' @ go_quote (at_provider i)))
      else if at_shop_id i = [] \<or> length (at_shop_id i) > 64 then
        Inl (app_validation ''shop_id is required and must be at most 64 characters'')
      else if at_secret_key i = [] \<or> length (at_secret_key i) > 512 then
        Inl (app_validation ''secret_key is required and must be at most 512 characters'')
      else if at_environment i \<noteq> EnvironmentTest \<and> at_environment i \<noteq> EnvironmentProduction then
        Inl (app_validation (''environment must be '' @ go_quote EnvironmentTest @ '' or '' @
          go_quote EnvironmentProduction))
      else Inr ())"

subsection \<open>Secrets\<close>

definition generate_webhook_secret :: "(go_err + string) action" where
  "generate_webhook_secret =
     bindP (rand_read 32) (\<lambda>r. Ret (case r of
         None \<Rightarrow> Inl (Prefixed ''applications: webhook secret'' (Opaque ''random source''))
       | Some buf \<Rightarrow> Inr (b64_encode RawURLEncoding buf)))"

definition random_hex :: "nat \<Rightarrow> (go_err + string) action" where
  "random_hex n =
     bindP (rand_read n) (\<lambda>r. Ret (case r of
         None \<Rightarrow> Inl (Prefixed ''applications: random suffix'' (Opaque ''random source''))
       | Some buf \<Rightarrow> Inr (hex_encode buf)))"

text \<open>\<open>cipher.Encrypt\<close> draws its nonce.\<close>

definition encrypt_secret :: "apps_env \<Rightarrow> string \<Rightarrow> (go_err + bytes) action" where
  "encrypt_secret A secret =
     bindP (rand_read nonce_len) (\<lambda>r. Ret (encrypt (ap_cipher A) r (bytes_of secret)))"

text \<open>\<open>assertSameSecret\<close>\<close>

definition assert_same_secret :: "apps_env \<Rightarrow> account_row \<Rightarrow> string \<Rightarrow> go_err + unit" where
  "assert_same_secret A row presented =
     (case decrypt (ap_cipher A) (c_encrypted_secret_key row) of
        Inl e \<Rightarrow> Inl (Prefixed ''applications: cannot read the stored provider secret'' e)
      | Inr stored \<Rightarrow>
          if stored \<noteq> bytes_of presented then
            Inl (Suffixed (Sentinel AErrConflict)
              (''shop '' @ c_shop_id row @ '' is already connected with a different secret''))
          else Inr ())"

subsection \<open>API keys\<close>

definition new_api_key :: "uuid \<Rightarrow> key \<Rightarrow> string \<Rightarrow> time option \<Rightarrow> create_api_key_params" where
  "new_api_key app k name expires =
     \<lparr>ck_application_id = app, ck_key_prefix = key_prefix k, ck_key_hash = key_hash k, ck_name = name,
      ck_permissions = [], ck_expires_at = to_timestamp_ptr expires\<rparr>"

definition issue_key ::
  "apps_env \<Rightarrow> conn \<Rightarrow> uuid \<Rightarrow> string \<Rightarrow> time option \<Rightarrow> (go_err + issued_key) action" where
  "issue_key A c app name expires =
     bindP (rand_read token_bytes) (\<lambda>r.
       case generate (ap_sha A) r of
         Inl e \<Rightarrow> Ret (Inl e)
       | Inr k \<Rightarrow>
           let arg = new_api_key app k name expires in
           bindE (exec_when (create_api_key_ready arg c) c (create_api_key arg c)) (\<lambda>row.
             Ret (and_then (to_api_key_info row) (\<lambda>info.
               Inr \<lparr>ik_id = ki_id info, ik_name = ki_name info, ik_prefix = ki_prefix info,
                    ik_full_key = key_full k, ik_expires_at = ki_expires_at info,
                    ik_created_at = ki_created_at info\<rparr>))))"

definition IssueAPIKey ::
  "apps_env \<Rightarrow> uuid \<Rightarrow> string \<Rightarrow> time option \<Rightarrow> (go_err + issued_key) action" where
  "IssueAPIKey A app name expires =
     bindP (exec Pool (get_application app Pool)) (\<lambda>r.
       case r of
         Inl e \<Rightarrow> Ret (Inl (map_not_found e))
       | Inr _ \<Rightarrow>
           let trimmed = trim_space name in
           issue_key A Pool app (if trimmed = [] then ''API key'' else trimmed) expires)"

definition ListAPIKeys :: "uuid \<Rightarrow> (go_err + api_key_info list) action" where
  "ListAPIKeys app =
     bindP (exec Pool (get_application app Pool)) (\<lambda>r.
       case r of
         Inl e \<Rightarrow> Ret (Inl (map_not_found e))
       | Inr _ \<Rightarrow> bindE (exec Pool (list_api_keys app Pool)) (\<lambda>rows. Ret (to_api_key_infos rows)))"

definition RevokeAPIKey :: "uuid \<Rightarrow> uuid \<Rightarrow> (go_err + unit) action" where
  "RevokeAPIKey app key =
     bindE (exec Pool (revoke_api_key key app)) (\<lambda>affected.
       Ret (if affected = 0 then Inl (Sentinel AErrNotFound) else Inr ()))"

text \<open>\<open>Authenticate\<close>: the checks on the row, then those on the application.\<close>

definition key_usable :: "apps_env \<Rightarrow> string \<Rightarrow> time \<Rightarrow> api_key_row \<Rightarrow> bool" where
  "key_usable A presented t row \<longleftrightarrow>
     verify (ap_sha A) (k_key_hash row) presented \<and> k_revoked_at row = None \<and>
     (case k_expires_at row of None \<Rightarrow> True | Some e \<Rightarrow> e > t)"

definition Authenticate :: "apps_env \<Rightarrow> string \<Rightarrow> (go_err + authenticated) action" where
  "Authenticate A presented =
     (if \<not> looks_valid presented then Ret (Inl (Sentinel AErrUnauthorized))
      else bindP (exec Pool (get_api_key_by_prefix (prefix_of presented) Pool)) (\<lambda>r.
        case r of
          Inl e \<Rightarrow> Ret (Inl (if err_is e ErrNoRows then Sentinel AErrUnauthorized else e))
        | Inr row \<Rightarrow>
            bindP get_time (\<lambda>t.
            if \<not> key_usable A presented t row then Ret (Inl (Sentinel AErrUnauthorized))
            else bindP (exec Pool (get_application (k_application_id row) Pool)) (\<lambda>r.
              case r of
                Inl e \<Rightarrow> Ret (Inl (if err_is e ErrNoRows then Sentinel AErrUnauthorized else e))
              | Inr app_row \<Rightarrow>
                  bindE (Ret (to_application app_row)) (\<lambda>app.
                  if \<not> app_active app then Ret (Inl (Sentinel AErrUnauthorized))
                  else bindE (Ret (from_uuid (Some (k_id row)))) (\<lambda>key.
                       bindP (exec Pool (touch_api_key_last_used (k_id row))) (\<lambda>_.
                         Ret (Inr \<lparr>au_application = app, au_key_id = key\<rparr>))))))))"

subsection \<open>Applications\<close>

definition application_params :: "create_application_input \<Rightarrow> string \<Rightarrow> string \<Rightarrow> bytes \<Rightarrow> create_application_params" where
  "application_params i name slug secret =
     \<lparr>cr_name = name, cr_slug = slug, cr_default_return_url = ca_default_return_url i,
      cr_webhook_url = ca_webhook_url i, cr_webhook_secret_encrypted = secret\<rparr>"

text \<open>\<open>createApplicationTx\<close>: the body of the transaction, and the transaction.\<close>

definition insert_application ::
  "apps_env \<Rightarrow> nat \<Rightarrow> string \<Rightarrow> string \<Rightarrow> create_application_input \<Rightarrow> bytes \<Rightarrow>
   (go_err + application \<times> issued_key) action" where
  "insert_application A t slug name i secret =
     (let arg = application_params i name slug secret in
      bindE (exec_when (create_application_ready arg (Tx t)) (Tx t) (create_application arg (Tx t))) (\<lambda>row.
      bindE (Ret (to_application row)) (\<lambda>app.
      bindE (issue_key A (Tx t) (app_id app) ''Default'' None) (\<lambda>key.
      bindP (commit t) (\<lambda>r.
        case r of
          Inl e \<Rightarrow> Ret (Inl (Prefixed ''applications: commit'' e))
        | Inr _ \<Rightarrow> Ret (Inr (app, key)))))))"

definition create_application_tx ::
  "apps_env \<Rightarrow> string \<Rightarrow> string \<Rightarrow> create_application_input \<Rightarrow> bytes \<Rightarrow>
   (go_err + application \<times> issued_key) action" where
  "create_application_tx A slug name i secret =
     bindP begin_tx (\<lambda>r.
       case r of
         Inl e \<Rightarrow> Ret (Inl (Prefixed ''applications: begin'' e))
       | Inr t \<Rightarrow>
           bindP (insert_application A t slug name i secret) (\<lambda>res.
           bindP (rollback t) (\<lambda>_. Ret res)))"

text \<open>The loop over slugs, with the number of attempts left.\<close>

definition attempt_slug :: "string \<Rightarrow> bool \<Rightarrow> (go_err + string) action" where
  "attempt_slug base first =
     (if first then Ret (Inr base)
      else bindE (random_hex 3) (\<lambda>suffix. Ret (Inr (retry_slug base suffix))))"

primrec allocate_slug ::
  "nat \<Rightarrow> apps_env \<Rightarrow> string \<Rightarrow> string \<Rightarrow> create_application_input \<Rightarrow> bytes \<Rightarrow> bool \<Rightarrow>
   (go_err + application \<times> issued_key) action" where
  "allocate_slug 0 A base name i secret first =
     Ret (Inl (Suffixed (Sentinel AErrConflict) ''could not allocate a unique slug''))"
| "allocate_slug (Suc n) A base name i secret first =
     bindE (attempt_slug base first) (\<lambda>slug.
     bindP (create_application_tx A slug name i secret) (\<lambda>r.
       case r of
         Inr res \<Rightarrow> Ret (Inr res)
       | Inl e \<Rightarrow>
           if is_unique_violation e then allocate_slug n A base name i secret False
           else Ret (Inl e)))"

definition CreateApplication ::
  "apps_env \<Rightarrow> create_application_input \<Rightarrow> (go_err + application \<times> provisioned) action" where
  "CreateApplication A input =
     (let name = trim_space (ca_name input) in
      if name = [] \<or> length name > 255 then
        Ret (Inl (app_validation ''name is required and must be at most 255 characters''))
      else
        let i = input\<lparr>ca_default_return_url := normalize_optional (ca_default_return_url input),
                      ca_webhook_url := normalize_optional (ca_webhook_url input)\<rparr> in
        bindE (Ret (validate_url A ''default_return_url'' (ca_default_return_url i))) (\<lambda>_.
        bindE (Ret (validate_url A ''webhook_url'' (ca_webhook_url i))) (\<lambda>_.
        bindE generate_webhook_secret (\<lambda>webhook_secret.
        bindE (encrypt_secret A webhook_secret) (\<lambda>encrypted.
        bindE (allocate_slug 5 A (slugify name) name i encrypted True) (\<lambda>(app, key).
          Ret (Inr (app, \<lparr>pv_api_key = key, pv_webhook_secret = webhook_secret\<rparr>))))))))"

definition GetApplication :: "uuid \<Rightarrow> (go_err + application) action" where
  "GetApplication app =
     bindP (exec Pool (get_application app Pool)) (\<lambda>r.
       case r of Inl e \<Rightarrow> Ret (Inl (map_not_found e)) | Inr row \<Rightarrow> Ret (to_application row))"

definition ListApplications :: "(go_err + application list) action" where
  "ListApplications = bindE (exec Pool (list_applications Pool)) (\<lambda>rows. Ret (to_applications rows))"

definition RotateWebhookSecret :: "apps_env \<Rightarrow> uuid \<Rightarrow> (go_err + string) action" where
  "RotateWebhookSecret A app =
     bindP (exec Pool (get_application app Pool)) (\<lambda>r.
       case r of
         Inl e \<Rightarrow> Ret (Inl (map_not_found e))
       | Inr _ \<Rightarrow>
           bindE generate_webhook_secret (\<lambda>secret.
           bindE (encrypt_secret A secret) (\<lambda>encrypted.
           bindE (exec Pool (update_application_webhook_secret app encrypted)) (\<lambda>_.
             Ret (Inr secret)))))"

subsection \<open>Provider accounts\<close>

text \<open>The account of the shop: the connected one, if its secret is the same, or a new one.\<close>

definition find_or_create_account ::
  "apps_env \<Rightarrow> nat \<Rightarrow> attach_provider_input \<Rightarrow> (go_err + account_row) action" where
  "find_or_create_account A t i =
     bindP (exec (Tx t) (get_provider_account_by_shop (at_provider i) (at_shop_id i) (at_environment i) (Tx t)))
       (\<lambda>r. case r of
          Inr row \<Rightarrow> Ret (and_then (assert_same_secret A row (at_secret_key i)) (\<lambda>_. Inr row))
        | Inl e \<Rightarrow>
            if err_is e ErrNoRows then
              bindE (encrypt_secret A (at_secret_key i)) (\<lambda>encrypted.
                let arg = \<lparr>cc_provider = at_provider i, cc_shop_id = at_shop_id i,
                           cc_encrypted_secret_key = encrypted, cc_environment = at_environment i\<rparr> in
                exec_when (create_account_ready arg (Tx t)) (Tx t) (create_provider_account arg (Tx t)))
            else Ret (Inl e))"

text \<open>The default flag: requested, or kept, or given to the first account.\<close>

definition currently_default :: "(account_row \<times> bool) list \<Rightarrow> uuid \<Rightarrow> bool" where
  "currently_default existing account =
     (case find (\<lambda>(r, _). c_id r = account) existing of None \<Rightarrow> False | Some (_, d) \<Rightarrow> d)"

definition make_default :: "bool \<Rightarrow> (account_row \<times> bool) list \<Rightarrow> uuid \<Rightarrow> bool" where
  "make_default requested existing account \<longleftrightarrow>
     requested \<or> currently_default existing account \<or> existing = []"

definition attach_in_tx ::
  "apps_env \<Rightarrow> nat \<Rightarrow> uuid \<Rightarrow> attach_provider_input \<Rightarrow> (go_err + provider_account) action" where
  "attach_in_tx A t app i =
     bindE (exec (Tx t) (list_provider_accounts app (Tx t))) (\<lambda>existing.
     bindE (find_or_create_account A t i) (\<lambda>row.
       let dflt = make_default (at_is_default i) existing (c_id row) in
       bindE (if dflt then exec_when (clear_default_ready app (Tx t)) (Tx t) (clear_default_provider app (Tx t))
              else Ret (Inr ())) (\<lambda>_.
       bindE (exec_when (attach_ready app (c_id row) dflt (Tx t)) (Tx t)
                (attach_provider_account app (c_id row) dflt (Tx t))) (\<lambda>_.
       bindP (commit t) (\<lambda>r.
         case r of
           Inl e \<Rightarrow> Ret (Inl (Prefixed ''applications: commit'' e))
         | Inr _ \<Rightarrow> Ret (to_provider_account row dflt))))))"

definition AttachProviderAccount ::
  "apps_env \<Rightarrow> uuid \<Rightarrow> attach_provider_input \<Rightarrow> (go_err + provider_account) action" where
  "AttachProviderAccount A app input =
     (let i = input\<lparr>at_provider := trim_space (at_provider input), at_shop_id := trim_space (at_shop_id input),
                    at_environment := trim_space (at_environment input)\<rparr> in
      bindE (Ret (validate_provider_input i)) (\<lambda>_.
      bindP (exec Pool (get_application app Pool)) (\<lambda>r.
        case r of
          Inl e \<Rightarrow> Ret (Inl (map_not_found e))
        | Inr _ \<Rightarrow>
            bindP begin_tx (\<lambda>r.
              case r of
                Inl e \<Rightarrow> Ret (Inl (Prefixed ''applications: begin'' e))
              | Inr t \<Rightarrow>
                  bindP (attach_in_tx A t app i) (\<lambda>res. bindP (rollback t) (\<lambda>_. Ret res))))))"

definition ListProviderAccounts :: "uuid \<Rightarrow> (go_err + provider_account list) action" where
  "ListProviderAccounts app =
     bindP (exec Pool (get_application app Pool)) (\<lambda>r.
       case r of
         Inl e \<Rightarrow> Ret (Inl (map_not_found e))
       | Inr _ \<Rightarrow>
           bindE (exec Pool (list_provider_accounts app Pool)) (\<lambda>rows. Ret (to_provider_accounts rows)))"

definition SetProviderStatus :: "uuid \<Rightarrow> string \<Rightarrow> (go_err + unit) action" where
  "SetProviderStatus account status = exec Pool (update_provider_account_status account status)"

end
