(* ===== verification/KeyStore.thy ===== *)
theory KeyStore
  imports ApplicationService CalmRuns
begin

text \<open>
  API keys as an abstract key ring. \<open>Authenticate\<close>, \<open>IssueAPIKey\<close> and \<open>RevokeAPIKey\<close> work on rows
  that hold a hash and a 16-character prefix; the ring maps each issued key to what was granted with
  it. The relation \<open>keyring_of\<close> links the two, and the service's programs simulate the ring's steps.
\<close>

subsection \<open>Text\<close>

definition ascii_text :: "string \<Rightarrow> bool" where
  "ascii_text s \<longleftrightarrow> list_all (\<lambda>c. 0 < code_of c \<and> code_of c < 128) s"

lemma ascii_segments: "list_all (\<lambda>c. code_of c < 128) s \<Longrightarrow> segments s = map (\<lambda>c. [c]) s"
proof (induction s)
  case (Cons c s)
  then have "rune_len (c # s) = 1" by (simp add: rune_len.simps(2))
  with Cons show ?case by (simp add: segments.simps(2) Let_def)
qed simp

lemma ascii_pg_text: "ascii_text s \<Longrightarrow> pg_text s"
proof -
  assume a: "ascii_text s"
  then have low: "list_all (\<lambda>c. code_of c < 128) s" by (auto simp: ascii_text_def list_all_iff)
  then have "utf8_valid s"
    by (auto simp: utf8_valid_def ascii_segments list_all_iff rune_len.simps(2))
  moreover have "char_of (0 :: nat) \<notin> set s"
  proof
    assume "char_of (0 :: nat) \<in> set s"
    then have "0 < code_of (char_of (0 :: nat))" using a unfolding ascii_text_def list_all_iff by blast
    then show False by simp
  qed
  ultimately show ?thesis by (simp add: pg_text_def)
qed

lemma b64_quanta_alphabet:
  "b64_quanta e s = Some bs \<Longrightarrow> c \<in> set s \<Longrightarrow> b64_val e c \<noteq> None \<or> c = CHR ''=''"
  by (induction e s arbitrary: bs rule: b64_quanta.induct) (auto split: option.splits if_splits)

lemma looks_valid_ascii: "looks_valid s \<Longrightarrow> ascii_text s"
proof -
  assume v: "looks_valid s"
  then obtain bs where p: "has_prefix s KeyPrefix" and
    d: "b64_quanta RawURLEncoding (filter (\<lambda>c. code_of c \<noteq> 13 \<and> code_of c \<noteq> 10) (trim_prefix s KeyPrefix)) = Some bs"
    by (auto simp: looks_valid_def b64_decode_def Let_def split: if_splits)
  have alphabet: "\<forall>c \<in> set url_alphabet. 0 < code_of c \<and> code_of c < 128" by code_simp
  have "0 < code_of c \<and> code_of c < 128" if c: "c \<in> set (trim_prefix s KeyPrefix)" for c
  proof (cases "code_of c \<noteq> 13 \<and> code_of c \<noteq> 10")
    case True
    with c b64_quanta_alphabet [OF d, of c] have "b64_val RawURLEncoding c \<noteq> None \<or> c = CHR ''=''" by simp
    then have "c \<in> set url_alphabet \<or> c = CHR ''=''"
      by (auto simp: b64_val_def RawURLEncoding_def dest!: map_of_SomeD set_zip_leftD)
    then show ?thesis using alphabet by auto
  qed auto
  moreover have "s = KeyPrefix @ trim_prefix s KeyPrefix"
    using has_prefixD [OF p] p by (simp add: trim_prefix_def)
  moreover have "\<forall>c \<in> set KeyPrefix. 0 < code_of c \<and> code_of c < 128" by code_simp
  ultimately show ?thesis
    unfolding ascii_text_def list_all_iff by (metis Un_iff set_append)
qed

lemma looks_valid_prefix_text: "looks_valid s \<Longrightarrow> pg_text (prefix_of s)"
  using looks_valid_ascii [of s]
  by (intro ascii_pg_text) (auto simp: prefix_of_def ascii_text_def list_all_iff dest: in_set_takeD)

subsection \<open>Authentication alone\<close>

text \<open>The answer of \<open>Authenticate\<close> as a function of the rows and the time.\<close>

definition auth_result :: "apps_env \<Rightarrow> string \<Rightarrow> time \<Rightarrow> database \<Rightarrow> go_err + authenticated" where
  "auth_result A presented t d =
     (if \<not> looks_valid presented then Inl (Sentinel AErrUnauthorized)
      else case find (\<lambda>r. k_key_prefix r = prefix_of presented) (db_api_keys d) of
        None \<Rightarrow> Inl (Sentinel AErrUnauthorized)
      | Some row \<Rightarrow>
          if \<not> key_usable A presented t row then Inl (Sentinel AErrUnauthorized)
          else case find (\<lambda>a. a_id a = k_application_id row) (db_applications d) of
            None \<Rightarrow> Inl (Sentinel AErrUnauthorized)
          | Some a \<Rightarrow>
              (case to_application a of
                 Inl e \<Rightarrow> Inl e
               | Inr app \<Rightarrow>
                   if app_active app then Inr \<lparr>au_application = app, au_key_id = k_id row\<rparr>
                   else Inl (Sentinel AErrUnauthorized)))"

text \<open>All it may leave behind is the time of the last use.\<close>

definition touched :: "database \<Rightarrow> database \<Rightarrow> bool" where
  "touched d d' \<longleftrightarrow> (\<exists>key. d' = d \<or> d' = snd (touch_api_key_last_used key d))"

lemma run_Authenticate:
  assumes "calm w"
  shows "\<exists>v. run (Authenticate A s) w = Some (auth_result A s (w_now w) (w_db w), v) \<and>
    touched (w_db w) (w_db v) \<and> calm v \<and> w_now v = w_now w \<and> w_wire v = w_wire w"
proof (cases "looks_valid s")
  case False
  then show ?thesis using assms by (simp add: Authenticate_def auth_result_def touched_def)
next
  case True
  let ?d = "w_db w"
  have look: "run (exec Pool (get_api_key_by_prefix (prefix_of s) Pool)) (at k ?d w) =
      Some (one_row (\<lambda>r. k_key_prefix r = prefix_of s) (db_api_keys ?d), at (Suc k) ?d w)" for k
    using assms looks_valid_prefix_text [OF True]
    by (simp add: calm_run get_api_key_by_prefix_def with_text_def pg_value_def visible_def own_txs_def)
  have app: "run (exec Pool (get_application a Pool)) (at k ?d w) =
      Some (one_row (\<lambda>r. a_id r = a) (db_applications ?d), at (Suc k) ?d w)" for a k
    using assms by (simp add: calm_run get_application_def visible_def own_txs_def)
  have touch: "run (exec Pool (touch_api_key_last_used key)) (at k ?d w) =
      Some (Inr (), at (Suc k) (snd (touch_api_key_last_used key ?d)) w)" for key k
    using assms by (simp add: calm_run touch_api_key_last_used_def)
  have "\<exists>k d'. run (Authenticate A s) (at (w_stmts w) ?d w) = Some (auth_result A s (w_now w) ?d, at k d' w) \<and>
      touched ?d d'"
    using True
    by (auto simp: Authenticate_def auth_result_def run_bindP run_bindE look app touch run_get_time one_row_def
        touched_def split: option.split)
  then show ?thesis using assms by (auto simp: at_self)
qed

subsection \<open>The abstract key ring\<close>

record grant =
  g_id :: uuid
  g_app :: uuid
  g_expires :: "time option"
  g_revoked :: bool

type_synonym keyring = "string \<rightharpoonup> grant"

definition grants :: "keyring \<Rightarrow> (uuid \<rightharpoonup> application) \<Rightarrow> time \<Rightarrow> string \<rightharpoonup> authenticated" where
  "grants ring apps t s =
     (case ring s of
        None \<Rightarrow> None
      | Some g \<Rightarrow>
          if g_revoked g \<or> (\<exists>e \<in> set_option (g_expires g). e \<le> t) then None
          else case apps (g_app g) of
            None \<Rightarrow> None
          | Some a \<Rightarrow> if app_active a then Some \<lparr>au_application = a, au_key_id = g_id g\<rparr> else None)"

definition is_grant :: "uuid \<Rightarrow> uuid \<Rightarrow> grant \<Rightarrow> bool" where
  "is_grant app key g \<longleftrightarrow> g_app g = app \<and> g_id g = key \<and> \<not> g_revoked g"

definition revoke_grant :: "uuid \<Rightarrow> uuid \<Rightarrow> keyring \<Rightarrow> keyring" where
  "revoke_grant app key ring =
     (\<lambda>s. map_option (\<lambda>g. if is_grant app key g then g\<lparr>g_revoked := True\<rparr> else g) (ring s))"

datatype key_op =
    Check string
  | Issue uuid string "time option"
  | Revoke uuid uuid

datatype key_answer =
    Checked "go_err + authenticated"
  | Issued "go_err + issued_key"
  | Revoked "go_err + unit"

text \<open>Issuing may fail in any state, since the random source may; what a ring promises is what a success
  and each other answer mean.\<close>

inductive ring_step ::
  "(uuid \<rightharpoonup> application) \<Rightarrow> time \<Rightarrow> keyring \<Rightarrow> key_op \<Rightarrow> key_answer \<Rightarrow> keyring \<Rightarrow> bool"
  for apps t where
  step_accept: "grants ring apps t s = Some a \<Longrightarrow> ring_step apps t ring (Check s) (Checked (Inr a)) ring"
| step_refuse: "grants ring apps t s = None \<Longrightarrow>
    ring_step apps t ring (Check s) (Checked (Inl (Sentinel AErrUnauthorized))) ring"
| step_issue: "ring (ik_full_key k) = None \<Longrightarrow>
    ring_step apps t ring (Issue app name e) (Issued (Inr k))
      (ring(ik_full_key k \<mapsto> \<lparr>g_id = ik_id k, g_app = app, g_expires = e, g_revoked = False\<rparr>))"
| step_no_issue: "ring_step apps t ring (Issue app name e) (Issued (Inl err)) ring"
| step_revoke: "\<exists>g \<in> ran ring. is_grant app key g \<Longrightarrow>
    ring_step apps t ring (Revoke app key) (Revoked (Inr ())) (revoke_grant app key ring)"
| step_no_revoke: "\<forall>g \<in> ran ring. \<not> is_grant app key g \<Longrightarrow>
    ring_step apps t ring (Revoke app key) (Revoked (Inl (Sentinel AErrNotFound))) ring"

inductive_cases ring_checkE: "ring_step apps t ring (Check s) a ring'"
inductive_cases ring_issueE: "ring_step apps t ring (Issue app name e) a ring'"
inductive_cases ring_revokeE: "ring_step apps t ring (Revoke app key) a ring'"

text \<open>The service's operations on keys, and the rows that stand for a ring.\<close>

fun key_program :: "apps_env \<Rightarrow> key_op \<Rightarrow> key_answer action" where
  "key_program A (Check s) = bindP (Authenticate A s) (\<lambda>r. Ret (Checked r))"
| "key_program A (Issue app name e) = bindP (IssueAPIKey A app name e) (\<lambda>r. Ret (Issued r))"
| "key_program A (Revoke app key) = bindP (RevokeAPIKey app key) (\<lambda>r. Ret (Revoked r))"

definition represents :: "apps_env \<Rightarrow> string \<Rightarrow> grant \<Rightarrow> api_key_row \<Rightarrow> bool" where
  "represents A full g row \<longleftrightarrow> looks_valid full \<and> k_id row = g_id g \<and> k_application_id row = g_app g \<and>
     k_expires_at row = g_expires g \<and> (k_revoked_at row \<noteq> None \<longleftrightarrow> g_revoked g) \<and>
     k_key_prefix row = prefix_of full \<and> k_key_hash row = hash_key (ap_sha A) full"

definition keyring_of :: "apps_env \<Rightarrow> keyring \<Rightarrow> database \<Rightarrow> bool" where
  "keyring_of A ring d \<longleftrightarrow> clash_free api_key_clash (db_api_keys d) \<and>
     (\<forall>row \<in> set (db_api_keys d). \<exists>full g. ring full = Some g \<and> represents A full g row) \<and>
     (\<forall>full g. ring full = Some g \<longrightarrow> (\<exists>row \<in> set (db_api_keys d). represents A full g row))"

definition directory :: "database \<Rightarrow> uuid \<rightharpoonup> application" where
  "directory d a = (case find (\<lambda>r. a_id r = a) (db_applications d) of None \<Rightarrow> None
     | Some r \<Rightarrow> (case to_application r of Inl _ \<Rightarrow> None | Inr app \<Rightarrow> Some app))"

text \<open>What the code relies on of SHA-256: a hash is not empty, and nobody presents a string with the
  hash of an issued key but another text.\<close>

definition hash_ok :: "apps_env \<Rightarrow> bool" where
  "hash_ok A \<longleftrightarrow> (\<forall>m. ap_sha A m \<noteq> [])"

definition no_collision :: "apps_env \<Rightarrow> keyring \<Rightarrow> string \<Rightarrow> bool" where
  "no_collision A ring s \<longleftrightarrow>
     (\<forall>full \<in> dom ring. hash_key (ap_sha A) full = hash_key (ap_sha A) s \<longrightarrow> full = s)"

lemma keyring_row:
  assumes "keyring_of A ring d" "row \<in> set (db_api_keys d)"
  obtains full g where "ring full = Some g" "represents A full g row"
  using assms unfolding keyring_of_def by blast

lemma keyring_grant:
  assumes "keyring_of A ring d" "ring full = Some g"
  obtains row where "row \<in> set (db_api_keys d)" "represents A full g row"
  using assms unfolding keyring_of_def by blast

lemma keyring_prefix:
  assumes "keyring_of A ring d" "row \<in> set (db_api_keys d)" "row' \<in> set (db_api_keys d)"
    "k_key_prefix row = k_key_prefix row'"
  shows "row = row'"
  by (rule akey.no_two [OF _ assms(2,3)]) (use assms(1,4) in \<open>auto simp: keyring_of_def api_key_clash_def\<close>)

lemma verify_iff: "hash_ok A \<Longrightarrow> verify (ap_sha A) (hash_key (ap_sha A) full) s \<longleftrightarrow>
    hash_key (ap_sha A) full = hash_key (ap_sha A) s"
  by (simp add: verify_def hash_ok_def hash_key_def)

lemma auth_refines:
  assumes k: "keyring_of A ring d" and h: "hash_ok A" and n: "no_collision A ring s"
  shows "auth_result A s t d = (case grants ring (directory d) t s of
     None \<Rightarrow> Inl (Sentinel AErrUnauthorized) | Some a \<Rightarrow> Inr a)"
proof (cases "find (\<lambda>r. k_key_prefix r = prefix_of s) (db_api_keys d)")
  case None
  have "ring s = None"
  proof (cases "ring s")
    case (Some g)
    then obtain row where "row \<in> set (db_api_keys d)" "k_key_prefix row = prefix_of s"
      using keyring_grant [OF k] unfolding represents_def by blast
    with None show ?thesis by (auto simp: find_None_iff)
  qed
  with None show ?thesis by (simp add: auth_result_def grants_def)
next
  case (Some row)
  then have row: "row \<in> set (db_api_keys d)" "k_key_prefix row = prefix_of s"
    by (auto simp: find_Some_iff)
  obtain full g where g: "ring full = Some g" "represents A full g row"
    by (rule keyring_row [OF k row(1)])
  have v: "verify (ap_sha A) (k_key_hash row) s \<longleftrightarrow> full = s"
    using g n verify_iff [OF h, of full s] by (auto simp: represents_def no_collision_def dest: domI)
  show ?thesis
  proof (cases "full = s")
    case False
    have "ring s = None"
    proof (cases "ring s")
      case (Some g')
      then obtain row' where row': "row' \<in> set (db_api_keys d)" "represents A s g' row'"
        by (rule keyring_grant [OF k])
      then have "row' = row" using row by (intro keyring_prefix [OF k]) (simp_all add: represents_def)
      then have "hash_key (ap_sha A) full = hash_key (ap_sha A) s"
        using row'(2) g(2) by (simp add: represents_def)
      then show ?thesis using n g(1) False by (auto simp: no_collision_def)
    qed
    then show ?thesis using Some v False by (simp add: auth_result_def grants_def key_usable_def)
  next
    case True
    have valid: "looks_valid s" using g(2) True by (simp add: represents_def)
    have usable: "key_usable A s t row \<longleftrightarrow> \<not> (g_revoked g \<or> (\<exists>e \<in> set_option (g_expires g). e \<le> t))"
      using g(2) v True by (auto simp: key_usable_def represents_def split: option.split)
    show ?thesis
    proof (cases "key_usable A s t row")
      case False
      then show ?thesis using Some usable g(1) True by (simp add: auth_result_def grants_def)
    next
      case use: True
      then have live: "\<not> (g_revoked g \<or> (\<exists>e \<in> set_option (g_expires g). e \<le> t))" using usable by simp
      have "k_application_id row = g_app g" "k_id row = g_id g" using g(2) by (simp_all add: represents_def)
      then show ?thesis
        using valid Some use g(1) \<open>full = s\<close> live
        by (simp add: auth_result_def grants_def directory_def split: option.split)
    qed
  qed
qed

lemma keyring_cong:
  "db_api_keys d' = db_api_keys d \<Longrightarrow> keyring_of A ring d \<Longrightarrow> keyring_of A ring d'"
  by (simp add: keyring_of_def)

text \<open>Rows rewritten one by one.\<close>

lemma keyring_mapped:
  assumes k: "keyring_of A ring d" and d': "db_api_keys d' = map f (db_api_keys d)"
    and keep: "\<And>r. k_id (f r) = k_id r \<and> k_key_prefix (f r) = k_key_prefix r"
    and rep: "\<And>full g r. represents A full g r \<Longrightarrow> represents A full (h g) (f r)"
  shows "keyring_of A (\<lambda>s. map_option h (ring s)) d'"
proof -
  have "clash_free api_key_clash (map f rows)" if "clash_free api_key_clash rows" for rows
    using that keep by (induction rows) (auto simp: free_of_def list_all_iff api_key_clash_def)
  moreover have "\<exists>full g. map_option h (ring full) = Some g \<and> represents A full g (f r)"
    if "r \<in> set (db_api_keys d)" for r
    using keyring_row [OF k that] rep by (metis option.simps(9))
  ultimately show ?thesis
    using k rep unfolding keyring_of_def d' by (fastforce simp: d')
qed

lemma keyring_touched: "touched d d' \<Longrightarrow> keyring_of A ring d \<Longrightarrow> keyring_of A ring d'"
proof -
  assume t: "touched d d'" and k: "keyring_of A ring d"
  show ?thesis
  proof (cases "d' = d")
    case False
    then obtain key where d': "d' = snd (touch_api_key_last_used key d)" using t by (auto simp: touched_def)
    let ?f = "\<lambda>r. if k_id r = key \<and> (case k_last_used_at r of None \<Rightarrow> True | Some t \<Rightarrow> t < db_clock d - one_minute)
      then r\<lparr>k_last_used_at := Some (db_clock d)\<rparr> else r"
    have "keyring_of A (\<lambda>s. map_option (\<lambda>g. g) (ring s)) d'"
      by (rule keyring_mapped [OF k, of _ ?f])
        (auto simp: d' touch_api_key_last_used_def update_where_def represents_def)
    then show ?thesis by (simp add: option.map_ident)
  qed (use k in simp)
qed

subsection \<open>Issuing and revoking alone\<close>

text \<open>\<open>rand.Read\<close> fills the buffer it is given, or fails.\<close>

definition random_ok :: "world \<Rightarrow> bool" where
  "random_ok w \<longleftrightarrow> (\<forall>k n b. w_random w k n = Some b \<longrightarrow> length b = n)"

lemma run_rand_read [calm_run]:
  "run (rand_read m) (at n d w) = Some (w_random w (w_draws w) m, at n d (w\<lparr>w_draws := Suc (w_draws w)\<rparr>))"
  by (simp add: rand_read_def at_def)

lemma calm_draws [simp]: "calm (w\<lparr>w_draws := k\<rparr>) = calm w"
  by (simp add: calm_def)

lemma create_api_key_ready_alone: "db_txs d = [] \<Longrightarrow> create_api_key_ready arg Pool d"
  by (simp add: create_api_key_ready_def foreign_def other_txs_def split: sum.split)

lemma issued_represents:
  assumes "generate (ap_sha A) (Some token) = Inr k" "length token = token_bytes" "hash_ok A"
    and "api_key_values (new_api_key app k name e) u t = Inr row"
  shows "represents A (key_full k) \<lparr>g_id = u, g_app = app, g_expires = e, g_revoked = False\<rparr> row"
proof -
  have k: "looks_valid (key_full k)" "prefix_of (key_full k) = key_prefix k"
    using generate_verifies [OF assms(1,2)] assms(3) by (auto simp: hash_ok_def)
  have "key_hash k = hash_key (ap_sha A) (key_full k)" using assms(1) by (auto simp: generate_def Let_def)
  moreover have "varchar 16 (key_prefix k) = Inr (key_prefix k)"
    using k looks_valid_prefix_text [OF k(1)] length_prefix_of [of "key_full k"]
    by (intro varchar_fits) (simp_all add: prefix_len_def)
  ultimately show ?thesis
    using k assms(4) by (auto simp: api_key_values_def new_api_key_def and_then_eq_Inr represents_def)
qed

lemma run_issue_key:
  assumes c: "calm w" and d: "db_txs d = []" and r: "random_ok w" and h: "hash_ok A"
  shows "\<exists>res k d' w'. run (issue_key A Pool app name e) (at n d w) = Some (res, at k d' w') \<and> calm w' \<and>
    db_txs d' = [] \<and>
    (case res of
       Inl _ \<Rightarrow> db_api_keys d' = db_api_keys d
     | Inr key \<Rightarrow> \<exists>row. db_api_keys d' = db_api_keys d @ [row] \<and> free_of api_key_clash row (db_api_keys d) \<and>
         represents A (ik_full_key key) \<lparr>g_id = ik_id key, g_app = app, g_expires = e, g_revoked = False\<rparr> row)"
proof (cases "generate (ap_sha A) (w_random w (w_draws w) token_bytes)")
  case (Inl err)
  then show ?thesis using c d
    by (intro exI [of _ "Inl err"] exI [of _ n] exI [of _ d] exI [of _ "w\<lparr>w_draws := Suc (w_draws w)\<rparr>"])
      (simp add: issue_key_def run_bindP run_rand_read)
next
  case (Inr k)
  then obtain token where token: "w_random w (w_draws w) token_bytes = Some token"
    by (auto simp: generate_def split: option.splits)
  then have len: "length token = token_bytes" using r by (simp add: random_ok_def)
  let ?w = "w\<lparr>w_draws := Suc (w_draws w)\<rparr>" and ?arg = "new_api_key app k name e"
  have c': "calm ?w" using c by simp
  have ins: "run (exec_when (create_api_key_ready ?arg Pool) Pool (create_api_key ?arg Pool)) (at n d ?w) =
      Some (fst (create_api_key ?arg Pool d), at (Suc n) (snd (create_api_key ?arg Pool d)) ?w)"
    using c' d create_api_key_ready_alone by (simp add: calm_run)
  note run = issue_key_def run_bindP run_bindE run_rand_read Inr ins Let_def
  show ?thesis
  proof (cases "fst (create_api_key ?arg Pool d)")
    case (Inl err)
    then have "db_api_keys (snd (create_api_key ?arg Pool d)) = db_api_keys d \<and> db_txs (snd (create_api_key ?arg Pool d)) = []"
      using d by (auto simp: create_api_key_def fresh_id_def put_api_key_def split: sum.splits if_splits)
    then show ?thesis using c' Inl
      by (intro exI [of _ "Inl err"] exI [of _ "Suc n"] exI [of _ "snd (create_api_key ?arg Pool d)"] exI [of _ ?w])
        (simp add: run)
  next
    case (Inr row)
    then have row: "api_key_values ?arg (db_next d) (db_clock d) = Inr row" "free_of api_key_clash row (db_api_keys d)"
      "db_api_keys (snd (create_api_key ?arg Pool d)) = db_api_keys d @ [row]"
      "db_txs (snd (create_api_key ?arg Pool d)) = []"
      using d by (auto simp: create_api_key_def fresh_id_def put_api_key_def visible_def own_txs_def now_def
          split: sum.splits if_splits)
    have rep: "represents A (key_full k) \<lparr>g_id = db_next d, g_app = app, g_expires = e, g_revoked = False\<rparr> row"
      by (rule issued_represents [OF _ len h row(1)]) (use \<open>generate _ _ = Inr k\<close> token in simp)
    then have "k_id row = db_next d" by (simp add: represents_def)
    with row rep c' Inr show ?thesis
      by (intro exI [of _ "Inr \<lparr>ik_id = db_next d, ik_name = k_name row, ik_prefix = k_key_prefix row,
            ik_full_key = key_full k, ik_expires_at = k_expires_at row, ik_created_at = k_created_at row\<rparr>"]
          exI [of _ "Suc n"] exI [of _ "snd (create_api_key ?arg Pool d)"] exI [of _ ?w])
        (simp add: run to_api_key_info_def)
  qed
qed

lemma run_IssueAPIKey:
  assumes c: "calm w" and d: "db_txs (w_db w) = []" and r: "random_ok w" and h: "hash_ok A"
  shows "\<exists>res v. run (IssueAPIKey A app name e) w = Some (res, v) \<and> calm v \<and> db_txs (w_db v) = [] \<and>
    (case res of
       Inl _ \<Rightarrow> db_api_keys (w_db v) = db_api_keys (w_db w)
     | Inr key \<Rightarrow> \<exists>row. db_api_keys (w_db v) = db_api_keys (w_db w) @ [row] \<and>
         free_of api_key_clash row (db_api_keys (w_db w)) \<and>
         represents A (ik_full_key key) \<lparr>g_id = ik_id key, g_app = app, g_expires = e, g_revoked = False\<rparr> row)"
proof -
  let ?d = "w_db w"
  have look: "run (exec Pool (get_application app Pool)) (at (w_stmts w) ?d w) =
      Some (one_row (\<lambda>r. a_id r = app) (db_applications ?d), at (Suc (w_stmts w)) ?d w)"
    using c by (simp add: calm_run get_application_def visible_def own_txs_def)
  show ?thesis
  proof (cases "one_row (\<lambda>r. a_id r = app) (db_applications ?d)")
    case (Inl err)
    have "run (IssueAPIKey A app name e) (at (w_stmts w) ?d w) =
        Some (Inl (map_not_found err), at (Suc (w_stmts w)) ?d w)"
      by (simp add: IssueAPIKey_def run_bindP look Inl)
    then show ?thesis using c d
      by (intro exI [of _ "Inl (map_not_found err)"] exI [of _ "at (Suc (w_stmts w)) ?d w"]) (simp add: at_self)
  next
    case (Inr a)
    let ?name = "if trim_space name = [] then ''API key'' else trim_space name"
    obtain res k d' w' where res: "run (issue_key A Pool app ?name e) (at (Suc (w_stmts w)) ?d w) = Some (res, at k d' w')"
      "calm w'" "db_txs d' = []"
      "case res of
         Inl _ \<Rightarrow> db_api_keys d' = db_api_keys ?d
       | Inr key \<Rightarrow> \<exists>row. db_api_keys d' = db_api_keys ?d @ [row] \<and> free_of api_key_clash row (db_api_keys ?d) \<and>
           represents A (ik_full_key key) \<lparr>g_id = ik_id key, g_app = app, g_expires = e, g_revoked = False\<rparr> row"
      using run_issue_key [OF c d r h, of app ?name e "Suc (w_stmts w)"] by blast
    have "run (IssueAPIKey A app name e) (at (w_stmts w) ?d w) = Some (res, at k d' w')"
      using res(1) by (simp add: IssueAPIKey_def run_bindP look Inr Let_def)
    then show ?thesis using res(2-4)
      by (intro exI [of _ res] exI [of _ "at k d' w'"]) (cases res, auto simp: at_self)
  qed
qed

lemma run_RevokeAPIKey:
  assumes "calm w"
  shows "\<exists>v. run (RevokeAPIKey app key) w =
      Some (if \<exists>r \<in> set (db_api_keys (w_db w)). k_id r = key \<and> k_application_id r = app \<and> k_revoked_at r = None
            then Inr () else Inl (Sentinel AErrNotFound), v) \<and>
    w_db v = snd (revoke_api_key key app (w_db w)) \<and> calm v"
proof -
  let ?d = "w_db w"
  have "run (RevokeAPIKey app key) (at (w_stmts w) ?d w) =
      Some (if \<exists>r \<in> set (db_api_keys ?d). k_id r = key \<and> k_application_id r = app \<and> k_revoked_at r = None
            then Inr () else Inl (Sentinel AErrNotFound),
        at (Suc (w_stmts w)) (snd (revoke_api_key key app ?d)) w)"
    using assms by (simp add: RevokeAPIKey_def run_bindE calm_run revoke_api_key_def Let_def filter_empty_conv)
  then show ?thesis using assms by (simp add: at_self)
qed

lemma keyring_revoked:
  assumes "keyring_of A ring d"
  shows "keyring_of A (revoke_grant app key ring) (snd (revoke_api_key key app d))"
  unfolding revoke_grant_def
  by (rule keyring_mapped [OF assms, where f = "\<lambda>r. if k_id r = key \<and> k_application_id r = app \<and> k_revoked_at r = None
        then r\<lparr>k_revoked_at := Some (db_clock d)\<rparr> else r"])
    (auto simp: revoke_api_key_def Let_def update_where_def represents_def is_grant_def)

lemma keyring_grant_iff:
  assumes "keyring_of A ring d"
  shows "(\<exists>g \<in> ran ring. is_grant app key g) \<longleftrightarrow>
    (\<exists>r \<in> set (db_api_keys d). k_id r = key \<and> k_application_id r = app \<and> k_revoked_at r = None)"
proof
  assume "\<exists>g \<in> ran ring. is_grant app key g"
  then obtain s g where g: "ring s = Some g" "is_grant app key g" by (auto simp: ran_def)
  obtain row where "row \<in> set (db_api_keys d)" "represents A s g row" by (rule keyring_grant [OF assms g(1)])
  with g(2) show "\<exists>r \<in> set (db_api_keys d). k_id r = key \<and> k_application_id r = app \<and> k_revoked_at r = None"
    by (intro bexI [of _ row]) (auto simp: represents_def is_grant_def)
next
  assume "\<exists>r \<in> set (db_api_keys d). k_id r = key \<and> k_application_id r = app \<and> k_revoked_at r = None"
  then obtain r where r: "r \<in> set (db_api_keys d)" "k_id r = key" "k_application_id r = app" "k_revoked_at r = None"
    by blast
  obtain s g where "ring s = Some g" "represents A s g r" by (rule keyring_row [OF assms r(1)])
  with r show "\<exists>g \<in> ran ring. is_grant app key g"
    by (intro bexI [of _ g]) (auto simp: represents_def is_grant_def ran_def)
qed

lemma keyring_issued:
  assumes k: "keyring_of A ring d" and d': "db_api_keys d' = db_api_keys d @ [row]"
    and f: "free_of api_key_clash row (db_api_keys d)" and r: "represents A full g row"
  shows "ring full = None \<and> keyring_of A (ring(full \<mapsto> g)) d'"
proof
  show none: "ring full = None"
  proof (cases "ring full")
    case (Some g')
    then obtain row' where "row' \<in> set (db_api_keys d)" "represents A full g' row'" by (rule keyring_grant [OF k])
    then show ?thesis using f r by (auto simp: akey.free_set api_key_clash_def represents_def)
  qed
  have "\<exists>s g'. (ring(full \<mapsto> g)) s = Some g' \<and> represents A s g' x" if x: "x \<in> set (db_api_keys d)" for x
  proof -
    obtain s g' where s: "ring s = Some g'" "represents A s g' x" by (rule keyring_row [OF k x])
    then have "s \<noteq> full" using none by auto
    with s show ?thesis by (intro exI [of _ s] exI [of _ g']) simp
  qed
  moreover have "\<exists>x \<in> set (db_api_keys d @ [row]). represents A s g' x" if "(ring(full \<mapsto> g)) s = Some g'" for s g'
  proof (cases "s = full")
    case True
    then show ?thesis using that r by auto
  next
    case False
    then have s: "ring s = Some g'" using that by simp
    obtain x where "x \<in> set (db_api_keys d)" "represents A s g' x" by (rule keyring_grant [OF k s])
    then show ?thesis by auto
  qed
  moreover have "clash_free api_key_clash (db_api_keys d @ [row])"
    using k f by (simp add: akey.snoc_iff keyring_of_def)
  ultimately show "keyring_of A (ring(full \<mapsto> g)) d'"
    using r unfolding keyring_of_def d' by auto
qed

text \<open>The programs simulate the ring.\<close>

lemma simulates_check:
  assumes "keyring_of A ring (w_db w)" "calm w" "db_txs (w_db w) = []" "random_ok w" "hash_ok A" "no_collision A ring s"
  shows "\<exists>ans v ring'. run (key_program A (Check s)) w = Some (ans, v) \<and>
    ring_step (directory (w_db w)) (w_now w) ring (Check s) ans ring' \<and> keyring_of A ring' (w_db v)"
proof -
  obtain v where v: "run (Authenticate A s) w = Some (auth_result A s (w_now w) (w_db w), v)"
    "touched (w_db w) (w_db v)"
    using run_Authenticate [OF assms(2)] by blast
  let ?g = "grants ring (directory (w_db w)) (w_now w) s"
  have "ring_step (directory (w_db w)) (w_now w) ring (Check s) (Checked (auth_result A s (w_now w) (w_db w))) ring"
    unfolding auth_refines [OF assms(1,5,6)]
    by (cases ?g) (auto intro: step_accept step_refuse)
  then show ?thesis
    using v keyring_touched [OF v(2) assms(1)]
    by (intro exI [of _ "Checked _"] exI [of _ v] exI [of _ ring]) (simp add: run_bindP)
qed

lemma simulates_issue:
  assumes "keyring_of A ring (w_db w)" "calm w" "db_txs (w_db w) = []" "random_ok w" "hash_ok A"
  shows "\<exists>ans v ring'. run (key_program A (Issue app name e)) w = Some (ans, v) \<and>
    ring_step (directory (w_db w)) (w_now w) ring (Issue app name e) ans ring' \<and> keyring_of A ring' (w_db v)"
proof -
  obtain res v where v: "run (IssueAPIKey A app name e) w = Some (res, v)"
    and c: "case res of
       Inl _ \<Rightarrow> db_api_keys (w_db v) = db_api_keys (w_db w)
     | Inr key \<Rightarrow> \<exists>row. db_api_keys (w_db v) = db_api_keys (w_db w) @ [row] \<and>
         free_of api_key_clash row (db_api_keys (w_db w)) \<and>
         represents A (ik_full_key key) \<lparr>g_id = ik_id key, g_app = app, g_expires = e, g_revoked = False\<rparr> row"
    using run_IssueAPIKey [OF assms(2-5)] by blast
  show ?thesis
  proof (cases res)
    case (Inl err)
    then show ?thesis
      using v c keyring_cong [OF _ assms(1)]
      by (intro exI [of _ "Issued res"] exI [of _ v] exI [of _ ring]) (auto simp: run_bindP intro: step_no_issue)
  next
    case (Inr key)
    with c obtain row where row: "db_api_keys (w_db v) = db_api_keys (w_db w) @ [row]"
      "free_of api_key_clash row (db_api_keys (w_db w))"
      "represents A (ik_full_key key) \<lparr>g_id = ik_id key, g_app = app, g_expires = e, g_revoked = False\<rparr> row"
      by auto
    from keyring_issued [OF assms(1) row] show ?thesis
      using v Inr
      by (intro exI [of _ "Issued res"] exI [of _ v] exI) (auto simp: run_bindP intro: step_issue)
  qed
qed

lemma simulates_revoke:
  assumes "keyring_of A ring (w_db w)" "calm w" "db_txs (w_db w) = []" "random_ok w" "hash_ok A"
  shows "\<exists>ans v ring'. run (key_program A (Revoke app key)) w = Some (ans, v) \<and>
    ring_step (directory (w_db w)) (w_now w) ring (Revoke app key) ans ring' \<and> keyring_of A ring' (w_db v)"
proof -
  obtain v where v: "run (RevokeAPIKey app key) w =
      Some (if \<exists>r \<in> set (db_api_keys (w_db w)). k_id r = key \<and> k_application_id r = app \<and> k_revoked_at r = None
            then Inr () else Inl (Sentinel AErrNotFound), v)"
    "w_db v = snd (revoke_api_key key app (w_db w))"
    using run_RevokeAPIKey [OF assms(2)] by blast
  have k: "keyring_of A (revoke_grant app key ring) (w_db v)"
    unfolding v(2) by (rule keyring_revoked [OF assms(1)])
  show ?thesis
  proof (cases "\<exists>g \<in> ran ring. is_grant app key g")
    case True
    then show ?thesis
      using v k keyring_grant_iff [OF assms(1), of app key]
      by (intro exI [of _ "Revoked (Inr ())"] exI [of _ v] exI [of _ "revoke_grant app key ring"])
        (auto simp: run_bindP intro: step_revoke)
  next
    case False
    then have "map_option (\<lambda>g. if is_grant app key g then g\<lparr>g_revoked := True\<rparr> else g) (ring s) = ring s" for s
      by (cases "ring s") (auto simp: ran_def)
    then have "revoke_grant app key ring = ring" by (simp add: revoke_grant_def)
    then show ?thesis
      using v k keyring_grant_iff [OF assms(1), of app key] False
      by (intro exI [of _ "Revoked (Inl (Sentinel AErrNotFound))"] exI [of _ v] exI [of _ ring])
        (auto simp: run_bindP intro: step_no_revoke)
  qed
qed

lemma key_program_simulates:
  assumes "keyring_of A ring (w_db w)" "calm w" "db_txs (w_db w) = []" "random_ok w" "hash_ok A"
    and "\<And>s. op = Check s \<Longrightarrow> no_collision A ring s"
  shows "\<exists>ans v ring'. run (key_program A op) w = Some (ans, v) \<and>
    ring_step (directory (w_db w)) (w_now w) ring op ans ring' \<and> keyring_of A ring' (w_db v)"
proof (cases op)
  case (Check s)
  then have "no_collision A ring s" by (rule assms(6))
  with Check simulates_check [OF assms(1-5)] show ?thesis by simp
qed (use simulates_issue [OF assms(1-5)] simulates_revoke [OF assms(1-5)] in simp_all)

end
