(* ===== verification/KeyLifecycle.thy ===== *)
theory KeyLifecycle
  imports KeyStore
begin

text \<open>
  The life of an issued API key alone: what \<open>Authenticate\<close> answers for it once its row is stored,
  when it expires, and after its application has revoked it.
\<close>

lemma find_by_prefix:
  assumes "clash_free api_key_clash rows" "row \<in> set rows"
  shows "find (\<lambda>r. k_key_prefix r = k_key_prefix row) rows = Some row"
proof (cases "find (\<lambda>r. k_key_prefix r = k_key_prefix row) rows")
  case None
  with assms(2) show ?thesis by (auto simp: find_None_iff)
next
  case (Some row')
  then have "row' \<in> set rows" "k_key_prefix row' = k_key_prefix row" by (auto simp: find_Some_iff)
  then have "row' = row" by (intro akey.no_two [OF assms(1) _ assms(2)]) (simp_all add: api_key_clash_def)
  with Some show ?thesis by simp
qed

text \<open>The answer for a stored key: its grant and its application decide.\<close>

lemma auth_stored:
  assumes "clash_free api_key_clash (db_api_keys d)" "row \<in> set (db_api_keys d)"
    and r: "represents A full g row" and "hash_ok A" and a: "directory d (g_app g) = Some a"
  shows "auth_result A full t d =
    (if g_revoked g \<or> (\<exists>e. g_expires g = Some e \<and> e \<le> t) \<or> \<not> app_active a
     then Inl (Sentinel AErrUnauthorized) else Inr \<lparr>au_application = a, au_key_id = g_id g\<rparr>)"
proof -
  have p: "looks_valid full" "k_key_prefix row = prefix_of full" "k_application_id row = g_app g" "k_id row = g_id g"
    using r by (simp_all add: represents_def)
  have u: "key_usable A full t row \<longleftrightarrow> \<not> (g_revoked g \<or> (\<exists>e. g_expires g = Some e \<and> e \<le> t))"
    using r verify_iff [OF assms(4), of full full] by (auto simp: key_usable_def represents_def split: option.split)
  show ?thesis
    using a find_by_prefix [OF assms(1,2)] p u
    by (auto simp: auth_result_def directory_def split: option.splits)
qed

lemma directory_keys: "directory (snd (revoke_api_key key app d)) = directory d"
  by (simp add: directory_def [abs_def] revoke_api_key_def Let_def)

text \<open>The state a key is issued in.\<close>

definition key_in_store :: "apps_env \<Rightarrow> uuid \<Rightarrow> time option \<Rightarrow> issued_key \<Rightarrow> database \<Rightarrow> bool" where
  "key_in_store A app e k d \<longleftrightarrow> clash_free api_key_clash (db_api_keys d) \<and>
     (\<exists>row \<in> set (db_api_keys d). represents A (ik_full_key k)
        \<lparr>g_id = ik_id k, g_app = app, g_expires = e, g_revoked = False\<rparr> row)"

lemma issued_in_store:
  assumes "clash_free api_key_clash (db_api_keys (w_db w))" "calm w" "db_txs (w_db w) = []" "random_ok w" "hash_ok A"
    and "run (IssueAPIKey A app name e) w = Some (Inr k, v)"
  shows "key_in_store A app e k (w_db v) \<and> calm v"
  using run_IssueAPIKey [OF assms(2-5), of app name e] assms(1,6)
  by (auto simp: key_in_store_def akey.snoc_iff)

lemma authenticate_in_store:
  assumes "key_in_store A app e k (w_db v)" "calm v" "hash_ok A" "directory (w_db v) app = Some a" "app_active a"
  shows "\<exists>u. run (Authenticate A (ik_full_key k)) v = Some
    (if (\<exists>x. e = Some x \<and> x \<le> w_now v) then Inl (Sentinel AErrUnauthorized)
     else Inr \<lparr>au_application = a, au_key_id = ik_id k\<rparr>, u)"
proof -
  obtain row where "row \<in> set (db_api_keys (w_db v))" "clash_free api_key_clash (db_api_keys (w_db v))"
    "represents A (ik_full_key k) \<lparr>g_id = ik_id k, g_app = app, g_expires = e, g_revoked = False\<rparr> row"
    using assms(1) by (auto simp: key_in_store_def)
  then show ?thesis
    using auth_stored [OF _ _ _ assms(3), of "w_db v" row "ik_full_key k" _ a "w_now v"] assms(4,5)
      run_Authenticate [OF assms(2), of A "ik_full_key k"] by auto
qed

lemma revoked_in_store:
  assumes k: "key_in_store A app e k (w_db v)" and "calm v" "hash_ok A"
  shows "\<exists>u. run (RevokeAPIKey app (ik_id k)) v = Some (Inr (), u) \<and> calm u \<and>
    (\<forall>t. \<exists>x. run (Authenticate A (ik_full_key k)) (u\<lparr>w_now := t\<rparr>) = Some (Inl (Sentinel AErrUnauthorized), x))"
proof -
  let ?d = "w_db v" and ?f = "ik_full_key k"
  let ?g = "\<lparr>g_id = ik_id k, g_app = app, g_expires = e, g_revoked = False\<rparr>"
  obtain row where row: "row \<in> set (db_api_keys ?d)" "clash_free api_key_clash (db_api_keys ?d)" "represents A ?f ?g row"
    using k by (auto simp: key_in_store_def)
  then have hit: "k_id row = ik_id k" "k_application_id row = app" "k_revoked_at row = None"
    by (simp_all add: represents_def)
  have "\<exists>r \<in> set (db_api_keys ?d). k_id r = ik_id k \<and> k_application_id r = app \<and> k_revoked_at r = None"
    using row(1) hit by blast
  then obtain u where u: "run (RevokeAPIKey app (ik_id k)) v = Some (Inr (), u)"
    "w_db u = snd (revoke_api_key (ik_id k) app ?d)" "calm u"
    using run_RevokeAPIKey [OF assms(2), of app "ik_id k"] by auto
  let ?upd = "\<lambda>r. if k_id r = ik_id k \<and> k_application_id r = app \<and> k_revoked_at r = None
     then r\<lparr>k_revoked_at := Some (db_clock ?d)\<rparr> else r"
  have keys: "db_api_keys (w_db u) = map ?upd (db_api_keys ?d)"
    by (simp add: u(2) revoke_api_key_def Let_def update_where_def)
  have "\<exists>x. run (Authenticate A ?f) (u\<lparr>w_now := t\<rparr>) = Some (Inl (Sentinel AErrUnauthorized), x)" for t
  proof -
    have find: "find (\<lambda>r. k_key_prefix r = prefix_of ?f) (map ?upd rows) =
        map_option ?upd (find (\<lambda>r. k_key_prefix r = prefix_of ?f) rows)" for rows
      by (induction rows) auto
    have "find (\<lambda>r. k_key_prefix r = prefix_of ?f) (db_api_keys ?d) = Some row"
      using find_by_prefix [OF row(2,1)] row(3) by (simp add: represents_def)
    then have "auth_result A ?f t (w_db u) = Inl (Sentinel AErrUnauthorized)"
      using hit by (simp add: auth_result_def keys find key_usable_def)
    then show ?thesis
      using run_Authenticate [of "u\<lparr>w_now := t\<rparr>" A ?f] u(3) by (auto simp: calm_def)
  qed
  with u show ?thesis by blast
qed

text \<open>Another application cannot revoke the key.\<close>

lemma foreign_revoke:
  assumes k: "key_in_store A app e k (w_db v)" and "calm v" "other \<noteq> app"
  shows "\<exists>u. run (RevokeAPIKey other (ik_id k)) v = Some (Inl (Sentinel AErrNotFound), u) \<and>
    db_api_keys (w_db u) = db_api_keys (w_db v)"
proof -
  obtain row where row: "row \<in> set (db_api_keys (w_db v))" "clash_free api_key_clash (db_api_keys (w_db v))"
    "k_id row = ik_id k" "k_application_id row = app"
    using k by (auto simp: key_in_store_def represents_def)
  have none: "\<not> (k_id r = ik_id k \<and> k_application_id r = other)" if "r \<in> set (db_api_keys (w_db v))" for r
  proof
    assume r: "k_id r = ik_id k \<and> k_application_id r = other"
    then have "r = row" using row that by (intro akey.no_two [OF row(2)]) (simp_all add: api_key_clash_def)
    with r row(4) assms(3) show False by simp
  qed
  then have "db_api_keys (snd (revoke_api_key (ik_id k) other (w_db v))) = db_api_keys (w_db v)"
    by (simp add: revoke_api_key_def Let_def update_where_def) (rule map_idI, metis)
  moreover have "\<not> (\<exists>r \<in> set (db_api_keys (w_db v)). k_id r = ik_id k \<and> k_application_id r = other \<and> k_revoked_at r = None)"
    using none by blast
  ultimately show ?thesis
    using run_RevokeAPIKey [OF assms(2), of other "ik_id k"] by auto
qed

end
