(* ===== verification/KeyProperties.thy ===== *)
theory KeyProperties
  imports KeyLifecycle Demo
begin

text \<open>
  Properties of API keys and of the names of applications: the service's operations on keys refine an
  abstract key ring, an issued key opens its application until it expires or is revoked, and slugs
  are well formed. The witnesses run on the demo installation with a random source that answers.
\<close>

definition demo_apps :: apps_env where
  "demo_apps = \<lparr>ap_production = True, ap_cipher = demo_cipher, ap_sha = (\<lambda>m. word_of_nat (length m) # m),
     ap_net = se_net demo_env\<rparr>"

definition demo_random :: world where
  "demo_random = (demo_world (\<lambda>_. HttpResp 200 ''pending''))\<lparr>w_random := (\<lambda>_ n. Some (replicate n 0))\<rparr>"

lemma demo_random_simps [simp]:
  "w_db demo_random = demo_db" "calm demo_random" "random_ok demo_random" "w_now demo_random = 0"
  by (simp_all add: demo_random_def demo_world_def calm_def random_ok_def)

lemma demo_hash_ok: "hash_ok demo_apps"
  by (simp add: hash_ok_def demo_apps_def)

lemma demo_no_keys: "keyring_of demo_apps (\<lambda>_. None) demo_db"
  by (simp add: keyring_of_def demo_db_def)

lemma demo_no_txs [simp]: "db_txs demo_db = []"
  by (simp add: demo_db_def)

definition demo_key :: string where
  "demo_key = key_full (projr (generate (ap_sha demo_apps) (Some (replicate token_bytes 0))))"

text \<open>Issuing the first key of the demo installation.\<close>

lemma create_api_key_apps: "db_applications (snd (create_api_key arg Pool d)) = db_applications d"
  by (auto simp: create_api_key_def fresh_id_def put_api_key_def split: sum.split)

lemma demo_issue:
  obtains k v where "run (IssueAPIKey demo_apps 1 ''n'' None) demo_random = Some (Inr k, v)"
    "db_applications (w_db v) = db_applications demo_db"
proof -
  have look: "run (exec Pool (get_application 1 Pool)) (at 0 demo_db demo_random) =
      Some (one_row (\<lambda>r. a_id r = 1) (db_applications demo_db), at 1 demo_db demo_random)"
    by (simp add: calm_run get_application_def visible_def own_txs_def)
  have found: "\<exists>r. one_row (\<lambda>r. a_id r = 1) (db_applications demo_db) = Inr r"
    by (simp add: one_row_def demo_db_def)
  let ?g = "generate (ap_sha demo_apps) (Some (replicate token_bytes 0))"
  obtain k where k: "?g = Inr k" by (simp add: generate_def Let_def)
  have valid: "looks_valid (key_full k)" "prefix_of (key_full k) = key_prefix k"
    using generate_verifies [OF k] demo_hash_ok by (auto simp: hash_ok_def)
  have "varchar 16 (key_prefix k) = Inr (key_prefix k)"
    using valid looks_valid_prefix_text [OF valid(1)] length_prefix_of [of "key_full k"]
    by (intro varchar_fits) (simp_all add: prefix_len_def)
  moreover have "varchar 255 ''n'' = Inr ''n''" "trim_space ''n'' = ''n''" by code_simp+
  ultimately have row: "\<exists>row. fst (create_api_key (new_api_key 1 k ''n'' None) Pool demo_db) = Inr row"
    by (simp add: create_api_key_def fresh_id_def api_key_values_def new_api_key_def visible_def own_txs_def demo_db_def)
  have ready: "create_api_key_ready (new_api_key 1 k ''n'' None) Pool demo_db"
    by (rule create_api_key_ready_alone) simp
  have "w_random demo_random (w_draws demo_random) token_bytes = Some (replicate token_bytes 0)"
    by (simp add: demo_random_def)
  with look found k row ready \<open>trim_space ''n'' = ''n''\<close>
  have "\<exists>key v. run (IssueAPIKey demo_apps 1 ''n'' None) (at 0 demo_db demo_random) = Some (Inr key, v) \<and>
      db_applications (w_db v) = db_applications demo_db"
    by (auto simp: create_api_key_apps IssueAPIKey_def issue_key_def run_bindP run_bindE run_rand_read run_exec_when Let_def
        to_api_key_info_def)
  moreover have "at 0 demo_db demo_random = demo_random"
    by (simp add: at_def demo_random_def demo_world_def)
  ultimately show thesis using that by auto
qed

subsection \<open>The key ring\<close>

text \<open>C9. The service's operations on API keys simulate an abstract key ring that maps the text of each
  issued key to its application, expiry and revocation. In a database whose rows represent a ring,
  checking, issuing or revoking a key returns, answers what a step of the ring answers (a presented
  key is accepted exactly when the ring holds it unrevoked, unexpired and for an active application,
  every refusal is the same \<open>ErrUnauthorized\<close>), and leaves rows that represent the ring after the
  step. It relies on SHA-256 giving a non-empty hash and on nobody presenting another text with the
  hash of an issued key.\<close>

theorem keys_refine_ring:
  assumes "keyring_of A ring (w_db w)" "calm w" "db_txs (w_db w) = []" "random_ok w" "hash_ok A"
    and "\<forall>s. op = Check s \<longrightarrow> no_collision A ring s"
  shows "\<exists>ans v ring'. run (key_program A op) w = Some (ans, v) \<and>
    ring_step (directory (w_db w)) (w_now w) ring op ans ring' \<and> keyring_of A ring' (w_db v)"
  using key_program_simulates [OF assms(1-5)] assms(6) by blast

theorem keys_refine_ring_witness:
  "\<exists>ans v ring'. run (key_program demo_apps (Issue 1 ''n'' None)) demo_random = Some (ans, v) \<and>
    ring_step (directory demo_db) 0 (\<lambda>_. None) (Issue 1 ''n'' None) ans ring' \<and>
    keyring_of demo_apps ring' (w_db v)"
  using keys_refine_ring [of demo_apps "\<lambda>_. None" demo_random "Issue 1 ''n'' None"] demo_no_keys demo_hash_ok by simp

subsection \<open>The life of a key\<close>

text \<open>C18. A key that has been issued opens its application until it expires or the application revokes
  it, and never afterwards; another application's administrator cannot revoke it by its id. (After
  the issue, \<open>Authenticate\<close> at any later time answers with the application and the key's id exactly
  before its expiry; the revocation succeeds, and then every presentation is \<open>ErrUnauthorized\<close>.)\<close>

theorem issued_key_lifecycle:
  assumes "clash_free api_key_clash (db_api_keys (w_db w))" "calm w" "db_txs (w_db w) = []" "random_ok w" "hash_ok A"
    and "run (IssueAPIKey A app name e) w = Some (Inr k, v)"
    and "directory (w_db v) app = Some a" "app_active a" "other \<noteq> app"
  shows "(\<exists>u. run (Authenticate A (ik_full_key k)) (v\<lparr>w_now := t\<rparr>) = Some
      (if (\<exists>x. e = Some x \<and> x \<le> t) then Inl (Sentinel AErrUnauthorized)
       else Inr \<lparr>au_application = a, au_key_id = ik_id k\<rparr>, u)) \<and>
    (\<exists>u x. run (RevokeAPIKey app (ik_id k)) v = Some (Inr (), u) \<and>
       run (Authenticate A (ik_full_key k)) (u\<lparr>w_now := t\<rparr>) = Some (Inl (Sentinel AErrUnauthorized), x)) \<and>
    (\<exists>u. run (RevokeAPIKey other (ik_id k)) v = Some (Inl (Sentinel AErrNotFound), u) \<and>
       db_api_keys (w_db u) = db_api_keys (w_db v))"
proof -
  have k: "key_in_store A app e k (w_db v)" "calm v"
    using issued_in_store [OF assms(1-6)] by simp_all
  then have "\<exists>u. run (Authenticate A (ik_full_key k)) (v\<lparr>w_now := t\<rparr>) = Some
      (if (\<exists>x. e = Some x \<and> x \<le> t) then Inl (Sentinel AErrUnauthorized)
       else Inr \<lparr>au_application = a, au_key_id = ik_id k\<rparr>, u)"
    using authenticate_in_store [of A app e k "v\<lparr>w_now := t\<rparr>" a] assms(5,7,8) by (simp add: calm_def)
  with revoked_in_store [OF k assms(5)] foreign_revoke [OF k assms(9)] show ?thesis by blast
qed

theorem issued_key_lifecycle_witness:
  "\<exists>k v u x y. run (IssueAPIKey demo_apps 1 ''n'' None) demo_random = Some (Inr k, v) \<and>
    run (Authenticate demo_apps (ik_full_key k)) (v\<lparr>w_now := 5\<rparr>) =
      Some (Inr \<lparr>au_application = demo_shop, au_key_id = ik_id k\<rparr>, u) \<and>
    run (RevokeAPIKey 1 (ik_id k)) v = Some (Inr (), x) \<and>
    run (Authenticate demo_apps (ik_full_key k)) (x\<lparr>w_now := 5\<rparr>) = Some (Inl (Sentinel AErrUnauthorized), y)"
proof -
  obtain k v where k: "run (IssueAPIKey demo_apps 1 ''n'' None) demo_random = Some (Inr k, v)"
    "db_applications (w_db v) = db_applications demo_db" by (rule demo_issue)
  have "directory (w_db v) 1 = Some demo_shop" "app_active demo_shop" "clash_free api_key_clash (db_api_keys demo_db)"
    by (simp_all add: directory_def k(2) demo_db_def demo_shop_def app_active_def StatusActive_def)
  then show ?thesis
    using issued_key_lifecycle [of demo_random demo_apps 1 "''n''" None k v demo_shop 2 5] k(1) demo_hash_ok by auto
qed

subsection \<open>Slugs\<close>

text \<open>C38. What a slug is. \<open>slugify\<close> gives the longest runs of \<open>a-z\<close> and \<open>0-9\<close> of the trimmed name in lower
  case, joined by single hyphens (\<open>app\<close> when there is none), cut to 64 characters and trimmed of a hyphen
  the cut leaves; that is always a non-empty text of those characters and single inner hyphens, and any
  such text of at most 64 characters is its own slug. The slug of a later attempt is well formed within
  the limit too: a non-empty prefix of the first 57 characters of the slug, a hyphen and the suffix (three
  random bytes in hexadecimal).\<close>

theorem slugs_well_formed:
  assumes "length bs = 3"
  shows "slugify name = (let ws = slug_words (to_lower (trim_space name)) in
      trim_char hyphen (take 64 (if ws = [] then ''app'' else join_words ws))) \<and>
    slug_ok (slugify name) \<and> length (slugify name) \<le> 64 \<and>
    (slug_ok s \<and> length s \<le> 64 \<longrightarrow> slugify s = s) \<and>
    (\<exists>p t. p \<noteq> [] \<and> take 57 (slugify name) = p @ t \<and> set t \<subseteq> {hyphen} \<and>
       retry_slug (slugify name) (hex_encode bs) = p @ ''-'' @ hex_encode bs) \<and>
    slug_ok (retry_slug (slugify name) (hex_encode bs)) \<and>
    length (retry_slug (slugify name) (hex_encode bs)) \<le> 64"
  using slugify_words [of name] slugify_ok [of name] length_slugify [of name] slugify_slug [of s]
    retry_slug_ok [OF slugify_ok assms, of name] retry_slug_parts [OF slugify_ok assms, of name]
  by (simp add: maxSlugLen_def truncate_take)

theorem slugs_well_formed_witness:
  "slugify '' My  Shop! '' = ''my-shop'' \<and> slug_words (to_lower (trim_space '' My  Shop! '')) = [''my'', ''shop''] \<and>
   slugify ''a-1'' = ''a-1'' \<and> slug_ok (retry_slug ''my-shop'' (hex_encode [1, 171, 255])) \<and>
   retry_slug ''my-shop'' (hex_encode [1, 171, 255]) = ''my-shop-01abff''"
proof -
  have "slug_words (to_lower (trim_space '' My  Shop! '')) = [''my'', ''shop'']" "slug_ok ''a-1''"
    "retry_slug ''my-shop'' (hex_encode [1, 171, 255]) = ''my-shop-01abff''" "slugify '' My  Shop! '' = ''my-shop''"
    by code_simp+
  with slugs_well_formed [of "[1, 171, 255]" "'' My  Shop! ''" "''a-1''"] show ?thesis by simp
qed

end
