(* ===== verification/MetricsModel.thy ===== *)
theory MetricsModel
  imports Database
begin

text \<open>
  \<open>internal/metrics/metrics.go\<close>: the collectors and what each recorded event does to them. The events
  of a run are in the order they happened in \<open>w_metrics\<close>; the registry at any moment is what they add
  up to. A counter maps labels to a count, a histogram maps labels to its observations.
\<close>

record metrics =
  mx_payment_creations :: "string \<Rightarrow> nat"
  mx_provider_calls :: "string \<times> string \<Rightarrow> nat"
  mx_provider_duration :: "string \<Rightarrow> duration list"
  mx_http_duration :: "string \<times> string \<times> string \<Rightarrow> duration list"
  mx_unfinished :: int
  mx_last_worker :: int

definition NewMetrics :: metrics where
  "NewMetrics = \<lparr>mx_payment_creations = (\<lambda>_. 0), mx_provider_calls = (\<lambda>_. 0),
     mx_provider_duration = (\<lambda>_. []), mx_http_duration = (\<lambda>_. []), mx_unfinished = 0, mx_last_worker = 0\<rparr>"

definition PaymentCreation :: "string \<Rightarrow> metrics \<Rightarrow> metrics" where
  "PaymentCreation result m =
     m\<lparr>mx_payment_creations := (mx_payment_creations m)(result := Suc (mx_payment_creations m result))\<rparr>"

text \<open>The empty code is \<open>None\<close>.\<close>

definition call_label :: "error_code option \<Rightarrow> string" where
  "call_label code = (let label = (case code of None \<Rightarrow> [] | Some c \<Rightarrow> error_code_text c)
     in if label = [] then ''ok'' else label)"

definition ProviderCall :: "string \<Rightarrow> error_code option \<Rightarrow> duration \<Rightarrow> metrics \<Rightarrow> metrics" where
  "ProviderCall operation code d m =
     (let k = (operation, call_label code) in
      m\<lparr>mx_provider_calls := (mx_provider_calls m)(k := Suc (mx_provider_calls m k)),
        mx_provider_duration := (mx_provider_duration m)(operation := mx_provider_duration m operation @ [d])\<rparr>)"

definition status_class :: "int \<Rightarrow> string" where
  "status_class status =
     (if status \<ge> 500 then ''5xx'' else if status \<ge> 400 then ''4xx'' else if status \<ge> 300 then ''3xx''
      else if status \<ge> 200 then ''2xx'' else ''other'')"

definition route_label :: "string \<Rightarrow> string" where
  "route_label route = (if route = [] then ''unmatched'' else route)"

definition ObserveHTTP :: "string \<Rightarrow> string \<Rightarrow> int \<Rightarrow> duration \<Rightarrow> metrics \<Rightarrow> metrics" where
  "ObserveHTTP method route status d m =
     (let k = (method, route_label route, status_class status) in
      m\<lparr>mx_http_duration := (mx_http_duration m)(k := mx_http_duration m k @ [d])\<rparr>)"

definition SetUnfinished :: "int \<Rightarrow> metrics \<Rightarrow> metrics" where
  "SetUnfinished n m = m\<lparr>mx_unfinished := n\<rparr>"

fun apply_metric :: "metric \<Rightarrow> metrics \<Rightarrow> metrics" where
  "apply_metric (CreationCounted result) = PaymentCreation result"
| "apply_metric (ProviderCallCounted operation code d) = ProviderCall operation code d"
| "apply_metric (RequestObserved method route status d) = ObserveHTTP method route status d"
| "apply_metric (UnfinishedSet n) = SetUnfinished n"

text \<open>The state of the registry.\<close>

definition registry :: "world \<Rightarrow> metrics" where
  "registry w = fold apply_metric (w_metrics w) NewMetrics"

subsection \<open>What the registry counts\<close>

lemma registry_snoc: "w_metrics v = w_metrics w @ [x] \<Longrightarrow> registry v = apply_metric x (registry w)"
  by (simp add: registry_def)

lemma status_class_ranges:
  "status_class s = (if 200 \<le> s \<and> s < 300 then ''2xx'' else if 300 \<le> s \<and> s < 400 then ''3xx''
     else if 400 \<le> s \<and> s < 500 then ''4xx'' else if 500 \<le> s then ''5xx'' else ''other'')"
  by (auto simp: status_class_def)

end
