(* ===== verification/Dto.thy ===== *)
theory Dto
  imports Validation MetricsModel
begin

text \<open>
  The bodies of the HTTP API: \<open>internal/http/dto\<close> (the shapes of requests and responses and the
  conversions from domain values) and \<open>internal/http/respond\<close> (the error envelope and its codes). A
  body is kept as the value that is encoded; JSON encoding, as the rendering of times, is the
  library's. \<open>txt\<close> is \<open>uuid.UUID.String\<close>.
\<close>

subsection \<open>internal/http/dto/dto.go\<close>

record dto_application =
  da_id :: string
  da_name :: string
  da_slug :: string
  da_status :: string
  da_default_return_url :: "string option"
  da_webhook_url :: "string option"
  da_created_at :: time
  da_updated_at :: time

record create_application_request =
  qa_name :: string
  qa_default_return_url :: "string option"
  qa_webhook_url :: "string option"

record dto_issued_key =
  di_id :: string
  di_name :: string
  di_prefix :: string
  di_api_key :: string
  di_expires_at :: "time option"
  di_created_at :: time

record create_application_response =
  sa_application :: dto_application
  sa_api_key :: dto_issued_key
  sa_webhook_secret :: string

record dto_api_key =
  dk_id :: string
  dk_name :: string
  dk_prefix :: string
  dk_expires_at :: "time option"
  dk_last_used_at :: "time option"
  dk_revoked_at :: "time option"
  dk_created_at :: time

record create_api_key_request =
  qk_name :: string
  qk_expires_at :: "time option"

record attach_provider_request =
  qp_provider :: string
  qp_shop_id :: string
  qp_secret_key :: string
  qp_environment :: string
  qp_is_default :: bool

record dto_provider_account =
  dp_id :: string
  dp_provider :: string
  dp_shop_id :: string
  dp_environment :: string
  dp_status :: string
  dp_is_default :: bool
  dp_created_at :: time
  dp_updated_at :: time

record provider_test_response =
  pt_status :: string
  pt_reason :: string

record dto_me =
  dm_application_id :: string
  dm_name :: string
  dm_slug :: string

definition NewApplication :: "(uuid \<Rightarrow> string) \<Rightarrow> application \<Rightarrow> dto_application" where
  "NewApplication txt a =
     \<lparr>da_id = txt (app_id a), da_name = app_name a, da_slug = app_slug a, da_status = app_status a,
      da_default_return_url = app_default_return_url a, da_webhook_url = app_webhook_url a,
      da_created_at = app_created_at a, da_updated_at = app_updated_at a\<rparr>"

definition NewApplications :: "(uuid \<Rightarrow> string) \<Rightarrow> application list \<Rightarrow> dto_application list" where
  "NewApplications txt items = map (NewApplication txt) items"

definition NewIssuedKey :: "(uuid \<Rightarrow> string) \<Rightarrow> issued_key \<Rightarrow> dto_issued_key" where
  "NewIssuedKey txt k =
     \<lparr>di_id = txt (ik_id k), di_name = ik_name k, di_prefix = ik_prefix k, di_api_key = ik_full_key k,
      di_expires_at = ik_expires_at k, di_created_at = ik_created_at k\<rparr>"

definition NewAPIKey :: "(uuid \<Rightarrow> string) \<Rightarrow> api_key_info \<Rightarrow> dto_api_key" where
  "NewAPIKey txt k =
     \<lparr>dk_id = txt (ki_id k), dk_name = ki_name k, dk_prefix = ki_prefix k,
      dk_expires_at = ki_expires_at k, dk_last_used_at = ki_last_used_at k,
      dk_revoked_at = ki_revoked_at k, dk_created_at = ki_created_at k\<rparr>"

definition NewAPIKeys :: "(uuid \<Rightarrow> string) \<Rightarrow> api_key_info list \<Rightarrow> dto_api_key list" where
  "NewAPIKeys txt items = map (NewAPIKey txt) items"

definition NewProviderAccount :: "(uuid \<Rightarrow> string) \<Rightarrow> provider_account \<Rightarrow> dto_provider_account" where
  "NewProviderAccount txt p =
     \<lparr>dp_id = txt (pa_id p), dp_provider = pa_provider p, dp_shop_id = pa_shop_id p,
      dp_environment = pa_environment p, dp_status = pa_status p, dp_is_default = pa_is_default p,
      dp_created_at = pa_created_at p, dp_updated_at = pa_updated_at p\<rparr>"

definition NewProviderAccounts ::
  "(uuid \<Rightarrow> string) \<Rightarrow> provider_account list \<Rightarrow> dto_provider_account list" where
  "NewProviderAccounts txt items = map (NewProviderAccount txt) items"

subsection \<open>internal/http/dto/payments.go\<close>

record create_payment_request =
  qc_order_id :: string
  qc_amount :: int64
  qc_currency :: string
  qc_description :: string
  qc_return_url :: "string option"
  qc_metadata :: "go_map option"

record create_attempt_request =
  qt_amount :: int64
  qt_currency :: string
  qt_description :: string
  qt_return_url :: "string option"
  qt_metadata :: "go_map option"

record dto_payment =
  dy_id :: string
  dy_order_id :: string
  dy_attempt_number :: int
  dy_status :: string
  dy_amount :: int64
  dy_currency :: string
  dy_provider :: string
  dy_checkout_url :: "string option"
  dy_created_at :: time
  dy_paid_at :: "time option"

record dto_payment_pending =
  dn_id :: string
  dn_status :: string
  dn_checkout_url :: "string option"
  dn_retry_after :: int

definition NewPayment :: "(uuid \<Rightarrow> string) \<Rightarrow> payment \<Rightarrow> dto_payment" where
  "NewPayment txt p =
     \<lparr>dy_id = txt (pay_id p), dy_order_id = pay_order_id p, dy_attempt_number = pay_attempt_number p,
      dy_status = status_text (pay_status p), dy_amount = pay_amount_minor p,
      dy_currency = pay_currency p, dy_provider = pay_provider p,
      dy_checkout_url = pay_checkout_url p, dy_created_at = pay_created_at p,
      dy_paid_at = pay_completed_at p\<rparr>"

definition NewPayments :: "(uuid \<Rightarrow> string) \<Rightarrow> payment list \<Rightarrow> dto_payment list" where
  "NewPayments txt items = map (NewPayment txt) items"

definition NewPaymentPending :: "(uuid \<Rightarrow> string) \<Rightarrow> create_result \<Rightarrow> dto_payment_pending" where
  "NewPaymentPending txt result =
     \<lparr>dn_id = txt (pay_id (res_payment result)), dn_status = status_text (pay_status (res_payment result)),
      dn_checkout_url = pay_checkout_url (res_payment result), dn_retry_after = res_retry_after result\<rparr>"

subsection \<open>internal/http/respond/respond.go\<close>

datatype api_code =
    InvalidRequest | Unauthorized | NotFound | Conflict | PaymentNotFound | IdempotencyConflict
  | PaymentAlreadySucceeded | ProviderUnavailable | ProviderTimeout | ProviderAuthFailed
  | ProviderNotConfigured | PaymentStateUnknown | InternalError

fun api_code_text :: "api_code \<Rightarrow> string" where
  "api_code_text InvalidRequest = ''INVALID_REQUEST''"
| "api_code_text Unauthorized = ''UNAUTHORIZED''"
| "api_code_text NotFound = ''NOT_FOUND''"
| "api_code_text Conflict = ''CONFLICT''"
| "api_code_text PaymentNotFound = ''PAYMENT_NOT_FOUND''"
| "api_code_text IdempotencyConflict = ''IDEMPOTENCY_CONFLICT''"
| "api_code_text PaymentAlreadySucceeded = ''PAYMENT_ALREADY_SUCCEEDED''"
| "api_code_text ProviderUnavailable = ''PROVIDER_UNAVAILABLE''"
| "api_code_text ProviderTimeout = ''PROVIDER_TIMEOUT''"
| "api_code_text ProviderAuthFailed = ''PROVIDER_AUTH_FAILED''"
| "api_code_text ProviderNotConfigured = ''PROVIDER_NOT_CONFIGURED''"
| "api_code_text PaymentStateUnknown = ''PAYMENT_STATE_UNKNOWN''"
| "api_code_text InternalError = ''INTERNAL_ERROR''"

record error_body =
  eb_code :: string
  eb_message :: string
  eb_retryable :: bool
  eb_request_id :: string

text \<open>What a handler encodes: one of the shapes above, the error envelope, a map (\<open>Live\<close>, \<open>Ready\<close>),
  the exposition of the metrics registry, or nothing.\<close>

datatype body =
    NoBody
  | ErrorEnvelope error_body
  | MapBody "(string \<times> string) list"
  | MetricsBody metrics
  | MeBody dto_me
  | ApplicationBody dto_application
  | ApplicationList "dto_application list"
  | CreatedApplicationBody create_application_response
  | IssuedKeyBody dto_issued_key
  | APIKeyList "dto_api_key list"
  | WebhookSecretBody string
  | AccountBody dto_provider_account
  | AccountList "dto_provider_account list"
  | ProviderTestBody provider_test_response
  | PaymentBody dto_payment
  | PaymentPendingBody dto_payment_pending
  | PaymentList "dto_payment list"

text \<open>\<open>rs_patterns\<close> is what the route context of the request holds when the response is written: the
  patterns the router has followed, outermost first.\<close>

record response =
  rs_status :: int
  rs_body :: body
  rs_patterns :: "string list"

definition JSON :: "int \<Rightarrow> body \<Rightarrow> response" where
  "JSON status v = \<lparr>rs_status = status, rs_body = v, rs_patterns = []\<rparr>"

end
