(* ===== verification/HttpTypes.thy ===== *)
theory HttpTypes
  imports Dto
begin

text \<open>
  Requests, \<open>respond.Error\<close> and \<open>respond.DecodeJSON\<close>. A request is what a handler reads of
  \<open>*http.Request\<close>: method, path, headers, query, body, and in its context the request id, the
  parameters the router found and the authenticated application. The router (chi), the UUID parser
  and the JSON reader for each request type are the fields of \<open>http_env\<close>.
\<close>

record http_request =
  hr_method :: string
  hr_path :: string
  hr_header :: "string \<Rightarrow> string"          \<comment> \<open>\<open>Header.Get\<close>: empty when absent\<close>
  hr_query :: "string \<Rightarrow> string"           \<comment> \<open>\<open>URL.Query().Get\<close>\<close>
  hr_body :: string
  hr_request_id :: string
  hr_param :: "string \<Rightarrow> string"           \<comment> \<open>\<open>chi.URLParam\<close>\<close>
  hr_auth :: "authenticated option"       \<comment> \<open>set by \<open>withAuthenticated\<close>\<close>

text \<open>What reading the first JSON document of a text yields: the value and the text after it, an error
  of the document, or the need for more text than there is.\<close>

datatype 'a json_read = JsonValue 'a string | JsonBad string | JsonMore string

text \<open>What a chi mux finds for a method and a path in its table of methods and patterns: an entry, the
  parameters and the rest of the path below a mount; or no pattern; or only other methods.\<close>

datatype route_match = Matched nat "string \<Rightarrow> string" string | NoRoute | WrongMethod

record http_env =
  hx_match :: "(string \<times> string) list \<Rightarrow> string \<Rightarrow> string \<Rightarrow> route_match"
  hx_pattern :: "string list \<Rightarrow> string"    \<comment> \<open>\<open>RoutePattern\<close> of the patterns passed\<close>
  hx_uuid_text :: "uuid \<Rightarrow> string"
  hx_parse_uuid :: "string \<Rightarrow> uuid option"
  hx_read_application :: "string \<Rightarrow> create_application_request json_read"
  hx_read_api_key :: "string \<Rightarrow> create_api_key_request json_read"
  hx_read_attach :: "string \<Rightarrow> attach_provider_request json_read"
  hx_read_payment :: "string \<Rightarrow> create_payment_request json_read"
  hx_read_attempt :: "string \<Rightarrow> create_attempt_request json_read"

definition RequestID :: "http_request \<Rightarrow> string" where
  "RequestID r = hr_request_id r"

definition respond_error :: "http_request \<Rightarrow> int \<Rightarrow> api_code \<Rightarrow> string \<Rightarrow> bool \<Rightarrow> response" where
  "respond_error r status code message retryable =
     JSON status (ErrorEnvelope \<lparr>eb_code = api_code_text code, eb_message = message,
       eb_retryable = retryable, eb_request_id = RequestID r\<rparr>)"

lemma respond_error_simps [simp]:
  "rs_status (respond_error r s c m b) = s"
  "rs_body (respond_error r s c m b) = ErrorEnvelope \<lparr>eb_code = api_code_text c, eb_message = m,
       eb_retryable = b, eb_request_id = hr_request_id r\<rparr>"
  by (simp_all add: respond_error_def JSON_def RequestID_def)

lemma JSON_simps [simp]: "rs_status (JSON s b) = s" "rs_body (JSON s b) = b" "rs_patterns (JSON s b) = []"
  by (simp_all add: JSON_def)

subsection \<open>internal/http/respond/decode.go\<close>

definition MaxBodyBytes :: nat where "MaxBodyBytes = 2 ^ 20"

text \<open>\<open>http.MaxBytesReader\<close>: at most the limit is read, and reading on is an error.\<close>

definition body_text :: "http_request \<Rightarrow> string" where
  "body_text r = take MaxBodyBytes (hr_body r)"

definition body_too_large :: "http_request \<Rightarrow> bool" where
  "body_too_large r \<longleftrightarrow> length (hr_body r) > MaxBodyBytes"

definition json_space :: "char \<Rightarrow> bool" where
  "json_space c \<longleftrightarrow> code_of c = 32 \<or> code_of c = 9 \<or> code_of c = 10 \<or> code_of c = 13"

text \<open>The second \<open>Decode\<close> answers \<open>io.EOF\<close> when only white space follows and the body ends.\<close>

definition decode_json :: "(string \<Rightarrow> 'a json_read) \<Rightarrow> http_request \<Rightarrow> response + 'a" where
  "decode_json read r =
     (case read (body_text r) of
        JsonMore msg \<Rightarrow>
          if body_too_large r then
            Inl (respond_error r 413 InvalidRequest ''request body is too large'' False)
          else Inl (respond_error r 400 InvalidRequest (''invalid JSON body: '' @ msg) False)
      | JsonBad msg \<Rightarrow>
          Inl (respond_error r 400 InvalidRequest (''invalid JSON body: '' @ msg) False)
      | JsonValue v rest \<Rightarrow>
          if body_too_large r \<or> \<not> list_all json_space rest then
            Inl (respond_error r 400 InvalidRequest ''request body must contain a single JSON object'' False)
          else Inr v)"

text \<open>A body is accepted exactly when it fits and is one document; anything else is a 400 or a 413.\<close>

lemma decode_json_accepts:
  "decode_json read r = Inr v \<longleftrightarrow> length (hr_body r) \<le> MaxBodyBytes \<and>
     (\<exists>rest. read (hr_body r) = JsonValue v rest \<and> list_all json_space rest)"
  by (auto simp: decode_json_def body_text_def body_too_large_def split: json_read.splits if_splits)

lemma decode_json_refuses:
  "decode_json read r = Inl e \<Longrightarrow> rs_status e \<in> {400, 413} \<and> (rs_status e = 413 \<longrightarrow> length (hr_body r) > MaxBodyBytes)"
  by (auto simp: decode_json_def body_too_large_def split: json_read.splits if_splits)

end
