(* ===== verification/AuthMiddleware.thy ===== *)
theory AuthMiddleware
  imports HttpTypes ApplicationService
begin

text \<open>
  \<open>internal/auth/middleware.go\<close>: bearer tokens, the middleware for applications and the one for
  administrators. \<open>Authenticator\<close> is a locale: what the middleware relies on of the value it is built
  with. The application service provides it (\<open>cmd/api/main.go\<close>).
\<close>

type_synonym handler = "http_request \<Rightarrow> response action"

definition bearer_prefix :: string where "bearer_prefix = ''Bearer ''"

definition bearer_token :: "http_request \<Rightarrow> string option" where
  "bearer_token r =
     (let header = hr_header r ''Authorization''; n = length bearer_prefix in
      if length header \<le> n \<or> \<not> equal_fold (take n header) bearer_prefix then None
      else let token = trim_space (drop n header) in if token = [] then None else Some token)"

definition with_authenticated :: "authenticated \<Rightarrow> http_request \<Rightarrow> http_request" where
  "with_authenticated a r = r\<lparr>hr_auth := Some a\<rparr>"

text \<open>\<open>From\<close>\<close>

definition auth_from :: "http_request \<Rightarrow> authenticated option" where
  "auth_from r = hr_auth r"

definition RequireApplication :: "(string \<Rightarrow> (go_err + authenticated) action) \<Rightarrow> handler \<Rightarrow> handler" where
  "RequireApplication auth next r =
     (case bearer_token r of
        None \<Rightarrow> Ret (respond_error r 401 Unauthorized ''missing or malformed Authorization header'' False)
      | Some token \<Rightarrow>
          bindP (auth token) (\<lambda>res.
            case res of
              Inl e \<Rightarrow>
                Ret (if err_is e AErrUnauthorized then respond_error r 401 Unauthorized ''invalid API key'' False
                     else respond_error r 500 InternalError ''authentication failed'' True)
            | Inr a \<Rightarrow> next (with_authenticated a r)))"

definition RequireAdmin :: "string \<Rightarrow> handler \<Rightarrow> handler" where
  "RequireAdmin token next r =
     (if trim_space token = [] then
        Ret (respond_error r 503 InternalError ''admin API is disabled: ADMIN_TOKEN is not configured'' False)
      else case bearer_token r of
        None \<Rightarrow> Ret (respond_error r 401 Unauthorized ''invalid admin token'' False)
      | Some presented \<Rightarrow>
          if presented \<noteq> token then Ret (respond_error r 401 Unauthorized ''invalid admin token'' False)
          else next r)"

subsection \<open>Bearer tokens\<close>

lemma length_bearer_prefix [simp]: "length bearer_prefix = 7"
  by (simp add: bearer_prefix_def)

lemma bearer_tokenD: "bearer_token r = Some t \<Longrightarrow> t \<noteq> [] \<and> trim_space t = t"
  by (auto simp: bearer_token_def Let_def split: if_splits)

lemma bearer_token_of:
  "hr_header r ''Authorization'' = ''Bearer '' @ t \<Longrightarrow> t \<noteq> [] \<Longrightarrow> trim_space t = t \<Longrightarrow> bearer_token r = Some t"
  by (simp add: bearer_token_def Let_def bearer_prefix_def equal_fold_def)

text \<open>Nobody can present a token with white space around it.\<close>

lemma RequireAdmin_blank:
  "trim_space token \<noteq> token \<Longrightarrow> \<exists>res. RequireAdmin token next r = Ret res \<and> rs_status res \<in> {401, 503}"
  by (auto simp: RequireAdmin_def dest: bearer_tokenD split: option.split)

subsection \<open>The interface\<close>

text \<open>
  What \<open>RequireApplication\<close> relies on: whatever happens, an accepted key belongs to an active
  application that is on record; authenticating sends nothing and changes nothing in the database but
  the times keys were last used; and a refusal changes nothing at all.
\<close>

definition only_last_use :: "api_key_row list \<Rightarrow> api_key_row list \<Rightarrow> bool" where
  "only_last_use ks ks' \<longleftrightarrow> list_all2 (\<lambda>k k'. k' = k\<lparr>k_last_used_at := k_last_used_at k'\<rparr>) ks ks'"

definition records_kept :: "world \<Rightarrow> world \<Rightarrow> bool" where
  "records_kept w v \<longleftrightarrow> w_wire v = w_wire w \<and>
     (\<exists>ks. w_db v = (w_db w)\<lparr>db_api_keys := ks\<rparr> \<and> only_last_use (db_api_keys (w_db w)) ks)"

definition nothing_changed :: "world \<Rightarrow> world \<Rightarrow> bool" where
  "nothing_changed w v \<longleftrightarrow> w_wire v = w_wire w \<and> w_db v = w_db w"

lemma only_last_use_refl [simp]: "only_last_use ks ks"
  by (simp add: only_last_use_def list_all2_same)

lemma only_last_use_trans:
  assumes "only_last_use xs ys" "only_last_use ys zs"
  shows "only_last_use xs zs"
  unfolding only_last_use_def
proof (rule list_all2_trans [OF _ assms [unfolded only_last_use_def]])
  fix k k' k'' :: api_key_row
  assume "k' = k\<lparr>k_last_used_at := k_last_used_at k'\<rparr>" "k'' = k'\<lparr>k_last_used_at := k_last_used_at k''\<rparr>"
  then show "k'' = k\<lparr>k_last_used_at := k_last_used_at k''\<rparr>"
    by (cases k; cases k'; cases k'') simp
qed

lemma nothing_changed_refl [simp]: "nothing_changed w w"
  by (simp add: nothing_changed_def)

lemma records_kept_refl: "records_kept w w"
proof -
  have "w_db w = (w_db w)\<lparr>db_api_keys := db_api_keys (w_db w)\<rparr>" by simp
  then show ?thesis unfolding records_kept_def using only_last_use_refl by blast
qed

definition on_record :: "world \<Rightarrow> application \<Rightarrow> bool" where
  "on_record w a \<longleftrightarrow> (\<exists>row \<in> set (db_applications (w_db w)). to_application row = Inr a)"

locale authenticator =
  fixes auth :: "string \<Rightarrow> (go_err + authenticated) action"
  assumes returns: "\<exists>res v. run (auth s) w = Some (res, v) \<and> records_kept w v \<and>
      (\<forall>e. res = Inl e \<longrightarrow> nothing_changed w v)"
    and accepts_active: "run (auth s) w = Some (Inr a, v) \<Longrightarrow>
      app_active (au_application a) \<and> on_record w (au_application a)"
begin

text \<open>A request reaches the protected handler with an active application, or not at all.\<close>

lemma guarded:
  "(\<exists>t a v. bearer_token r = Some t \<and> run (auth t) w = Some (Inr a, v) \<and>
      run (RequireApplication auth next r) w = run (next (with_authenticated a r)) v \<and>
      app_active (au_application a) \<and> on_record w (au_application a) \<and> records_kept w v) \<or>
   (\<exists>res v. run (RequireApplication auth next r) w = Some (res, v) \<and> rs_status res \<in> {401, 500} \<and>
      (\<exists>e. rs_body res = ErrorEnvelope e) \<and> nothing_changed w v)"
proof (cases "bearer_token r")
  case None
  then show ?thesis by (auto simp: RequireApplication_def)
next
  case (Some token)
  obtain res v where v: "run (auth token) w = Some (res, v)" "records_kept w v"
    "\<And>e. res = Inl e \<Longrightarrow> nothing_changed w v" using returns by blast
  show ?thesis
  proof (cases res)
    case (Inl e)
    with Some v show ?thesis by (auto simp: RequireApplication_def run_bindP)
  next
    case (Inr a)
    with v accepts_active have "app_active (au_application a)" "on_record w (au_application a)" by blast+
    moreover have "run (RequireApplication auth next r) w = run (next (with_authenticated a r)) v"
      using Some v Inr by (simp add: RequireApplication_def run_bindP)
    ultimately show ?thesis using Some v Inr by blast
  qed
qed

lemma no_token:
  "bearer_token r = None \<Longrightarrow> run (RequireApplication auth next r) w =
     Some (respond_error r 401 Unauthorized ''missing or malformed Authorization header'' False, w)"
  by (simp add: RequireApplication_def)

end

subsection \<open>The application service as the authenticator\<close>

lemma records_kept_trans: "records_kept u v \<Longrightarrow> records_kept v w \<Longrightarrow> records_kept u w"
  unfolding records_kept_def using only_last_use_trans by fastforce

text \<open>A statement on the pool that only reads or writes the keys.\<close>

lemma run_exec_Pool:
  "run (exec Pool eff) w = Some (statement Pool eff w)"
  by (simp add: exec_def)

lemma statement_reads:
  assumes "\<And>d. snd (eff d) = d" "statement Pool eff w = (r, v)"
  shows "records_kept w v \<and> w_db v = w_db w \<and> (\<forall>x. r = Inr x \<longrightarrow> fst (eff (w_db w)) = Inr x)"
  using assms(2) assms(1) [of "w_db w"]
  by (cases rule: statement_cases) (auto simp: records_kept_def intro: exI [of _ "db_api_keys (w_db w)"])

lemma only_last_use_update: "only_last_use ks (update_where P (\<lambda>r. r\<lparr>k_last_used_at := t\<rparr>) ks)"
  by (simp add: only_last_use_def update_where_def list.rel_map list_all2_same)

lemma statement_touches:
  assumes "statement Pool (touch_api_key_last_used key) w = (r, v)"
  shows "records_kept w v"
  using assms
  by (cases rule: statement_cases)
    (auto simp: records_kept_def touch_api_key_last_used_def only_last_use_update
      intro: exI [of _ "db_api_keys (w_db w)"])

lemma get_application_reads: "snd (get_application app Pool d) = d"
  by (simp add: get_application_def)

lemma get_api_key_by_prefix_reads: "snd (get_api_key_by_prefix p Pool d) = d"
  by (simp add: get_api_key_by_prefix_def with_text_def split: sum.split)

lemma get_application_found:
  "fst (get_application app Pool d) = Inr row \<Longrightarrow> row \<in> set (db_applications d)"
  by (auto simp: get_application_def one_row_def visible_def own_txs_def find_Some_iff in_set_conv_nth
      split: option.splits)

lemma Authenticate_run:
  "\<exists>res v. run (Authenticate A s) w = Some (res, v) \<and> records_kept w v \<and>
     (\<forall>e. res = Inl e \<longrightarrow> nothing_changed w v) \<and>
     (\<forall>a. res = Inr a \<longrightarrow> app_active (au_application a) \<and> on_record w (au_application a))"
proof (cases "looks_valid s")
  case False
  then show ?thesis by (auto simp: Authenticate_def records_kept_refl)
next
  case True
  obtain r1 w1 where 1: "statement Pool (get_api_key_by_prefix (prefix_of s) Pool) w = (r1, w1)" by fastforce
  have k1: "records_kept w w1" "w_db w1 = w_db w"
    using statement_reads [OF get_api_key_by_prefix_reads 1] by simp_all
  then have n1: "nothing_changed w w1" by (simp add: nothing_changed_def records_kept_def)
  show ?thesis
  proof (cases r1)
    case (Inl e)
    with True 1 k1 n1 show ?thesis by (simp add: Authenticate_def run_bindP run_exec_Pool)
  next
    case (Inr row)
    show ?thesis
    proof (cases "key_usable A s (w_now w1) row")
      case False
      with True 1 k1 n1 Inr show ?thesis by (simp add: Authenticate_def run_bindP run_exec_Pool get_time_def)
    next
      case use: True
      obtain r2 w2 where 2: "statement Pool (get_application (k_application_id row) Pool) w1 = (r2, w2)" by fastforce
      have k2: "records_kept w w2" and f2: "\<And>x. r2 = Inr x \<Longrightarrow> x \<in> set (db_applications (w_db w))"
        using statement_reads [OF get_application_reads 2] k1 records_kept_trans get_application_found by fastforce+
      have "w_db w2 = w_db w" using statement_reads [OF get_application_reads 2] k1(2) by simp
      with k2 have n2: "nothing_changed w w2" by (simp add: nothing_changed_def records_kept_def)
      note run = Authenticate_def run_bindP run_bindE run_exec_Pool get_time_def
      show ?thesis
      proof (cases r2)
        case (Inl e)
        with True 1 Inr use 2 k2 n2 show ?thesis by (simp add: run)
      next
        case app: (Inr x)
        obtain r3 w3 where 3: "statement Pool (touch_api_key_last_used (k_id row)) w2 = (r3, w3)" by fastforce
        have k3: "records_kept w w3" by (rule records_kept_trans [OF k2 statement_touches [OF 3]])
        obtain a where a: "to_application x = Inr a" by simp
        then have rec: "on_record w a" using f2 [OF app] by (auto simp: on_record_def)
        show ?thesis
        proof (cases "app_active a")
          case False
          with True 1 Inr use 2 app a k2 n2 show ?thesis by (simp add: run)
        next
          case act: True
          have "run (Authenticate A s) w = Some (Inr \<lparr>au_application = a, au_key_id = k_id row\<rparr>, w3)"
            using True 1 Inr use 2 app 3 a act by (simp add: run)
          with k3 rec act show ?thesis by simp
        qed
      qed
    qed
  qed
qed

interpretation service_auth: authenticator "Authenticate A" for A
proof
  fix s w
  show "\<exists>res v. run (Authenticate A s) w = Some (res, v) \<and> records_kept w v \<and>
      (\<forall>e. res = Inl e \<longrightarrow> nothing_changed w v)"
    using Authenticate_run [of A s w] by blast
next
  fix s w a v
  assume "run (Authenticate A s) w = Some (Inr a, v)"
  with Authenticate_run [of A s w]
  show "app_active (au_application a) \<and> on_record w (au_application a)" by auto
qed

end
