(* ===== verification/Handlers.thy ===== *)
theory Handlers
  imports AuthMiddleware
begin

text \<open>
  \<open>internal/http/handlers\<close>: each handler is a function from a request to a program that returns the
  response. \<open>api\<close> holds what \<open>NewRouter\<close> is given (\<open>Deps\<close>): the two services, the admin token and
  the provider's URL of the configuration, and whether metrics are on.
\<close>

record api =
  d_http :: http_env
  d_apps :: apps_env
  d_payments :: "service_env option"
  d_yk :: yk_env
  d_admin_token :: string
  d_api_url :: string
  d_metrics :: bool

abbreviation id_text :: "api \<Rightarrow> uuid \<Rightarrow> string" where "id_text D \<equiv> hx_uuid_text (d_http D)"

text \<open>The shape of every handler of an operation that may fail.\<close>

definition answer :: "(go_err \<Rightarrow> response) \<Rightarrow> ('a \<Rightarrow> response) \<Rightarrow> (go_err + 'a) action \<Rightarrow> response action" where
  "answer fail ok p = bindP p (\<lambda>r. Ret (case r of Inl e \<Rightarrow> fail e | Inr a \<Rightarrow> ok a))"

lemma run_answer:
  "run (answer fail ok p) w =
     (case run p w of None \<Rightarrow> None | Some (Inl e, v) \<Rightarrow> Some (fail e, v) | Some (Inr a, v) \<Rightarrow> Some (ok a, v))"
  by (auto simp: answer_def run_bindP split: option.split sum.split)

text \<open>\<open>publicMessage\<close>: the text without the sentinels of the applications package.\<close>

definition public_message :: "go_err \<Rightarrow> string" where
  "public_message e = fold (\<lambda>s msg. trim_prefix msg (sentinel_text s @ '': ''))
     [AErrValidation, AErrConflict] (error_text e)"

subsection \<open>handlers/admin.go\<close>

definition admin_fail :: "http_request \<Rightarrow> go_err \<Rightarrow> response" where
  "admin_fail r e =
     (if err_is e AErrValidation then respond_error r 400 InvalidRequest (public_message e) False
      else if err_is e AErrNotFound then respond_error r 404 NotFound ''resource not found'' False
      else if err_is e AErrConflict then respond_error r 409 Conflict (public_message e) False
      else respond_error r 500 InternalError ''internal error'' True)"

definition uuid_param :: "api \<Rightarrow> string \<Rightarrow> http_request \<Rightarrow> response + uuid" where
  "uuid_param D name r =
     (case hx_parse_uuid (d_http D) (hr_param r name) of
        None \<Rightarrow> Inl (respond_error r 400 InvalidRequest (''invalid '' @ name) False)
      | Some u \<Rightarrow> Inr u)"

text \<open>A step of a handler that may already answer.\<close>

definition proceed :: "response + 'a \<Rightarrow> ('a \<Rightarrow> response action) \<Rightarrow> response action" where
  "proceed x k = (case x of Inl res \<Rightarrow> Ret res | Inr a \<Rightarrow> k a)"

lemma proceed_simps [simp]: "proceed (Inl res) k = Ret res" "proceed (Inr a) k = k a"
  by (simp_all add: proceed_def)

definition createApplication :: "api \<Rightarrow> handler" where
  "createApplication D r =
     proceed (decode_json (hx_read_application (d_http D)) r) (\<lambda>q.
       answer (admin_fail r)
         (\<lambda>(app, prov). JSON 201 (CreatedApplicationBody
            \<lparr>sa_application = NewApplication (id_text D) app,
             sa_api_key = NewIssuedKey (id_text D) (pv_api_key prov),
             sa_webhook_secret = pv_webhook_secret prov\<rparr>))
         (CreateApplication (d_apps D)
            \<lparr>ca_name = qa_name q, ca_default_return_url = qa_default_return_url q,
             ca_webhook_url = qa_webhook_url q\<rparr>))"

definition listApplications :: "api \<Rightarrow> handler" where
  "listApplications D r =
     answer (admin_fail r) (\<lambda>apps. JSON 200 (ApplicationList (NewApplications (id_text D) apps)))
       ListApplications"

definition getApplication :: "api \<Rightarrow> handler" where
  "getApplication D r =
     proceed (uuid_param D ''application_id'' r) (\<lambda>app.
       answer (admin_fail r) (\<lambda>a. JSON 200 (ApplicationBody (NewApplication (id_text D) a)))
         (GetApplication app))"

definition createAPIKey :: "api \<Rightarrow> handler" where
  "createAPIKey D r =
     proceed (uuid_param D ''application_id'' r) (\<lambda>app.
     proceed (decode_json (hx_read_api_key (d_http D)) r) (\<lambda>q.
       answer (admin_fail r) (\<lambda>k. JSON 201 (IssuedKeyBody (NewIssuedKey (id_text D) k)))
         (IssueAPIKey (d_apps D) app (qk_name q) (qk_expires_at q))))"

definition listAPIKeys :: "api \<Rightarrow> handler" where
  "listAPIKeys D r =
     proceed (uuid_param D ''application_id'' r) (\<lambda>app.
       answer (admin_fail r) (\<lambda>keys. JSON 200 (APIKeyList (NewAPIKeys (id_text D) keys)))
         (ListAPIKeys app))"

definition revokeAPIKey :: "api \<Rightarrow> handler" where
  "revokeAPIKey D r =
     proceed (uuid_param D ''application_id'' r) (\<lambda>app.
     proceed (uuid_param D ''key_id'' r) (\<lambda>key.
       answer (admin_fail r) (\<lambda>_. JSON 204 NoBody) (RevokeAPIKey app key)))"

definition rotateWebhookSecret :: "api \<Rightarrow> handler" where
  "rotateWebhookSecret D r =
     proceed (uuid_param D ''application_id'' r) (\<lambda>app.
       answer (admin_fail r) (\<lambda>secret. JSON 201 (WebhookSecretBody secret))
         (RotateWebhookSecret (d_apps D) app))"

definition attachProvider :: "api \<Rightarrow> handler" where
  "attachProvider D r =
     proceed (uuid_param D ''application_id'' r) (\<lambda>app.
     proceed (decode_json (hx_read_attach (d_http D)) r) (\<lambda>q.
       answer (admin_fail r) (\<lambda>a. JSON 201 (AccountBody (NewProviderAccount (id_text D) a)))
         (AttachProviderAccount (d_apps D) app
            \<lparr>at_provider = qp_provider q, at_shop_id = qp_shop_id q, at_secret_key = qp_secret_key q,
             at_environment = qp_environment q, at_is_default = qp_is_default q\<rparr>)))"

definition listProviders :: "api \<Rightarrow> handler" where
  "listProviders D r =
     proceed (uuid_param D ''application_id'' r) (\<lambda>app.
       answer (admin_fail r) (\<lambda>accounts. JSON 200 (AccountList (NewProviderAccounts (id_text D) accounts)))
         (ListProviderAccounts app))"

definition providerReason :: "go_err \<Rightarrow> string" where
  "providerReason e =
     (case as_provider_error e of
        Some p \<Rightarrow> error_code_text (pe_code p)
      | None \<Rightarrow> api_code_text ProviderUnavailable)"

text \<open>The application service's own \<open>ProviderCredentials\<close>, with its cipher.\<close>

definition account_credentials :: "apps_env \<Rightarrow> uuid \<Rightarrow> (go_err + string \<times> string) action" where
  "account_credentials A account =
     bindP (exec Pool (get_provider_account account Pool)) (\<lambda>r.
       case r of
         Inl e \<Rightarrow> Ret (Inl (map_not_found e))
       | Inr row \<Rightarrow>
           Ret (case decrypt (ap_cipher A) (c_encrypted_secret_key row) of
                  Inl e \<Rightarrow> Inl e
                | Inr plaintext \<Rightarrow> Inr (c_shop_id row, string_of plaintext)))"

definition check_outcome :: "go_err option \<Rightarrow> string \<times> provider_test_response" where
  "check_outcome err =
     (case err of
        None \<Rightarrow> (ProviderStatusActive, \<lparr>pt_status = ''connected'', pt_reason = []\<rparr>)
      | Some e \<Rightarrow> (ProviderStatusNeedsAttention, \<lparr>pt_status = ''failed'', pt_reason = providerReason e\<rparr>))"

definition testProvider :: "api \<Rightarrow> handler" where
  "testProvider D r =
     proceed (uuid_param D ''provider_id'' r) (\<lambda>account.
       bindP (account_credentials (d_apps D) account) (\<lambda>c.
         case c of
           Inl e \<Rightarrow> Ret (admin_fail r e)
         | Inr (shop, secret) \<Rightarrow>
             bindP (provider_call (yk_check_connection (d_yk D) (new_client (d_api_url D) shop secret)))
               (\<lambda>check_err.
                 case check_outcome check_err of
                   (status, result) \<Rightarrow>
                     answer (admin_fail r) (\<lambda>_. JSON 200 (ProviderTestBody result))
                       (SetProviderStatus account status))))"

subsection \<open>handlers/payments.go\<close>

definition not_authenticated :: "http_request \<Rightarrow> response" where
  "not_authenticated r = respond_error r 401 Unauthorized ''not authenticated'' False"

definition providerHTTPStatus :: "provider_error \<Rightarrow> int \<times> api_code" where
  "providerHTTPStatus p =
     (case pe_code p of
        CodeInvalidRequest \<Rightarrow> (400, InvalidRequest)
      | CodeAuthFailed \<Rightarrow> (502, ProviderAuthFailed)
      | CodeUnavailable \<Rightarrow> (503, ProviderUnavailable)
      | CodeTimeout \<Rightarrow> (504, ProviderTimeout)
      | _ \<Rightarrow> (502, PaymentStateUnknown))"

definition payments_fail :: "http_request \<Rightarrow> go_err \<Rightarrow> response" where
  "payments_fail r e =
     (if err_is e PErrValidation then respond_error r 400 InvalidRequest (public_message e) False
      else if err_is e PErrNotFound then respond_error r 404 PaymentNotFound ''payment not found'' False
      else if err_is e PErrIdempotencyConflict then
        respond_error r 409 IdempotencyConflict ''this Idempotency-Key was used with a different request'' False
      else if err_is e PErrActiveAttemptExists then
        respond_error r 409 Conflict ''an unfinished payment attempt already exists for this order'' False
      else if err_is e PErrOrderAlreadySucceeded then
        respond_error r 409 PaymentAlreadySucceeded ''this order has already been paid'' False
      else if err_is e PErrNoProviderAccount then
        respond_error r 422 ProviderNotConfigured
          ''no active provider account is configured for this application'' False
      else if err_is e PErrIllegalTransition then respond_error r 409 Conflict (public_message e) False
      else case as_provider_error e of
        Some p \<Rightarrow> (case providerHTTPStatus p of (status, code) \<Rightarrow>
            respond_error r status code (pe_message p) (pe_retryable p))
      | None \<Rightarrow> respond_error r 500 InternalError ''internal error'' True)"

definition write_create_result :: "api \<Rightarrow> create_result \<Rightarrow> response" where
  "write_create_result D result =
     (if res_pending result then JSON 202 (PaymentPendingBody (NewPaymentPending (id_text D) result))
      else JSON 201 (PaymentBody (NewPayment (id_text D) (res_payment result))))"

definition parse_positive_int :: "string \<Rightarrow> int option" where
  "parse_positive_int raw =
     (case parse_int 32 raw of None \<Rightarrow> None | Some v \<Rightarrow> if v \<le> 0 then None else Some v)"

definition payment_id_param :: "api \<Rightarrow> http_request \<Rightarrow> response + uuid" where
  "payment_id_param D r =
     (case hx_parse_uuid (d_http D) (hr_param r ''payment_id'') of
        None \<Rightarrow> Inl (respond_error r 400 InvalidRequest ''invalid payment_id'' False)
      | Some u \<Rightarrow> Inr u)"

definition authenticated_app :: "http_request \<Rightarrow> response + application" where
  "authenticated_app r =
     (case auth_from r of None \<Rightarrow> Inl (not_authenticated r) | Some a \<Rightarrow> Inr (au_application a))"

definition create_payment_handler :: "api \<Rightarrow> service_env \<Rightarrow> handler" where
  "create_payment_handler D E r =
     proceed (authenticated_app r) (\<lambda>app.
     proceed (decode_json (hx_read_payment (d_http D)) r) (\<lambda>q.
       answer (payments_fail r) (write_create_result D)
         (CreatePayment E app (hr_header r ''Idempotency-Key'')
            \<lparr>in_order_id = qc_order_id q, in_amount_minor = qc_amount q, in_currency = qc_currency q,
             in_description = qc_description q, in_return_url = qc_return_url q,
             in_metadata = qc_metadata q\<rparr>)))"

definition create_attempt_handler :: "api \<Rightarrow> service_env \<Rightarrow> handler" where
  "create_attempt_handler D E r =
     proceed (authenticated_app r) (\<lambda>app.
     proceed (decode_json (hx_read_attempt (d_http D)) r) (\<lambda>q.
       answer (payments_fail r) (write_create_result D)
         (CreateAttempt E app (hr_param r ''order_id'') (hr_header r ''Idempotency-Key'')
            \<lparr>in_order_id = [], in_amount_minor = qt_amount q, in_currency = qt_currency q,
             in_description = qt_description q, in_return_url = qt_return_url q,
             in_metadata = qt_metadata q\<rparr>)))"

definition get_payment_handler :: "api \<Rightarrow> service_env \<Rightarrow> handler" where
  "get_payment_handler D E r =
     proceed (authenticated_app r) (\<lambda>app.
     proceed (payment_id_param D r) (\<lambda>pid.
       answer (payments_fail r) (\<lambda>p. JSON 200 (PaymentBody (NewPayment (id_text D) p)))
         (GetPayment E (app_id app) pid)))"

definition limit_param :: "http_request \<Rightarrow> response + int" where
  "limit_param r =
     (let raw = hr_query r ''limit'' in
      if raw = [] then Inr 0
      else case parse_positive_int raw of
        None \<Rightarrow> Inl (respond_error r 400 InvalidRequest ''limit must be a positive integer'' False)
      | Some limit \<Rightarrow> Inr limit)"

definition list_payments_handler :: "api \<Rightarrow> service_env \<Rightarrow> handler" where
  "list_payments_handler D E r =
     proceed (authenticated_app r) (\<lambda>app.
     proceed (limit_param r) (\<lambda>limit.
       answer (payments_fail r) (\<lambda>ps. JSON 200 (PaymentList (NewPayments (id_text D) ps)))
         (ListPayments E (app_id app) \<lparr>lq_order_id = hr_query r ''order_id'', lq_limit = limit\<rparr>)))"

subsection \<open>handlers/me.go and handlers/health.go\<close>

definition Me :: "api \<Rightarrow> handler" where
  "Me D r =
     proceed (authenticated_app r) (\<lambda>app.
       Ret (JSON 200 (MeBody \<lparr>dm_application_id = id_text D (app_id app), dm_name = app_name app,
         dm_slug = app_slug app\<rparr>)))"

definition Live :: "handler" where
  "Live r = Ret (JSON 200 (MapBody [(''status'', ''ok'')]))"

text \<open>\<open>Checker.Ping\<close> (\<open>internal/database/health.go\<close>) and the generated query; its deadline is one of
  the ways a statement fails.\<close>

definition ping_query :: "int effect" where
  "ping_query d = (Inr 1, d)"

definition Ping :: "(go_err + unit) action" where
  "Ping = bindP (exec Pool ping_query) (\<lambda>r. Ret (case r of
     Inl e \<Rightarrow> Inl (Prefixed ''database: ping'' e) | Inr _ \<Rightarrow> Inr ()))"

definition Ready :: "handler" where
  "Ready r = bindP Ping (\<lambda>res. Ret (case res of
     Inl _ \<Rightarrow> JSON 503 (MapBody [(''status'', ''unavailable''), (''reason'', ''database'')])
   | Inr _ \<Rightarrow> JSON 200 (MapBody [(''status'', ''ok'')])))"

end
