(* ===== verification/Router.thy ===== *)
theory Router
  imports Handlers
begin

text \<open>
  \<open>internal/http/router.go\<close> and \<open>internal/http/middleware/metrics.go\<close>: the route tables, what guards
  them, and the measurement of every request. A mux looks its table up with \<open>hx_match\<close>; a mounted mux
  is three entries, \<open>prefix\<close>, \<open>prefix/\<close> and \<open>prefix/*\<close>, whose middleware runs before the lookup in
  its own table.
\<close>

type_synonym table = "(string \<times> string \<times> handler) list"

definition not_found :: "handler" where
  "not_found r = Ret (respond_error r 404 NotFound ''resource not found'' False)"

definition method_not_allowed :: "handler" where
  "method_not_allowed r = Ret (respond_error r 405 InvalidRequest ''method not allowed'' False)"

definition any_method :: string where "any_method = ''*''"

definition entries :: "table \<Rightarrow> (string \<times> string) list" where
  "entries t = map (\<lambda>(m, p, _). (m, p)) t"

definition pass_pattern :: "string \<Rightarrow> response \<Rightarrow> response" where
  "pass_pattern p res = res\<lparr>rs_patterns := p # rs_patterns res\<rparr>"

definition mux :: "http_env \<Rightarrow> table \<Rightarrow> handler" where
  "mux X t r =
     (case hx_match X (entries t) (hr_method r) (hr_path r) of
        NoRoute \<Rightarrow> not_found r
      | WrongMethod \<Rightarrow> method_not_allowed r
      | Matched i params rest \<Rightarrow>
          if i < length t then
            (case t ! i of (_, p, h) \<Rightarrow>
               bindP (h (r\<lparr>hr_param := params, hr_path := rest\<rparr>)) (\<lambda>res. Ret (pass_pattern p res)))
          else not_found r)"

subsection \<open>The tables\<close>

text \<open>\<open>Payments.Register\<close> and \<open>Admin.Register\<close>\<close>

definition payments_register :: "api \<Rightarrow> service_env \<Rightarrow> table" where
  "payments_register D E =
     [(''POST'', ''/payments'', create_payment_handler D E),
      (''GET'', ''/payments'', list_payments_handler D E),
      (''GET'', ''/payments/{payment_id}'', get_payment_handler D E),
      (''POST'', ''/orders/{order_id}/payment-attempts'', create_attempt_handler D E)]"

definition admin_register :: "api \<Rightarrow> table" where
  "admin_register D =
     [(''POST'', ''/applications'', createApplication D),
      (''GET'', ''/applications'', listApplications D),
      (''GET'', ''/applications/{application_id}'', getApplication D),
      (''POST'', ''/applications/{application_id}/keys'', createAPIKey D),
      (''GET'', ''/applications/{application_id}/keys'', listAPIKeys D),
      (''DELETE'', ''/applications/{application_id}/keys/{key_id}'', revokeAPIKey D),
      (''POST'', ''/applications/{application_id}/webhook-secret'', rotateWebhookSecret D),
      (''POST'', ''/applications/{application_id}/providers'', attachProvider D),
      (''GET'', ''/applications/{application_id}/providers'', listProviders D),
      (''POST'', ''/providers/{provider_id}/test'', testProvider D)]"

text \<open>The exposition of the registry.\<close>

definition metrics_handler :: "handler" where
  "metrics_handler r = act (\<lambda>w. (JSON 200 (MetricsBody (registry w)), w))"

definition v1_routes :: "api \<Rightarrow> table" where
  "v1_routes D = (''GET'', ''/me'', Me D) #
     (case d_payments D of None \<Rightarrow> [] | Some E \<Rightarrow> payments_register D E)"

definition v1 :: "api \<Rightarrow> handler" where
  "v1 D = RequireApplication (Authenticate (d_apps D)) (mux (d_http D) (v1_routes D))"

definition admin :: "api \<Rightarrow> handler" where
  "admin D = RequireAdmin (d_admin_token D) (mux (d_http D) (admin_register D))"

text \<open>\<open>Route\<close> mounts a mux: chi registers the prefix, the prefix with a slash and everything below it, for
  all methods.\<close>

definition mount :: "string \<Rightarrow> handler \<Rightarrow> table" where
  "mount prefix h = [(any_method, prefix, h), (any_method, prefix @ ''/'', h), (any_method, prefix @ ''/*'', h)]"

definition root_routes :: "api \<Rightarrow> table" where
  "root_routes D =
     [(''GET'', ''/health/live'', Live), (''GET'', ''/health/ready'', Ready)] @
     (if d_metrics D then [(''GET'', ''/metrics'', metrics_handler)] else []) @
     mount ''/v1'' (v1 D) @ mount ''/admin'' (admin D)"

subsection \<open>Measurement\<close>

definition routePattern :: "http_env \<Rightarrow> response \<Rightarrow> string" where
  "routePattern X res = hx_pattern X (rs_patterns res)"

definition Metrics :: "http_env \<Rightarrow> handler \<Rightarrow> handler" where
  "Metrics X next r =
     bindP get_time (\<lambda>start.
     bindP (next r) (\<lambda>res.
     bindP get_time (\<lambda>finish.
     bindP (record_metric (RequestObserved (hr_method r) (routePattern X res) (rs_status res) (finish - start)))
       (\<lambda>_. Ret res))))"

definition NewRouter :: "api \<Rightarrow> handler" where
  "NewRouter D =
     (if d_metrics D then Metrics (d_http D) (mux (d_http D) (root_routes D))
      else mux (d_http D) (root_routes D))"

end
