(* ===== verification/Startup.thy ===== *)
theory Startup
  imports GoNumbers Errors
begin

text \<open>
  \<open>internal/config/config.go\<close>, the choice of the log level in \<open>internal/logging\<close>, and migrations: \<open>pgxURL\<close>
  and \<open>RunMigrations\<close> of \<open>internal/database/database.go\<close>, \<open>cmd/migrate\<close>. The environment is
  \<open>os.Getenv\<close>: empty for a variable that is not set.
\<close>

type_synonym environment = "string \<Rightarrow> string"

subsection \<open>Durations\<close>

text \<open>\<open>time.ParseDuration\<close>, in nanoseconds: an optional sign and numbers with units. (Fractions are
  exact here and computed in floating point there; the difference is below a nanosecond's rounding.)\<close>

definition duration_units :: "(string \<times> nat) list" where
  "duration_units = [(''ns'', 1), (''us'', 1000), ([char_of (194 :: nat), char_of (181 :: nat)] @ ''s'', 1000),
     ([char_of (206 :: nat), char_of (188 :: nat)] @ ''s'', 1000), (''ms'', 1000000), (''s'', 1000000000),
     (''m'', 60000000000), (''h'', 3600000000000)]"

definition digit_or_point :: "char \<Rightarrow> bool" where
  "digit_or_point c \<longleftrightarrow> c = CHR ''.'' \<or> is_digit c"

definition nat_of_digits :: "string \<Rightarrow> nat" where
  "nat_of_digits ds = (case digits_val 0 ds of None \<Rightarrow> 0 | Some n \<Rightarrow> n)"

text \<open>One number with its unit: the digits before and after the point, the unit, the rest of the text.\<close>

definition scan_number :: "string \<Rightarrow> string \<times> string \<times> string \<times> string" where
  "scan_number s =
     (let s1 = dropWhile is_digit s;
          has_point = (s1 \<noteq> [] \<and> hd s1 = CHR ''.'');
          s2 = (if has_point then dropWhile is_digit (tl s1) else s1)
      in (takeWhile is_digit s, if has_point then takeWhile is_digit (tl s1) else [],
          takeWhile (\<lambda>c. \<not> digit_or_point c) s2, dropWhile (\<lambda>c. \<not> digit_or_point c) s2))"

definition duration_limit :: nat where "duration_limit = 2 ^ 63"

definition number_value :: "string \<Rightarrow> string \<Rightarrow> nat \<Rightarrow> nat option" where
  "number_value whole frac unit =
     (let v = nat_of_digits whole in
      if v > duration_limit div unit then None
      else let t = v * unit + nat_of_digits frac * unit div 10 ^ length frac in
        if t > duration_limit then None else Some t)"

definition duration_part :: "string \<Rightarrow> (nat \<times> string) option" where
  "duration_part s =
     (case scan_number s of (whole, frac, u, rest) \<Rightarrow>
        if whole = [] \<and> frac = [] then None
        else case map_of duration_units u of
          None \<Rightarrow> None
        | Some unit \<Rightarrow> map_option (\<lambda>t. (t, rest)) (number_value whole frac unit))"

lemma scan_number_rest:
  "scan_number s = (whole, frac, u, rest) \<Longrightarrow> u \<noteq> [] \<Longrightarrow> length rest < length s"
proof -
  assume n: "scan_number s = (whole, frac, u, rest)" "u \<noteq> []"
  let ?s1 = "dropWhile is_digit s"
  let ?p = "?s1 \<noteq> [] \<and> hd ?s1 = CHR ''.''"
  let ?s2 = "if ?p then dropWhile is_digit (tl ?s1) else ?s1"
  have u: "u = takeWhile (\<lambda>c. \<not> digit_or_point c) ?s2" and rest: "rest = dropWhile (\<lambda>c. \<not> digit_or_point c) ?s2"
    using n(1) by (simp_all only: scan_number_def Let_def prod.inject)
  have "?s2 = u @ rest" unfolding u rest by (rule takeWhile_dropWhile_id [symmetric])
  then have "length ?s2 = length (u @ rest)" by (rule arg_cong)
  then have "length ?s2 = length u + length rest" by (simp only: length_append)
  moreover have "length (dropWhile is_digit (tl ?s1)) \<le> length ?s1"
    using length_dropWhile_le [of is_digit "tl ?s1"] by simp
  then have "length ?s2 \<le> length ?s1" by simp
  moreover have "length ?s1 \<le> length s" by (rule length_dropWhile_le)
  moreover have "0 < length u" using n(2) by simp
  ultimately show ?thesis by linarith
qed

lemma duration_part_shorter: "duration_part s = Some (t, rest) \<Longrightarrow> length rest < length s"
proof -
  assume d: "duration_part s = Some (t, rest)"
  obtain whole frac u r where n: "scan_number s = (whole, frac, u, r)" by (cases "scan_number s") auto
  have "map_of duration_units u \<noteq> None" "r = rest"
    using d n by (auto simp: duration_part_def split: if_splits option.splits)
  moreover have "map_of duration_units [] = None" by (simp add: duration_units_def)
  ultimately show ?thesis using scan_number_rest [OF n] by (cases "u = []") auto
qed

function duration_parts :: "nat \<Rightarrow> string \<Rightarrow> nat option" where
  "duration_parts acc s =
     (if s = [] then Some acc
      else case duration_part s of
        None \<Rightarrow> None
      | Some (t, rest) \<Rightarrow> if acc + t > duration_limit then None else duration_parts (acc + t) rest)"
  by pat_completeness auto
termination
  by (relation "measure (length \<circ> snd)") (auto dest: duration_part_shorter)

declare duration_parts.simps [simp del]

definition ParseDuration :: "string \<Rightarrow> int option" where
  "ParseDuration s =
     (let neg = (s \<noteq> [] \<and> hd s = CHR ''-'');
          t = (if s \<noteq> [] \<and> (hd s = CHR ''-'' \<or> hd s = CHR ''+'') then tl s else s)
      in if t = ''0'' then Some 0
         else if t = [] then None
         else case duration_parts 0 t of
           None \<Rightarrow> None
         | Some d \<Rightarrow> if neg then Some (- int d) else if d > duration_limit - 1 then None else Some (int d))"

subsection \<open>internal/config/config.go\<close>

record config =
  AppEnv :: string
  PublicURL :: string
  DatabaseURL :: string
  MasterEncryptionKey :: string
  MasterEncryptionPreviousKeys :: string
  AdminToken :: string
  AdminPasswordHash :: string
  LogLevel :: string
  HTTPAddr :: string
  YooKassaAPIURL :: string
  WorkerConcurrency :: int
  PaymentPollInterval :: int        \<comment> \<open>durations in nanoseconds\<close>
  ProviderIdempotencyWindow :: int
  ShutdownTimeout :: int

definition IsProduction :: "config \<Rightarrow> bool" where
  "IsProduction c \<longleftrightarrow> AppEnv c = ''production''"

definition AdminEnabled :: "config \<Rightarrow> bool" where
  "AdminEnabled c \<longleftrightarrow> AdminToken c \<noteq> []"

definition getenv :: "environment \<Rightarrow> string \<Rightarrow> string \<Rightarrow> string" where
  "getenv env key fallback = (let v = env key in if v \<noteq> [] then v else fallback)"

definition getenvInt :: "environment \<Rightarrow> string \<Rightarrow> int \<Rightarrow> go_err + int" where
  "getenvInt env key fallback =
     (let v = env key in
      if v = [] then Inr fallback
      else case parse_int 64 v of
        None \<Rightarrow> Inl (Prefixed (''config: '' @ key @ '' must be an integer'') (Opaque ''invalid syntax''))
      | Some n \<Rightarrow> Inr n)"

definition getenvDuration :: "environment \<Rightarrow> string \<Rightarrow> int \<Rightarrow> go_err + int" where
  "getenvDuration env key fallback =
     (let v = env key in
      if v = [] then Inr fallback
      else case ParseDuration v of
        None \<Rightarrow> Inl (Prefixed (''config: '' @ key @ '' must be a duration'') (Opaque ''invalid duration''))
      | Some d \<Rightarrow> Inr d)"

definition second :: int where "second = 1000000000"

definition base_config :: "environment \<Rightarrow> config" where
  "base_config env =
     \<lparr>AppEnv = getenv env ''APP_ENV'' ''development'',
      PublicURL = getenv env ''PUBLIC_URL'' ''http://localhost:8080'',
      DatabaseURL = env ''DATABASE_URL'',
      MasterEncryptionKey = env ''MASTER_ENCRYPTION_KEY'',
      MasterEncryptionPreviousKeys = env ''MASTER_ENCRYPTION_PREVIOUS_KEYS'',
      AdminToken = env ''ADMIN_TOKEN'',
      AdminPasswordHash = env ''ADMIN_PASSWORD_HASH'',
      LogLevel = getenv env ''LOG_LEVEL'' ''info'',
      HTTPAddr = getenv env ''HTTP_ADDR'' '':8080'',
      YooKassaAPIURL = getenv env ''YOOKASSA_API_URL'' ''https://api.yookassa.ru'',
      WorkerConcurrency = 0, PaymentPollInterval = 0, ProviderIdempotencyWindow = 0, ShutdownTimeout = 0\<rparr>"

definition Load :: "environment \<Rightarrow> go_err + config" where
  "Load env =
     (let c = base_config env in
      if DatabaseURL c = [] then Inl (Opaque ''config: DATABASE_URL is required'')
      else if MasterEncryptionKey c = [] then Inl (Opaque ''config: MASTER_ENCRYPTION_KEY is required'')
      else
        and_then (getenvInt env ''WORKER_CONCURRENCY'' 5) (\<lambda>workers.
        and_then (getenvDuration env ''PAYMENT_POLL_INTERVAL'' (30 * second)) (\<lambda>poll.
        and_then (getenvDuration env ''PROVIDER_IDEMPOTENCY_WINDOW'' (24 * 3600 * second)) (\<lambda>window.
        and_then (getenvDuration env ''SHUTDOWN_TIMEOUT'' (15 * second)) (\<lambda>shutdown.
          Inr (c\<lparr>WorkerConcurrency := workers, PaymentPollInterval := poll,
                 ProviderIdempotencyWindow := window, ShutdownTimeout := shutdown\<rparr>))))))"

subsection \<open>Logging, migrations\<close>

datatype level = LevelDebug | LevelInfo | LevelWarn | LevelError

definition log_level :: "string \<Rightarrow> level" where
  "log_level s =
     (let l = to_lower s in
      if l = ''debug'' then LevelDebug
      else if l = ''warn'' \<or> l = ''warning'' then LevelWarn
      else if l = ''error'' then LevelError
      else LevelInfo)"

definition pgxURL :: "string \<Rightarrow> string" where
  "pgxURL url =
     (if has_prefix url ''postgres://'' then ''pgx5://'' @ trim_prefix url ''postgres://''
      else if has_prefix url ''postgresql://'' then ''pgx5://'' @ trim_prefix url ''postgresql://''
      else url)"

text \<open>A migrator (golang-migrate) as its caller sees it: what opening it, going up and down, forcing a
  version and reading it answer.\<close>

datatype migrate_error = ErrNoChange | ErrNilVersion | MigrateFailed go_err

record migrator =
  mg_source :: "go_err option"
  mg_open :: "string \<Rightarrow> go_err option"
  mg_up :: "migrate_error option"
  mg_down :: "migrate_error option"
  mg_version :: "migrate_error + nat \<times> bool"
  mg_force :: "int \<Rightarrow> migrate_error option"

definition migrate_cause :: "migrate_error \<Rightarrow> go_err" where
  "migrate_cause e = (case e of ErrNoChange \<Rightarrow> Opaque ''no change'' | ErrNilVersion \<Rightarrow> Opaque ''no migration''
     | MigrateFailed c \<Rightarrow> c)"

text \<open>\<open>database.Migrate\<close>, and \<open>RunMigrations\<close>, which goes up.\<close>

definition Migrate :: "migrator \<Rightarrow> string \<Rightarrow> go_err option" where
  "Migrate M url =
     (case mg_source M of
        Some e \<Rightarrow> Some (Prefixed ''database: open migration source'' e)
      | None \<Rightarrow> map_option (Prefixed ''database: init migrator'') (mg_open M (pgxURL url)))"

definition RunMigrations :: "migrator \<Rightarrow> string \<Rightarrow> go_err option" where
  "RunMigrations M url =
     (case mg_source M of
        Some e \<Rightarrow> Some (Prefixed ''database: open migration source'' e)
      | None \<Rightarrow>
          (case mg_open M (pgxURL url) of
             Some e \<Rightarrow> Some (Prefixed ''database: init migrator'' e)
           | None \<Rightarrow>
               (case mg_up M of
                  Some e \<Rightarrow> if e = ErrNoChange then None
                           else Some (Prefixed ''database: apply migrations'' (migrate_cause e))
                | None \<Rightarrow> None)))"

text \<open>\<open>cmd/migrate\<close>: the command line, with the error the process ends with.\<close>

definition ignoreNoChange :: "migrate_error option \<Rightarrow> go_err option" where
  "ignoreNoChange e =
     (case e of None \<Rightarrow> None | Some e \<Rightarrow> if e = ErrNoChange then None else Some (migrate_cause e))"

definition printVersion :: "migrator \<Rightarrow> go_err option" where
  "printVersion M =
     (case mg_version M of
        Inl e \<Rightarrow> if e = ErrNilVersion then None else Some (migrate_cause e)
      | Inr _ \<Rightarrow> None)"

definition migrate_command :: "migrator \<Rightarrow> string list \<Rightarrow> go_err option" where
  "migrate_command M args =
     (if hd args = ''up'' then ignoreNoChange (mg_up M)
      else if hd args = ''down'' then ignoreNoChange (mg_down M)
      else if hd args = ''version'' then printVersion M
      else if hd args = ''force'' then
        (if length args \<noteq> 2 then Some (Opaque ''usage: migrate force <version>'')
         else case parse_int 64 (args ! 1) of
           None \<Rightarrow> Some (Prefixed (''migrate: invalid version '' @ go_quote (args ! 1)) (Opaque ''invalid syntax''))
         | Some v \<Rightarrow> map_option migrate_cause (mg_force M v))
      else Some (Opaque (''migrate: unknown command '' @ go_quote (hd args))))"

definition migrate_run :: "environment \<Rightarrow> migrator \<Rightarrow> string list \<Rightarrow> go_err option" where
  "migrate_run env M args =
     (case Load env of
        Inl e \<Rightarrow> Some e
      | Inr c \<Rightarrow>
          if args = [] then Some (Opaque ''usage: migrate <up|down|version|force <v>>'')
          else case Migrate M (DatabaseURL c) of
            Some e \<Rightarrow> Some e
          | None \<Rightarrow> migrate_command M args)"

end
