(* ===== verification/Wiring.thy ===== *)
theory Wiring
  imports Router Startup Cipher
begin

text \<open>
  \<open>cmd/api/main.go\<close>: the start of the API process, from the environment to the router it serves, and
  one round of the loop that publishes the number of unfinished payments. What the process is linked
  with (the crypto library, name resolution, PostgreSQL's own functions, JSON readers) is \<open>linked\<close>.
\<close>

record linked =
  ln_http :: http_env
  ln_crypto :: crypto
  ln_net :: net_env
  ln_pg :: pg_env
  ln_yk :: yk_env
  ln_decode_metadata :: "string \<Rightarrow> string + go_map"
  ln_migrator :: migrator
  ln_parse_config :: "string \<Rightarrow> go_err option"
  ln_connect :: "string \<Rightarrow> go_err option"
  ln_ping :: "go_err option"

text \<open>\<open>NewPool\<close> (\<open>internal/database/database.go\<close>): the first step that fails is the error.\<close>

definition NewPool :: "linked \<Rightarrow> string \<Rightarrow> go_err option" where
  "NewPool L url =
     (case ln_parse_config L url of
        Some e \<Rightarrow> Some (Prefixed ''database: parse config'' e)
      | None \<Rightarrow>
          (case ln_connect L url of
             Some e \<Rightarrow> Some (Prefixed ''database: connect'' e)
           | None \<Rightarrow> map_option (Prefixed ''database: ping'') (ln_ping L)))"

text \<open>\<open>applications.NewService\<close>, \<open>payments.NewService\<close> with its provider clients, \<open>Deps\<close>. Durations
  below a microsecond are cut off.\<close>

definition apps_service :: "linked \<Rightarrow> config \<Rightarrow> cipher \<Rightarrow> apps_env" where
  "apps_service L c ci =
     \<lparr>ap_production = IsProduction c, ap_cipher = ci, ap_sha = sha256 (ln_crypto L), ap_net = ln_net L\<rparr>"

definition payments_service :: "linked \<Rightarrow> config \<Rightarrow> cipher \<Rightarrow> service_env" where
  "payments_service L c ci =
     \<lparr>se_production = IsProduction c, se_window = ProviderIdempotencyWindow c div 1000,
      se_poll = PaymentPollInterval c div 1000, se_recorder = True, se_base_url = YooKassaAPIURL c,
      se_cipher = ci, se_sha = sha256 (ln_crypto L), se_net = ln_net L, se_pg = ln_pg L, se_yk = ln_yk L,
      se_uuid_text = hx_uuid_text (ln_http L), se_decode_metadata = ln_decode_metadata L\<rparr>"

definition deps :: "linked \<Rightarrow> config \<Rightarrow> cipher \<Rightarrow> api" where
  "deps L c ci =
     \<lparr>d_http = ln_http L, d_apps = apps_service L c ci, d_payments = Some (payments_service L c ci),
      d_yk = ln_yk L, d_admin_token = AdminToken c, d_api_url = YooKassaAPIURL c, d_metrics = True\<rparr>"

text \<open>\<open>run\<close>, up to the moment the server listens.\<close>

definition start_api :: "environment \<Rightarrow> linked \<Rightarrow> go_err + api" where
  "start_api env L =
     and_then (Load env) (\<lambda>c.
       case RunMigrations (ln_migrator L) (DatabaseURL c) of
         Some e \<Rightarrow> Inl e
       | None \<Rightarrow>
           (case NewPool L (DatabaseURL c) of
              Some e \<Rightarrow> Inl e
            | None \<Rightarrow>
                and_then (new_cipher (ln_crypto L) (MasterEncryptionKey c) (MasterEncryptionPreviousKeys c))
                  (\<lambda>ci. Inr (deps L c ci))))"

text \<open>One round of \<open>publishUnfinished\<close>; a failed count leaves the gauge alone.\<close>

definition publish_round :: "unit action" where
  "publish_round = bindP UnfinishedCount (\<lambda>r.
     case r of Inr n \<Rightarrow> record_metric (UnfinishedSet n) | Inl _ \<Rightarrow> Ret ())"

text \<open>\<open>cmd/worker\<close>: the worker needs the configuration and the database, and then waits for its end.\<close>

definition start_worker :: "environment \<Rightarrow> linked \<Rightarrow> go_err + config" where
  "start_worker env L =
     and_then (Load env) (\<lambda>c.
       case NewPool L (DatabaseURL c) of Some e \<Rightarrow> Inl e | None \<Rightarrow> Inr c)"

text \<open>Where the API starts, so does the worker.\<close>

lemma worker_starts: "start_api env L = Inr D \<Longrightarrow> \<exists>c. start_worker env L = Inr c"
  by (auto simp: start_api_def start_worker_def and_then_eq_Inr split: option.splits)

subsection \<open>The version\<close>

text \<open>The values set at build time, and the build information of the binary: its settings, if any.\<close>

definition version_string :: "string \<Rightarrow> string \<Rightarrow> string" where
  "version_string v built_from = v @ '' ('' @ built_from @ '')''"

definition Revision :: "string \<Rightarrow> (string \<times> string) list option \<Rightarrow> string" where
  "Revision built_from info =
     (case info of
        None \<Rightarrow> built_from
      | Some settings \<Rightarrow>
          (case find (\<lambda>(key, _). key = ''vcs.revision'' \<and> built_from = ''none'') settings of
             Some (_, v) \<Rightarrow> v
           | None \<Rightarrow> built_from))"

text \<open>A commit given at build time is always the revision.\<close>

lemma Revision_given: "built_from \<noteq> ''none'' \<Longrightarrow> Revision built_from info = built_from"
proof (cases info)
  case (Some settings)
  assume "built_from \<noteq> ''none''"
  then have "find (\<lambda>(key, _). key = ''vcs.revision'' \<and> built_from = ''none'') settings = None"
    by (auto simp: find_None_iff)
  with Some show ?thesis by (simp add: Revision_def)
qed (simp add: Revision_def)

end
