(* ===== verification/Alone.thy ===== *)
theory Alone
  imports Wiring
begin

text \<open>
  Programs that run alone, whatever fails: \<open>wp p Q s\<close> says that \<open>p\<close> returns from \<open>s\<close>, with \<open>Q\<close> of its
  result and the state it leaves. A statement may fail in every way the connection can (\<open>outcomes\<close>).
  The last part shows that every operation of the services returns and closes its transaction.
\<close>

subsection \<open>Weakest preconditions\<close>

definition wp :: "('s, 'a) prog \<Rightarrow> ('a \<Rightarrow> 's \<Rightarrow> bool) \<Rightarrow> 's \<Rightarrow> bool" where
  "wp p Q s \<longleftrightarrow> (\<exists>a t. run p s = Some (a, t) \<and> Q a t)"

lemma wp_Ret [simp]: "wp (Ret a) Q s \<longleftrightarrow> Q a s"
  by (simp add: wp_def)

lemma wp_bindP [simp]: "wp (bindP p k) Q s \<longleftrightarrow> wp p (\<lambda>a. wp (k a) Q) s"
  by (auto simp: wp_def run_bindP split: option.split)

lemma wp_bindE [simp]:
  "wp (bindE p k) Q s \<longleftrightarrow> wp p (\<lambda>r t. case r of Inl e \<Rightarrow> Q (Inl e) t | Inr a \<Rightarrow> wp (k a) Q t) s"
  by (auto simp: wp_def run_bindE split: option.split sum.split)

lemma wp_act [simp]: "wp (act f) Q s \<longleftrightarrow> Q (fst (f s)) (snd (f s))"
  by (simp add: wp_def prod_eq_iff)

lemma wp_act_if [simp]: "wp (act_if g f) Q s \<longleftrightarrow> g s \<and> Q (fst (f s)) (snd (f s))"
  by (auto simp: wp_def prod_eq_iff)

lemma wp_mono: "wp p Q s \<Longrightarrow> (\<And>a t. Q a t \<Longrightarrow> R a t) \<Longrightarrow> wp p R s"
  by (auto simp: wp_def)

lemma wp_conj: "wp p Q s \<Longrightarrow> wp p R s \<Longrightarrow> wp p (\<lambda>a t. Q a t \<and> R a t) s"
  by (auto simp: wp_def)

lemma wp_run: "run p s = Some (a, t) \<Longrightarrow> wp p Q s \<Longrightarrow> Q a t"
  by (simp add: wp_def)

lemma wp_case_sum:
  "(\<And>e. r = Inl e \<Longrightarrow> wp (f e) Q s) \<Longrightarrow> (\<And>a. r = Inr a \<Longrightarrow> wp (g a) Q s) \<Longrightarrow>
     wp (case r of Inl e \<Rightarrow> f e | Inr a \<Rightarrow> g a) Q s"
  by (cases r) auto

lemma wp_answer: "wp (answer fail ok p) Q s \<longleftrightarrow>
    wp p (\<lambda>r t. case r of Inl e \<Rightarrow> Q (fail e) t | Inr a \<Rightarrow> Q (ok a) t) s"
  by (auto simp: answer_def wp_def run_bindP split: option.split sum.split)

text \<open>The ways a statement ends: it did not reach the server, it was done, or it was done and the
  answer was lost.\<close>

definition outcomes :: "conn \<Rightarrow> 'a effect \<Rightarrow> (go_err + 'a \<Rightarrow> world \<Rightarrow> bool) \<Rightarrow> world \<Rightarrow> bool" where
  "outcomes c eff Q w \<longleftrightarrow>
     (let v = w\<lparr>w_stmts := Suc (w_stmts w)\<rparr>;
          r = (if conn_open c (w_db w) then eff (w_db w) else (Inl tx_closed, w_db w))
      in (\<forall>msg. Q (Inl (Opaque msg)) v) \<and> Q (fst r) (v\<lparr>w_db := snd r\<rparr>) \<and>
         (\<forall>msg. Q (Inl (Opaque msg)) (v\<lparr>w_db := snd r\<rparr>)))"

lemma outcomes_statement: "outcomes c eff Q w \<Longrightarrow> Q (fst (statement c eff w)) (snd (statement c eff w))"
  by (auto simp: outcomes_def statement_def Let_def split: fault.split)

lemma wp_exec: "outcomes c eff Q w \<Longrightarrow> wp (exec c eff) Q w"
  by (simp add: exec_def outcomes_statement)

lemma wp_exec_when: "ready (w_db w) \<Longrightarrow> outcomes c eff Q w \<Longrightarrow> wp (exec_when ready c eff) Q w"
  by (simp add: exec_when_def outcomes_statement)

subsection \<open>Nobody else's transaction is open\<close>

definition only :: "nat set \<Rightarrow> database \<Rightarrow> bool" where
  "only T d \<longleftrightarrow> t_id ` set (db_txs d) \<subseteq> T"

definition tx_of :: "conn \<Rightarrow> nat set" where
  "tx_of c = (case c of Pool \<Rightarrow> {} | Tx t \<Rightarrow> {t})"

lemma only_empty [simp]: "only {} d \<longleftrightarrow> db_txs d = []"
  by (simp add: only_def)

lemma only_foreign: "only (tx_of c) d \<Longrightarrow> foreign pending c d = []"
proof -
  assume o: "only (tx_of c) d"
  have "c = Tx (t_id x)" if "x \<in> set (db_txs d)" for x
    using o that by (cases c) (auto simp: only_def tx_of_def)
  then show ?thesis by (simp add: foreign_def other_txs_def filter_False)
qed

definition keeps_txs :: "'a effect \<Rightarrow> bool" where
  "keeps_txs eff \<longleftrightarrow> (\<forall>d. map t_id (db_txs (snd (eff d))) = map t_id (db_txs d))"

lemma keeps_only: "keeps_txs eff \<Longrightarrow> only T d \<Longrightarrow> only T (snd (eff d))"
  by (metis keeps_txs_def only_def list.set_map)

lemma txs_in_tx [simp]:
  "(\<And>x. t_id (f x) = t_id x) \<Longrightarrow> map t_id (db_txs (in_tx t f d)) = map t_id (db_txs d)"
  by (simp add: in_tx_def update_where_def comp_def)

lemma txs_put [simp]:
  "map t_id (db_txs (put_payment c p d)) = map t_id (db_txs d)"
  "map t_id (db_txs (put_operation c x d)) = map t_id (db_txs d)"
  "map t_id (db_txs (put_idempotency c i d)) = map t_id (db_txs d)"
  "map t_id (db_txs (put_application c a d)) = map t_id (db_txs d)"
  "map t_id (db_txs (put_api_key c k d)) = map t_id (db_txs d)"
  "map t_id (db_txs (put_account c r d)) = map t_id (db_txs d)"
  "map t_id (db_txs (put_links c ls d)) = map t_id (db_txs d)"
  by (simp_all add: put_payment_def put_operation_def put_idempotency_def put_application_def
      put_api_key_def put_account_def put_links_def split: conn.split)

text \<open>\<open>live T p\<close>: started when only transactions of \<open>T\<close> are open, \<open>p\<close> returns and so it is then.\<close>

definition live :: "nat set \<Rightarrow> 'a action \<Rightarrow> bool" where
  "live T p \<longleftrightarrow> (\<forall>w. only T (w_db w) \<longrightarrow> wp p (\<lambda>_ v. only T (w_db v)) w)"

named_theorems live \<open>programs that return\<close>

lemma live_Ret [live]: "live T (Ret a)"
  by (simp add: live_def)

lemma live_bindP [live]: "live T p \<Longrightarrow> (\<And>a. live T (k a)) \<Longrightarrow> live T (bindP p k)"
  unfolding live_def wp_bindP by (blast intro: wp_mono)

lemma live_bindE [live]: "live T p \<Longrightarrow> (\<And>a. live T (k a)) \<Longrightarrow> live T (bindE p k)"
  unfolding bindE_def by (intro live_bindP) (auto intro: live_Ret split: sum.split)

lemma live_case_sum [live]:
  "(\<And>e. live T (f e)) \<Longrightarrow> (\<And>a. live T (g a)) \<Longrightarrow> live T (case r of Inl e \<Rightarrow> f e | Inr a \<Rightarrow> g a)"
  by (cases r) auto

lemma live_case_option [live]:
  "live T f \<Longrightarrow> (\<And>a. live T (g a)) \<Longrightarrow> live T (case r of None \<Rightarrow> f | Some a \<Rightarrow> g a)"
  by (cases r) auto

lemma live_case_prod [live]: "(\<And>a b. live T (f a b)) \<Longrightarrow> live T (case r of (a, b) \<Rightarrow> f a b)"
  by (cases r) auto

lemma live_if [live]: "live T p \<Longrightarrow> live T q \<Longrightarrow> live T (if b then p else q)"
  by simp

lemma live_Let [live]: "live T (f a) \<Longrightarrow> live T (let x = a in f x)"
  by simp

lemma live_proceed [live]: "(\<And>a. live T (k a)) \<Longrightarrow> live T (proceed x k)"
  by (cases x) (auto intro: live_Ret)

lemma live_answer [live]: "live T p \<Longrightarrow> live T (answer fail ok p)"
  by (auto simp: answer_def intro: live_bindP live_Ret)

lemma live_act: "(\<And>w. only T (w_db w) \<Longrightarrow> only T (w_db (snd (f w)))) \<Longrightarrow> live T (act f)"
  by (simp add: live_def)

lemma live_actions [live]:
  "live T get_time" "live T new_uuid" "live T (rand_read n)" "live T (record_metric m)"
  "live T (provider_call f)"
proof -
  show "live T (provider_call f)"
    unfolding provider_call_def by (rule live_act) (auto split: prod.split option.split)
qed (auto simp: get_time_def new_uuid_def rand_read_def record_metric_def fresh_id_def only_def intro: live_act)

lemma live_exec [live]: "keeps_txs eff \<Longrightarrow> live T (exec c eff)"
  unfolding live_def
  by (auto intro!: wp_exec simp: outcomes_def Let_def dest: keeps_only)

lemma live_exec_when:
  assumes "keeps_txs eff" "\<And>d. only T d \<Longrightarrow> ready d"
  shows "live T (exec_when ready c eff)"
  unfolding live_def
  by (auto intro!: wp_exec_when assms(2) simp: outcomes_def Let_def dest: keeps_only [OF assms(1)])

text \<open>A transaction from its start to the deferred rollback.\<close>

lemma live_tx [live]:
  assumes "\<And>t. live {t} (body t)" "\<And>e. live {} (f e)"
  shows "live {} (bindP begin_tx (\<lambda>r. case r of
     Inl e \<Rightarrow> f e | Inr t \<Rightarrow> bindP (body t) (\<lambda>res. bindP (rollback t) (\<lambda>_. Ret res))))"
  unfolding live_def
proof (intro allI impI)
  fix w :: world
  assume "only {} (w_db w)"
  then have d: "db_txs (w_db w) = []" by simp
  have open_body: "wp (body t) (\<lambda>_ v. only {t} (w_db v)) v" if "only {t} (w_db v)" for t v
    using assms(1) that by (simp add: live_def)
  have closed: "db_txs (close_tx t d) = []" if "only {t} d" for t d
    using that by (auto simp: only_def close_tx_def filter_empty_conv)
  show "wp (bindP begin_tx (\<lambda>r. case r of
     Inl e \<Rightarrow> f e | Inr t \<Rightarrow> bindP (body t) (\<lambda>res. bindP (rollback t) (\<lambda>_. Ret res)))) (\<lambda>_ v. only {} (w_db v)) w"
    using d assms(2) [unfolded live_def]
    by (auto simp: begin_tx_def open_tx_def rollback_def Let_def only_def new_tx_def closed
        intro!: wp_mono [OF open_body] split: fault.split)
qed

lemma only_close: "only T d \<Longrightarrow> only T (close_tx t d)"
  by (auto simp: only_def close_tx_def)

lemma live_commit [live]: "live T (commit t)"
  unfolding live_def commit_def
  by (auto intro!: wp_exec only_close simp: outcomes_def Let_def commit_tx_def) (auto simp: only_def)

subsection \<open>No query opens or closes a transaction\<close>

lemma keeps_with_text [live]: "keeps_txs eff \<Longrightarrow> keeps_txs (with_text s eff)"
  by (auto simp: keeps_txs_def with_text_def split: sum.split)

lemma keeps_with_text_opt [live]: "keeps_txs eff \<Longrightarrow> keeps_txs (with_text_opt s eff)"
  by (auto simp: with_text_opt_def intro: keeps_with_text split: option.split)

lemma keeps_reads [live]: "keeps_txs (\<lambda>d. (f d, d))"
  by (simp add: keeps_txs_def)

lemma keeps_payment_queries [live]:
  "keeps_txs (get_payment_for_application pid app c)" "keeps_txs (get_idempotency_request app key c)"
  "keeps_txs (order_has_succeeded_payment app order c)" "keeps_txs (next_attempt_number app order c)"
  "keeps_txs (list_payments_for_application app opt n c)" "keeps_txs (count_unfinished_payments c)"
  "keeps_txs (lock_order_for_payment P txt order c)" "keeps_txs (create_payment P pay c)"
  "keeps_txs (create_payment_operation P oper c)" "keeps_txs (create_idempotency_request app key hash pido c)"
  "keeps_txs (start_payment_operation oid)" "keeps_txs (complete_payment_operation oid st err)"
  "keeps_txs (update_payments cond f)"
  by (auto simp: keeps_txs_def get_payment_for_application_def get_idempotency_request_def
      order_has_succeeded_payment_def next_attempt_number_def list_payments_for_application_def
      count_unfinished_payments_def lock_order_for_payment_def with_text_def with_text_opt_def
      create_payment_def create_payment_operation_def create_idempotency_request_def
      start_payment_operation_def complete_payment_operation_def update_operations_def update_payments_def
      fresh_id_def Let_def split: sum.split conn.split option.split)

lemma keeps_app_queries [live]:
  "keeps_txs (get_application app c)" "keeps_txs (list_applications c)" "keeps_txs (create_application ca c)"
  "keeps_txs (update_application_webhook_secret app sec)" "keeps_txs (create_api_key ka c)"
  "keeps_txs (get_api_key_by_prefix pre c)" "keeps_txs (list_api_keys app c)" "keeps_txs (revoke_api_key key app)"
  "keeps_txs (touch_api_key_last_used key)" "keeps_txs (create_provider_account aa c)"
  "keeps_txs (get_provider_account account c)" "keeps_txs (get_provider_account_by_shop pr sh en c)"
  "keeps_txs (get_default_provider_account app c)" "keeps_txs (list_provider_accounts app c)"
  "keeps_txs (update_provider_account_status account st)" "keeps_txs (attach_provider_account app account b c)"
  "keeps_txs (clear_default_provider app c)" "keeps_txs ping_query"
  by (auto simp: keeps_txs_def get_application_def list_applications_def get_api_key_by_prefix_def
      list_api_keys_def get_provider_account_def get_provider_account_by_shop_def ping_query_def
      get_default_provider_account_def list_provider_accounts_def with_text_def
      create_application_def create_api_key_def create_provider_account_def
      update_application_webhook_secret_def revoke_api_key_def touch_api_key_last_used_def
      update_provider_account_status_def attach_provider_account_def clear_default_provider_def
      fresh_id_def Let_def split: sum.split)

text \<open>A query waits only for rows of other transactions.\<close>

lemma ready_alone:
  assumes "only (tx_of c) d"
  shows "lock_order_ready P txt order c d" "create_payment_ready P pay c d" "create_operation_ready P oper c d"
    "create_idempotency_ready app key hash pido c d" "create_application_ready ca c d"
    "create_api_key_ready ka c d" "create_account_ready aa c d" "attach_ready app account b c d"
    "clear_default_ready app c d"
  by (auto simp: only_foreign [OF assms] free_of_def lock_order_ready_def create_payment_ready_def create_operation_ready_def
      create_idempotency_ready_def create_application_ready_def create_api_key_ready_def
      create_account_ready_def attach_ready_def clear_default_ready_def list_all_iff split: sum.split)

lemma update_ready_alone: "only {} d \<Longrightarrow> update_payments_ready cond f d"
  by (simp add: only_foreign [of Pool d] update_payments_ready_def tx_of_def list_all_iff free_of_def)

lemmas tx_ready = ready_alone [where c = "Tx t" for t, unfolded tx_of_def conn.case]
lemmas pool_ready = ready_alone [where c = Pool, unfolded tx_of_def conn.case]

lemma live_update [live]: "live {} (exec_update cond f)" "live {} (exec_update_at cond' g)"
proof -
  show "live {} (exec_update cond f)"
    unfolding exec_update_def by (rule live_exec_when) (auto intro: live update_ready_alone)
  have "keeps_txs (\<lambda>d. update_payments cond' (g (db_clock d)) d)"
    by (auto simp: keeps_txs_def update_payments_def)
  then show "live {} (exec_update_at cond' g)"
    unfolding exec_update_at_def by (rule live_exec_when) (auto intro: update_ready_alone)
qed

lemma live_payment_updates [live]:
  "live {} (mark_payment_creating pid)" "live {} (set_payment_created pid p u t)"
  "live {} (set_payment_creation_unknown pid t)" "live {} (set_payment_canceled pid)"
  "live {} (apply_provider_status pid st t)"
  unfolding mark_payment_creating_def set_payment_created_def set_payment_creation_unknown_def
    set_payment_canceled_def apply_provider_status_def
  by (intro live)+

end
