(* ===== verification/AppRuns.thy ===== *)
theory AppRuns
  imports Alone KeyStore
begin

text \<open>
  \<open>CreateApplication\<close> and \<open>AttachProviderAccount\<close> run alone, whatever fails on the way: what a
  transaction of theirs holds back, what its commit adds to the tables, and what is left when a step
  fails. \<open>core\<close> is the committed tables.
\<close>

definition core :: "database \<Rightarrow> database" where
  "core d = d\<lparr>db_txs := [], db_clock := 0, db_next := 0\<rparr>"

text \<open>The one open transaction is \<open>t\<close>, started on the tables of \<open>d0\<close>; its rows are pending.\<close>

definition inside ::
  "nat \<Rightarrow> database \<Rightarrow> application_row list \<Rightarrow> api_key_row list \<Rightarrow> account_row list \<Rightarrow> link_row list \<Rightarrow> database \<Rightarrow> bool" where
  "inside t d0 as ks cs ls d \<longleftrightarrow> core d = core d0 \<and>
     (\<exists>time. db_txs d = [\<lparr>t_id = t, t_now = time, t_payments = [], t_operations = [], t_idempotency = [],
        t_applications = as, t_api_keys = ks, t_accounts = cs, t_links = ls, t_locks = []\<rparr>])"

text \<open>No transaction is open and the tables are those of \<open>d0\<close> with these rows.\<close>

definition outside ::
  "database \<Rightarrow> application_row list \<Rightarrow> api_key_row list \<Rightarrow> account_row list \<Rightarrow> link_row list \<Rightarrow> database \<Rightarrow> bool" where
  "outside d0 as ks cs ls d \<longleftrightarrow> db_txs d = [] \<and>
     core d = (core d0)\<lparr>db_applications := db_applications d0 @ as, db_api_keys := db_api_keys d0 @ ks,
       db_accounts := db_accounts d0 @ cs, db_links := merge_links (db_links d0) ls\<rparr>"

lemma core_fields [simp]:
  "db_payments (core d) = db_payments d" "db_operations (core d) = db_operations d"
  "db_idempotency (core d) = db_idempotency d" "db_applications (core d) = db_applications d"
  "db_api_keys (core d) = db_api_keys d" "db_accounts (core d) = db_accounts d" "db_links (core d) = db_links d"
  by (simp_all add: core_def)

lemma core_eq: "core d = core d0 \<longleftrightarrow> db_payments d = db_payments d0 \<and> db_operations d = db_operations d0 \<and>
    db_idempotency d = db_idempotency d0 \<and> db_applications d = db_applications d0 \<and>
    db_api_keys d = db_api_keys d0 \<and> db_accounts d = db_accounts d0 \<and> db_links d = db_links d0"
  by (cases d; cases d0) (auto simp: core_def)

lemma merge_links_empty [simp]: "merge_links ls [] = ls" "merge_links [] ls = ls"
  by (simp_all add: merge_links_def)

lemma inside_start: "db_txs d = [] \<Longrightarrow> inside (fst (open_tx d)) d [] [] [] [] (snd (open_tx d))"
  by (simp add: inside_def open_tx_def core_def new_tx_def)

lemma inside_core: "inside t d0 as ks cs ls d \<Longrightarrow> core d0 = core d1 \<Longrightarrow> inside t d1 as ks cs ls d"
  by (simp add: inside_def)

lemma inside_open: "inside t d0 as ks cs ls d \<Longrightarrow> conn_open (Tx t) d"
  by (auto simp: inside_def conn_open_def own_txs_def)

lemma inside_only: "inside t d0 as ks cs ls d \<Longrightarrow> only {t} d"
  by (auto simp: inside_def only_def)

lemma inside_visible:
  assumes "inside t d0 as ks cs ls d"
  shows "visible_applications (Tx t) d = db_applications d0 @ as" "visible_api_keys (Tx t) d = db_api_keys d0 @ ks"
    "visible_accounts (Tx t) d = db_accounts d0 @ cs" "visible_links (Tx t) d = merge_links (db_links d0) ls"
  using assms by (auto simp: inside_def visible_def visible_links_def own_txs_def core_eq)

lemma inside_next: "inside t d0 as ks cs ls d \<Longrightarrow> inside t d0 as ks cs ls (snd (fresh_id d))"
  by (auto simp: inside_def fresh_id_def core_def)

lemma inside_put:
  assumes "inside t d0 as ks cs ls d"
  shows "inside t d0 (as @ [a]) ks cs ls (put_application (Tx t) a d)"
    "inside t d0 as (ks @ [k]) cs ls (put_api_key (Tx t) k d)"
    "inside t d0 as ks (cs @ [c]) ls (put_account (Tx t) c d)"
    "inside t d0 as ks cs (merge_links ls ms) (put_links (Tx t) ms d)"
  using assms
  by (auto simp: inside_def put_application_def put_api_key_def put_account_def put_links_def in_tx_def
      update_where_def core_def)

lemma inside_commit: "inside t d0 as ks cs ls d \<Longrightarrow> outside d0 as ks cs ls (commit_tx t d)"
proof -
  assume i: "inside t d0 as ks cs ls d"
  then obtain x where x: "db_txs d = [x]" "t_id x = t" "t_payments x = []" "t_operations x = []" "t_idempotency x = []"
    and c: "core d = core d0" by (auto simp: inside_def)
  then have own: "own_txs (Tx t) d = [x]" by (simp add: own_txs_def)
  have "visible_payments (Tx t) d = db_payments d0" "visible_operations (Tx t) d = db_operations d0"
    "visible_idempotency (Tx t) d = db_idempotency d0"
    using c by (simp_all add: visible_def own x core_eq)
  then have "commit_tx t d = d\<lparr>db_payments := db_payments d0, db_operations := db_operations d0,
      db_idempotency := db_idempotency d0, db_applications := db_applications d0 @ as,
      db_api_keys := db_api_keys d0 @ ks, db_accounts := db_accounts d0 @ cs,
      db_links := merge_links (db_links d0) ls, db_txs := []\<rparr>"
    by (simp add: commit_tx_def close_tx_def x inside_visible [OF i])
  then show ?thesis by (cases d; cases d0) (simp add: outside_def core_def)
qed

lemma inside_close: "inside t d0 as ks cs ls d \<Longrightarrow> outside d0 [] [] [] [] (close_tx t d)"
  by (auto simp: inside_def outside_def close_tx_def core_def)

lemma outside_close: "outside d0 as ks cs ls d \<Longrightarrow> outside d0 as ks cs ls (close_tx t d)"
  by (auto simp: outside_def close_tx_def core_def)

lemma outside_txs: "outside d0 as ks cs ls d \<Longrightarrow> db_txs d = []"
  by (simp add: outside_def)

lemma outside_start: "db_txs d = [] \<Longrightarrow> outside d [] [] [] [] d"
  by (simp add: outside_def core_def)

lemma outside_same: "outside d0 [] [] [] [] d \<longleftrightarrow> db_txs d = [] \<and> core d = core d0"
  by (auto simp: outside_def core_def)

subsection \<open>Statements of a transaction\<close>

lemma wp_stmt:
  assumes "conn_open c (w_db w)" "\<And>msg. Q (Inl (Opaque msg)) (w\<lparr>w_stmts := Suc (w_stmts w)\<rparr>)"
    "\<And>r d. eff (w_db w) = (r, d) \<Longrightarrow> Q r (w\<lparr>w_stmts := Suc (w_stmts w), w_db := d\<rparr>)"
    "\<And>msg r d. eff (w_db w) = (r, d) \<Longrightarrow> Q (Inl (Opaque msg)) (w\<lparr>w_stmts := Suc (w_stmts w), w_db := d\<rparr>)"
  shows "outcomes c eff Q w"
  using assms by (cases "eff (w_db w)") (simp add: outcomes_def)

lemma wp_bindE_Ret: "wp (bindE (Ret r) k) Q s \<longleftrightarrow> (case r of Inl e \<Rightarrow> Q (Inl e) s | Inr a \<Rightarrow> wp (k a) Q s)"
  by simp

lemma wp_bindE_bindP: "wp (bindE (bindP p f) k) Q s \<longleftrightarrow> wp p (\<lambda>a. wp (bindE (f a) k) Q) s"
  by (auto simp: wp_def run_bindE run_bindP split: option.split)

lemma random_ok_stmt [simp]:
  "random_ok (w\<lparr>w_stmts := n\<rparr>) = random_ok w" "random_ok (w\<lparr>w_db := d\<rparr>) = random_ok w"
  "random_ok (w\<lparr>w_draws := k\<rparr>) = random_ok w"
  by (simp_all add: random_ok_def)

text \<open>A row of an application or a key is inserted, or nothing is.\<close>

lemma create_application_inside:
  assumes "inside t d0 as ks cs ls d" "create_application arg (Tx t) d = (r, d')"
  shows "case r of
      Inl _ \<Rightarrow> inside t d0 as ks cs ls d'
    | Inr row \<Rightarrow> inside t d0 (as @ [row]) ks cs ls d' \<and> free_of application_clash row (db_applications d0 @ as) \<and>
        application_values arg (a_id row) (a_created_at row) = Inr row"
proof -
  have n: "inside t d0 as ks cs ls (snd (fresh_id d))" by (rule inside_next [OF assms(1)])
  have vals: "application_values arg (a_id row) (a_created_at row) = Inr row"
    if "application_values arg u time = Inr row" for u time row
    using that by (auto simp: application_values_def and_then_eq_Inr)
  show ?thesis
    using assms(2) n inside_put(1) [OF n] vals
    by (auto simp: create_application_def fresh_id_def inside_visible [OF assms(1)] split: sum.splits if_splits)
qed

lemma create_api_key_inside:
  assumes "inside t d0 as ks cs ls d" "create_api_key arg (Tx t) d = (r, d')"
  shows "case r of
      Inl _ \<Rightarrow> inside t d0 as ks cs ls d'
    | Inr row \<Rightarrow> inside t d0 as (ks @ [row]) cs ls d' \<and> free_of api_key_clash row (db_api_keys d0 @ ks) \<and>
        api_key_values arg (k_id row) (k_created_at row) = Inr row"
proof -
  have n: "inside t d0 as ks cs ls (snd (fresh_id d))" by (rule inside_next [OF assms(1)])
  have vals: "api_key_values arg (k_id row) (k_created_at row) = Inr row"
    if "api_key_values arg u time = Inr row" for u time row
    using that by (auto simp: api_key_values_def and_then_eq_Inr)
  show ?thesis
    using assms(2) n inside_put(2) [OF n] vals
    by (auto simp: create_api_key_def fresh_id_def inside_visible [OF assms(1)] split: sum.splits if_splits)
qed

definition fresh_grant :: "uuid \<Rightarrow> uuid \<Rightarrow> time option \<Rightarrow> grant" where
  "fresh_grant ident app e = \<lparr>g_id = ident, g_app = app, g_expires = e, g_revoked = False\<rparr>"

lemma wp_issue_key:
  assumes i: "inside t d0 as ks cs ls (w_db w)" and r: "random_ok w" and h: "hash_ok A"
  shows "wp (issue_key A (Tx t) app name e) (\<lambda>res v. random_ok v \<and>
    (case res of
       Inl _ \<Rightarrow> \<exists>ks'. inside t d0 as ks' cs ls (w_db v)
     | Inr key \<Rightarrow> \<exists>row. inside t d0 as (ks @ [row]) cs ls (w_db v) \<and>
         free_of api_key_clash row (db_api_keys d0 @ ks) \<and>
         represents A (ik_full_key key) (fresh_grant (ik_id key) app e) row)) w"
proof (cases "generate (ap_sha A) (w_random w (w_draws w) token_bytes)")
  case (Inl err)
  then show ?thesis using i r by (auto simp: issue_key_def rand_read_def)
next
  case (Inr k)
  then obtain token where token: "w_random w (w_draws w) token_bytes = Some token" "length token = token_bytes"
    using r by (auto simp: generate_def random_ok_def split: option.splits)
  let ?arg = "new_api_key app k name e" and ?w = "w\<lparr>w_draws := Suc (w_draws w)\<rparr>"
  have rep: "represents A (key_full k) (fresh_grant (k_id row) app e) row"
    if "api_key_values ?arg (k_id row) (k_created_at row) = Inr row" for row
    unfolding fresh_grant_def by (rule issued_represents [OF _ token(2) h that]) (use Inr token in simp)
  let ?Q = "\<lambda>res v. random_ok v \<and> (case res of
       Inl _ \<Rightarrow> \<exists>ks'. inside t d0 as ks' cs ls (w_db v)
     | Inr row \<Rightarrow> inside t d0 as (ks @ [row]) cs ls (w_db v) \<and> free_of api_key_clash row (db_api_keys d0 @ ks) \<and>
         api_key_values ?arg (k_id row) (k_created_at row) = Inr row)"
  have "wp (exec_when (create_api_key_ready ?arg (Tx t)) (Tx t) (create_api_key ?arg (Tx t))) ?Q ?w"
  proof (rule wp_exec_when)
    show "create_api_key_ready ?arg (Tx t) (w_db ?w)"
      using inside_only [OF i] by (intro tx_ready) simp
    show "outcomes (Tx t) (create_api_key ?arg (Tx t)) ?Q ?w"
      using r i inside_open [OF i]
      by (intro wp_stmt) (auto dest!: create_api_key_inside [OF i] split: sum.splits)
  qed
  then show ?thesis
    unfolding issue_key_def rand_read_def wp_bindP wp_act
    by (auto simp: Inr Let_def to_api_key_info_def elim!: wp_mono dest: rep split: sum.splits)
qed

subsection \<open>Creating an application\<close>

text \<open>The rows of a new application: it is new, active and named as asked, its key opens it. The
  answer, if it is not an error, names exactly them; an error is not one to try again on.\<close>

definition made ::
  "apps_env \<Rightarrow> database \<Rightarrow> create_application_params \<Rightarrow> go_err + application \<times> issued_key \<Rightarrow>
   application_row \<Rightarrow> api_key_row \<Rightarrow> bool" where
  "made A d0 arg res row krow \<longleftrightarrow>
     free_of application_clash row (db_applications d0) \<and> free_of api_key_clash krow (db_api_keys d0) \<and>
     application_values arg (a_id row) (a_created_at row) = Inr row \<and>
     (\<exists>full. represents A full (fresh_grant (k_id krow) (a_id row) None) krow \<and>
        (case res of
           Inl e \<Rightarrow> \<not> is_unique_violation e
         | Inr (app, key) \<Rightarrow> to_application row = Inr app \<and> ik_full_key key = full \<and> ik_id key = k_id krow))"

definition in_transaction ::
  "apps_env \<Rightarrow> nat \<Rightarrow> database \<Rightarrow> create_application_params \<Rightarrow> go_err + application \<times> issued_key \<Rightarrow> world \<Rightarrow> bool" where
  "in_transaction A t d0 arg res v \<longleftrightarrow> random_ok v \<and>
     ((\<exists>e. res = Inl e) \<and> (\<exists>as ks. inside t d0 as ks [] [] (w_db v)) \<or>
      (\<exists>row krow. outside d0 [row] [krow] [] [] (w_db v) \<and> made A d0 arg res row krow))"

lemma in_transactionI:
  "random_ok v \<Longrightarrow> inside t d0 as ks [] [] (w_db v) \<Longrightarrow> in_transaction A t d0 arg (Inl e) v"
  "random_ok v \<Longrightarrow> outside d0 [row] [krow] [] [] (w_db v) \<Longrightarrow> made A d0 arg res row krow \<Longrightarrow>
     in_transaction A t d0 arg res v"
  by (auto simp: in_transaction_def)

lemma wp_create_row:
  assumes i: "inside t d0 [] [] [] [] (w_db w)" and r: "random_ok w"
  shows "wp (exec_when (create_application_ready arg (Tx t)) (Tx t) (create_application arg (Tx t)))
    (\<lambda>res v. random_ok v \<and> (case res of
        Inl _ \<Rightarrow> inside t d0 [] [] [] [] (w_db v) \<or> (\<exists>row. inside t d0 [row] [] [] [] (w_db v))
      | Inr row \<Rightarrow> inside t d0 [row] [] [] [] (w_db v) \<and> free_of application_clash row (db_applications d0) \<and>
          application_values arg (a_id row) (a_created_at row) = Inr row)) w"
proof (rule wp_exec_when)
  show "create_application_ready arg (Tx t) (w_db w)"
    using inside_only [OF i] by (intro tx_ready) simp
qed (use r i inside_open [OF i] in
    \<open>intro wp_stmt, auto dest!: create_application_inside [OF i] split: sum.splits\<close>)

lemma wp_commit_application:
  assumes i: "inside t d0 [row] [krow] [] [] (w_db w)" and r: "random_ok w"
    and m: "made A d0 arg (Inr res) row krow"
  shows "wp (bindP (commit t) (\<lambda>r. case r of
      Inl e \<Rightarrow> Ret (Inl (Prefixed ''applications: commit'' e)) | Inr _ \<Rightarrow> Ret (Inr res))) (in_transaction A t d0 arg) w"
proof -
  have m': "made A d0 arg (Inl (Prefixed s (Opaque msg))) row krow" for s msg
    using m by (auto simp: made_def)
  have ended: "in_transaction A t d0 arg res' (w\<lparr>w_stmts := n, w_db := commit_tx t (w_db w)\<rparr>)"
    if "made A d0 arg res' row krow" for res' n
    by (rule in_transactionI(2) [OF _ _ that]) (use r inside_commit [OF i] in simp_all)
  show ?thesis
    unfolding wp_bindP commit_def
    using r i m m' ended inside_open [OF i]
    by (intro wp_exec wp_stmt) (auto intro: in_transactionI)
qed

lemma wp_insert_application:
  assumes i: "inside t d0 [] [] [] [] (w_db w)" and r: "random_ok w" and h: "hash_ok A"
  shows "wp (insert_application A t slug name input secret)
    (in_transaction A t d0 (application_params input name slug secret)) w"
proof -
  let ?arg = "application_params input name slug secret"
  have key: "wp (bindE (issue_key A (Tx t) (a_id row) ''Default'' None) (\<lambda>key. bindP (commit t) (\<lambda>r. case r of
      Inl e \<Rightarrow> Ret (Inl (Prefixed ''applications: commit'' e)) | Inr _ \<Rightarrow> Ret (Inr (app, key)))))
      (in_transaction A t d0 ?arg) v"
    if v: "inside t d0 [row] [] [] [] (w_db v)" "random_ok v" "free_of application_clash row (db_applications d0)"
      "application_values ?arg (a_id row) (a_created_at row) = Inr row" "to_application row = Inr app" for row app v
  proof -
    have "made A d0 ?arg (Inr (app, k)) row krow"
      if "free_of api_key_clash krow (db_api_keys d0)"
        "represents A (ik_full_key k) (fresh_grant (ik_id k) (a_id row) None) krow" for k krow
    proof -
      have "k_id krow = ik_id k" using that(2) by (simp add: represents_def fresh_grant_def)
      then show ?thesis using v that by (auto simp: made_def)
    qed
    then show ?thesis
      unfolding wp_bindE
      by (intro wp_mono [OF wp_issue_key [OF v(1,2) h]])
        (auto intro: in_transactionI wp_commit_application [unfolded wp_bindP] split: sum.splits)
  qed
  show ?thesis
    unfolding insert_application_def Let_def wp_bindE [of "exec_when _ _ _"]
  proof (rule wp_mono [OF wp_create_row [OF i r]], elim conjE)
    fix res :: "go_err + application_row" and v
    assume v: "random_ok v" "case res of
        Inl _ \<Rightarrow> inside t d0 [] [] [] [] (w_db v) \<or> (\<exists>row. inside t d0 [row] [] [] [] (w_db v))
      | Inr row \<Rightarrow> inside t d0 [row] [] [] [] (w_db v) \<and> free_of application_clash row (db_applications d0) \<and>
          application_values ?arg (a_id row) (a_created_at row) = Inr row"
    show "case res of Inl e \<Rightarrow> in_transaction A t d0 ?arg (Inl e) v
      | Inr row \<Rightarrow> wp (bindE (Ret (to_application row)) (\<lambda>app.
          bindE (issue_key A (Tx t) (app_id app) ''Default'' None) (\<lambda>key. bindP (commit t) (\<lambda>r. case r of
            Inl e \<Rightarrow> Ret (Inl (Prefixed ''applications: commit'' e)) | Inr _ \<Rightarrow> Ret (Inr (app, key))))))
          (in_transaction A t d0 ?arg) v"
      using v key by (cases res) (auto intro: in_transactionI simp: wp_bindE [of "Ret _"] simp del: wp_bindE wp_bindP)
  qed
qed

text \<open>The transaction has ended: its rows are in the tables, or nothing is.\<close>

definition all_or_nothing ::
  "apps_env \<Rightarrow> database \<Rightarrow> (create_application_params \<Rightarrow> bool) \<Rightarrow> go_err + application \<times> issued_key \<Rightarrow> world \<Rightarrow> bool" where
  "all_or_nothing A d0 args res v \<longleftrightarrow> random_ok v \<and>
     ((\<exists>e. res = Inl e) \<and> outside d0 [] [] [] [] (w_db v) \<or>
      (\<exists>row krow arg. outside d0 [row] [krow] [] [] (w_db v) \<and> args arg \<and> made A d0 arg res row krow))"

lemma made_core: "core d = core d0 \<Longrightarrow> made A d arg res row krow = made A d0 arg res row krow"
  by (simp add: made_def core_eq)

lemma wp_create_application_tx:
  assumes o: "outside d0 [] [] [] [] (w_db w)" and r: "random_ok w" and h: "hash_ok A"
    and a: "args (application_params input name slug secret)"
  shows "wp (create_application_tx A slug name input secret) (all_or_nothing A d0 args) w"
proof -
  let ?arg = "application_params input name slug secret"
  have d: "db_txs (w_db w) = []" "core (w_db w) = core d0" using o by (simp_all add: outside_same)
  have body: "wp (insert_application A t slug name input secret)
      (\<lambda>res v. wp (bindP (rollback t) (\<lambda>_. Ret res)) (all_or_nothing A d0 args) v) v"
    if "inside t d0 [] [] [] [] (w_db v)" "random_ok v" for t v
  proof (rule wp_mono [OF wp_insert_application [OF that h]])
    fix res u
    assume "in_transaction A t d0 ?arg res u"
    then show "wp (bindP (rollback t) (\<lambda>_. Ret res)) (all_or_nothing A d0 args) u"
      using a by (auto simp: in_transaction_def all_or_nothing_def rollback_def
          intro: inside_close outside_close)
  qed
  have start: "inside (fst (open_tx (w_db w))) d0 [] [] [] [] (snd (open_tx (w_db w)))"
    by (rule inside_core [OF inside_start]) (fact d)+
  show ?thesis
    unfolding create_application_tx_def begin_tx_def wp_bindP [of "act _"] wp_act
    using start r o body
    by (auto simp: Let_def all_or_nothing_def wp_bindP [of "insert_application _ _ _ _ _ _"]
        simp del: wp_bindP split: fault.split prod.split)
qed

text \<open>The loop over slugs.\<close>

definition slug_request :: "create_application_input \<Rightarrow> string \<Rightarrow> bytes \<Rightarrow> create_application_params \<Rightarrow> bool" where
  "slug_request input name secret arg \<longleftrightarrow>
     (\<exists>slug. arg = application_params input name slug secret \<and> slug_ok slug \<and> length slug \<le> maxSlugLen)"

lemma wp_attempt_slug:
  assumes "slug_ok base" "length base \<le> maxSlugLen" "random_ok w"
  shows "wp (attempt_slug base first) (\<lambda>res v. w_db v = w_db w \<and> random_ok v \<and>
    (\<forall>slug. res = Inr slug \<longrightarrow> slug_ok slug \<and> length slug \<le> maxSlugLen)) w"
  using assms retry_slug_ok [OF assms(1)]
  by (auto simp: attempt_slug_def random_hex_def rand_read_def random_ok_def [of w] split: option.split)

lemma wp_allocate_slug:
  assumes "outside d0 [] [] [] [] (w_db w)" "random_ok w" "hash_ok A" "slug_ok base" "length base \<le> maxSlugLen"
  shows "wp (allocate_slug n A base name input secret first) (all_or_nothing A d0 (slug_request input name secret)) w"
  using assms(1,2)
proof (induction n arbitrary: first w)
  case 0
  then show ?case by (simp add: all_or_nothing_def)
next
  case (Suc n)
  let ?Q = "all_or_nothing A d0 (slug_request input name secret)"
  have step: "wp (create_application_tx A slug name input secret) (\<lambda>r. wp (case r of Inr res \<Rightarrow> Ret (Inr res)
      | Inl e \<Rightarrow> if is_unique_violation e then allocate_slug n A base name input secret False else Ret (Inl e)) ?Q) v"
    if "outside d0 [] [] [] [] (w_db v)" "random_ok v" "slug_ok slug" "length slug \<le> maxSlugLen" for slug v
  proof (rule wp_mono [OF wp_create_application_tx [OF that(1,2) assms(3)]])
    show "slug_request input name secret (application_params input name slug secret)"
      using that by (auto simp: slug_request_def)
    fix r u
    assume q: "?Q r u"
    show "wp (case r of Inr res \<Rightarrow> Ret (Inr res)
      | Inl e \<Rightarrow> if is_unique_violation e then allocate_slug n A base name input secret False else Ret (Inl e)) ?Q u"
    proof (cases r)
      case (Inl e)
      show ?thesis
      proof (cases "is_unique_violation e")
        case True
        then have "outside d0 [] [] [] [] (w_db u)" "random_ok u"
          using q Inl by (auto simp: all_or_nothing_def made_def)
        with Suc.IH True Inl show ?thesis by simp
      qed (use q Inl in simp)
    qed (use q in simp)
  qed
  show ?case
    unfolding allocate_slug.simps wp_bindE
    by (rule wp_mono [OF wp_attempt_slug [OF assms(4,5) Suc.prems(2)]])
      (use Suc.prems step in \<open>auto simp: all_or_nothing_def [of _ _ _ "Inl _"] split: sum.split\<close>)
qed

text \<open>What is left of a call of \<open>CreateApplication\<close>.\<close>

definition application_created ::
  "apps_env \<Rightarrow> create_application_input \<Rightarrow> database \<Rightarrow> go_err + application \<times> provisioned \<Rightarrow>
   application_row \<Rightarrow> api_key_row \<Rightarrow> bool" where
  "application_created A input d0 res row krow \<longleftrightarrow>
     free_of application_clash row (db_applications d0) \<and> free_of api_key_clash krow (db_api_keys d0) \<and>
     a_name row = trim_space (ca_name input) \<and> a_status row = StatusActive \<and>
     slug_ok (a_slug row) \<and> length (a_slug row) \<le> maxSlugLen \<and>
     (\<exists>full. represents A full (fresh_grant (k_id krow) (a_id row) None) krow \<and>
        (case res of
           Inl _ \<Rightarrow> True
         | Inr (app, prov) \<Rightarrow> to_application row = Inr app \<and> ik_full_key (pv_api_key prov) = full \<and>
             (\<exists>nonce stored. a_webhook_secret_encrypted row = Some stored \<and>
                encrypt (ap_cipher A) nonce (bytes_of (pv_webhook_secret prov)) = Inr stored)))"

lemma ascii_slug: "slug_ok s \<Longrightarrow> pg_text s"
  by (rule ascii_pg_text) (auto simp: slug_ok_def slug_text_def ascii_text_def list_all_iff slug_char_def)

lemma made_created:
  assumes m: "made A d0 arg res row krow" and q: "slug_request i name stored arg"
    and n: "name = trim_space (ca_name input)" "length name \<le> 255"
    and e: "encrypt (ap_cipher A) nonce (bytes_of secret) = Inr stored"
  shows "application_created A input d0 (case res of Inl x \<Rightarrow> Inl x
    | Inr (app, key) \<Rightarrow> Inr (app, \<lparr>pv_api_key = key, pv_webhook_secret = secret\<rparr>)) row krow"
proof -
  obtain slug where arg: "arg = application_params i name slug stored" "slug_ok slug" "length slug \<le> maxSlugLen"
    using q by (auto simp: slug_request_def)
  have "varchar 64 slug = Inr slug"
    using arg ascii_slug by (intro varchar_fits) (simp_all add: maxSlugLen_def)
  moreover have "x = name" if "varchar 255 name = Inr x" for x
    using that char_count_le [of name] n(2) by (auto simp: varchar_def split: if_splits)
  moreover have "application_values arg (a_id row) (a_created_at row) = Inr row"
    using m by (simp add: made_def)
  ultimately have row: "a_name row = name" "a_slug row = slug" "a_status row = StatusActive"
    "a_webhook_secret_encrypted row = Some stored"
    by (cases row; auto simp: arg(1) application_values_def application_params_def and_then_eq_Inr StatusActive_def)+
  then show ?thesis
    using m n(1) arg(2,3) e by (auto simp: made_def application_created_def split: sum.splits prod.splits)
qed

lemma wp_CreateApplication:
  assumes d: "db_txs (w_db w) = []" and r: "random_ok w" and h: "hash_ok A"
  shows "wp (CreateApplication A input) (\<lambda>res v. db_txs (w_db v) = [] \<and>
    ((\<exists>e. res = Inl e) \<and> core (w_db v) = core (w_db w) \<or>
     (\<exists>row krow. outside (w_db w) [row] [krow] [] [] (w_db v) \<and>
        application_created A input (w_db w) res row krow))) w"
proof -
  let ?n = "trim_space (ca_name input)"
  let ?i = "input\<lparr>ca_default_return_url := normalize_optional (ca_default_return_url input),
                  ca_webhook_url := normalize_optional (ca_webhook_url input)\<rparr>"
  let ?Q = "\<lambda>res v. db_txs (w_db v) = [] \<and>
    ((\<exists>e. res = Inl e) \<and> core (w_db v) = core (w_db w) \<or>
     (\<exists>row krow. outside (w_db w) [row] [krow] [] [] (w_db v) \<and>
        application_created A input (w_db w) res row krow))"
  have loop: "wp (bindE (allocate_slug 5 A (slugify ?n) ?n ?i stored True) (\<lambda>(app, key).
      Ret (Inr (app, \<lparr>pv_api_key = key, pv_webhook_secret = secret\<rparr>)))) ?Q v"
    if n: "length ?n \<le> 255" and v: "w_db v = w_db w" "random_ok v"
      and e: "encrypt (ap_cipher A) nonce (bytes_of secret) = Inr stored" for stored secret nonce v
    unfolding wp_bindE
  proof (rule wp_mono [OF wp_allocate_slug [OF _ v(2) h slugify_ok length_slugify]])
    show "outside (w_db w) [] [] [] [] (w_db v)" using d v by (simp add: outside_start)
    fix res u
    assume q: "all_or_nothing A (w_db w) (slug_request ?i ?n stored) res u"
    let ?res = "case res of Inl x \<Rightarrow> Inl x
      | Inr (app, key) \<Rightarrow> Inr (app, \<lparr>pv_api_key = key, pv_webhook_secret = secret\<rparr>)"
    have "?Q ?res u"
      using q [unfolded all_or_nothing_def]
    proof (elim conjE disjE exE)
      fix row krow arg
      assume o: "outside (w_db w) [row] [krow] [] [] (w_db u)" and "slug_request ?i ?n stored arg"
        "made A (w_db w) arg res row krow"
      then have "application_created A input (w_db w) ?res row krow" by (intro made_created [OF _ _ refl n e])
      with o show ?thesis by (blast dest: outside_txs)
    qed (auto simp: outside_same)
    then show "case res of Inl x \<Rightarrow> ?Q (Inl x) u
      | Inr a \<Rightarrow> wp (case a of (app, key) \<Rightarrow> Ret (Inr (app, \<lparr>pv_api_key = key, pv_webhook_secret = secret\<rparr>))) ?Q u"
      by (cases res) (auto split: prod.splits)
  qed
  show ?thesis
    unfolding CreateApplication_def generate_webhook_secret_def encrypt_secret_def rand_read_def
    using d r loop
    by (auto simp: Let_def wp_bindE_Ret wp_bindE_bindP simp del: wp_bindE split: option.split sum.split)
qed

end
