(* ===== verification/AttachRuns.thy ===== *)
theory AttachRuns
  imports AppRuns
begin

text \<open>
  The links between applications and provider accounts: every application that has a link has exactly
  one default link, and \<open>AttachProviderAccount\<close>, run alone, keeps it so whatever fails. Links are
  looked up by application and account.
\<close>

definition link_key :: "link_row \<Rightarrow> uuid \<times> uuid" where
  "link_key l = (l_application_id l, l_provider_account_id l)"

definition look :: "link_row list \<Rightarrow> uuid \<times> uuid \<Rightarrow> link_row option" where
  "look ls k = find (\<lambda>l. link_key l = k) ls"

text \<open>One default link for each application that has links.\<close>

definition default_links :: "link_row list \<Rightarrow> bool" where
  "default_links ls \<longleftrightarrow> clash_free link_clash ls \<and>
     (\<forall>l \<in> set ls. \<exists>m \<in> set ls. l_application_id m = l_application_id l \<and> l_is_default m)"

definition links_ok :: "database \<Rightarrow> bool" where
  "links_ok d \<longleftrightarrow> default_links (db_links d) \<and>
     (\<forall>l \<in> set (db_links d). \<exists>c \<in> set (db_accounts d). c_id c = l_provider_account_id l)"

subsection \<open>Links as a table\<close>

lemma same_link_key: "same_link l m \<longleftrightarrow> link_key l = link_key m"
  by (auto simp: same_link_def link_key_def)

lemma look_key: "look ls k = Some l \<Longrightarrow> l \<in> set ls \<and> link_key l = k"
  by (auto simp: look_def find_Some_iff)

lemma look_None: "look ls k = None \<longleftrightarrow> k \<notin> link_key ` set ls"
  by (auto simp: look_def find_None_iff)

lemma look_append: "look (xs @ ys) k = (case look xs k of None \<Rightarrow> look ys k | Some l \<Rightarrow> Some l)"
  by (induction xs) (auto simp: look_def)

lemma look_map:
  "(\<And>l. link_key (f l) = link_key l) \<Longrightarrow> look (map f ls) k = map_option f (look ls k)"
  by (induction ls) (auto simp: look_def)

lemma look_filter_key: "look (filter (\<lambda>l. P (link_key l)) ls) k = (if P k then look ls k else None)"
  by (induction ls) (auto simp: look_def)

lemma look_merge: "look (merge_links old new) k = (case look new k of None \<Rightarrow> look old k | Some m \<Rightarrow> Some m)"
proof -
  let ?f = "\<lambda>l. case look new (link_key l) of None \<Rightarrow> l | Some m \<Rightarrow> m"
  have f: "link_key (?f l) = link_key l" for l by (auto dest: look_key split: option.split)
  have "find (same_link l) new = look new (link_key l)" for l
    unfolding look_def same_link_key by (rule arg_cong [where f = "\<lambda>P. find P new"]) auto
  then have "merge_links old new = map ?f old @ filter (\<lambda>m. link_key m \<notin> link_key ` set old) new"
    by (auto simp: merge_links_def same_link_key list_ex_iff intro!: filter_cong)
  then show ?thesis
    using look_None [of old k]
    by (auto simp: look_append look_map [OF f] look_filter_key [where P = "\<lambda>k. k \<notin> link_key ` set old"]
        dest: look_key split: option.splits)
qed

lemma distinct_merge:
  assumes "distinct (map link_key old)" "distinct (map link_key new)"
  shows "distinct (map link_key (merge_links old new))"
proof -
  have "link_key (case find (same_link l) new of None \<Rightarrow> l | Some m \<Rightarrow> m) = link_key l" for l
    by (auto simp: find_Some_iff same_link_key split: option.split)
  then have "map link_key (merge_links old new) =
      map link_key old @ map link_key (filter (\<lambda>m. \<not> list_ex (same_link m) old) new)"
    by (simp add: merge_links_def comp_def)
  then show ?thesis
    using assms by (auto simp: list_ex_iff same_link_key distinct_map inj_on_def)
qed

lemma look_iff: "distinct (map link_key ls) \<Longrightarrow> look ls k = Some l \<longleftrightarrow> l \<in> set ls \<and> link_key l = k"
proof
  assume d: "distinct (map link_key ls)" and l: "l \<in> set ls \<and> link_key l = k"
  then obtain m where m: "look ls k = Some m" using look_None [of ls k] by fastforce
  then have "m \<in> set ls" "link_key m = link_key l" using look_key l by blast+
  then have "m = l" using d l by (auto simp: distinct_map inj_on_def)
  with m show "look ls k = Some l" by simp
qed (rule look_key)

lemma clash_free_links:
  "clash_free link_clash ls \<longleftrightarrow> distinct (map link_key ls) \<and>
     (\<forall>l \<in> set ls. \<forall>m \<in> set ls. l_application_id l = l_application_id m \<and> l_is_default l \<and> l_is_default m \<longrightarrow> l = m)"
proof (induction ls)
  case (Cons x ls)
  have "free_of link_clash x ls \<longleftrightarrow> link_key x \<notin> link_key ` set ls \<and>
      (\<forall>m \<in> set ls. l_application_id x = l_application_id m \<longrightarrow> \<not> (l_is_default x \<and> l_is_default m))"
    by (auto simp: free_of_def list_all_iff link_clash_def link_key_def)
  with Cons show ?case by auto
qed simp

text \<open>The effect of attaching on the links.\<close>

definition unset_defaults :: "uuid \<Rightarrow> link_row list \<Rightarrow> link_row list" where
  "unset_defaults app ls = map (\<lambda>l. l\<lparr>l_is_default := False\<rparr>)
     (filter (\<lambda>l. l_application_id l = app \<and> l_is_default l) ls)"

definition attached :: "uuid \<Rightarrow> link_row \<Rightarrow> link_row list \<Rightarrow> link_row list" where
  "attached app l old = merge_links (if l_is_default l then unset_defaults app old else []) [l]"

lemma key_upd [simp]: "link_key (l\<lparr>l_is_default := b\<rparr>) = link_key l"
  by (simp add: link_key_def)

lemma look_unset:
  assumes "distinct (map link_key ls)"
  shows "look (unset_defaults app ls) k = (case look ls k of
     None \<Rightarrow> None
   | Some l \<Rightarrow> if l_application_id l = app \<and> l_is_default l then Some (l\<lparr>l_is_default := False\<rparr>) else None)"
proof -
  let ?ls = "filter (\<lambda>l. l_application_id l = app \<and> l_is_default l) ls"
  have d: "distinct (map link_key ?ls)" using assms by (simp add: distinct_map_filter)
  have "look ?ls k = (case look ls k of None \<Rightarrow> None
      | Some l \<Rightarrow> if l_application_id l = app \<and> l_is_default l then Some l else None)"
  proof (cases "look ls k")
    case None
    then show ?thesis using look_None [of ?ls k] look_None [of ls k] by auto
  next
    case (Some l)
    then have l: "l \<in> set ls" "link_key l = k" using look_key by blast+
    show ?thesis
    proof (cases "l_application_id l = app \<and> l_is_default l")
      case True
      then show ?thesis using Some l look_iff [OF d] by simp
    next
      case False
      have "m = l" if "m \<in> set ls" "link_key m = k" for m
        using that l assms by (auto simp: distinct_map inj_on_def)
      with False have "look ?ls k = None" by (auto simp: look_None)
      with Some False show ?thesis by simp
    qed
  qed
  then show ?thesis by (simp add: unset_defaults_def look_map split: option.split)
qed

lemma look_attached:
  assumes "distinct (map link_key old)"
  shows "look (merge_links old (attached app l old)) k =
    (if k = link_key l then Some l else map_option
       (\<lambda>m. if l_is_default l \<and> l_application_id m = app \<and> l_is_default m then m\<lparr>l_is_default := False\<rparr> else m)
       (look old k))"
proof -
  have "look [l] k = (if k = link_key l then Some l else None)" by (auto simp: look_def)
  then show ?thesis
    by (auto simp: attached_def look_merge look_unset [OF assms] look_def [of "[]"] split: option.split)
qed

lemma distinct_attached:
  assumes "distinct (map link_key old)"
  shows "distinct (map link_key (merge_links old (attached app l old)))"
proof -
  have "distinct (map link_key (unset_defaults app old))"
    using assms by (simp add: unset_defaults_def comp_def distinct_map_filter)
  then show ?thesis unfolding attached_def by (intro distinct_merge assms) simp_all
qed

text \<open>The links afterwards: the new one, and the others, of which the old default loses its flag.\<close>

definition demoted :: "link_row \<Rightarrow> link_row \<Rightarrow> link_row" where
  "demoted l m = (if l_is_default l \<and> l_application_id m = l_application_id l \<and> l_is_default m
     then m\<lparr>l_is_default := False\<rparr> else m)"

lemma demoted_simps [simp]:
  "link_key (demoted l m) = link_key m" "l_application_id (demoted l m) = l_application_id m"
  by (simp_all add: demoted_def)

lemma demoted_default:
  "l_is_default (demoted l m) \<Longrightarrow> demoted l m = m \<and> (l_is_default l \<longrightarrow> l_application_id m \<noteq> l_application_id l)"
  by (auto simp: demoted_def split: if_splits)

lemma attached_member:
  assumes d: "distinct (map link_key old)"
  shows "x \<in> set (merge_links old (attached (l_application_id l) l old)) \<longleftrightarrow>
    x = l \<or> (\<exists>m \<in> set old. link_key m \<noteq> link_key l \<and> x = demoted l m)"
proof -
  let ?new = "merge_links old (attached (l_application_id l) l old)"
  have d': "distinct (map link_key ?new)" by (rule distinct_attached [OF d])
  have "look ?new (link_key x) = (if link_key x = link_key l then Some l else map_option (demoted l) (look old (link_key x)))"
    unfolding look_attached [OF d] demoted_def by (rule refl)
  then have "x \<in> set ?new \<longleftrightarrow>
      (if link_key x = link_key l then x = l else \<exists>m. look old (link_key x) = Some m \<and> x = demoted l m)"
    using look_iff [OF d', of "link_key x" x] by auto
  also have "\<dots> \<longleftrightarrow> x = l \<or> (\<exists>m \<in> set old. link_key m \<noteq> link_key l \<and> x = demoted l m)"
  proof (cases "link_key x = link_key l")
    case True
    then have "link_key m \<noteq> link_key l \<Longrightarrow> x \<noteq> demoted l m" for m by fastforce
    with True show ?thesis by auto
  next
    case False
    have "look old (link_key x) = Some m \<and> x = demoted l m \<longleftrightarrow>
        m \<in> set old \<and> link_key m \<noteq> link_key l \<and> x = demoted l m" for m
      using False by (cases "x = demoted l m") (simp_all add: look_iff [OF d])
    moreover have "x \<noteq> l" using False by blast
    ultimately show ?thesis using False by (simp add: Bex_def)
  qed
  finally show ?thesis .
qed

text \<open>Attaching keeps one default for each application, and touches no other application's links.\<close>

lemma default_attached:
  assumes old: "default_links old" and l: "l_application_id l = app"
    and keep: "l_is_default l \<or> (\<exists>m \<in> set old. l_application_id m = app \<and> l_is_default m \<and> link_key m \<noteq> link_key l)"
  shows "default_links (merge_links old (attached app l old))"
proof -
  let ?new = "merge_links old (attached app l old)"
  have d: "distinct (map link_key old)"
    and one: "\<And>x m. x \<in> set old \<Longrightarrow> m \<in> set old \<Longrightarrow> l_application_id x = l_application_id m \<Longrightarrow>
      l_is_default x \<Longrightarrow> l_is_default m \<Longrightarrow> x = m"
    and some: "\<And>x. x \<in> set old \<Longrightarrow> \<exists>m \<in> set old. l_application_id m = l_application_id x \<and> l_is_default m"
    using old by (auto simp: default_links_def clash_free_links)
  note mem = attached_member [OF d, of _ l, unfolded l]
  have unique: "x = y" if "x \<in> set ?new" "y \<in> set ?new" "l_application_id x = l_application_id y"
    "l_is_default x" "l_is_default y" for x y
    using that(1,2) unfolding mem
  proof (elim disjE bexE conjE)
    fix m n assume "m \<in> set old" "n \<in> set old" "x = demoted l m" "y = demoted l n"
    with that(3-5) one [of m n] demoted_default [of l m] demoted_default [of l n] show ?thesis by simp
  qed (use that(3-5) demoted_default [of l] in auto)
  have "\<exists>m \<in> set ?new. l_application_id m = l_application_id x \<and> l_is_default m" if x: "x \<in> set ?new" for x
  proof (cases "l_application_id x = app \<and> l_is_default l")
    case True
    with l show ?thesis by (intro bexI [of _ l]) (simp_all add: mem)
  next
    case False
    obtain y where y: "y \<in> set old" "l_application_id y = l_application_id x" "l_is_default y" "link_key y \<noteq> link_key l"
    proof (cases "l_application_id x = app")
      case True
      with False keep obtain m where "m \<in> set old" "l_application_id m = app" "l_is_default m" "link_key m \<noteq> link_key l"
        by auto
      with True show thesis by (intro that [of m]) simp_all
    next
      case other: False
      with x l obtain m where "m \<in> set old" "l_application_id m = l_application_id x" by (auto simp: mem)
      with some obtain y where "y \<in> set old" "l_application_id y = l_application_id x" "l_is_default y" by metis
      with other l show thesis by (intro that [of y]) (auto simp: link_key_def)
    qed
    then have "demoted l y = y" using False l by (auto simp: demoted_def)
    with y have "y \<in> set ?new" by (auto simp: mem intro!: bexI [of _ y])
    with y show ?thesis by blast
  qed
  with unique show ?thesis
    unfolding default_links_def clash_free_links using distinct_attached [OF d] by blast
qed

lemma attached_others:
  assumes "default_links old" "l_application_id l = app" "l_application_id x \<noteq> app"
  shows "x \<in> set (merge_links old (attached app l old)) \<longleftrightarrow> x \<in> set old"
proof -
  have d: "distinct (map link_key old)" using assms(1) by (simp add: default_links_def clash_free_links)
  have "link_key x \<noteq> link_key l" using assms(2,3) by (auto simp: link_key_def)
  moreover have "l_application_id y = l_application_id x" if "look old (link_key x) = Some y" for y
    using look_key [OF that] by (simp add: link_key_def)
  ultimately have "look (merge_links old (attached app l old)) (link_key x) = look old (link_key x)"
    using assms(3) by (cases "look old (link_key x)") (auto simp: look_attached [OF d])
  then show ?thesis using look_iff [OF d, of "link_key x" x] look_iff [OF distinct_attached [OF d], of app l "link_key x" x] by simp
qed

lemma attached_there:
  "default_links old \<Longrightarrow> l \<in> set (merge_links old (attached app l old))"
  using look_attached [of old app l "link_key l"] look_key by (fastforce simp: default_links_def clash_free_links)

subsection \<open>The choice of the flag\<close>

definition existing_links :: "uuid \<Rightarrow> database \<Rightarrow> (account_row \<times> bool) list \<Rightarrow> bool" where
  "existing_links app d existing \<longleftrightarrow> (\<forall>c b. (c, b) \<in> set existing \<longleftrightarrow>
     c \<in> set (db_accounts d) \<and> (\<exists>l \<in> set (db_links d). linked app c l \<and> l_is_default l = b))"

lemma list_accounts_inside:
  assumes "inside t d0 [] [] [] [] d"
  shows "\<exists>existing. list_provider_accounts app (Tx t) d = (Inr existing, d) \<and> existing_links app d0 existing"
  using inside_visible [OF assms] by (auto simp: list_provider_accounts_def existing_links_def)

lemma make_default_keeps:
  assumes ok: "links_ok d" and e: "existing_links app d existing" and l: "link_key l = (app, account)"
    and n: "l_is_default l = make_default requested existing account"
  shows "l_is_default l \<or> (\<exists>m \<in> set (db_links d). l_application_id m = app \<and> l_is_default m \<and> link_key m \<noteq> link_key l)"
proof (rule disj_imp [THEN iffD2], rule impI)
  assume "\<not> l_is_default l"
  then have no: "\<not> currently_default existing account" "existing \<noteq> []" using n by (auto simp: make_default_def)
  then obtain c b where "(c, b) \<in> set existing" by (metis list.set_intros(1) neq_Nil_conv surj_pair)
  then obtain x where "x \<in> set (db_links d)" "l_application_id x = app"
    using e unfolding existing_links_def linked_def by blast
  then obtain m where m: "m \<in> set (db_links d)" "l_application_id m = app" "l_is_default m"
    using ok unfolding links_ok_def default_links_def by metis
  have "link_key m \<noteq> (app, account)"
  proof
    assume k: "link_key m = (app, account)"
    obtain c where c: "c \<in> set (db_accounts d)" "c_id c = account"
      using ok m(1) k unfolding links_ok_def link_key_def by auto
    then have "(c, True) \<in> set existing"
      using e m k unfolding existing_links_def linked_def link_key_def by auto
    then obtain p where p: "find (\<lambda>(r, _). c_id r = account) existing = Some p"
      using c(2) by (cases "find (\<lambda>(r, _). c_id r = account) existing") (auto simp: find_None_iff)
    have "p \<in> set existing" "c_id (fst p) = account"
      using find_in_set [OF p] by (auto simp: case_prod_beta)
    moreover obtain r b where "p = (r, b)" by (rule prod.exhaust)
    ultimately have rb: "p = (r, b)" "(r, b) \<in> set existing" "c_id r = account" by simp_all
    then obtain y where y: "y \<in> set (db_links d)" "linked app r y" "l_is_default y = b"
      using e unfolding existing_links_def by blast
    then have "link_key y = link_key m" using k rb(3) by (simp add: link_key_def linked_def)
    then have "y = m"
      using y(1) m(1) ok by (auto simp: links_ok_def default_links_def clash_free_links distinct_map inj_on_def)
    then have "currently_default existing account" using p rb(1) y(3) m(3) by (simp add: currently_default_def)
    with no show False by simp
  qed
  with m l show "\<exists>m \<in> set (db_links d). l_application_id m = app \<and> l_is_default m \<and> link_key m \<noteq> link_key l" by auto
qed

text \<open>What the two statements leave pending.\<close>

lemma cleared_inside:
  assumes "inside t d0 [] [] cs [] d"
  shows "clear_default_provider app (Tx t) d = (r, d') \<Longrightarrow>
    r = Inr () \<and> inside t d0 [] [] cs (unset_defaults app (db_links d0)) d'"
proof -
  have "cleared_links app (Tx t) d = unset_defaults app (db_links d0)"
    using inside_visible(4) [OF assms] by (simp add: cleared_links_def unset_defaults_def)
  then show "clear_default_provider app (Tx t) d = (r, d') \<Longrightarrow> ?thesis"
    using inside_put(4) [OF assms, of "unset_defaults app (db_links d0)"] by (auto simp: clear_default_provider_def)
qed

lemma attached_inside:
  assumes "inside t d0 [] [] cs ls d" "attach_provider_account app account b (Tx t) d = (r, d')"
  shows "case r of
      Inl _ \<Rightarrow> inside t d0 [] [] cs ls d'
    | Inr _ \<Rightarrow> \<exists>l. link_key l = (app, account) \<and> l_is_default l = b \<and> inside t d0 [] [] cs (merge_links ls [l]) d' \<and>
        (\<exists>c \<in> set (db_accounts d0 @ cs). c_id c = account)"
proof -
  let ?l = "attach_link app account b (Tx t) d"
  have l: "link_key ?l = (app, account)" "l_is_default ?l = b"
    by (auto simp: attach_link_def link_key_def find_Some_iff split: option.split)
  show ?thesis
    using assms(2) l inside_put(4) [OF assms(1), of "[?l]"] assms(1)
    by (auto simp: attach_provider_account_def Let_def inside_visible [OF assms(1)] list_ex_iff
        split: if_splits intro!: exI [of _ ?l])
qed

subsection \<open>The transaction\<close>

text \<open>The account a request names.\<close>

definition account_of :: "attach_provider_input \<Rightarrow> account_row \<Rightarrow> bool" where
  "account_of i row \<longleftrightarrow> c_provider row = at_provider i \<and> c_shop_id row = at_shop_id i \<and>
     c_environment row = at_environment i"

lemma varchar_short: "varchar n s = Inr t \<Longrightarrow> length s \<le> n \<Longrightarrow> t = s"
  using char_count_le [of s] by (auto simp: varchar_def split: if_splits)

lemma provider_input_short:
  assumes "validate_provider_input i = Inr ()"
  shows "length (at_provider i) \<le> 32" "length (at_shop_id i) \<le> 64" "length (at_environment i) \<le> 16"
  using assms
  by (auto simp: validate_provider_input_def ProviderYooKassa_def EnvironmentTest_def EnvironmentProduction_def
      split: if_splits)

lemma shop_inside:
  assumes "inside t d0 [] [] [] [] d"
    "get_provider_account_by_shop (at_provider i) (at_shop_id i) (at_environment i) (Tx t) d = (r, d')"
  shows "d' = d \<and> (\<forall>row. r = Inr row \<longrightarrow> account_of i row)"
  using assms(2)
  by (auto simp: get_provider_account_by_shop_def with_text_def pg_value_def one_row_def account_of_def find_Some_iff
      split: if_splits sum.splits option.splits)

lemma create_account_inside:
  assumes i: "inside t d0 [] [] [] [] d" and v: "validate_provider_input i = Inr ()"
    and c: "create_provider_account \<lparr>cc_provider = at_provider i, cc_shop_id = at_shop_id i,
        cc_encrypted_secret_key = secret, cc_environment = at_environment i\<rparr> (Tx t) d = (r, d')"
  shows "case r of
      Inl _ \<Rightarrow> inside t d0 [] [] [] [] d'
    | Inr row \<Rightarrow> inside t d0 [] [] [row] [] d' \<and> account_of i row"
proof -
  have n: "inside t d0 [] [] [] [] (snd (fresh_id d))" by (rule inside_next [OF i])
  have "account_of i row"
    if "account_values \<lparr>cc_provider = at_provider i, cc_shop_id = at_shop_id i,
        cc_encrypted_secret_key = secret, cc_environment = at_environment i\<rparr> u time = Inr row" for u time row
    using that provider_input_short [OF v]
    by (auto simp: account_values_def and_then_eq_Inr account_of_def dest: varchar_short)
  then show ?thesis
    using c n inside_put(3) [OF n]
    by (auto simp: create_provider_account_def fresh_id_def split: sum.splits if_splits)
qed

lemma wp_find_or_create:
  assumes i: "inside t d0 [] [] [] [] (w_db w)" and v: "validate_provider_input i = Inr ()"
  shows "wp (find_or_create_account A t i) (\<lambda>res v. \<exists>cs. inside t d0 [] [] cs [] (w_db v) \<and>
    (\<forall>row. res = Inr row \<longrightarrow> account_of i row)) w"
proof -
  let ?Q = "\<lambda>res v. \<exists>cs. inside t d0 [] [] cs [] (w_db v) \<and> (\<forall>row. res = Inr row \<longrightarrow> account_of i row)"
  let ?arg = "\<lambda>secret. \<lparr>cc_provider = at_provider i, cc_shop_id = at_shop_id i,
    cc_encrypted_secret_key = secret, cc_environment = at_environment i\<rparr>"
  have make: "wp (bindE (encrypt_secret A (at_secret_key i)) (\<lambda>encrypted.
      let arg = ?arg encrypted in exec_when (create_account_ready arg (Tx t)) (Tx t) (create_provider_account arg (Tx t)))) ?Q u"
    if u: "inside t d0 [] [] [] [] (w_db u)" for u
  proof -
    have "wp (exec_when (create_account_ready (?arg secret) (Tx t)) (Tx t) (create_provider_account (?arg secret) (Tx t))) ?Q x"
      if x: "w_db x = w_db u" for secret x
    proof (rule wp_exec_when)
      show "create_account_ready (?arg secret) (Tx t) (w_db x)"
        using inside_only [OF u] x by (intro tx_ready) simp
      show "outcomes (Tx t) (create_provider_account (?arg secret) (Tx t)) ?Q x"
        using u x inside_open [OF u]
        by (intro wp_stmt) (auto dest!: create_account_inside [OF u v] split: sum.splits)
    qed
    then show ?thesis
      using u by (auto simp: encrypt_secret_def wp_bindE_bindP wp_bindE_Ret rand_read_def Let_def
          simp del: wp_bindE split: sum.split)
  qed
  let ?look = "get_provider_account_by_shop (at_provider i) (at_shop_id i) (at_environment i) (Tx t)"
  show ?thesis
    unfolding find_or_create_account_def wp_bindP [of "exec _ _"]
  proof (rule wp_exec, rule wp_stmt [OF inside_open [OF i]], goal_cases)
    case (1 msg)
    then show ?case using i by (auto simp del: wp_bindE)
  next
    case (2 r d)
    with shop_inside [OF i] have d: "d = w_db w" "\<forall>row. r = Inr row \<longrightarrow> account_of i row" by blast+
    then show ?case
      using i make [of "w\<lparr>w_stmts := Suc (w_stmts w), w_db := w_db w\<rparr>"]
      by (auto simp: and_then_eq_Inr simp del: wp_bindE split: sum.split)
  next
    case (3 msg r d)
    with shop_inside [OF i] have "d = w_db w" by blast
    then show ?case using i by (auto simp del: wp_bindE)
  qed
qed

text \<open>What attaching leaves: the links stay in order, no other application's change, and an answer
  names the account asked for with its flag.\<close>

definition account_answer ::
  "attach_provider_input \<Rightarrow> uuid \<Rightarrow> go_err + provider_account \<Rightarrow> database \<Rightarrow> bool" where
  "account_answer i app res d \<longleftrightarrow> (case res of Inl _ \<Rightarrow> True | Inr p \<Rightarrow>
     pa_provider p = at_provider i \<and> pa_shop_id p = at_shop_id i \<and> pa_environment p = at_environment i \<and>
     (at_is_default i \<longrightarrow> pa_is_default p) \<and>
     (\<exists>l \<in> set (db_links d). link_key l = (app, pa_id p) \<and> l_is_default l = pa_is_default p))"

definition links_kept :: "uuid \<Rightarrow> database \<Rightarrow> database \<Rightarrow> bool" where
  "links_kept app d0 d \<longleftrightarrow> links_ok d \<and>
     (\<forall>l. l_application_id l \<noteq> app \<longrightarrow> (l \<in> set (db_links d) \<longleftrightarrow> l \<in> set (db_links d0)))"

definition attach_ended ::
  "nat \<Rightarrow> attach_provider_input \<Rightarrow> uuid \<Rightarrow> database \<Rightarrow> go_err + provider_account \<Rightarrow> world \<Rightarrow> bool" where
  "attach_ended t i app d0 res v \<longleftrightarrow>
     (\<exists>e. res = Inl e) \<and> (\<exists>cs ls. inside t d0 [] [] cs ls (w_db v)) \<or>
     db_txs (w_db v) = [] \<and> links_kept app d0 (w_db v) \<and> account_answer i app res (w_db v)"

lemma attach_endedI:
  "inside t d0 [] [] cs ls (w_db v) \<Longrightarrow> attach_ended t i app d0 (Inl e) v"
  by (auto simp: attach_ended_def)

lemma wp_commit_attached:
  assumes i: "inside t d0 [] [] cs (attached app l (db_links d0)) (w_db w)" and ok: "links_ok d0"
    and l: "link_key l = (app, c_id row)" "l_is_default l = b" and a: "account_of i row" "at_is_default i \<longrightarrow> b"
    and keep: "l_is_default l \<or> (\<exists>m \<in> set (db_links d0). l_application_id m = app \<and> l_is_default m \<and> link_key m \<noteq> link_key l)"
    and c: "\<exists>c \<in> set (db_accounts d0 @ cs). c_id c = c_id row"
  shows "wp (bindP (commit t) (\<lambda>r. case r of
      Inl e \<Rightarrow> Ret (Inl (Prefixed ''applications: commit'' e)) | Inr _ \<Rightarrow> Ret (to_provider_account row b)))
    (attach_ended t i app d0) w"
proof -
  let ?d = "commit_tx t (w_db w)" and ?new = "merge_links (db_links d0) (attached app l (db_links d0))"
  have o: "outside d0 [] [] cs (attached app l (db_links d0)) ?d" by (rule inside_commit [OF i])
  then have "core ?d = (core d0)\<lparr>db_applications := db_applications d0, db_api_keys := db_api_keys d0,
      db_accounts := db_accounts d0 @ cs, db_links := ?new\<rparr>" by (simp add: outside_def)
  from arg_cong [OF this, of db_links] arg_cong [OF this, of db_accounts]
  have d: "db_links ?d = ?new" "db_accounts ?d = db_accounts d0 @ cs" by simp_all
  have app: "l_application_id l = app" using l by (simp add: link_key_def)
  have old: "default_links (db_links d0)" "\<And>m. m \<in> set (db_links d0) \<Longrightarrow> \<exists>c \<in> set (db_accounts d0). c_id c = l_provider_account_id m"
    using ok by (auto simp: links_ok_def)
  have there: "\<exists>c \<in> set (db_accounts d0 @ cs). c_id c = l_provider_account_id x" if "x \<in> set ?new" for x
  proof (cases "link_key x = link_key l")
    case True
    with l c show ?thesis by (auto simp: link_key_def)
  next
    case False
    have "look ?new (link_key x) = Some x"
      using that old(1) by (intro look_iff [THEN iffD2] distinct_attached) (auto simp: default_links_def clash_free_links)
    moreover have "distinct (map link_key (db_links d0))" using old(1) by (simp add: default_links_def clash_free_links)
    ultimately obtain m where m: "look (db_links d0) (link_key x) = Some m" using False by (auto simp: look_attached)
    from look_key [OF m] have "m \<in> set (db_links d0)" "link_key m = link_key x" by simp_all
    with old(2) [of m] show ?thesis by (auto simp: link_key_def)
  qed
  have kept: "links_kept app d0 ?d"
    using default_attached [OF old(1) app keep] attached_others [OF old(1) app] there
    by (simp add: links_kept_def links_ok_def d)
  have "account_answer i app (to_provider_account row b) ?d"
    using attached_there [OF old(1), of l app] l a by (auto simp: account_answer_def to_provider_account_def account_of_def d)
  with kept outside_txs [OF o]
  have "attach_ended t i app d0 (to_provider_account row b) (w\<lparr>w_stmts := n, w_db := ?d\<rparr>)"
    "attach_ended t i app d0 (Inl e) (w\<lparr>w_stmts := n, w_db := ?d\<rparr>)" for n e
    by (simp_all add: attach_ended_def account_answer_def)
  then show ?thesis
    unfolding wp_bindP commit_def using i inside_open [OF i]
    by (intro wp_exec wp_stmt) (auto intro: attach_endedI)
qed

lemma wp_attach_link:
  assumes i: "inside t d0 [] [] cs (if b then unset_defaults app (db_links d0) else []) (w_db w)" and ok: "links_ok d0"
    and a: "account_of i row" "at_is_default i \<longrightarrow> b"
    and keep: "\<And>l. link_key l = (app, c_id row) \<Longrightarrow> l_is_default l = b \<Longrightarrow>
      l_is_default l \<or> (\<exists>m \<in> set (db_links d0). l_application_id m = app \<and> l_is_default m \<and> link_key m \<noteq> link_key l)"
  shows "wp (bindE (exec_when (attach_ready app (c_id row) b (Tx t)) (Tx t) (attach_provider_account app (c_id row) b (Tx t)))
    (\<lambda>_. bindP (commit t) (\<lambda>r. case r of
      Inl e \<Rightarrow> Ret (Inl (Prefixed ''applications: commit'' e)) | Inr _ \<Rightarrow> Ret (to_provider_account row b))))
    (attach_ended t i app d0) w"
proof -
  let ?ls = "if b then unset_defaults app (db_links d0) else []"
  let ?Q = "\<lambda>(res :: go_err + unit) (v :: world). case res of
      Inl e \<Rightarrow> \<exists>ls. inside t d0 [] [] cs ls (w_db v)
    | Inr _ \<Rightarrow> \<exists>l. link_key l = (app, c_id row) \<and> l_is_default l = b \<and>
        inside t d0 [] [] cs (attached app l (db_links d0)) (w_db v) \<and> (\<exists>c \<in> set (db_accounts d0 @ cs). c_id c = c_id row)"
  have "case r of Inl e \<Rightarrow> \<exists>ls. inside t d0 [] [] cs ls d
      | Inr _ \<Rightarrow> (\<exists>l. link_key l = (app, c_id row) \<and> l_is_default l = b \<and>
          inside t d0 [] [] cs (attached app l (db_links d0)) d \<and> (\<exists>c \<in> set (db_accounts d0 @ cs). c_id c = c_id row))
        \<and> (\<exists>ls. inside t d0 [] [] cs ls d)"
    if "attach_provider_account app (c_id row) b (Tx t) (w_db w) = (r, d)" for r d
    using attached_inside [OF i that] by (auto simp: attached_def split: sum.splits if_splits)
  then have "outcomes (Tx t) (attach_provider_account app (c_id row) b (Tx t)) ?Q w"
    using i inside_open [OF i] by (intro wp_stmt) (fastforce split: sum.splits)+
  moreover have "attach_ready app (c_id row) b (Tx t) (w_db w)"
    using inside_only [OF i] by (intro tx_ready) simp
  ultimately have "wp (exec_when (attach_ready app (c_id row) b (Tx t)) (Tx t) (attach_provider_account app (c_id row) b (Tx t))) ?Q w"
    by (intro wp_exec_when)
  then show ?thesis
    unfolding wp_bindE
  proof (rule wp_mono)
    fix r :: "go_err + unit" and v :: world assume q: "?Q r v"
    show "case r of Inl e \<Rightarrow> attach_ended t i app d0 (Inl e) v
      | Inr _ \<Rightarrow> wp (bindP (commit t) (\<lambda>r. case r of
          Inl e \<Rightarrow> Ret (Inl (Prefixed ''applications: commit'' e)) | Inr _ \<Rightarrow> Ret (to_provider_account row b)))
          (attach_ended t i app d0) v"
    proof (cases r)
      case (Inr x)
      with q obtain l where l: "link_key l = (app, c_id row)" "l_is_default l = b"
        "inside t d0 [] [] cs (attached app l (db_links d0)) (w_db v)" "\<exists>c \<in> set (db_accounts d0 @ cs). c_id c = c_id row"
        by auto
      show ?thesis using wp_commit_attached [OF l(3) ok l(1,2) a keep [OF l(1,2)] l(4)] Inr by simp
    qed (use q in \<open>auto intro: attach_endedI\<close>)
  qed
qed

lemma wp_attach_in_tx:
  assumes i: "inside t d0 [] [] [] [] (w_db w)" and ok: "links_ok d0" and v: "validate_provider_input i = Inr ()"
  shows "wp (attach_in_tx A t app i) (attach_ended t i app d0) w"
proof -
  let ?Q = "attach_ended t i app d0"
  have rest: "wp (let dflt = make_default (at_is_default i) existing (c_id row) in
      bindE (if dflt then exec_when (clear_default_ready app (Tx t)) (Tx t) (clear_default_provider app (Tx t))
             else Ret (Inr ())) (\<lambda>_.
      bindE (exec_when (attach_ready app (c_id row) dflt (Tx t)) (Tx t)
               (attach_provider_account app (c_id row) dflt (Tx t))) (\<lambda>_.
      bindP (commit t) (\<lambda>r. case r of
          Inl e \<Rightarrow> Ret (Inl (Prefixed ''applications: commit'' e))
        | Inr _ \<Rightarrow> Ret (to_provider_account row dflt))))) ?Q u"
    if e: "existing_links app d0 existing" and u: "inside t d0 [] [] cs [] (w_db u)" and a: "account_of i row"
    for existing row cs u
  proof -
    let ?b = "make_default (at_is_default i) existing (c_id row)"
    have attach: "wp (bindE (exec_when (attach_ready app (c_id row) ?b (Tx t)) (Tx t)
               (attach_provider_account app (c_id row) ?b (Tx t))) (\<lambda>_.
      bindP (commit t) (\<lambda>r. case r of
          Inl e \<Rightarrow> Ret (Inl (Prefixed ''applications: commit'' e))
        | Inr _ \<Rightarrow> Ret (to_provider_account row ?b)))) ?Q x"
      if "inside t d0 [] [] cs (if ?b then unset_defaults app (db_links d0) else []) (w_db x)" for x
      by (rule wp_attach_link [OF that ok a _ make_default_keeps [OF ok e]]) (auto simp: make_default_def)
    show ?thesis
    proof (cases ?b)
      case False
      then show ?thesis using attach [of u] u by (simp add: Let_def wp_bindE_Ret del: wp_bindE)
    next
      case True
      have "wp (exec_when (clear_default_ready app (Tx t)) (Tx t) (clear_default_provider app (Tx t)))
        (\<lambda>r x. case r of Inl e \<Rightarrow> \<exists>ls. inside t d0 [] [] cs ls (w_db x)
           | Inr _ \<Rightarrow> inside t d0 [] [] cs (unset_defaults app (db_links d0)) (w_db x)) u"
      proof (rule wp_exec_when)
        show "clear_default_ready app (Tx t) (w_db u)" using inside_only [OF u] by (intro tx_ready) simp
      qed (use u inside_open [OF u] in \<open>intro wp_stmt, auto dest!: cleared_inside [OF u] split: sum.splits\<close>)
      with True attach show ?thesis
        by (auto simp: Let_def wp_bindE [of "exec_when (clear_default_ready _ _) _ _"] simp del: wp_bindE
            intro: attach_endedI elim!: wp_mono split: sum.splits)
    qed
  qed
  show ?thesis
    unfolding attach_in_tx_def wp_bindE [of "exec _ _"]
  proof (rule wp_exec, rule wp_stmt [OF inside_open [OF i]], goal_cases)
    case (1 msg)
    show ?case by (simp del: wp_bindE) (rule attach_endedI, use i in simp)
  next
    case (2 r d)
    then obtain existing where r: "r = Inr existing" "d = w_db w" "existing_links app d0 existing"
      using list_accounts_inside [OF i, of app] by auto
    have "wp (find_or_create_account A t i) (\<lambda>res v. \<exists>cs. inside t d0 [] [] cs [] (w_db v) \<and>
        (\<forall>row. res = Inr row \<longrightarrow> account_of i row)) (w\<lparr>w_stmts := Suc (w_stmts w), w_db := d\<rparr>)"
      by (rule wp_find_or_create [OF _ v]) (use i r in simp)
    then show ?case
      unfolding r(1) sum.case wp_bindE [of "find_or_create_account _ _ _"]
      by (rule wp_mono) (auto intro: attach_endedI rest [OF r(3)] split: sum.split)
  next
    case (3 msg r d)
    then have "d = w_db w" using list_accounts_inside [OF i, of app] by auto
    then show ?case by (simp del: wp_bindE) (rule attach_endedI, use i in simp)
  qed
qed

subsection \<open>The operation\<close>

definition trimmed :: "attach_provider_input \<Rightarrow> attach_provider_input" where
  "trimmed input = input\<lparr>at_provider := trim_space (at_provider input), at_shop_id := trim_space (at_shop_id input),
     at_environment := trim_space (at_environment input)\<rparr>"

definition attach_done ::
  "attach_provider_input \<Rightarrow> uuid \<Rightarrow> database \<Rightarrow> go_err + provider_account \<Rightarrow> world \<Rightarrow> bool" where
  "attach_done i app d0 res v \<longleftrightarrow>
     db_txs (w_db v) = [] \<and> links_kept app d0 (w_db v) \<and> account_answer i app res (w_db v)"

lemma links_kept_same:
  "links_ok d0 \<Longrightarrow> core d = core d0 \<Longrightarrow> links_kept app d0 d"
  by (simp add: links_kept_def links_ok_def core_eq)

lemma attach_done_unchanged:
  "links_ok d0 \<Longrightarrow> core (w_db v) = core d0 \<Longrightarrow> db_txs (w_db v) = [] \<Longrightarrow> attach_done i app d0 (Inl e) v"
  by (simp add: attach_done_def links_kept_same account_answer_def)

lemma attach_rolled_back:
  assumes "attach_ended t i app d0 res v" "links_ok d0"
  shows "attach_done i app d0 res (v\<lparr>w_db := close_tx t (w_db v)\<rparr>)"
proof (cases "db_txs (w_db v) = [] \<and> links_kept app d0 (w_db v) \<and> account_answer i app res (w_db v)")
  case True
  then have "close_tx t (w_db v) = w_db v" by (simp add: close_tx_def)
  with True show ?thesis by (simp add: attach_done_def)
next
  case False
  then obtain e cs ls where e: "res = Inl e" "inside t d0 [] [] cs ls (w_db v)"
    using assms(1) by (auto simp: attach_ended_def)
  from inside_close [OF e(2)] show ?thesis
    unfolding e(1) by (intro attach_done_unchanged assms(2)) (simp_all add: outside_same)
qed

lemma wp_AttachProviderAccount:
  assumes d: "db_txs (w_db w) = []" and ok: "links_ok (w_db w)"
  shows "wp (AttachProviderAccount A app input) (attach_done (trimmed input) app (w_db w)) w"
proof -
  let ?i = "trimmed input" and ?Q = "attach_done (trimmed input) app (w_db w)"
  have tx: "wp (bindP begin_tx (\<lambda>r. case r of
      Inl e \<Rightarrow> Ret (Inl (Prefixed ''applications: begin'' e))
    | Inr t \<Rightarrow> bindP (attach_in_tx A t app ?i) (\<lambda>res. bindP (rollback t) (\<lambda>_. Ret res)))) ?Q u"
    if u: "w_db u = w_db w" and v: "validate_provider_input ?i = Inr ()" for u
  proof -
    have body: "wp (bindP (attach_in_tx A t app ?i) (\<lambda>res. bindP (rollback t) (\<lambda>_. Ret res))) ?Q x"
      if "inside t (w_db w) [] [] [] [] (w_db x)" for t x
      unfolding wp_bindP [of "attach_in_tx _ _ _ _"]
      by (rule wp_mono [OF wp_attach_in_tx [OF that ok v]]) (use ok in \<open>simp add: rollback_def attach_rolled_back\<close>)
    have start: "inside (fst (open_tx (w_db w))) (w_db w) [] [] [] [] (snd (open_tx (w_db w)))"
      by (rule inside_start [OF d])
    show ?thesis
      unfolding begin_tx_def wp_bindP [of "act _"] wp_act
      using start u d ok body
      by (auto simp: Let_def attach_done_unchanged simp del: wp_bindP split: fault.split prod.split)
  qed
  have none: "?Q (Inl e) u" if "w_db u = w_db w" for e u
    using that d ok by (intro attach_done_unchanged) simp_all
  show ?thesis
  proof (cases "validate_provider_input ?i")
    case (Inl e)
    then show ?thesis using none [of w] by (simp add: AttachProviderAccount_def trimmed_def Let_def wp_bindE_Ret del: wp_bindE)
  next
    case (Inr x)
    then have v: "validate_provider_input ?i = Inr ()" by simp
    have "wp (bindP (exec Pool (get_application app Pool)) (\<lambda>r. case r of
        Inl e \<Rightarrow> Ret (Inl (map_not_found e))
      | Inr _ \<Rightarrow> bindP begin_tx (\<lambda>r. case r of
          Inl e \<Rightarrow> Ret (Inl (Prefixed ''applications: begin'' e))
        | Inr t \<Rightarrow> bindP (attach_in_tx A t app ?i) (\<lambda>res. bindP (rollback t) (\<lambda>_. Ret res))))) ?Q w"
      unfolding wp_bindP [of "exec _ _"]
      by (rule wp_exec, rule wp_stmt)
        (auto simp: conn_open_def get_application_def none tx [OF _ v] simp del: wp_bindP split: sum.split)
    then show ?thesis
      using v by (simp add: AttachProviderAccount_def trimmed_def [symmetric] Let_def wp_bindE_Ret del: wp_bindE wp_bindP)
  qed
qed

end
