(* ===== verification/AppProperties.thy ===== *)
theory AppProperties
  imports AttachRuns KeyProperties
begin

text \<open>
  Properties of the operations on applications and provider accounts that use transactions: what they
  leave behind when nothing else runs, whatever fails on the way.
\<close>

definition demo_new_shop :: create_application_input where
  "demo_new_shop = \<lparr>ca_name = '' My Shop '', ca_default_return_url = None, ca_webhook_url = None\<rparr>"

definition demo_attach :: attach_provider_input where
  "demo_attach = \<lparr>at_provider = ''yookassa'', at_shop_id = '' 10 '', at_secret_key = ''s'',
     at_environment = ''test'', at_is_default = True\<rparr>"

text \<open>C10. Creating an application is all or nothing. Whatever statement fails, loses its answer or
  finds its slug taken (and whatever the random source does), \<open>CreateApplication\<close> returns with no
  transaction open; either it is an error and no table has changed, or exactly one application and one
  key have been added: active, with the trimmed name and a well-formed slug, neither clashing with an
  existing row. If it does not report an error, the answer is that application and the text of that
  key, and the signing secret it returns is stored encrypted.\<close>

theorem create_application_atomic:
  assumes "db_txs (w_db w) = []" "random_ok w" "hash_ok A"
  shows "\<exists>res v. run (CreateApplication A input) w = Some (res, v) \<and> db_txs (w_db v) = [] \<and>
    ((\<exists>e. res = Inl e) \<and> core (w_db v) = core (w_db w) \<or>
     (\<exists>row key. outside (w_db w) [row] [key] [] [] (w_db v) \<and>
        application_created A input (w_db w) res row key))"
  using wp_CreateApplication [OF assms, of input] unfolding wp_def by blast

theorem create_application_atomic_witness:
  "\<exists>res v. run (CreateApplication demo_apps demo_new_shop) demo_random = Some (res, v) \<and> db_txs (w_db v) = [] \<and>
    ((\<exists>e. res = Inl e) \<and> db_applications (w_db v) = db_applications demo_db \<or>
     (\<exists>row. db_applications (w_db v) = db_applications demo_db @ [row] \<and> a_name row = ''My Shop''))"
proof -
  have trim: "trim_space (ca_name demo_new_shop) = ''My Shop''" by code_simp
  have rows: "db_applications (w_db v) = db_applications demo_db @ [row]"
    if "outside demo_db [row] [key] [] [] (w_db v)" for row key v
  proof -
    have "core (w_db v) = (core demo_db)\<lparr>db_applications := db_applications demo_db @ [row],
        db_api_keys := db_api_keys demo_db @ [key], db_accounts := db_accounts demo_db, db_links := db_links demo_db\<rparr>"
      using that by (simp add: outside_def)
    from arg_cong [OF this, of db_applications] show ?thesis by simp
  qed
  show ?thesis
    using create_application_atomic [of demo_random demo_apps demo_new_shop] demo_hash_ok rows trim
    by (fastforce simp: core_eq application_created_def)
qed

text \<open>C11. An application with provider accounts always has exactly one default among them. In a
  database where that holds (\<open>links_ok\<close>: the links satisfy their unique indexes and foreign key, and
  every application with a link has a default one), \<open>AttachProviderAccount\<close> returns with no
  transaction open and it holds again, whatever fails; no link of another application has changed; and
  an answer names an account of the shop that was asked for, linked with the flag it reports, which is
  set when it was requested.\<close>

theorem attach_keeps_one_default:
  assumes "db_txs (w_db w) = []" "links_ok (w_db w)"
  shows "\<exists>res v. run (AttachProviderAccount A app input) w = Some (res, v) \<and> db_txs (w_db v) = [] \<and>
    links_ok (w_db v) \<and>
    (\<forall>l. l_application_id l \<noteq> app \<longrightarrow> (l \<in> set (db_links (w_db v)) \<longleftrightarrow> l \<in> set (db_links (w_db w)))) \<and>
    account_answer (trimmed input) app res (w_db v)"
  using wp_AttachProviderAccount [OF assms, of A app input]
  unfolding wp_def attach_done_def links_kept_def by blast

theorem attach_keeps_one_default_witness:
  "\<exists>res v. run (AttachProviderAccount demo_apps 1 demo_attach) demo_random = Some (res, v) \<and> db_txs (w_db v) = [] \<and>
    links_ok (w_db v) \<and> account_answer (trimmed demo_attach) 1 res (w_db v)"
proof -
  have "links_ok demo_db"
    by (simp add: links_ok_def default_links_def demo_db_def free_of_def)
  then show ?thesis
    using attach_keeps_one_default [of demo_random demo_apps 1 demo_attach] by auto
qed

end
