(* ===== verification/Liveness.thy ===== *)
theory Liveness
  imports Alone
begin

text \<open>
  Every operation of the two services, and every request to the router, returns when no other
  transaction is open, whatever fails, and leaves none open.
\<close>

lemma live_exec_tx [live]:
  "live {t} (exec_when (lock_order_ready P txt order (Tx t)) (Tx t) (lock_order_for_payment P txt order (Tx t)))"
  "live {t} (exec_when (create_payment_ready P pay (Tx t)) (Tx t) (create_payment P pay (Tx t)))"
  "live {t} (exec_when (create_operation_ready P oper (Tx t)) (Tx t) (create_payment_operation P oper (Tx t)))"
  "live {t} (exec_when (create_idempotency_ready app key hash pido (Tx t)) (Tx t)
     (create_idempotency_request app key hash pido (Tx t)))"
  "live {t} (exec_when (create_application_ready ca (Tx t)) (Tx t) (create_application ca (Tx t)))"
  "live {t} (exec_when (create_account_ready aa (Tx t)) (Tx t) (create_provider_account aa (Tx t)))"
  "live {t} (exec_when (attach_ready app account b (Tx t)) (Tx t) (attach_provider_account app account b (Tx t)))"
  "live {t} (exec_when (clear_default_ready app (Tx t)) (Tx t) (clear_default_provider app (Tx t)))"
  by (rule live_exec_when, rule live, erule tx_ready)+

lemma live_issue_key [live]: "live (tx_of c) (issue_key A c app name e)"
proof -
  have "live (tx_of c) (exec_when (create_api_key_ready ka c) c (create_api_key ka c))" for ka
    by (rule live_exec_when, rule live, erule ready_alone)
  then show ?thesis unfolding issue_key_def by (intro live)
qed

lemmas live_issue_tx [live] = live_issue_key [where c = "Tx t" for t, unfolded tx_of_def conn.case]
lemmas live_issue_pool [live] = live_issue_key [where c = Pool, unfolded tx_of_def conn.case]

subsection \<open>Payments\<close>

lemma live_recorder [live]: "live T (record_creation E res)" "live T (record_provider_call E op err t)"
  unfolding record_creation_def record_provider_call_def by (intro live)+

lemma live_credentials [live]: "live T (provider_credentials E account)" "live T (account_credentials A account)"
  unfolding provider_credentials_def account_credentials_def by (intro live)+

lemma live_get_payment_row [live]: "live T (get_payment_row E app pid)"
  unfolding get_payment_row_def by (intro live)

lemma live_replay [live]: "live T (replay E app row hash)"
  unfolding replay_def by (intro live)

lemma live_local [live]:
  "live {t} (local_checks E app key i t)" "live {t} (local_payment E app account i t)"
  "live {t} (local_records E app key hash i t p)"
  unfolding local_checks_def local_payment_def local_records_def by (intro live)+

lemma live_create_local [live]: "live {} (create_local E app account key hash i)"
  unfolding create_local_def by (intro live)

lemma live_complete [live]: "live T (complete_operation oid st err)"
  unfolding complete_operation_def by (intro live)

lemma live_call_provider [live]: "live {} (call_provider E loc i)"
  unfolding call_provider_def charge_provider_def handle_create_failure_def record_created_def by (intro live)

lemma live_create [live]: "live {} (create E app input key)"
  unfolding create_def create_new_def create_with_account_def by (intro live)

lemma live_payments [live]:
  "live {} (CreatePayment E app key input)" "live {} (CreateAttempt E app order key input)"
  "live {} (GetPayment E app' pid)" "live {} (ListPayments E app' query)" "live {} UnfinishedCount"
  unfolding CreatePayment_def CreateAttempt_def GetPayment_def maybe_refresh_def refresh_def
    apply_provider_state_def ListPayments_def UnfinishedCount_def
  by (intro live)+

subsection \<open>Applications\<close>

lemma live_secrets [live]:
  "live T generate_webhook_secret" "live T (random_hex n)" "live T (encrypt_secret A sec)"
  unfolding generate_webhook_secret_def random_hex_def encrypt_secret_def by (intro live)+

lemma live_create_application_tx [live]: "live {} (create_application_tx A slug name i sec)"
  unfolding create_application_tx_def insert_application_def by (intro live)

lemma live_allocate [live]: "live {} (allocate_slug n A base name i sec first)"
proof (induction n arbitrary: first)
  case (Suc n)
  then show ?case unfolding allocate_slug.simps attempt_slug_def by (intro live)
qed (simp add: live_Ret)

lemma live_attach [live]: "live {t} (attach_in_tx A t app i)"
  unfolding attach_in_tx_def find_or_create_account_def by (intro live)

lemma live_applications [live]:
  "live {} (CreateApplication A input)" "live {} (GetApplication app)" "live {} ListApplications"
  "live {} (IssueAPIKey A app name e)" "live {} (ListAPIKeys app)" "live {} (RevokeAPIKey app key)"
  "live {} (Authenticate A presented)" "live {} (AttachProviderAccount A app att)"
  "live {} (ListProviderAccounts app)" "live {} (SetProviderStatus account st)"
  "live {} (RotateWebhookSecret A app)"
  unfolding CreateApplication_def GetApplication_def ListApplications_def IssueAPIKey_def ListAPIKeys_def
    RevokeAPIKey_def Authenticate_def AttachProviderAccount_def ListProviderAccounts_def SetProviderStatus_def
    RotateWebhookSecret_def
  by (intro live)+

subsection \<open>Requests\<close>

lemma live_payment_handlers [live]:
  "live {} (create_payment_handler D E r)" "live {} (create_attempt_handler D E r)"
  "live {} (get_payment_handler D E r)" "live {} (list_payments_handler D E r)" "live {} (Me D r)"
  unfolding create_payment_handler_def create_attempt_handler_def get_payment_handler_def
    list_payments_handler_def Me_def
  by (intro live)+

lemma live_admin_handlers [live]:
  "live {} (createApplication D r)" "live {} (listApplications D r)" "live {} (getApplication D r)"
  "live {} (createAPIKey D r)" "live {} (listAPIKeys D r)" "live {} (revokeAPIKey D r)"
  "live {} (rotateWebhookSecret D r)" "live {} (attachProvider D r)" "live {} (listProviders D r)"
  "live {} (testProvider D r)"
  unfolding createApplication_def listApplications_def getApplication_def createAPIKey_def listAPIKeys_def
    revokeAPIKey_def rotateWebhookSecret_def attachProvider_def listProviders_def testProvider_def
  by (intro live)+

lemma live_health [live]: "live {} (Live r)" "live {} (Ready r)" "live {} (metrics_handler r)"
  unfolding Live_def Ready_def Ping_def metrics_handler_def by (intro live | rule live_act, simp)+

lemma live_mux: "(\<And>m p h r. (m, p, h) \<in> set t \<Longrightarrow> live {} (h r)) \<Longrightarrow> live {} (mux X t r)"
proof -
  assume h: "\<And>m p h r. (m, p, h) \<in> set t \<Longrightarrow> live {} (h r)"
  have "live {} (snd (snd (t ! i)) r)" if "i < length t" for i r
    by (rule h [of "fst (t ! i)" "fst (snd (t ! i))"]) (use that in simp)
  then show ?thesis
    by (auto simp: mux_def not_found_def method_not_allowed_def split: route_match.split prod.split
        intro!: live_Ret live_bindP) (metis snd_conv)
qed

lemma live_guards:
  "(\<And>r. live {} (h r)) \<Longrightarrow> live {} (RequireApplication (Authenticate A) h r)"
  "(\<And>r. live {} (h r)) \<Longrightarrow> live {} (RequireAdmin token h r)"
  unfolding RequireApplication_def RequireAdmin_def by (auto intro!: live split: option.split)

lemma live_NewRouter: "live {} (NewRouter D r)"
proof -
  have v1: "live {} (v1 D r)" for r
    unfolding v1_def
    by (intro live_guards live_mux)
      (auto simp: v1_routes_def payments_register_def split: option.splits intro: live)
  have admin: "live {} (admin D r)" for r
    unfolding admin_def
    by (intro live_guards live_mux) (auto simp: admin_register_def intro: live)
  have "live {} (mux (d_http D) (root_routes D) r)" for r
    by (rule live_mux) (auto simp: root_routes_def mount_def split: if_splits intro: v1 admin live)
  then show ?thesis unfolding NewRouter_def Metrics_def by (auto intro!: live)
qed

end
