(* ===== verification/Responses.thy ===== *)
theory Responses
  imports Wiring
begin

text \<open>
  What the API may answer, whatever happens behind it: the pairs of status and error code, and for each
  body the statuses it comes with. Both tables collect what the handlers can produce; the API document
  (\<open>api/openapi.yaml\<close>) lists fewer statuses.
\<close>

subsection \<open>Values a program may return\<close>

definition yields :: "('s, 'a) prog \<Rightarrow> ('a \<Rightarrow> bool) \<Rightarrow> bool" where
  "yields p V \<longleftrightarrow> (\<forall>s a t. run p s = Some (a, t) \<longrightarrow> V a)"

named_theorems yields \<open>values programs return\<close>

lemma yields_Ret [yields]: "V a \<Longrightarrow> yields (Ret a) V"
  by (simp add: yields_def)

lemma yields_bindP [yields]: "(\<And>a. yields (k a) V) \<Longrightarrow> yields (bindP p k) V"
  by (auto simp: yields_def run_bindP split: option.splits)

lemma yields_then: "yields p U \<Longrightarrow> (\<And>a. U a \<Longrightarrow> yields (k a) V) \<Longrightarrow> yields (bindP p k) V"
  by (fastforce simp: yields_def run_bindP split: option.splits)

lemma yields_answer [yields]:
  "(\<And>e. V (fail e)) \<Longrightarrow> (\<And>a. V (ok a)) \<Longrightarrow> yields (answer fail ok p) V"
  by (auto simp: answer_def intro!: yields split: sum.split)

lemma yields_proceed [yields]:
  "(\<And>e. x = Inl e \<Longrightarrow> V e) \<Longrightarrow> (\<And>a. x = Inr a \<Longrightarrow> yields (k a) V) \<Longrightarrow> yields (proceed x k) V"
  by (cases x) (auto intro: yields_Ret)

lemma yields_case_sum [yields]:
  "(\<And>e. r = Inl e \<Longrightarrow> yields (f e) V) \<Longrightarrow> (\<And>a. r = Inr a \<Longrightarrow> yields (g a) V) \<Longrightarrow>
     yields (case r of Inl e \<Rightarrow> f e | Inr a \<Rightarrow> g a) V"
  by (cases r) auto

lemma yields_case_prod [yields]: "(\<And>a b. yields (f a b) V) \<Longrightarrow> yields (case r of (a, b) \<Rightarrow> f a b) V"
  by (cases r) auto

subsection \<open>Well-formed responses\<close>

text \<open>The pairs of status and code the code can put in an error.\<close>

definition error_table :: "(int \<times> api_code) list" where
  "error_table =
     [(400, InvalidRequest), (401, Unauthorized), (404, NotFound), (404, PaymentNotFound),
      (405, InvalidRequest), (409, Conflict), (409, IdempotencyConflict), (409, PaymentAlreadySucceeded),
      (413, InvalidRequest), (422, ProviderNotConfigured), (500, InternalError), (502, ProviderAuthFailed),
      (502, PaymentStateUnknown), (503, ProviderUnavailable), (503, InternalError), (504, ProviderTimeout)]"

text \<open>An internal error says nothing of its cause.\<close>

definition error_ok :: "http_request \<Rightarrow> int \<Rightarrow> error_body \<Rightarrow> bool" where
  "error_ok r status e \<longleftrightarrow>
     list_ex (\<lambda>(s, c). status = s \<and> eb_code e = api_code_text c) error_table \<and>
     eb_request_id e = hr_request_id r \<and>
     (status = 500 \<longrightarrow> eb_message e \<in> {''internal error'', ''authentication failed''} \<and> eb_retryable e)"

text \<open>The statuses the handlers send a body with.\<close>

fun body_statuses :: "body \<Rightarrow> int set" where
  "body_statuses NoBody = {204}"
| "body_statuses (ErrorEnvelope _) = {400 ..< 600}"
| "body_statuses (MapBody m) = (if m = [(''status'', ''ok'')] then {200} else {503})"
| "body_statuses (CreatedApplicationBody _) = {201}"
| "body_statuses (IssuedKeyBody _) = {201}"
| "body_statuses (WebhookSecretBody _) = {201}"
| "body_statuses (AccountBody _) = {201}"
| "body_statuses (PaymentPendingBody _) = {202}"
| "body_statuses (PaymentBody _) = {200, 201}"
| "body_statuses _ = {200}"

fun body_ok :: "http_request \<Rightarrow> int \<Rightarrow> body \<Rightarrow> bool" where
  "body_ok r status (ErrorEnvelope e) = error_ok r status e"
| "body_ok r status _ = True"

definition well_formed :: "http_request \<Rightarrow> response \<Rightarrow> bool" where
  "well_formed r res \<longleftrightarrow> rs_status res \<in> body_statuses (rs_body res) \<and>
     body_ok r (rs_status res) (rs_body res)"

lemma well_formed_error [yields]:
  "(s, c) \<in> set error_table \<Longrightarrow> s \<noteq> 500 \<Longrightarrow> well_formed r (respond_error r s c m b)"
  "well_formed r (respond_error r 500 InternalError ''internal error'' True)"
  "well_formed r (respond_error r 500 InternalError ''authentication failed'' True)"
proof -
  have range: "400 \<le> s \<and> s < 600" if "(s, c) \<in> set error_table" for s c
    using that by (auto simp: error_table_def)
  have entry: "list_ex (\<lambda>(s', c'). s = s' \<and> api_code_text c = api_code_text c') error_table"
    if "(s, c) \<in> set error_table" for s c
    using that by (auto simp: list_ex_iff)
  show "(s, c) \<in> set error_table \<Longrightarrow> s \<noteq> 500 \<Longrightarrow> well_formed r (respond_error r s c m b)"
    using range entry by (auto simp: well_formed_def error_ok_def)
  have "(500, InternalError) \<in> set error_table" by (simp add: error_table_def)
  from range [OF this] entry [OF this]
  show "well_formed r (respond_error r 500 InternalError ''internal error'' True)"
    "well_formed r (respond_error r 500 InternalError ''authentication failed'' True)"
    by (simp_all add: well_formed_def error_ok_def)
qed

lemma well_formed_JSON [simp]: "well_formed r (JSON s b) \<longleftrightarrow> s \<in> body_statuses b \<and> body_ok r s b"
  by (simp add: well_formed_def)

lemma well_formed_id: "hr_request_id r = hr_request_id r' \<Longrightarrow> well_formed r = well_formed r'"
proof -
  assume "hr_request_id r = hr_request_id r'"
  then have "error_ok r = error_ok r'" by (intro ext) (simp add: error_ok_def)
  then have "body_ok r s b = body_ok r' s b" for s b by (cases b) simp_all
  then show ?thesis by (intro ext) (simp add: well_formed_def)
qed

lemma well_formed_cong [simp]:
  "well_formed (r\<lparr>hr_param := x, hr_path := y\<rparr>) = well_formed r"
  "well_formed (with_authenticated a r) = well_formed r"
  by (rule well_formed_id, simp add: with_authenticated_def)+

lemma well_formed_pass [simp]: "well_formed r (pass_pattern q res) = well_formed r res"
  by (simp add: well_formed_def pass_pattern_def)

lemma provider_status_table: "providerHTTPStatus p \<in> set error_table \<and> fst (providerHTTPStatus p) \<noteq> 500"
  by (auto simp: providerHTTPStatus_def error_table_def split: error_code.split)

lemma admin_fail_ok [yields]: "well_formed r (admin_fail r e)"
  by (auto simp: admin_fail_def intro!: yields simp: error_table_def)

lemma payments_fail_ok [yields]: "well_formed r (payments_fail r e)"
proof -
  have "well_formed r (case providerHTTPStatus p of (status, code) \<Rightarrow> respond_error r status code m b)" for p m b
    using provider_status_table [of p] by (cases "providerHTTPStatus p") (auto intro: yields)
  then show ?thesis
    by (auto simp: payments_fail_def intro!: yields simp: error_table_def split: option.split)
qed

lemma input_errors_ok:
  "decode_json read r = Inl res \<Longrightarrow> well_formed r res" "uuid_param D name r = Inl res \<Longrightarrow> well_formed r res"
  "payment_id_param D r = Inl res \<Longrightarrow> well_formed r res" "limit_param r = Inl res \<Longrightarrow> well_formed r res"
  "authenticated_app r = Inl res \<Longrightarrow> well_formed r res"
  by (auto simp: decode_json_def uuid_param_def payment_id_param_def limit_param_def authenticated_app_def
      not_authenticated_def Let_def error_table_def split: json_read.splits option.splits if_splits intro!: yields)

lemma create_result_ok [yields]: "well_formed r (write_create_result D x)"
  by (simp add: write_create_result_def)

subsection \<open>Every handler\<close>

lemma payment_handlers_ok [yields]:
  "yields (create_payment_handler D E r) (well_formed r)" "yields (create_attempt_handler D E r) (well_formed r)"
  "yields (get_payment_handler D E r) (well_formed r)" "yields (list_payments_handler D E r) (well_formed r)"
  "yields (Me D r) (well_formed r)"
  unfolding create_payment_handler_def create_attempt_handler_def get_payment_handler_def
    list_payments_handler_def Me_def
  by (auto intro!: yields dest: input_errors_ok)

lemma admin_handlers_ok [yields]:
  "yields (createApplication D r) (well_formed r)" "yields (listApplications D r) (well_formed r)"
  "yields (getApplication D r) (well_formed r)" "yields (createAPIKey D r) (well_formed r)"
  "yields (listAPIKeys D r) (well_formed r)" "yields (revokeAPIKey D r) (well_formed r)"
  "yields (rotateWebhookSecret D r) (well_formed r)" "yields (attachProvider D r) (well_formed r)"
  "yields (listProviders D r) (well_formed r)" "yields (testProvider D r) (well_formed r)"
  unfolding createApplication_def listApplications_def getApplication_def createAPIKey_def listAPIKeys_def
    revokeAPIKey_def rotateWebhookSecret_def attachProvider_def listProviders_def testProvider_def
  by (auto intro!: yields dest: input_errors_ok split: prod.split)

lemma health_ok [yields]:
  "yields (Live r) (well_formed r)" "yields (Ready r) (well_formed r)" "yields (metrics_handler r) (well_formed r)"
  by (auto simp: Live_def Ready_def metrics_handler_def yields_def run_bindP split: option.splits sum.splits)

lemma mux_ok:
  assumes "\<And>m p h r. (m, p, h) \<in> set t \<Longrightarrow> yields (h r) (well_formed r)"
  shows "yields (mux X t r) (well_formed r)"
proof -
  have "yields (bindP (h (r\<lparr>hr_param := ps, hr_path := rest\<rparr>)) (\<lambda>res. Ret (pass_pattern q res))) (well_formed r)"
    if "t ! i = (m, q', h)" "i < length t" for i m q q' h ps rest
  proof -
    have "(m, q', h) \<in> set t" using that nth_mem by metis
    from assms [OF this, of "r\<lparr>hr_param := ps, hr_path := rest\<rparr>"] show ?thesis
      by (rule yields_then) (auto intro: yields)
  qed
  then show ?thesis
    by (auto simp: mux_def not_found_def method_not_allowed_def error_table_def
        split: route_match.split prod.split intro!: yields_Ret well_formed_error)
qed

lemma guards_ok:
  "(\<And>r. yields (h r) (well_formed r)) \<Longrightarrow> yields (RequireApplication auth h r) (well_formed r)"
  "(\<And>r. yields (h r) (well_formed r)) \<Longrightarrow> yields (RequireAdmin token h r) (well_formed r)"
proof -
  assume h: "\<And>r. yields (h r) (well_formed r)"
  have "yields (h (with_authenticated a r)) (well_formed r)" for a
    using h [of "with_authenticated a r"] by simp
  then show "yields (RequireApplication auth h r) (well_formed r)"
    unfolding RequireApplication_def
    by (auto intro!: yields simp: error_table_def split: option.split)
next
  assume "\<And>r. yields (h r) (well_formed r)"
  then show "yields (RequireAdmin token h r) (well_formed r)"
    unfolding RequireAdmin_def by (auto intro!: yields simp: error_table_def split: option.split)
qed

lemma NewRouter_ok: "yields (NewRouter D r) (well_formed r)"
proof -
  have v1: "yields (v1 D r) (well_formed r)" for r
    unfolding v1_def
    by (intro guards_ok mux_ok)
      (auto simp: v1_routes_def payments_register_def split: option.splits intro: yields)
  have admin: "yields (admin D r) (well_formed r)" for r
    unfolding admin_def
    by (intro guards_ok mux_ok) (auto simp: admin_register_def intro: yields)
  have root: "yields (mux (d_http D) (root_routes D) r) (well_formed r)" for r
    by (rule mux_ok) (auto simp: root_routes_def mount_def split: if_splits intro: v1 admin yields)
  have "yields (Metrics (d_http D) (mux (d_http D) (root_routes D)) r) (well_formed r)"
    unfolding Metrics_def
    by (rule yields_bindP, rule yields_then [OF root]) (auto intro!: yields)
  with root show ?thesis by (simp add: NewRouter_def)
qed

end
