(* ===== verification/RoutePatterns.thy ===== *)
theory RoutePatterns
  imports Responses
begin

text \<open>
  The patterns a request can have followed when it is measured: those of the route tables, whatever
  the path; so the \<open>route\<close> label of \<open>kazna_http_request_duration_seconds\<close> takes finitely many values.
\<close>

definition bare :: "response \<Rightarrow> bool" where
  "bare res \<longleftrightarrow> rs_patterns res = []"

lemma bare_simps [yields]: "bare (JSON s b)" "bare (respond_error r s c m rt)"
  by (simp_all add: bare_def respond_error_def)

lemma bare_fail [yields]: "bare (admin_fail r e)" "bare (payments_fail r e)" "bare (write_create_result D x)"
  by (auto simp: admin_fail_def payments_fail_def write_create_result_def intro: yields
      split: option.split prod.split)

lemma bare_inputs:
  "decode_json read r = Inl res \<Longrightarrow> bare res" "uuid_param D name r = Inl res \<Longrightarrow> bare res"
  "payment_id_param D r = Inl res \<Longrightarrow> bare res" "limit_param r = Inl res \<Longrightarrow> bare res"
  "authenticated_app r = Inl res \<Longrightarrow> bare res"
  by (auto simp: decode_json_def uuid_param_def payment_id_param_def limit_param_def authenticated_app_def
      not_authenticated_def Let_def split: json_read.splits option.splits if_splits intro!: yields)

lemma bare_handlers [yields]:
  "yields (create_payment_handler D E r) bare" "yields (create_attempt_handler D E r) bare"
  "yields (get_payment_handler D E r) bare" "yields (list_payments_handler D E r) bare" "yields (Me D r) bare"
  "yields (createApplication D r) bare" "yields (listApplications D r) bare"
  "yields (getApplication D r) bare" "yields (createAPIKey D r) bare" "yields (listAPIKeys D r) bare"
  "yields (revokeAPIKey D r) bare" "yields (rotateWebhookSecret D r) bare" "yields (attachProvider D r) bare"
  "yields (listProviders D r) bare" "yields (testProvider D r) bare"
  "yields (Live r) bare" "yields (Ready r) bare" "yields (metrics_handler r) bare"
  unfolding create_payment_handler_def create_attempt_handler_def get_payment_handler_def
    list_payments_handler_def Me_def createApplication_def listApplications_def getApplication_def
    createAPIKey_def listAPIKeys_def revokeAPIKey_def rotateWebhookSecret_def attachProvider_def
    listProviders_def testProvider_def
  by (auto intro!: yields dest: bare_inputs split: prod.split)
    (auto simp: Live_def Ready_def metrics_handler_def yields_def run_bindP bare_def split: option.splits sum.splits)

text \<open>The paths through a table.\<close>

definition passes :: "(string \<Rightarrow> string list set) \<Rightarrow> table \<Rightarrow> string list set" where
  "passes below t = insert [] (\<Union>(m, p, h) \<in> set t. (#) p ` below p)"

lemma mux_passes:
  assumes "\<And>m p h r. (m, p, h) \<in> set t \<Longrightarrow> yields (h r) (\<lambda>res. rs_patterns res \<in> below p)"
  shows "yields (mux X t r) (\<lambda>res. rs_patterns res \<in> passes below t)"
proof -
  have "yields (bindP (h (r\<lparr>hr_param := ps, hr_path := rest\<rparr>)) (\<lambda>res. Ret (pass_pattern q res)))
      (\<lambda>res. rs_patterns res \<in> passes below t)"
    if i: "t ! i = (m, q, h)" "i < length t" for i m q h ps rest
  proof -
    have mem: "(m, q, h) \<in> set t" using i nth_mem by metis
    then have "(#) q ` below q \<subseteq> passes below t" by (force simp: passes_def)
    then show ?thesis
      by (intro yields_then [OF assms [OF mem]]) (auto simp: pass_pattern_def intro!: yields_Ret)
  qed
  then show ?thesis
    by (auto simp: mux_def not_found_def method_not_allowed_def respond_error_def passes_def
        split: route_match.split prod.split intro!: yields_Ret)
qed

lemma guards_pass:
  assumes "[] \<in> P" "\<And>r. yields (h r) (\<lambda>res. rs_patterns res \<in> P)"
  shows "yields (RequireApplication auth h r) (\<lambda>res. rs_patterns res \<in> P)"
    "yields (RequireAdmin token h r) (\<lambda>res. rs_patterns res \<in> P)"
proof -
  have bare: "yields (Ret (respond_error r s c m b)) (\<lambda>res. rs_patterns res \<in> P)" for r s c m b
    using assms(1) by (auto simp: respond_error_def intro: yields_Ret)
  show "yields (RequireApplication auth h r) (\<lambda>res. rs_patterns res \<in> P)"
    unfolding RequireApplication_def
    by (auto intro!: yields_bindP yields_case_sum bare assms(2) split: option.split)
  show "yields (RequireAdmin token h r) (\<lambda>res. rs_patterns res \<in> P)"
    unfolding RequireAdmin_def by (auto intro!: bare assms(2) split: option.split)
qed

text \<open>The finite list of what a request may have passed.\<close>

definition leaves :: "table \<Rightarrow> string list list" where
  "leaves t = [] # map (\<lambda>(m, p, h). [p]) t"

definition api_patterns :: "api \<Rightarrow> string list list" where
  "api_patterns D = leaves (root_routes D) @
     concat (map (\<lambda>p. map ((#) p) (leaves (v1_routes D))) [''/v1'', ''/v1/'', ''/v1/*'']) @
     concat (map (\<lambda>p. map ((#) p) (leaves (admin_register D))) [''/admin'', ''/admin/'', ''/admin/*''])"

lemma leaves_ok:
  assumes "\<And>m p h r. (m, p, h) \<in> set t \<Longrightarrow> yields (h r) bare"
  shows "yields (mux X t r) (\<lambda>res. rs_patterns res \<in> set (leaves t))"
proof -
  have "yields (mux X t r) (\<lambda>res. rs_patterns res \<in> passes (\<lambda>_. {[]}) t)"
    by (rule mux_passes) (use assms in \<open>fastforce simp: bare_def yields_def\<close>)
  moreover have "passes (\<lambda>_. {[]}) t = set (leaves t)" by (force simp: passes_def leaves_def)
  ultimately show ?thesis by simp
qed

lemma root_patterns: "yields (mux (d_http D) (root_routes D) r) (\<lambda>res. rs_patterns res \<in> set (api_patterns D))"
proof -
  let ?v1 = "{''/v1'', ''/v1/'', ''/v1/*''}" and ?admin = "{''/admin'', ''/admin/'', ''/admin/*''}"
  let ?below = "\<lambda>p. if p \<in> ?v1 then set (leaves (v1_routes D))
    else if p \<in> ?admin then set (leaves (admin_register D)) else {[]}"
  have v1: "yields (v1 D r) (\<lambda>res. rs_patterns res \<in> set (leaves (v1_routes D)))" for r
    unfolding v1_def
    by (intro guards_pass leaves_ok)
      (auto simp: leaves_def v1_routes_def payments_register_def split: option.splits intro: yields)
  have admin: "yields (admin D r) (\<lambda>res. rs_patterns res \<in> set (leaves (admin_register D)))" for r
    unfolding admin_def
    by (intro guards_pass leaves_ok) (auto simp: leaves_def admin_register_def intro: yields)
  have leaf: "yields p bare \<Longrightarrow> yields p (\<lambda>res. rs_patterns res \<in> {[]})" for p :: "response action"
    by (simp add: yields_def bare_def)
  have entry: "p \<in> ?v1 \<and> h = v1 D \<or> p \<notin> ?v1 \<and> p \<in> ?admin \<and> h = admin D \<or>
      p \<notin> ?v1 \<and> p \<notin> ?admin \<and> h \<in> {Live, Ready, metrics_handler}"
    if "(m, p, h) \<in> set (root_routes D)" for m p h
    using that by (auto simp: root_routes_def mount_def split: if_splits)
  have "yields (h r) (\<lambda>res. rs_patterns res \<in> ?below p)" if "(m, p, h) \<in> set (root_routes D)" for m p h r
    using entry [OF that] v1 [of r] admin [of r] bare_handlers(16-18) [of r, THEN leaf]
    by (elim disjE conjE) (simp_all only: if_True if_False insert_iff empty_iff, auto)
  then have "yields (mux (d_http D) (root_routes D) r) (\<lambda>res. rs_patterns res \<in> passes ?below (root_routes D))"
    by (rule mux_passes)
  moreover have "passes ?below (root_routes D) \<subseteq> set (api_patterns D)"
    unfolding passes_def
  proof (intro insert_subsetI UN_least)
    show "[] \<in> set (api_patterns D)" by (simp add: api_patterns_def leaves_def)
    fix e assume "e \<in> set (root_routes D)"
    moreover obtain m p h where e: "e = (m, p, h)" by (rule prod_cases3)
    ultimately have "[p] \<in> set (leaves (root_routes D))" by (force simp: leaves_def)
    moreover have "set (map ((#) p) (leaves (v1_routes D))) \<subseteq> set (api_patterns D)" if "p \<in> ?v1"
      using that by (simp only: api_patterns_def set_append set_concat set_map) auto
    moreover have "set (map ((#) p) (leaves (admin_register D))) \<subseteq> set (api_patterns D)" if "p \<in> ?admin"
      using that by (simp only: api_patterns_def set_append set_concat set_map) auto
    ultimately show "(case e of (m, p, h) \<Rightarrow> (#) p ` ?below p) \<subseteq> set (api_patterns D)"
      by (simp only: e prod.case set_map split: if_split) (auto simp: api_patterns_def)
  qed
  ultimately show ?thesis unfolding yields_def by blast
qed

end
