(* ===== verification/Metering.thy ===== *)
theory Metering
  imports RoutePatterns
begin

text \<open>
  Who adds to \<open>kazna_http_request_duration_seconds\<close>: the middleware, once per request, and nothing
  else. \<open>silent p\<close> says that a run of \<open>p\<close> leaves the series of that histogram as they were.
\<close>

definition silent :: "'a action \<Rightarrow> bool" where
  "silent p \<longleftrightarrow> (\<forall>s a t. run p s = Some (a, t) \<longrightarrow> mx_http_duration (registry t) = mx_http_duration (registry s))"

named_theorems silent \<open>programs that observe no request\<close>

lemma silent_Ret [silent]: "silent (Ret a)"
  by (simp add: silent_def)

lemma silent_bindP [silent]: "silent p \<Longrightarrow> (\<And>a. silent (k a)) \<Longrightarrow> silent (bindP p k)"
  unfolding silent_def run_bindP by (fastforce split: option.splits)

lemma silent_bindE [silent]: "silent p \<Longrightarrow> (\<And>a. silent (k a)) \<Longrightarrow> silent (bindE p k)"
  unfolding bindE_def by (intro silent_bindP) (auto intro: silent_Ret split: sum.split)

lemma silent_case_sum [silent]:
  "(\<And>e. silent (f e)) \<Longrightarrow> (\<And>a. silent (g a)) \<Longrightarrow> silent (case r of Inl e \<Rightarrow> f e | Inr a \<Rightarrow> g a)"
  by (cases r) auto

lemma silent_case_option [silent]:
  "silent f \<Longrightarrow> (\<And>a. silent (g a)) \<Longrightarrow> silent (case r of None \<Rightarrow> f | Some a \<Rightarrow> g a)"
  by (cases r) auto

lemma silent_case_prod [silent]: "(\<And>a b. silent (f a b)) \<Longrightarrow> silent (case r of (a, b) \<Rightarrow> f a b)"
  by (cases r) auto

lemma silent_if [silent]: "silent p \<Longrightarrow> silent q \<Longrightarrow> silent (if b then p else q)"
  by simp

lemma silent_Let [silent]: "silent (f a) \<Longrightarrow> silent (let x = a in f x)"
  by simp

lemma silent_proceed [silent]: "(\<And>a. silent (k a)) \<Longrightarrow> silent (proceed x k)"
  by (cases x) (auto intro: silent_Ret)

lemma silent_answer [silent]: "silent p \<Longrightarrow> silent (answer fail ok p)"
  by (auto simp: answer_def intro: silent_bindP silent_Ret)

lemma silent_step:
  assumes "\<And>s a t. run p s = Some (a, t) \<Longrightarrow> w_metrics t = w_metrics s"
  shows "silent p"
  using assms by (fastforce simp: silent_def registry_def)

lemma silent_act: "(\<And>w. w_metrics (snd (f w)) = w_metrics w) \<Longrightarrow> silent (act f)"
  by (rule silent_step) (metis Pair_inject option.inject run_act surjective_pairing)

lemma metrics_statement: "w_metrics (snd (statement c eff w)) = w_metrics w"
  by (auto simp: statement_def Let_def split: fault.split)

lemma silent_exec [silent]: "silent (exec c eff)" "silent (exec_when ready c eff)"
proof -
  show "silent (exec c eff)" unfolding exec_def by (rule silent_act) (rule metrics_statement)
  show "silent (exec_when ready c eff)"
  proof (rule silent_step)
    fix s a t
    assume "run (exec_when ready c eff) s = Some (a, t)"
    then have "statement c eff s = (a, t)" by (simp add: exec_when_def split: if_splits)
    then show "w_metrics t = w_metrics s" using metrics_statement [of c eff s] by simp
  qed
qed

lemma silent_actions [silent]:
  "silent get_time" "silent new_uuid" "silent (rand_read n)" "silent (provider_call f)" "silent begin_tx"
  "silent (rollback t)" "silent (metrics_handler r)" "silent (commit t)"
  unfolding get_time_def new_uuid_def rand_read_def provider_call_def begin_tx_def rollback_def metrics_handler_def
  by (rule silent_act; auto simp: Let_def split: prod.split option.split fault.split)+
    (auto simp: commit_def intro: silent_exec)

lemma silent_record [silent]: "silent (record_metric (CreationCounted x))" "silent (record_metric (ProviderCallCounted y z t))"
  by (auto simp: silent_def record_metric_def registry_def PaymentCreation_def ProviderCall_def Let_def)

subsection \<open>Every operation and handler\<close>

lemma silent_payment_steps [silent]:
  "silent (record_creation E res)" "silent (record_provider_call E oper err t)"
  "silent (provider_credentials E account)" "silent (account_credentials A account)"
  "silent (get_payment_row E app pid)" "silent (complete_operation oid os code)"
  "silent (mark_payment_creating pid)" "silent (set_payment_created pid p u tm)"
  "silent (set_payment_creation_unknown pid tm)" "silent (set_payment_canceled pid)"
  "silent (apply_provider_status pid st tm)"
  unfolding record_creation_def record_provider_call_def provider_credentials_def account_credentials_def
    get_payment_row_def complete_operation_def mark_payment_creating_def set_payment_created_def
    set_payment_creation_unknown_def set_payment_canceled_def apply_provider_status_def
    exec_update_def exec_update_at_def
  by (intro silent)+

lemma silent_create [silent]: "silent (create E app input key)"
  unfolding create_def create_new_def create_with_account_def create_local_def local_checks_def local_payment_def
    local_records_def call_provider_def charge_provider_def handle_create_failure_def record_created_def replay_def
  by (intro silent)

lemma silent_payments [silent]:
  "silent (CreatePayment E app key input)" "silent (CreateAttempt E app order key input)"
  "silent (GetPayment E app' pid)" "silent (ListPayments E app' query)"
  unfolding CreatePayment_def CreateAttempt_def GetPayment_def maybe_refresh_def refresh_def
    apply_provider_state_def ListPayments_def
  by (intro silent)+

lemma silent_secrets [silent]:
  "silent generate_webhook_secret" "silent (random_hex n)" "silent (encrypt_secret A sec)" "silent (issue_key A c app name e)"
  unfolding generate_webhook_secret_def random_hex_def encrypt_secret_def issue_key_def by (intro silent)+

lemma silent_allocate [silent]: "silent (allocate_slug n A base name i sec first)"
proof (induction n arbitrary: first)
  case (Suc n)
  then show ?case
    unfolding allocate_slug.simps attempt_slug_def create_application_tx_def insert_application_def by (intro silent)
qed (simp add: silent_Ret)

lemma silent_applications [silent]:
  "silent (CreateApplication A input)" "silent (GetApplication app)" "silent ListApplications"
  "silent (IssueAPIKey A app name e)" "silent (ListAPIKeys app)" "silent (RevokeAPIKey app key)"
  "silent (Authenticate A presented)" "silent (AttachProviderAccount A app att)"
  "silent (ListProviderAccounts app)" "silent (SetProviderStatus account st)"
  "silent (RotateWebhookSecret A app)"
  unfolding CreateApplication_def GetApplication_def ListApplications_def IssueAPIKey_def ListAPIKeys_def
    RevokeAPIKey_def Authenticate_def AttachProviderAccount_def attach_in_tx_def find_or_create_account_def
    ListProviderAccounts_def SetProviderStatus_def RotateWebhookSecret_def
  by (intro silent)+

lemma silent_handlers [silent]:
  "silent (create_payment_handler D E r)" "silent (create_attempt_handler D E r)"
  "silent (get_payment_handler D E r)" "silent (list_payments_handler D E r)" "silent (Me D r)"
  "silent (createApplication D r)" "silent (listApplications D r)" "silent (getApplication D r)"
  "silent (createAPIKey D r)" "silent (listAPIKeys D r)" "silent (revokeAPIKey D r)"
  "silent (rotateWebhookSecret D r)" "silent (attachProvider D r)" "silent (listProviders D r)"
  "silent (testProvider D r)" "silent (Live r)" "silent (Ready r)"
  unfolding create_payment_handler_def create_attempt_handler_def get_payment_handler_def list_payments_handler_def
    Me_def createApplication_def listApplications_def getApplication_def createAPIKey_def listAPIKeys_def
    revokeAPIKey_def rotateWebhookSecret_def attachProvider_def listProviders_def testProvider_def Live_def Ready_def
    Ping_def
  by (intro silent)+

lemma silent_mux: "(\<And>m p h r. (m, p, h) \<in> set t \<Longrightarrow> silent (h r)) \<Longrightarrow> silent (mux X t r)"
proof -
  assume h: "\<And>m p h r. (m, p, h) \<in> set t \<Longrightarrow> silent (h r)"
  have "silent (snd (snd (t ! i)) r)" if "i < length t" for i r
    by (rule h [of "fst (t ! i)" "fst (snd (t ! i))"]) (use that in simp)
  then show ?thesis
    by (auto simp: mux_def not_found_def method_not_allowed_def split: route_match.split prod.split
        intro!: silent_Ret silent_bindP) (metis snd_conv)
qed

lemma silent_guards:
  "(\<And>r. silent (h r)) \<Longrightarrow> silent (RequireApplication (Authenticate A) h r)"
  "(\<And>r. silent (h r)) \<Longrightarrow> silent (RequireAdmin token h r)"
  unfolding RequireApplication_def RequireAdmin_def by (auto intro!: silent split: option.split)

lemma silent_root: "silent (mux (d_http D) (root_routes D) r)"
proof -
  have v1: "silent (v1 D r)" for r
    unfolding v1_def
    by (intro silent_guards silent_mux)
      (auto simp: v1_routes_def payments_register_def split: option.splits intro: silent)
  have admin: "silent (admin D r)" for r
    unfolding admin_def
    by (intro silent_guards silent_mux) (auto simp: admin_register_def intro: silent)
  show ?thesis
    by (rule silent_mux) (auto simp: root_routes_def mount_def split: if_splits intro: v1 admin silent)
qed

text \<open>The one observation of a request.\<close>

lemma request_observed_once:
  assumes "d_metrics D" "run (NewRouter D r) w = Some (res, v)"
  shows "rs_patterns res \<in> set (api_patterns D) \<and>
    (\<exists>d. mx_http_duration (registry v) = (\<lambda>(m, route, cls). mx_http_duration (registry w) (m, route, cls) @
       (if m = hr_method r \<and> route = route_label (hx_pattern (d_http D) (rs_patterns res)) \<and>
           cls = status_class (rs_status res) then [d] else [])))"
proof -
  obtain u d where u: "run (mux (d_http D) (root_routes D) r) w = Some (res, u)"
    "w_metrics v = w_metrics u @ [RequestObserved (hr_method r) (hx_pattern (d_http D) (rs_patterns res))
       (rs_status res) d]"
    using assms
    by (auto simp: NewRouter_def Metrics_def run_bindP get_time_def record_metric_def routePattern_def split: option.splits)
  have "rs_patterns res \<in> set (api_patterns D)"
    using root_patterns [of D r] u(1) unfolding yields_def by blast
  moreover have "mx_http_duration (registry u) = mx_http_duration (registry w)"
    using silent_root [of D r] u(1) unfolding silent_def by blast
  then have "mx_http_duration (registry v) = (\<lambda>(m, route, cls). mx_http_duration (registry w) (m, route, cls) @
       (if m = hr_method r \<and> route = route_label (hx_pattern (d_http D) (rs_patterns res)) \<and>
           cls = status_class (rs_status res) then [d] else []))"
    using registry_snoc [OF u(2)] by (auto simp: ObserveHTTP_def Let_def fun_eq_iff)
  ultimately show ?thesis by blast
qed

end
