(* ===== verification/ApiSystem.thy ===== *)
theory ApiSystem
  imports Wiring PaymentFlows
begin

text \<open>
  The whole API as a running system: any number of requests to the router at a time, for
  applications and for administrators, with their actions interleaved. The requests to the payment
  service were verified against the interface \<open>rely_guarantee\<close> in \<open>PaymentFlows\<close>; here the rest of
  the API is: authentication, the application service, the handlers and the measurement of requests
  keep the payment invariant, because none of them touches a payment table.
\<close>

subsection \<open>Statements beside the payment tables\<close>

text \<open>What such a statement does to the database: other tables may change, and the tables of the
  connection's own transaction.\<close>

definition beside_tx :: "(tx \<Rightarrow> tx) \<Rightarrow> bool" where
  "beside_tx f \<longleftrightarrow> (\<forall>x. t_id (f x) = t_id x \<and> t_payments (f x) = t_payments x \<and>
     t_operations (f x) = t_operations x \<and> t_idempotency (f x) = t_idempotency x)"

definition beside :: "conn \<Rightarrow> database \<Rightarrow> database \<Rightarrow> bool" where
  "beside c d d' \<longleftrightarrow> db_payments d' = db_payments d \<and> db_operations d' = db_operations d \<and>
     db_idempotency d' = db_idempotency d \<and> db_next d \<le> db_next d' \<and> db_clock d' = db_clock d \<and>
     (\<exists>f. beside_tx f \<and> db_txs d' = map (\<lambda>x. if c = Tx (t_id x) then f x else x) (db_txs d))"

definition side :: "conn \<Rightarrow> 'a effect \<Rightarrow> bool" where
  "side c eff \<longleftrightarrow> (\<forall>d. beside c d (snd (eff d)))"

definition holds :: "conn \<Rightarrow> own" where
  "holds c = (case c of Pool \<Rightarrow> nothing | Tx n \<Rightarrow> txq n)"

lemma beside_pending:
  assumes f: "beside_tx f" and txs: "db_txs d' = map (\<lambda>x. if c = Tx (t_id x) then f x else x) (db_txs d)"
  shows "map t_id (db_txs d') = map t_id (db_txs d)" "map t_payments (db_txs d') = map t_payments (db_txs d)"
    "map t_operations (db_txs d') = map t_operations (db_txs d)"
    "map t_idempotency (db_txs d') = map t_idempotency (db_txs d)"
  using f by (simp_all add: txs beside_tx_def)

lemma beside_tx_wf:
  "beside_tx f \<Longrightarrow> n \<le> m \<Longrightarrow> tx_wf n x \<Longrightarrow> tx_wf m (if b then f x else x)"
  by (auto simp: tx_wf_def beside_tx_def)

lemma beside_invariant:
  assumes "beside c (w_db w) d" "invariant E w"
  shows "invariant E (w\<lparr>w_db := d\<rparr>)"
proof -
  obtain f where f: "beside_tx f" and txs: "db_txs d = map (\<lambda>x. if c = Tx (t_id x) then f x else x) (txs_of w)"
    using assms(1) by (auto simp: beside_def)
  note same = beside_pending [OF f txs]
  have rows: "db_payments d = payments_of w" "db_operations d = operations_of w"
    "db_idempotency d = idempotency_of w" "db_next (w_db w) \<le> db_next d"
    using assms(1) by (auto simp: beside_def)
  have "tx_wf (db_next d) x" if "x \<in> set (db_txs d)" for x
  proof -
    obtain y where y: "y \<in> set (txs_of w)" "x = (if c = Tx (t_id y) then f y else y)"
      using \<open>x \<in> set (db_txs d)\<close> by (auto simp: txs)
    then have "tx_wf (db_next (w_db w)) y" using assms(2) by (simp add: invariant_def)
    then show ?thesis unfolding y(2) by (rule beside_tx_wf [OF f rows(4)])
  qed
  then show ?thesis
    using assms(2) same rows
    by (simp add: invariant_def no_clashes_def all_rows_def rows_wf_def wire_wf_def key_count_def)
qed

lemma beside_keeps:
  assumes "beside c (w_db w) d" "c = Pool \<or> (\<exists>n. c = Tx n \<and> own_tx r \<noteq> Some n)"
  shows "keeps r w (w\<lparr>w_db := d\<rparr>)"
proof -
  obtain f where f: "beside_tx f" and txs: "db_txs d = map (\<lambda>x. if c = Tx (t_id x) then f x else x) (txs_of w)"
    using assms(1) by (auto simp: beside_def)
  have "own_txs (Tx u) d = own_txs (Tx u) (w_db w)" if "c \<noteq> Tx u" for u
  proof -
    have "filter (\<lambda>x. Tx u = Tx (t_id x)) (map (\<lambda>x. if c = Tx (t_id x) then f x else x) xs) =
        filter (\<lambda>x. Tx u = Tx (t_id x)) xs" for xs
      using f that by (induction xs) (auto simp: beside_tx_def)
    then show ?thesis by (simp add: own_txs_def txs)
  qed
  then show ?thesis
    using assms by (auto simp: keeps_def beside_def key_count_def)
qed

lemma beside_guar:
  assumes b: "beside c (w_db w) d" and q: "q = holds c" and w: "within q w"
  shows "guar q q w (w\<lparr>w_db := d\<rparr>)"
proof -
  have "step_ok w (w\<lparr>w_db := d\<rparr>)"
    using b by (auto simp: step_ok_def beside_def payment_moves_def operation_moves_def)
  moreover have "within q (w\<lparr>w_db := d\<rparr>)"
    using b w by (auto simp: within_def beside_def)
  moreover have "keeps r w (w\<lparr>w_db := d\<rparr>)" if "disjoint_own q r" for r
    by (rule beside_keeps [OF b])
      (use that q in \<open>cases c; auto simp: holds_def disjoint_own_def\<close>)
  ultimately show ?thesis by (simp add: guar_def)
qed

text \<open>A transaction without payment rows stays one.\<close>

lemma beside_tx_is:
  assumes "beside c (w_db w) d" "c = Tx n" "tx_is n [] [] [] w"
  shows "tx_is n [] [] [] (w\<lparr>w_db := d\<rparr>)"
proof -
  obtain f where f: "beside_tx f" and txs: "db_txs d = map (\<lambda>x. if c = Tx (t_id x) then f x else x) (txs_of w)"
    using assms(1) by (auto simp: beside_def)
  obtain x where x: "own_txs (Tx n) (w_db w) = [x]" "t_payments x = []" "t_operations x = []" "t_idempotency x = []"
    using assms(3) by (auto simp: tx_is_def)
  have "filter (\<lambda>x. Tx n = Tx (t_id x)) (map (\<lambda>x. if Tx n = Tx (t_id x) then f x else x) xs) =
      map f (filter (\<lambda>x. Tx n = Tx (t_id x)) xs)" for xs
    using f by (induction xs) (auto simp: beside_tx_def)
  then have "own_txs (Tx n) d = [f x]"
    using x(1) by (simp add: own_txs_def txs assms(2))
  with x f show ?thesis by (simp add: tx_is_def beside_tx_def)
qed

text \<open>The state a connection without payment rows is in.\<close>

definition idle :: "conn \<Rightarrow> world \<Rightarrow> bool" where
  "idle c w \<longleftrightarrow> (case c of Pool \<Rightarrow> True | Tx n \<Rightarrow> tx_is n [] [] [] w)"

lemma idle_rely: "idle c w \<Longrightarrow> rely (holds c) w v \<Longrightarrow> idle c v"
  by (cases c) (auto simp: idle_def holds_def intro: tx_is_stable)

lemma idle_beside: "idle c w \<Longrightarrow> beside c (w_db w) d \<Longrightarrow> idle c (w\<lparr>w_db := d\<rparr>)"
  by (cases c) (auto simp: idle_def intro: beside_tx_is)

text \<open>\<open>mute E c p\<close>: on connection \<open>c\<close>, idle, \<open>p\<close> keeps the invariant and the guarantee and leaves \<open>c\<close> idle.\<close>

definition resting :: "conn \<Rightarrow> 'a \<Rightarrow> own \<Rightarrow> world \<Rightarrow> bool" where
  "resting c a q v \<longleftrightarrow> q = holds c \<and> idle c v"

definition mute :: "service_env \<Rightarrow> conn \<Rightarrow> 'a action \<Rightarrow> bool" where
  "mute E c p \<longleftrightarrow> (\<forall>s. idle c s \<longrightarrow> okp E (resting c) p (holds c) s)"

named_theorems mute \<open>programs beside the payment tables\<close>

lemma settles_side:
  assumes "side c eff" "eff (w_db t) = (r, d)" "invariant E t" "within (holds c) t" "idle c t"
  shows "settles E (resting c) (holds c) t r d"
proof -
  have b: "beside c (w_db t) d" using assms(1) [unfolded side_def] assms(2) by (metis snd_conv)
  have "idle c v" if "rely (holds c) (t\<lparr>w_db := d\<rparr>) v" for v
    by (rule idle_rely [OF idle_beside [OF assms(5) b] that])
  then show ?thesis
    unfolding settles_def resting_def
    using beside_invariant [OF b assms(3)] beside_guar [OF b refl assms(4)] by blast
qed

lemma mute_exec [mute]: "side c eff \<Longrightarrow> mute E c (exec c eff)"
  unfolding mute_def
  by (auto intro!: ok_exec settles_side simp: resting_def dest: idle_rely)

lemma mute_exec_when [mute]: "side c eff \<Longrightarrow> mute E c (exec_when ready c eff)"
  unfolding mute_def
  by (auto intro!: ok_exec_when settles_side simp: resting_def dest: idle_rely)

lemma mute_Ret [mute]: "mute E c (Ret a)"
  unfolding mute_def by (auto intro!: okp_Ret simp: resting_def dest: idle_rely)

lemma mute_bindP [mute]: "mute E c p \<Longrightarrow> (\<And>a. mute E c (k a)) \<Longrightarrow> mute E c (bindP p k)"
  unfolding mute_def
proof (intro allI impI)
  fix s
  assume p: "\<forall>s. idle c s \<longrightarrow> okp E (resting c) p (holds c) s" "idle c s"
    and k: "\<And>a. \<forall>s. idle c s \<longrightarrow> okp E (resting c) (k a) (holds c) s"
  show "okp E (resting c) (bindP p k) (holds c) s"
    by (rule pay_rg.ok_bind [where Q = "resting c"]) (use p k in \<open>auto simp: resting_def\<close>)
qed

lemma mute_bindE [mute]: "mute E c p \<Longrightarrow> (\<And>a. mute E c (k a)) \<Longrightarrow> mute E c (bindE p k)"
  unfolding bindE_def by (intro mute_bindP) (auto intro: mute_Ret split: sum.split)

lemma mute_case_sum [mute]:
  "(\<And>e. mute E c (f e)) \<Longrightarrow> (\<And>a. mute E c (g a)) \<Longrightarrow> mute E c (case r of Inl e \<Rightarrow> f e | Inr a \<Rightarrow> g a)"
  by (cases r) auto

lemma mute_case_prod [mute]: "(\<And>a b. mute E c (f a b)) \<Longrightarrow> mute E c (case r of (a, b) \<Rightarrow> f a b)"
  by (cases r) auto

lemma mute_if [mute]: "mute E c p \<Longrightarrow> mute E c q \<Longrightarrow> mute E c (if b then p else q)"
  by simp

lemma mute_Let [mute]: "mute E c (f a) \<Longrightarrow> mute E c (let x = a in f x)"
  by simp

lemma mute_proceed [mute]: "(\<And>a. mute E c (k a)) \<Longrightarrow> mute E c (proceed x k)"
  by (cases x) (auto intro: mute_Ret)

lemma mute_answer [mute]: "mute E c p \<Longrightarrow> mute E c (answer fail ok p)"
  unfolding answer_def by (intro mute)

lemma mute_act: "(\<And>w. quiet w (snd (f w))) \<Longrightarrow> mute E c (act f)"
  unfolding mute_def
  by (auto intro!: ok_quiet_act simp: resting_def dest: pay_rg.rely_trans idle_rely)

lemma mute_actions [mute]:
  "mute E c get_time" "mute E c new_uuid" "mute E c (rand_read n)" "mute E c (record_metric m)"
  by (auto simp: get_time_def new_uuid_def rand_read_def record_metric_def fresh_id_def quiet_def intro!: mute_act)

lemma mute_check [mute]: "mute E Pool (provider_call (yk_check_connection Y client))"
proof -
  have no_key: "wire_idempotence_key req = None"
    if "yk_check_connection Y client reply = (Some req, r)" for reply req r
    using that by (auto simp: yk_check_connection_def yk_do_def do_request_def
        split: if_splits option.splits prod.splits sum.splits)
  show ?thesis
    unfolding mute_def
    by (intro allI impI ok_call) (auto simp: sendable_def resting_def idle_def dest: no_key)
qed

subsection \<open>The queries on applications, keys and accounts\<close>

lemma beside_refl: "beside c d d"
  unfolding beside_def by (auto simp: beside_tx_def intro!: exI [of _ "\<lambda>x. x"])

lemma side_reads [mute]: "(\<And>d. snd (eff d) = d) \<Longrightarrow> side c eff"
  by (simp add: side_def beside_refl)

lemma beside_next: "beside c d (d\<lparr>db_next := Suc (db_next d)\<rparr>)"
  unfolding beside_def by (auto simp: beside_tx_def intro!: exI [of _ "\<lambda>x. x"])

lemma beside_trans: "beside c d d1 \<Longrightarrow> beside c d1 d2 \<Longrightarrow> beside c d d2"
proof -
  assume a: "beside c d d1" "beside c d1 d2"
  obtain f where f: "beside_tx f" "db_txs d1 = map (\<lambda>x. if c = Tx (t_id x) then f x else x) (db_txs d)"
    using a(1) by (auto simp: beside_def)
  obtain g where g: "beside_tx g" "db_txs d2 = map (\<lambda>x. if c = Tx (t_id x) then g x else x) (db_txs d1)"
    using a(2) by (auto simp: beside_def)
  have "db_txs d2 = map (\<lambda>x. if c = Tx (t_id x) then g (f x) else x) (db_txs d)"
    using f(1) by (simp add: g(2) f(2) beside_tx_def)
  moreover have "beside_tx (\<lambda>x. g (f x))" using f(1) g(1) by (simp add: beside_tx_def)
  ultimately show ?thesis using a unfolding beside_def
    by (intro conjI exI [of _ "\<lambda>x. g (f x)"]) auto
qed

lemma beside_in_tx: "beside_tx f \<Longrightarrow> beside (Tx t) d (in_tx t f d)"
  unfolding beside_def by (auto simp: in_tx_def update_where_def intro!: exI [of _ f])

lemma beside_pool:
  "beside Pool d (d\<lparr>db_applications := as\<rparr>)" "beside Pool d (d\<lparr>db_api_keys := ks\<rparr>)"
  "beside Pool d (d\<lparr>db_accounts := cs\<rparr>)" "beside Pool d (d\<lparr>db_links := ls\<rparr>)"
  unfolding beside_def by (auto simp: beside_tx_def intro!: exI [of _ "\<lambda>x. x"])

lemma beside_put:
  "beside c d (put_application c a d)" "beside c d (put_api_key c k d)" "beside c d (put_account c r d)"
  "beside c d (put_links c ls d)"
  by (cases c; simp add: put_application_def put_api_key_def put_account_def put_links_def beside_pool;
      intro beside_in_tx; simp add: beside_tx_def)+

lemmas beside_inserted = beside_trans [OF beside_next beside_put(1)] beside_trans [OF beside_next beside_put(2)]
  beside_trans [OF beside_next beside_put(3)]

lemma side_app_reads [mute]:
  "side c (get_application app c')" "side c (list_applications c')" "side c (get_api_key_by_prefix pre c')"
  "side c (list_api_keys app c')" "side c (get_provider_account account c')"
  "side c (get_provider_account_by_shop pr sh en c')" "side c (list_provider_accounts app c')" "side c ping_query"
  by (rule side_reads, simp add: get_application_def list_applications_def get_api_key_by_prefix_def
      list_api_keys_def get_provider_account_def get_provider_account_by_shop_def list_provider_accounts_def
      with_text_def ping_query_def split: sum.split)+

lemma side_app_writes [mute]:
  "side c (create_application ca c)" "side c (create_api_key ka c)" "side c (create_provider_account aa c)"
  "side c (attach_provider_account app account b c)" "side c (clear_default_provider app c)"
  "side Pool (update_application_webhook_secret app sec)" "side Pool (revoke_api_key key app)"
  "side Pool (touch_api_key_last_used key)" "side Pool (update_provider_account_status account st)"
  unfolding side_def
  by (auto simp: create_application_def create_api_key_def create_provider_account_def fresh_id_def
      attach_provider_account_def clear_default_provider_def update_application_webhook_secret_def
      revoke_api_key_def touch_api_key_last_used_def update_provider_account_status_def Let_def
      beside_refl beside_next beside_inserted beside_put beside_pool split: sum.split)

subsection \<open>Transactions without payments\<close>

text \<open>The end of such a transaction: \<open>closes E n p\<close> commits or fails; the rollback follows.\<close>

definition closes :: "service_env \<Rightarrow> nat \<Rightarrow> 'a action \<Rightarrow> bool" where
  "closes E n p \<longleftrightarrow> (\<forall>s. idle (Tx n) s \<longrightarrow> okp E (\<lambda>_ q _. q = txq n) p (txq n) s)"

lemma holds_Tx [simp]: "holds (Tx n) = txq n" "holds Pool = nothing"
  by (simp_all add: holds_def)

lemma closes_mute: "mute E (Tx n) p \<Longrightarrow> closes E n p"
  unfolding mute_def closes_def
  by (auto intro: pay_rg.ok_mono simp: resting_def)

lemma closes_Ret [mute]: "closes E n (Ret a)"
  by (rule closes_mute) (rule mute_Ret)

lemma closes_bindE [mute]:
  assumes "mute E (Tx n) p" "\<And>a. closes E n (k a)"
  shows "closes E n (bindE p k)"
  unfolding closes_def
proof (intro allI impI)
  fix s
  assume "idle (Tx n) s"
  then show "okp E (\<lambda>_ q _. q = txq n) (bindE p k) (txq n) s"
    using assms unfolding mute_def closes_def
    by (intro pay_rg.ok_bindE [where Q = "resting (Tx n)"]) (auto simp: resting_def intro!: okp_Ret)
qed

lemma closes_bindP [mute]:
  assumes "mute E (Tx n) p" "\<And>a. closes E n (k a)"
  shows "closes E n (bindP p k)"
  unfolding closes_def
proof (intro allI impI)
  fix s
  assume "idle (Tx n) s"
  then show "okp E (\<lambda>_ q _. q = txq n) (bindP p k) (txq n) s"
    using assms unfolding mute_def closes_def
    by (intro pay_rg.ok_bind [where Q = "resting (Tx n)"]) (auto simp: resting_def)
qed

lemma closes_Let [mute]: "closes E n (f a) \<Longrightarrow> closes E n (let x = a in f x)"
  by simp

lemma committed_idle:
  assumes "invariant E w" "idle (Tx n) w" "within (txq n) w"
  shows "invariant E (committed n w) \<and> guar (txq n) (txq n) w (committed n w)"
proof -
  obtain x where x: "own_txs (Tx n) (w_db w) = [x]" "t_payments x = []" "t_operations x = []" "t_idempotency x = []"
    using assms(2) by (auto simp: idle_def tx_is_def)
  obtain as bs where split: "txs_of w = as @ x # bs" "t_id x = n" "\<forall>y \<in> set (as @ bs). t_id y \<noteq> n"
    by (rule own_txs_split [OF x(1)])
  note rows = committed_rows [OF split, unfolded x append_Nil2]
  have "no_clashes (w_db (committed n w))"
    using assms(1) by (simp add: invariant_def no_clashes_def all_rows_def rows split x)
  then have inv: "invariant E (committed n w)"
    using assms(1) by (auto simp: invariant_def rows_wf_def wire_wf_def key_count_def rows split)
  have "keeps r w (committed n w)" if "disjoint_own (txq n) r" for r
  proof -
    have "own_txs (Tx u) (w_db (committed n w)) = own_txs (Tx u) (w_db w)" if "u \<noteq> n" for u
      using that split by (simp add: own_txs_def rows)
    then show ?thesis using that by (auto simp: keeps_def key_count_def rows disjoint_own_def)
  qed
  then have "guar (txq n) (txq n) w (committed n w)"
    using assms(3) by (auto simp: guar_def step_ok_def payment_moves_def operation_moves_def within_def rows)
  with inv show ?thesis by simp
qed

lemma closes_commit [mute]:
  assumes "\<And>r. \<exists>x. k r = Ret x"
  shows "closes E n (bindP (commit n) k)"
  unfolding closes_def
proof (intro allI impI)
  fix s
  assume i: "idle (Tx n) s"
  have "okp E (\<lambda>_ q _. q = txq n) (commit n) (txq n) s"
    unfolding commit_def
  proof (rule ok_exec)
    fix t d and r :: "go_err + unit"
    assume t: "rely (txq n) s t" "invariant E t" "within (txq n) t" and d: "(Inr (), commit_tx n (w_db t)) = (r, d)"
    have "idle (Tx n) t" using idle_rely [OF i] t(1) by simp
    from committed_idle [OF t(2) this t(3)] d show "settles E (\<lambda>_ q _. q = txq n) (txq n) t r d"
      by (auto simp: settles_def committed_def)
  qed simp
  then show "okp E (\<lambda>_ q _. q = txq n) (bindP (commit n) k) (txq n) s"
  proof (rule pay_rg.ok_bind)
    fix r q t
    assume q: "q = txq n"
    obtain x where "k r = Ret x" using assms by blast
    then show "okp E (\<lambda>_ q _. q = txq n) (k r) q t" using q by (auto intro: okp_Ret)
  qed
qed

lemma mute_tx [mute]:
  assumes "\<And>n. closes E n (body n)" "\<And>e. mute E Pool (f e)"
  shows "mute E Pool (bindP begin_tx (\<lambda>r. case r of
     Inl e \<Rightarrow> f e | Inr n \<Rightarrow> bindP (body n) (\<lambda>res. bindP (rollback n) (\<lambda>_. Ret res))))"
  unfolding mute_def
proof (intro allI impI, unfold holds_Tx)
  fix s
  let ?Q = "\<lambda>(r :: go_err + nat) q v. case r of Inl _ \<Rightarrow> q = nothing | Inr n \<Rightarrow> q = txq n \<and> idle (Tx n) v"
  have rolled: "okp E (resting Pool) (bindP (rollback n) (\<lambda>_. Ret res)) (txq n) s" for n res s
  proof (rule pay_rg.ok_bind)
    have none: "txq n\<lparr>own_tx := None\<rparr> = nothing" by (simp add: txq_def nothing_def)
    show "okp E (\<lambda>_ q _. q = nothing) (rollback n) (txq n) s"
      by (rule ok_rollback) (simp_all add: none)
  qed (auto intro!: okp_Ret simp: resting_def idle_def)
  show "okp E (resting Pool) (bindP begin_tx (\<lambda>r. case r of
     Inl e \<Rightarrow> f e | Inr n \<Rightarrow> bindP (body n) (\<lambda>res. bindP (rollback n) (\<lambda>_. Ret res)))) nothing s"
  proof (rule pay_rg.ok_bind)
    show "okp E ?Q begin_tx nothing s"
      by (rule ok_begin) (simp_all add: idle_def)
    fix r :: "go_err + nat" and q t
    assume "?Q r q t"
    moreover have "okp E (resting Pool) (bindP (body n) (\<lambda>res. bindP (rollback n) (\<lambda>_. Ret res))) (txq n) t"
      if "idle (Tx n) t" for n
    proof (rule pay_rg.ok_bind)
      show "okp E (\<lambda>_ q _. q = txq n) (body n) (txq n) t" using assms(1) that by (simp add: closes_def)
    qed (use rolled in auto)
    ultimately show "okp E (resting Pool) (case r of
       Inl e \<Rightarrow> f e | Inr n \<Rightarrow> bindP (body n) (\<lambda>res. bindP (rollback n) (\<lambda>_. Ret res))) q t"
      using assms(2) by (cases r) (auto simp: mute_def idle_def)
  qed
qed

subsection \<open>The application service\<close>

lemma closes_case_sum [mute]:
  "(\<And>e. closes E n (f e)) \<Longrightarrow> (\<And>a. closes E n (g a)) \<Longrightarrow> closes E n (case r of Inl e \<Rightarrow> f e | Inr a \<Rightarrow> g a)"
  by (cases r) auto

lemma mute_issue_key [mute]: "mute E c (issue_key A c app name e)"
  unfolding issue_key_def by (intro mute)

lemma mute_secrets [mute]:
  "mute E c generate_webhook_secret" "mute E c (random_hex n)" "mute E c (encrypt_secret A sec)"
  unfolding generate_webhook_secret_def random_hex_def encrypt_secret_def by (intro mute)+

lemma answered: "\<exists>x. (case r of Inl e \<Rightarrow> Ret (f e) | Inr a \<Rightarrow> Ret (g a)) = Ret x"
  by (cases r) auto

lemma mute_create_application_tx [mute]: "mute E Pool (create_application_tx A slug name i sec)"
  unfolding create_application_tx_def insert_application_def by (intro mute answered)

lemma mute_allocate [mute]: "mute E Pool (allocate_slug n A base name i sec first)"
proof (induction n arbitrary: first)
  case (Suc n)
  then show ?case unfolding allocate_slug.simps attempt_slug_def by (intro mute)
qed (simp add: mute_Ret)

lemma mute_find_account [mute]: "mute E (Tx n) (find_or_create_account A n i)"
  unfolding find_or_create_account_def by (intro mute)

lemma closes_attach [mute]: "closes E n (attach_in_tx A n app i)"
  unfolding attach_in_tx_def by (intro mute answered)

lemma mute_applications [mute]:
  "mute E Pool (CreateApplication A input)" "mute E Pool (GetApplication app)" "mute E Pool ListApplications"
  "mute E Pool (IssueAPIKey A app name e)" "mute E Pool (ListAPIKeys app)" "mute E Pool (RevokeAPIKey app key)"
  "mute E Pool (Authenticate A presented)" "mute E Pool (AttachProviderAccount A app att)"
  "mute E Pool (ListProviderAccounts app)" "mute E Pool (SetProviderStatus account st)"
  "mute E Pool (RotateWebhookSecret A app)" "mute E Pool (account_credentials A account)"
  unfolding CreateApplication_def GetApplication_def ListApplications_def IssueAPIKey_def ListAPIKeys_def
    RevokeAPIKey_def Authenticate_def AttachProviderAccount_def ListProviderAccounts_def SetProviderStatus_def
    RotateWebhookSecret_def account_credentials_def
  by (intro mute)+

lemma mute_admin_handlers [mute]:
  "mute E Pool (createApplication D r)" "mute E Pool (listApplications D r)" "mute E Pool (getApplication D r)"
  "mute E Pool (createAPIKey D r)" "mute E Pool (listAPIKeys D r)" "mute E Pool (revokeAPIKey D r)"
  "mute E Pool (rotateWebhookSecret D r)" "mute E Pool (attachProvider D r)" "mute E Pool (listProviders D r)"
  "mute E Pool (testProvider D r)"
  unfolding createApplication_def listApplications_def getApplication_def createAPIKey_def listAPIKeys_def
    revokeAPIKey_def rotateWebhookSecret_def attachProvider_def listProviders_def testProvider_def
  by (intro mute)+

lemma mute_other_handlers [mute]:
  "mute E Pool (Me D r)" "mute E Pool (Live r)" "mute E Pool (Ready r)" "mute E Pool (metrics_handler r)"
  unfolding Me_def Live_def Ready_def Ping_def metrics_handler_def
  by (intro mute | rule mute_act, simp add: quiet_def)+

subsection \<open>Every request\<close>

text \<open>\<open>safe E p\<close>: \<open>p\<close> may be run as a request. What follows a request's work only answers and measures.\<close>

definition safe :: "service_env \<Rightarrow> 'a action \<Rightarrow> bool" where
  "safe E p \<longleftrightarrow> (\<forall>s. uuid_text_ok E \<longrightarrow> okp E (\<lambda>_ _ _. True) p nothing s)"

definition fin :: "service_env \<Rightarrow> 'a action \<Rightarrow> bool" where
  "fin E p \<longleftrightarrow> (\<forall>q s. okp E (\<lambda>_ _ _. True) p q s)"

lemma fin_Ret: "fin E (Ret a)"
  by (auto simp: fin_def intro: okp_Ret)

lemma safe_mute: "mute E Pool p \<Longrightarrow> safe E p"
  by (auto simp: mute_def safe_def idle_def intro: pay_rg.ok_mono)

lemma safe_then: "safe E p \<Longrightarrow> (\<And>a. fin E (k a)) \<Longrightarrow> safe E (bindP p k)"
  unfolding safe_def fin_def by (blast intro: pay_rg.ok_bind)

lemma safe_after: "mute E Pool p \<Longrightarrow> (\<And>a. safe E (k a)) \<Longrightarrow> safe E (bindP p k)"
  unfolding safe_def mute_def
  by (intro allI impI, rule pay_rg.ok_bind [where Q = "resting Pool"]) (auto simp: resting_def idle_def)

lemma safe_proceed: "(\<And>a. safe E (k a)) \<Longrightarrow> safe E (proceed x k)"
  by (cases x) (auto intro: safe_mute mute_Ret)

lemma safe_answer: "safe E p \<Longrightarrow> safe E (answer fail ok p)"
  unfolding answer_def by (rule safe_then) (auto intro: fin_Ret)

lemma safe_payments:
  "safe E (CreatePayment E app key input)" "safe E (CreateAttempt E app order key input)"
  "safe E (GetPayment E a pid)" "safe E (ListPayments E a query)" "safe E UnfinishedCount"
  unfolding safe_def CreatePayment_def CreateAttempt_def
  by (auto intro: pay_rg.ok_mono [OF ok_create] pay_rg.ok_mono [OF ok_GetPayment]
      pay_rg.ok_mono [OF ok_ListPayments] ok_UnfinishedCount)

lemma safe_payment_handlers:
  "safe E (create_payment_handler D E r)" "safe E (create_attempt_handler D E r)"
  "safe E (get_payment_handler D E r)" "safe E (list_payments_handler D E r)"
  unfolding create_payment_handler_def create_attempt_handler_def get_payment_handler_def list_payments_handler_def
  by (intro safe_proceed safe_answer safe_payments)+

lemma safe_mux: "(\<And>m p h r. (m, p, h) \<in> set t \<Longrightarrow> safe E (h r)) \<Longrightarrow> safe E (mux X t r)"
proof -
  assume h: "\<And>m p h r. (m, p, h) \<in> set t \<Longrightarrow> safe E (h r)"
  have "safe E (bindP (g (r\<lparr>hr_param := ps, hr_path := rest\<rparr>)) (\<lambda>res. Ret (pass_pattern q res)))"
    if "t ! i = (m, q, g)" "i < length t" for i m q g ps rest
  proof -
    have "(m, q, g) \<in> set t" using that nth_mem by metis
    from h [OF this] show ?thesis by (rule safe_then) (rule fin_Ret)
  qed
  then show ?thesis
    by (auto simp: mux_def not_found_def method_not_allowed_def split: route_match.split prod.split
        intro: safe_mute mute_Ret)
qed

lemma safe_guards:
  "(\<And>r. safe E (h r)) \<Longrightarrow> safe E (RequireApplication (Authenticate A) h r)"
  "(\<And>r. safe E (h r)) \<Longrightarrow> safe E (RequireAdmin token h r)"
  unfolding RequireApplication_def RequireAdmin_def
  by (auto intro!: safe_after mute intro: safe_mute mute_Ret split: option.split sum.split)

lemma safe_NewRouter:
  assumes "d_payments D = Some E"
  shows "safe E (NewRouter D r)"
proof -
  have v1: "safe E (v1 D r)" for r
    unfolding v1_def
    by (intro safe_guards safe_mux)
      (auto simp: v1_routes_def payments_register_def assms intro: safe_payment_handlers safe_mute mute)
  have admin: "safe E (admin D r)" for r
    unfolding admin_def
    by (intro safe_guards safe_mux) (auto simp: admin_register_def intro!: safe_mute intro: mute)
  have root: "safe E (mux (d_http D) (root_routes D) r)" for r
    by (rule safe_mux) (auto simp: root_routes_def mount_def split: if_splits intro: v1 admin safe_mute mute)
  have measure: "fin E (bindP get_time (\<lambda>t. bindP (record_metric (m t)) (\<lambda>_. Ret res)))" for m and res :: response
    unfolding fin_def
    by (intro allI pay_rg.ok_bind [where Q = "\<lambda>_ _ _. True"] ok_get_time ok_record_metric okp_Ret) simp_all
  have "safe E (Metrics (d_http D) (mux (d_http D) (root_routes D)) r)"
    unfolding Metrics_def
    by (intro safe_after mute safe_then [OF root] measure)
  with root show ?thesis by (simp add: NewRouter_def)
qed

subsection \<open>The running API\<close>

definition api_program :: "api \<Rightarrow> http_request \<Rightarrow> (http_request \<times> response) action" where
  "api_program D r = bindP (NewRouter D r) (\<lambda>res. Ret (r, res))"

type_synonym api_system = "(world, http_request \<times> response) system"

definition api_reachable :: "api \<Rightarrow> world \<Rightarrow> api_system \<Rightarrow> bool" where
  "api_reachable D = sys_reach (range (api_program D)) environment"

definition api_step :: "api \<Rightarrow> api_system \<Rightarrow> api_system \<Rightarrow> bool" where
  "api_step D = sys_step (range (api_program D)) environment"

lemma api_programs_ok:
  assumes "d_payments D = Some E" "p \<in> range (api_program D)" "invariant E s"
  shows "okp E (\<lambda>_ _ _. True) p nothing s"
proof -
  have "safe E (api_program D r)" for r
    unfolding api_program_def by (rule safe_then [OF safe_NewRouter [OF assms(1)]]) (rule fin_Ret)
  then show ?thesis using assms(2,3) by (auto simp: safe_def invariant_def)
qed

lemma api_invariant:
  assumes "d_payments D = Some E" "api_reachable D w0 c" "invariant E w0"
  shows "invariant E (shared c)"
  using pay_rg.reach_inv [OF assms(2) [unfolded api_reachable_def] assms(3) api_programs_ok [OF assms(1)]] by blast

lemma api_steps:
  assumes "d_payments D = Some E" "api_reachable D w0 c" "invariant E w0" "api_step D c c'"
  shows "step_ok (shared c) (shared c')"
proof -
  have refl: "step_ok w w" for w by (rule quiet_step_ok) (simp add: quiet_def)
  show ?thesis
    by (rule pay_rg.step_guar [OF assms(2) [unfolded api_reachable_def] assms(3) api_programs_ok [OF assms(1)]
          assms(4) [unfolded api_step_def]])
      (auto simp: refl guar_def dest: environment_quiet quiet_step_ok)
qed

end
