(* ===== verification/ApiAccess.thy ===== *)
theory ApiAccess
  imports ApiSystem
begin

text \<open>
  Who gets what from the API: every answer that is not public comes from presenting the admin token or
  an accepted API key, and with a key only the payments of its application are answered.
\<close>

context rely_guarantee
begin

text \<open>A verified program run alone keeps the invariant and its result satisfies the postcondition.\<close>

lemma ok_run:
  assumes "ok Q p q s" "inv s" "within q s" "run p s = Some (a, t)"
  shows "inv t \<and> (\<exists>q'. Q a q' t)"
  using assms
proof (induction p arbitrary: q s)
  case (Ret b)
  then show ?case using rely_refl by (auto elim!: ok_RetE)
next
  case (Act f)
  obtain p u where f: "f s = Some (p, u)" "run p u = Some (a, t)"
    using Act.prems(4) by (auto simp: run_Act split: option.splits)
  obtain q' where "inv u" "guar q q' s u" "ok Q p q' u"
    using Act.prems(1-3) f(1) rely_refl by (blast elim: ok_ActE)
  then show ?case using Act.IH [OF f(1)] Act.prems(3) f(2) guar_within by blast
qed

end

subsection \<open>Bodies\<close>

fun public_body :: "body \<Rightarrow> bool" where
  "public_body (ErrorEnvelope _) = True"
| "public_body (MapBody _) = True"
| "public_body (MetricsBody _) = True"
| "public_body _ = False"

fun admin_body :: "body \<Rightarrow> bool" where
  "admin_body (MeBody _) = False"
| "admin_body (PaymentBody _) = False"
| "admin_body (PaymentPendingBody _) = False"
| "admin_body (PaymentList _) = False"
| "admin_body _ = True"

definition dto_owned :: "api \<Rightarrow> world \<Rightarrow> application \<Rightarrow> dto_payment \<Rightarrow> bool" where
  "dto_owned D v app y \<longleftrightarrow> (\<exists>row \<in> set (payments_of v). p_application_id row = app_id app \<and>
     dy_id y = id_text D (p_id row) \<and> dy_order_id y = p_order_id row \<and> dy_amount y = p_amount_minor row)"

fun tenant_body :: "api \<Rightarrow> world \<Rightarrow> application \<Rightarrow> body \<Rightarrow> bool" where
  "tenant_body D v app (MeBody m) =
     (m = \<lparr>dm_application_id = id_text D (app_id app), dm_name = app_name app, dm_slug = app_slug app\<rparr>)"
| "tenant_body D v app (PaymentBody y) = dto_owned D v app y"
| "tenant_body D v app (PaymentPendingBody y) =
     (\<exists>row \<in> set (payments_of v). p_application_id row = app_id app \<and> dn_id y = id_text D (p_id row))"
| "tenant_body D v app (PaymentList ys) = (length ys \<le> 100 \<and> list_all (dto_owned D v app) ys)"
| "tenant_body D v app (ErrorEnvelope _) = True"
| "tenant_body D v app _ = False"

lemma seen_owned:
  assumes "seen p v" "pay_application_id p = app_id app"
  shows "dto_owned D v app (NewPayment (id_text D) p)"
proof -
  obtain r0 r where "of_row r0 p" "r \<in> set (payments_of v)" "same_identity r0 r"
    using assms(1) becomes_identity by (auto simp: seen_def)
  then show ?thesis
    using assms(2) by (auto simp: dto_owned_def NewPayment_def of_row_def same_identity_def intro!: bexI [of _ r])
qed

lemma created_body:
  assumes "result_of app key hash (Inr res) q v"
  shows "tenant_body D v app (rs_body (write_create_result D res))"
proof -
  have o: "dto_owned D v app (NewPayment (id_text D) (res_payment res))"
    using assms by (intro seen_owned) (auto simp: result_of_def)
  then show ?thesis
    by (auto simp: write_create_result_def NewPaymentPending_def dto_owned_def NewPayment_def)
qed

lemma fail_bodies:
  "\<exists>e'. rs_body (payments_fail r e) = ErrorEnvelope e'" "\<exists>e'. rs_body (admin_fail r e) = ErrorEnvelope e'"
  by (auto simp: payments_fail_def admin_fail_def split: option.split prod.split)

lemma payments_fail_body: "tenant_body D v app (rs_body (payments_fail r e))"
  using fail_bodies(1) [of r e] by auto

subsection \<open>With a key\<close>

text \<open>What a handler of the application API answers for an authenticated request.\<close>

definition tenant_handler :: "api \<Rightarrow> service_env \<Rightarrow> handler \<Rightarrow> bool" where
  "tenant_handler D E h \<longleftrightarrow> (\<forall>r a w res v. hr_auth r = Some a \<longrightarrow> invariant E w \<longrightarrow>
     run (h r) w = Some (res, v) \<longrightarrow> tenant_body D v (au_application a) (rs_body res))"

lemma decode_refuses_body: "decode_json read r = Inl res \<Longrightarrow> \<exists>e. rs_body res = ErrorEnvelope e"
  by (auto simp: decode_json_def split: json_read.splits if_splits)

lemma param_refuses_body:
  "payment_id_param D r = Inl res \<Longrightarrow> \<exists>e. rs_body res = ErrorEnvelope e"
  "limit_param r = Inl res \<Longrightarrow> \<exists>e. rs_body res = ErrorEnvelope e"
  "uuid_param D name r = Inl res \<Longrightarrow> \<exists>e. rs_body res = ErrorEnvelope e"
  by (auto simp: payment_id_param_def limit_param_def uuid_param_def Let_def split: option.splits if_splits)

lemma authenticated_app_of: "hr_auth r = Some a \<Longrightarrow> authenticated_app r = Inr (au_application a)"
  by (simp add: authenticated_app_def auth_from_def)

text \<open>An operation between its input and its answer.\<close>

lemma tenant_answer:
  assumes "run (proceed x (\<lambda>a. answer (payments_fail r) (ok a) (p a))) w = Some (res, v)"
    and "\<And>e. x = Inl e \<Longrightarrow> \<exists>b. rs_body e = ErrorEnvelope b"
    and "\<And>a b. x = Inr a \<Longrightarrow> run (p a) w = Some (Inr b, v) \<Longrightarrow> tenant_body D v app (rs_body (ok a b))"
  shows "tenant_body D v app (rs_body res)"
proof (cases x)
  case (Inl e)
  with assms(1,2) show ?thesis by auto
next
  case (Inr a)
  with assms(1) obtain r' where r': "run (p a) w = Some (r', v)"
    "res = (case r' of Inl e \<Rightarrow> payments_fail r e | Inr b \<Rightarrow> ok a b)"
    by (auto simp: run_answer split: option.splits sum.splits prod.splits)
  then show ?thesis
    using assms(3) [OF Inr] payments_fail_body by (cases r') auto
qed

lemma tenant_create: "tenant_handler D E (create_payment_handler D E)"
  unfolding tenant_handler_def
proof (intro allI impI)
  fix r a w res v
  assume a: "hr_auth r = Some a" and inv: "invariant E w" and run: "run (create_payment_handler D E r) w = Some (res, v)"
  let ?app = "au_application a"
  have u: "uuid_text_ok E" using inv by (simp add: invariant_def)
  show "tenant_body D v ?app (rs_body res)"
  proof (rule tenant_answer [OF run [unfolded create_payment_handler_def authenticated_app_of [OF a] proceed_simps]])
    fix q b
    assume "run (CreatePayment E ?app (hr_header r ''Idempotency-Key'')
            \<lparr>in_order_id = qc_order_id q, in_amount_minor = qc_amount q, in_currency = qc_currency q,
             in_description = qc_description q, in_return_url = qc_return_url q,
             in_metadata = qc_metadata q\<rparr>) w = Some (Inr b, v)"
    from pay_rg.ok_run [OF ok_create [OF u] inv within_nothing(1) this [unfolded CreatePayment_def]]
    show "tenant_body D v ?app (rs_body (write_create_result D b))" using created_body by blast
  qed (rule decode_refuses_body)
qed

lemma tenant_attempt: "tenant_handler D E (create_attempt_handler D E)"
  unfolding tenant_handler_def
proof (intro allI impI)
  fix r a w res v
  assume a: "hr_auth r = Some a" and inv: "invariant E w" and run: "run (create_attempt_handler D E r) w = Some (res, v)"
  let ?app = "au_application a"
  have u: "uuid_text_ok E" using inv by (simp add: invariant_def)
  show "tenant_body D v ?app (rs_body res)"
  proof (rule tenant_answer [OF run [unfolded create_attempt_handler_def authenticated_app_of [OF a] proceed_simps]])
    fix q b
    assume "run (CreateAttempt E ?app (hr_param r ''order_id'') (hr_header r ''Idempotency-Key'')
            \<lparr>in_order_id = [], in_amount_minor = qt_amount q, in_currency = qt_currency q,
             in_description = qt_description q, in_return_url = qt_return_url q,
             in_metadata = qt_metadata q\<rparr>) w = Some (Inr b, v)"
    from pay_rg.ok_run [OF ok_create [OF u] inv within_nothing(1) this [unfolded CreateAttempt_def]]
    show "tenant_body D v ?app (rs_body (write_create_result D b))" using created_body by blast
  qed (rule decode_refuses_body)
qed

lemma tenant_get: "tenant_handler D E (get_payment_handler D E)"
  unfolding tenant_handler_def
proof (intro allI impI)
  fix r a w res v
  assume a: "hr_auth r = Some a" and inv: "invariant E w" and run: "run (get_payment_handler D E r) w = Some (res, v)"
  let ?app = "au_application a"
  show "tenant_body D v ?app (rs_body res)"
  proof (rule tenant_answer [OF run [unfolded get_payment_handler_def authenticated_app_of [OF a] proceed_simps]])
    fix pid p
    assume "run (GetPayment E (app_id ?app) pid) w = Some (Inr p, v)"
    from pay_rg.ok_run [OF ok_GetPayment inv within_nothing(1) this]
    show "tenant_body D v ?app (rs_body (JSON 200 (PaymentBody (NewPayment (id_text D) p))))"
      using seen_owned by auto
  qed (rule param_refuses_body)
qed

lemma tenant_list: "tenant_handler D E (list_payments_handler D E)"
  unfolding tenant_handler_def
proof (intro allI impI)
  fix r a w res v
  assume a: "hr_auth r = Some a" and inv: "invariant E w" and run: "run (list_payments_handler D E r) w = Some (res, v)"
  let ?app = "au_application a"
  show "tenant_body D v ?app (rs_body res)"
  proof (rule tenant_answer [OF run [unfolded list_payments_handler_def authenticated_app_of [OF a] proceed_simps]])
    fix n ps
    assume "run (ListPayments E (app_id ?app) \<lparr>lq_order_id = hr_query r ''order_id'', lq_limit = n\<rparr>) w = Some (Inr ps, v)"
    from pay_rg.ok_run [OF ok_ListPayments inv within_nothing(1) this]
    have "length ps \<le> 100" "\<forall>p \<in> set ps. pay_application_id p = app_id ?app \<and> seen p v"
      by (auto simp: listed_def)
    then show "tenant_body D v ?app (rs_body (JSON 200 (PaymentList (NewPayments (id_text D) ps))))"
      using seen_owned by (auto simp: NewPayments_def list_all_iff)
  qed (rule param_refuses_body)
qed

lemma tenant_me: "tenant_handler D E (Me D)"
  by (auto simp: tenant_handler_def Me_def authenticated_app_of)

lemma tenant_mux:
  assumes "\<And>m p h. (m, p, h) \<in> set t \<Longrightarrow> tenant_handler D E h"
  shows "tenant_handler D E (mux X t)"
  unfolding tenant_handler_def
proof (intro allI impI)
  fix r a w res v
  assume a: "hr_auth r = Some a" "invariant E w" "run (mux X t r) w = Some (res, v)"
  show "tenant_body D v (au_application a) (rs_body res)"
  proof (cases "\<exists>i ps rest. hx_match X (entries t) (hr_method r) (hr_path r) = Matched i ps rest \<and> i < length t")
    case True
    then obtain i ps rest where i: "hx_match X (entries t) (hr_method r) (hr_path r) = Matched i ps rest" "i < length t"
      by blast
    obtain m p h where h: "t ! i = (m, p, h)" by (cases "t ! i")
    then have "tenant_handler D E h" using assms i(2) nth_mem by metis
    moreover obtain res' where "run (h (r\<lparr>hr_param := ps, hr_path := rest\<rparr>)) w = Some (res', v)"
      "res = pass_pattern p res'"
      using a(3) i h by (auto simp: mux_def run_bindP split: option.splits)
    moreover have "hr_auth (r\<lparr>hr_param := ps, hr_path := rest\<rparr>) = Some a" using a(1) by simp
    ultimately have "tenant_body D v (au_application a) (rs_body res')" "res = pass_pattern p res'"
      using a(2) unfolding tenant_handler_def by blast+
    then show ?thesis by (simp add: pass_pattern_def)
  next
    case False
    with a(3) show ?thesis
      by (auto simp: mux_def not_found_def method_not_allowed_def split: route_match.splits)
  qed
qed

lemma tenant_routes: "d_payments D = Some E \<Longrightarrow> tenant_handler D E (mux (d_http D) (v1_routes D))"
  by (rule tenant_mux)
    (auto simp: v1_routes_def payments_register_def intro: tenant_create tenant_attempt tenant_get tenant_list tenant_me)

subsection \<open>The other answers\<close>

definition answers_with :: "(body \<Rightarrow> bool) \<Rightarrow> response action \<Rightarrow> bool" where
  "answers_with B p \<longleftrightarrow> (\<forall>w res v. run p w = Some (res, v) \<longrightarrow> B (rs_body res))"

lemma answers_Ret: "B (rs_body res) \<Longrightarrow> answers_with B (Ret res)"
  by (simp add: answers_with_def)

lemma answers_bindP: "(\<And>a. answers_with B (k a)) \<Longrightarrow> answers_with B (bindP p k)"
  by (auto simp: answers_with_def run_bindP split: option.splits)

lemma answers_proceed:
  "(\<And>e. x = Inl e \<Longrightarrow> B (rs_body e)) \<Longrightarrow> (\<And>a. answers_with B (k a)) \<Longrightarrow> answers_with B (proceed x k)"
  by (cases x) (auto intro: answers_Ret)

lemma answers_answer:
  "(\<And>e. B (rs_body (fail e))) \<Longrightarrow> (\<And>a. B (rs_body (ok a))) \<Longrightarrow> answers_with B (answer fail ok p)"
  unfolding answer_def by (rule answers_bindP) (auto intro: answers_Ret split: sum.split)

lemma admin_fail_body: "admin_body (rs_body (admin_fail r e))"
  using fail_bodies(2) [of r e] by auto

lemma refusals_admin:
  "decode_json read r = Inl res \<Longrightarrow> admin_body (rs_body res)" "uuid_param D name r = Inl res \<Longrightarrow> admin_body (rs_body res)"
  using decode_refuses_body [of read r res] param_refuses_body(3) [of D name r res] by auto

lemmas admin_answers = answers_proceed answers_answer answers_bindP answers_Ret admin_fail_body

lemma admin_handlers_answer:
  "answers_with admin_body (createApplication D r)" "answers_with admin_body (listApplications D r)"
  "answers_with admin_body (getApplication D r)" "answers_with admin_body (createAPIKey D r)"
  "answers_with admin_body (listAPIKeys D r)" "answers_with admin_body (revokeAPIKey D r)"
  "answers_with admin_body (rotateWebhookSecret D r)" "answers_with admin_body (attachProvider D r)"
  "answers_with admin_body (listProviders D r)" "answers_with admin_body (testProvider D r)"
  unfolding createApplication_def listApplications_def getApplication_def createAPIKey_def listAPIKeys_def
    revokeAPIKey_def rotateWebhookSecret_def attachProvider_def listProviders_def testProvider_def
  by (auto intro!: admin_answers dest: refusals_admin split: sum.split prod.split)

lemma mux_answers:
  assumes "\<And>m p h r. (m, p, h) \<in> set t \<Longrightarrow> answers_with B (h r)" "\<And>e. B (ErrorEnvelope e)"
  shows "answers_with B (mux X t r)"
proof -
  have "answers_with B (bindP (h (r\<lparr>hr_param := ps, hr_path := rest\<rparr>)) (\<lambda>res. Ret (pass_pattern q res)))"
    if "t ! i = (m, q, h)" "i < length t" for i m q h ps rest
  proof -
    have "(m, q, h) \<in> set t" using that nth_mem by metis
    from assms(1) [OF this] show ?thesis
      by (auto simp: answers_with_def run_bindP pass_pattern_def split: option.splits)
  qed
  then show ?thesis
    using assms(2) by (auto simp: mux_def not_found_def method_not_allowed_def split: route_match.split prod.split
        intro!: answers_Ret)
qed

text \<open>An administrator: the token, and nothing around it.\<close>

lemma admin_guarded:
  assumes "run (admin D r) w = Some (res, v)"
  shows "(bearer_token r = Some (d_admin_token D) \<and> trim_space (d_admin_token D) = d_admin_token D \<and>
      admin_body (rs_body res)) \<or> (v = w \<and> (\<exists>e. rs_body res = ErrorEnvelope e))"
proof (cases "bearer_token r = Some (d_admin_token D) \<and> trim_space (d_admin_token D) \<noteq> []")
  case True
  have "answers_with admin_body (mux (d_http D) (admin_register D) r)"
    by (rule mux_answers) (auto simp: admin_register_def intro: admin_handlers_answer)
  moreover have "run (mux (d_http D) (admin_register D) r) w = Some (res, v)"
    using assms True by (simp add: admin_def RequireAdmin_def)
  ultimately show ?thesis using True bearer_tokenD by (auto simp: answers_with_def)
next
  case False
  then show ?thesis
    using assms by (auto simp: admin_def RequireAdmin_def split: option.splits if_splits)
qed

subsection \<open>Access\<close>

text \<open>A request that has shown no credential: nothing in the database has changed, nothing was sent, and
  the answer is public.\<close>

definition anonymous :: "world \<Rightarrow> world \<Rightarrow> response \<Rightarrow> bool" where
  "anonymous w v res \<longleftrightarrow> nothing_changed w v \<and> public_body (rs_body res)"

definition as_admin :: "api \<Rightarrow> http_request \<Rightarrow> response \<Rightarrow> bool" where
  "as_admin D r res \<longleftrightarrow> bearer_token r = Some (d_admin_token D) \<and>
     trim_space (d_admin_token D) = d_admin_token D \<and> admin_body (rs_body res)"

definition as_tenant :: "api \<Rightarrow> http_request \<Rightarrow> world \<Rightarrow> world \<Rightarrow> response \<Rightarrow> bool" where
  "as_tenant D r w v res \<longleftrightarrow> (\<exists>t a u. bearer_token r = Some t \<and>
     run (Authenticate (d_apps D) t) w = Some (Inr a, u) \<and> records_kept w u \<and> app_active (au_application a) \<and>
     on_record w (au_application a) \<and> tenant_body D v (au_application a) (rs_body res))"

lemma records_kept_invariant: "records_kept w v \<Longrightarrow> invariant E w \<Longrightarrow> invariant E v"
  by (rule quiet_invariant) (auto simp: records_kept_def quiet_def)

lemma v1_access:
  assumes "d_payments D = Some E" "invariant E w" "run (v1 D r) w = Some (res, v)"
  shows "anonymous w v res \<or> as_tenant D r w v res"
  using service_auth.guarded [of r "d_apps D" w "mux (d_http D) (v1_routes D)"]
proof (elim disjE exE conjE)
  fix t a u
  assume t: "bearer_token r = Some t" "run (Authenticate (d_apps D) t) w = Some (Inr a, u)"
    "app_active (au_application a)" "on_record w (au_application a)" "records_kept w u"
    and next_run: "run (RequireApplication (Authenticate (d_apps D)) (mux (d_http D) (v1_routes D)) r) w =
      run (mux (d_http D) (v1_routes D) (with_authenticated a r)) u"
  have "hr_auth (with_authenticated a r) = Some a" by (simp add: with_authenticated_def)
  moreover have "run (mux (d_http D) (v1_routes D) (with_authenticated a r)) u = Some (res, v)"
    using assms(3) next_run by (simp add: v1_def)
  ultimately have "tenant_body D v (au_application a) (rs_body res)"
    using tenant_routes [OF assms(1)] records_kept_invariant [OF t(5) assms(2)] unfolding tenant_handler_def by blast
  then show ?thesis using t by (auto simp: as_tenant_def)
qed (use assms(3) in \<open>auto simp: v1_def anonymous_def\<close>)

lemma health_anonymous:
  "run (Live r) w = Some (res, v) \<Longrightarrow> anonymous w v res" "run (Ready r) w = Some (res, v) \<Longrightarrow> anonymous w v res"
  "run (metrics_handler r) w = Some (res, v) \<Longrightarrow> anonymous w v res"
proof -
  show "run (Ready r) w = Some (res, v) \<Longrightarrow> anonymous w v res"
  proof -
    obtain x u where p: "statement Pool ping_query w = (x, u)" by fastforce
    have "nothing_changed w u"
      using statement_reads [OF _ p] by (simp add: ping_query_def nothing_changed_def records_kept_def)
    then show "run (Ready r) w = Some (res, v) \<Longrightarrow> anonymous w v res"
      by (auto simp: Ready_def Ping_def run_bindP run_exec_Pool p anonymous_def split: sum.splits)
  qed
qed (auto simp: Live_def metrics_handler_def anonymous_def)

lemma root_access:
  assumes "d_payments D = Some E" "invariant E w" "run (mux (d_http D) (root_routes D) r) w = Some (res, v)"
  shows "anonymous w v res \<or> as_admin D r res \<or> as_tenant D r w v res"
proof (cases "\<exists>i ps rest. hx_match (d_http D) (entries (root_routes D)) (hr_method r) (hr_path r) = Matched i ps rest \<and>
    i < length (root_routes D)")
  case False
  with assms(3) show ?thesis
    by (auto simp: mux_def not_found_def method_not_allowed_def anonymous_def
        split: route_match.splits)
next
  case True
  then obtain i ps rest where i: "hx_match (d_http D) (entries (root_routes D)) (hr_method r) (hr_path r) =
    Matched i ps rest" "i < length (root_routes D)" by blast
  obtain m p h where h: "root_routes D ! i = (m, p, h)" by (cases "root_routes D ! i")
  then have entry: "(m, p, h) \<in> set (root_routes D)" using i(2) nth_mem by metis
  let ?r = "r\<lparr>hr_param := ps, hr_path := rest\<rparr>"
  obtain res' where res': "run (h ?r) w = Some (res', v)" "res = pass_pattern p res'"
    using assms(3) i h by (auto simp: mux_def run_bindP split: option.splits)
  have same: "bearer_token ?r = bearer_token r" "rs_body res = rs_body res'"
    by (simp_all add: bearer_token_def res'(2) pass_pattern_def)
  have "anonymous w v res' \<or> as_admin D ?r res' \<or> as_tenant D ?r w v res'"
    using entry res'(1) v1_access [OF assms(1,2)] health_anonymous admin_guarded [of D ?r w res' v]
    by (auto simp: root_routes_def mount_def as_admin_def anonymous_def split: if_splits)
  then show ?thesis by (simp add: anonymous_def as_admin_def as_tenant_def same)
qed

lemma NewRouter_access:
  assumes "d_payments D = Some E" "invariant E w" "run (NewRouter D r) w = Some (res, v)"
  shows "anonymous w v res \<or> as_admin D r res \<or> as_tenant D r w v res"
proof (cases "d_metrics D")
  case False
  with assms root_access show ?thesis by (simp add: NewRouter_def)
next
  case True
  then obtain u where u: "run (mux (d_http D) (root_routes D) r) w = Some (res, u)" "w_db v = w_db u" "w_wire v = w_wire u"
    using assms(3) by (auto simp: NewRouter_def Metrics_def run_bindP get_time_def record_metric_def split: option.splits)
  have "tenant_body D u app b = tenant_body D v app b" for app b
    using u(2) by (cases b) (simp_all add: dto_owned_def [abs_def])
  then show ?thesis
    using root_access [OF assms(1,2) u(1)] u(2,3) by (simp add: anonymous_def as_tenant_def nothing_changed_def)
qed

end
