(* ===== verification/ApiProperties.thy ===== *)
theory ApiProperties
  imports Liveness Metering ApiAccess SafetyProperties KeyProperties
begin

text \<open>
  Properties of the HTTP API as a whole, from the router down to the database: every request is
  answered, with a status and code of the code's own table; nobody sees or changes what their credential does not
  give; and the promises of the payment service hold for any interleaving of requests to any endpoint.
  The witnesses use a small installation whose mux compares paths.
\<close>

definition demo_index :: "(string \<times> string) list \<Rightarrow> string \<Rightarrow> string \<Rightarrow> nat option" where
  "demo_index table method path =
     (let hit = (\<lambda>(m, p). (m = method \<or> m = any_method) \<and>
           (p = path \<or> last p = CHR ''*'' \<and> has_prefix path (butlast p)))
      in find (\<lambda>i. hit (table ! i)) [0 ..< length table])"

definition demo_route :: "(string \<times> string) list \<Rightarrow> string \<Rightarrow> string \<Rightarrow> route_match" where
  "demo_route table method path =
     (case demo_index table method path of
        None \<Rightarrow> NoRoute
      | Some i \<Rightarrow> Matched i (\<lambda>_. []) (drop (length (snd (table ! i)) - 2) path))"

definition demo_http :: http_env where
  "demo_http = \<lparr>hx_match = demo_route, hx_pattern = concat, hx_uuid_text = se_uuid_text demo_env,
     hx_parse_uuid = (\<lambda>_. None), hx_read_application = (\<lambda>_. JsonBad []), hx_read_api_key = (\<lambda>_. JsonBad []),
     hx_read_attach = (\<lambda>_. JsonBad []), hx_read_payment = (\<lambda>_. JsonBad []), hx_read_attempt = (\<lambda>_. JsonBad [])\<rparr>"

definition demo_api :: api where
  "demo_api = \<lparr>d_http = demo_http, d_apps = demo_apps, d_payments = Some demo_env, d_yk = demo_yk_env,
     d_admin_token = ''t'', d_api_url = [], d_metrics = True\<rparr>"

definition demo_get :: "string \<Rightarrow> string \<Rightarrow> http_request" where
  "demo_get path auth = \<lparr>hr_method = ''GET'', hr_path = path,
     hr_header = (\<lambda>h. if h = ''Authorization'' then auth else []), hr_query = (\<lambda>_. []), hr_body = [],
     hr_request_id = ''r'', hr_param = (\<lambda>_. []), hr_auth = None\<rparr>"

abbreviation demo_list_apps :: http_request where
  "demo_list_apps \<equiv> demo_get ''/admin/applications'' ''Bearer t''"

text \<open>The administrator lists the applications of the demo installation.\<close>

lemma demo_root:
  "demo_route (entries (root_routes demo_api)) ''GET'' ''/admin/applications'' = Matched 8 (\<lambda>_. []) ''/applications''"
proof -
  let ?t = "[(''GET'', ''/health/live''), (''GET'', ''/health/ready''), (''GET'', ''/metrics''),
    (any_method, ''/v1''), (any_method, ''/v1/''), (any_method, ''/v1/*''),
    (any_method, ''/admin''), (any_method, ''/admin/''), (any_method, ''/admin/*'')]"
  have "demo_index ?t ''GET'' ''/admin/applications'' = Some 8" by code_simp
  moreover have "entries (root_routes demo_api) = ?t" by (simp add: entries_def root_routes_def mount_def demo_api_def)
  ultimately show ?thesis by (simp add: demo_route_def)
qed

lemma demo_admin:
  "demo_route (entries (admin_register demo_api)) ''GET'' ''/applications'' = Matched 1 (\<lambda>_. []) ''ns''"
proof -
  let ?t = "[(''POST'', ''/applications''), (''GET'', ''/applications''),
      (''GET'', ''/applications/{application_id}''), (''POST'', ''/applications/{application_id}/keys''),
      (''GET'', ''/applications/{application_id}/keys''),
      (''DELETE'', ''/applications/{application_id}/keys/{key_id}''),
      (''POST'', ''/applications/{application_id}/webhook-secret''),
      (''POST'', ''/applications/{application_id}/providers''),
      (''GET'', ''/applications/{application_id}/providers''), (''POST'', ''/providers/{provider_id}/test'')]"
  have "demo_index ?t ''GET'' ''/applications'' = Some 1" by code_simp
  moreover have "entries (admin_register demo_api) = ?t" by (simp add: entries_def admin_register_def)
  ultimately show ?thesis by (simp add: demo_route_def)
qed

lemma run_mux:
  assumes "hx_match X (entries t) (hr_method r) (hr_path r) = Matched i params rest" "i < length t" "t ! i = (m, p, h)"
    and "run (h (r\<lparr>hr_param := params, hr_path := rest\<rparr>)) w = Some (res, v)"
  shows "run (mux X t r) w = Some (pass_pattern p res, v)"
  using assms by (simp add: mux_def run_bindP)

lemma demo_listed:
  obtains v where "run (NewRouter demo_api demo_list_apps) demo_random =
    Some (\<lparr>rs_status = 200, rs_body = ApplicationList [NewApplication (se_uuid_text demo_env) demo_shop],
       rs_patterns = [''/admin/*'', ''/applications'']\<rparr>, v)"
proof -
  let ?r = "demo_list_apps\<lparr>hr_param := \<lambda>_. [], hr_path := ''/applications''\<rparr>"
  let ?ok = "JSON 200 (ApplicationList [NewApplication (se_uuid_text demo_env) demo_shop])"
  have token: "bearer_token ?r = Some ''t''" "trim_space ''t'' = ''t''" by code_simp+
  have X: "d_http demo_api = demo_http" "hx_match demo_http = demo_route" "d_admin_token demo_api = ''t''"
    by (simp_all add: demo_api_def demo_http_def)
  have rows: "fst (list_applications Pool demo_db) = Inr (db_applications demo_db)"
    "to_applications (db_applications demo_db) = Inr [demo_shop]"
    by (simp_all add: list_applications_def visible_def own_txs_def demo_db_def to_applications_def demo_shop_def)
  have "snd (list_applications Pool demo_db) = demo_db" by (simp add: list_applications_def)
  with rows obtain v where "run ListApplications demo_random = Some (Inr [demo_shop], v)"
    by (auto simp: ListApplications_def run_bindE run_exec_Pool statement_def Let_def conn_open_def
        demo_random_def demo_world_def)
  then have listed: "run (listApplications demo_api r) demo_random = Some (?ok, v)" for r
    by (simp add: listApplications_def run_answer NewApplications_def demo_api_def demo_http_def)
  have "hx_match demo_http (entries (admin_register demo_api)) (hr_method ?r) (hr_path ?r) = Matched 1 (\<lambda>_. []) ''ns''"
    by (simp add: X demo_get_def demo_admin)
  moreover have "1 < length (admin_register demo_api)"
    "admin_register demo_api ! 1 = (''GET'', ''/applications'', listApplications demo_api)"
    by (simp_all add: admin_register_def)
  ultimately have "run (mux demo_http (admin_register demo_api) ?r) demo_random = Some (pass_pattern ''/applications'' ?ok, v)"
    by (rule run_mux [OF _ _ _ listed])
  then have admin: "run (admin demo_api ?r) demo_random = Some (pass_pattern ''/applications'' ?ok, v)"
    using token by (simp add: admin_def RequireAdmin_def X)
  have "hx_match demo_http (entries (root_routes demo_api)) (hr_method demo_list_apps) (hr_path demo_list_apps) =
      Matched 8 (\<lambda>_. []) ''/applications''"
    by (simp add: X demo_get_def demo_root)
  moreover have "8 < length (root_routes demo_api)"
    "root_routes demo_api ! 8 = (any_method, ''/admin/*'', admin demo_api)"
    by (simp_all add: root_routes_def mount_def demo_api_def)
  ultimately have "run (mux demo_http (root_routes demo_api) demo_list_apps) demo_random =
      Some (pass_pattern ''/admin/*'' (pass_pattern ''/applications'' ?ok), v)"
    by (rule run_mux) (use admin in simp)
  then have "\<exists>v. run (NewRouter demo_api demo_list_apps) demo_random =
      Some (pass_pattern ''/admin/*'' (pass_pattern ''/applications'' ?ok), v)"
    by (simp add: NewRouter_def Metrics_def demo_api_def run_bindP get_time_def record_metric_def)
  then show thesis using that by (auto simp: pass_pattern_def JSON_def)
qed

subsection \<open>Every request\<close>

text \<open>C13. The API answers every request. With no transaction open, a request to any route, with any
  headers and body, and whichever statements and provider calls fail, runs to a response and leaves
  no transaction open: no path of any handler waits for itself, loops or leaks its transaction.\<close>

theorem every_request_answered:
  assumes "db_txs (w_db w) = []"
  shows "\<exists>res v. run (NewRouter D r) w = Some (res, v) \<and> db_txs (w_db v) = []"
  using live_NewRouter [of D r] assms unfolding live_def wp_def by auto

theorem every_request_answered_witness:
  "\<exists>res v. run (NewRouter demo_api (demo_get ''/nowhere'' [])) demo_random = Some (res, v) \<and> db_txs (w_db v) = []"
  using every_request_answered [of demo_random demo_api "demo_get ''/nowhere'' []"] by simp

text \<open>Every response is well formed: each kind of body comes with its own statuses, an error carries one
  of sixteen pairs of status and code and the id of the request, and an internal error (500) is retryable
  and says nothing of its cause. The tables are those of the code: \<open>api/openapi.yaml\<close> names fewer.\<close>

theorem responses_well_formed:
  assumes "run (NewRouter D r) w = Some (res, v)"
  shows "rs_status res \<in> body_statuses (rs_body res) \<and>
    (\<forall>e. rs_body res = ErrorEnvelope e \<longrightarrow>
       list_ex (\<lambda>(s, c). rs_status res = s \<and> eb_code e = api_code_text c) error_table \<and>
       eb_request_id e = hr_request_id r \<and>
       (rs_status res = 500 \<longrightarrow> eb_retryable e \<and> eb_message e \<in> {''internal error'', ''authentication failed''}))"
proof -
  have w: "well_formed r res" using NewRouter_ok [of D r] assms unfolding yields_def by blast
  then have "error_ok r (rs_status res) e" if "rs_body res = ErrorEnvelope e" for e
    using that by (simp add: well_formed_def)
  with w show ?thesis by (auto simp: well_formed_def error_ok_def)
qed

theorem responses_well_formed_witness:
  "\<exists>res v. run (NewRouter demo_api demo_list_apps) demo_random = Some (res, v) \<and> rs_status res = 200 \<and>
    rs_status res \<in> body_statuses (rs_body res)"
proof -
  obtain v where v: "run (NewRouter demo_api demo_list_apps) demo_random =
    Some (\<lparr>rs_status = 200, rs_body = ApplicationList [NewApplication (se_uuid_text demo_env) demo_shop],
       rs_patterns = [''/admin/*'', ''/applications'']\<rparr>, v)" by (rule demo_listed)
  from responses_well_formed [OF v] v show ?thesis by auto
qed

subsection \<open>Credentials\<close>

text \<open>C6. Nobody gets more than their credential gives, on any route. In an installation that satisfies
  the service's invariant, a request ends in one of three ways. Either its answer is public (an error, a
  probe, the metrics), and then the database is exactly as before and nothing was sent. Or it bore the
  configured admin token, and the body is none of those of the payment API. Or it bore a key that
  authenticates an active application on record: authenticating changed no more than the times keys were
  last used and sent nothing, and every payment, page of payments or profile in the body is that
  application's own.\<close>

theorem access_follows_credentials:
  assumes "d_payments D = Some E" "invariant E w" "run (NewRouter D r) w = Some (res, v)"
  shows "(w_wire v = w_wire w \<and> w_db v = w_db w \<and> public_body (rs_body res)) \<or>
    (bearer_token r = Some (d_admin_token D) \<and> admin_body (rs_body res)) \<or>
    (\<exists>t a u. bearer_token r = Some t \<and> run (Authenticate (d_apps D) t) w = Some (Inr a, u) \<and>
       w_wire u = w_wire w \<and>
       (\<exists>ks. w_db u = (w_db w)\<lparr>db_api_keys := ks\<rparr> \<and>
          list_all2 (\<lambda>k k'. k' = k\<lparr>k_last_used_at := k_last_used_at k'\<rparr>) (db_api_keys (w_db w)) ks) \<and>
       app_active (au_application a) \<and> on_record w (au_application a) \<and>
       tenant_body D v (au_application a) (rs_body res))"
  using NewRouter_access [OF assms]
  unfolding anonymous_def as_admin_def as_tenant_def nothing_changed_def records_kept_def only_last_use_def by blast

theorem access_follows_credentials_witness:
  "\<exists>res v. run (NewRouter demo_api demo_list_apps) demo_random = Some (res, v) \<and>
    bearer_token demo_list_apps = Some (d_admin_token demo_api) \<and> admin_body (rs_body res)"
proof -
  obtain v where v: "run (NewRouter demo_api demo_list_apps) demo_random =
    Some (\<lparr>rs_status = 200, rs_body = ApplicationList [NewApplication (se_uuid_text demo_env) demo_shop],
       rs_patterns = [''/admin/*'', ''/applications'']\<rparr>, v)" by (rule demo_listed)
  have "d_payments demo_api = Some demo_env" by (simp add: demo_api_def)
  moreover have "invariant demo_env demo_random"
    by (rule fresh_invariant) (simp add: fresh_def demo_random_def demo_world_def demo_db_def demo_uuid_text)
  ultimately show ?thesis using access_follows_credentials [of demo_api demo_env demo_random, OF _ _ v] v by auto
qed

subsection \<open>Any interleaving of requests\<close>

text \<open>C5. The promises about payments hold for the API as it is served: however the requests to all its
  routes (creating and rotating keys and accounts included) are interleaved with one another, with
  faults and with the passage of time, from a fresh installation on: an order never has two unfinished
  payments, no two requests to the provider carry the same idempotence key, and each action keeps the
  identity and amount of every payment and moves it only along an allowed transition.\<close>

theorem api_keeps_payments_safe:
  assumes "d_payments D = Some E" "fresh E w0" "api_reachable D w0 c" "api_step D c c'"
  shows "(\<forall>p \<in> set (payments_of (shared c)). \<forall>q \<in> set (payments_of (shared c)).
       p_application_id p = p_application_id q \<and> p_order_id p = p_order_id q \<and>
       \<not> terminal (p_status p) \<and> \<not> terminal (p_status q) \<longrightarrow> p = q) \<and>
    distinct (filter (\<lambda>k. k \<noteq> None) (map wire_idempotence_key (w_wire (shared c)))) \<and>
    (\<forall>p \<in> set (payments_of (shared c)). \<exists>q \<in> set (payments_of (shared c')).
       p_id q = p_id p \<and> p_application_id q = p_application_id p \<and> p_order_id q = p_order_id p \<and>
       p_amount_minor q = p_amount_minor p \<and> (q = p \<or> can_transition (p_status p) (p_status q)))"
proof (intro conjI ballI impI)
  have inv: "invariant E (shared c)" by (rule api_invariant [OF assms(1,3) fresh_invariant [OF assms(2)]])
  then show "distinct (filter (\<lambda>k. k \<noteq> None) (map wire_idempotence_key (w_wire (shared c))))"
    by (intro wire_keys_distinct [of E]) (simp add: invariant_def)
  have clash: "clash_free payment_clash (payments_of (shared c))"
    using inv by (simp add: invariant_def no_clashes_def all_rows_def pay.append_iff)
  show "p = q" if "p \<in> set (payments_of (shared c))" "q \<in> set (payments_of (shared c))"
    "p_application_id p = p_application_id q \<and> p_order_id p = p_order_id q \<and>
       \<not> terminal (p_status p) \<and> \<not> terminal (p_status q)" for p q
    by (rule pay.no_two [OF clash that(1,2)]) (use that(3) in \<open>auto simp: payment_clash_def\<close>)
  fix p assume p: "p \<in> set (payments_of (shared c))"
  have "step_ok (shared c) (shared c')"
    by (rule api_steps [OF assms(1,3) fresh_invariant [OF assms(2)] assms(4)])
  with p obtain q where q: "q \<in> set (payments_of (shared c'))" "payment_moves p q" unfolding step_ok_def by blast
  then show "\<exists>q \<in> set (payments_of (shared c')). p_id q = p_id p \<and> p_application_id q = p_application_id p \<and>
      p_order_id q = p_order_id p \<and> p_amount_minor q = p_amount_minor p \<and>
      (q = p \<or> can_transition (p_status p) (p_status q))"
    by (intro bexI [of _ q]) (auto simp: payment_moves_def same_identity_def)
qed

theorem api_keeps_payments_safe_witness:
  "\<exists>c c'. api_reachable demo_api demo_random c \<and> api_step demo_api c c' \<and> threads c' 0 \<noteq> None \<and>
    distinct (filter (\<lambda>k. k \<noteq> None) (map wire_idempotence_key (w_wire (shared c))))"
proof -
  let ?c = "\<lparr>threads = (\<lambda>_. None), shared = demo_random\<rparr> :: api_system"
  let ?c' = "\<lparr>threads = (threads ?c)(0 := Some (api_program demo_api demo_list_apps)), shared = shared ?c\<rparr>"
  have c: "api_reachable demo_api demo_random ?c" unfolding api_reachable_def by (rule reach_init)
  have step: "api_step demo_api ?c ?c'" unfolding api_step_def by (rule step_spawn) simp_all
  have "d_payments demo_api = Some demo_env" by (simp add: demo_api_def)
  moreover have "fresh demo_env demo_random"
    by (simp add: fresh_def demo_random_def demo_world_def demo_db_def demo_uuid_text)
  ultimately have "distinct (filter (\<lambda>k. k \<noteq> None) (map wire_idempotence_key (w_wire (shared ?c))))"
    using api_keeps_payments_safe [OF _ _ c step] by blast
  with c step show ?thesis by (intro exI [of _ ?c] exI [of _ ?c']) simp
qed

subsection \<open>Metrics\<close>

text \<open>C39. Every request is observed exactly once, in one series. The registry afterwards is that before
  the request, with the events of the handlers (none of which is an HTTP observation), and one duration
  added to the series of the request's method, the route it followed and the class of the status it was
  answered with; every other HTTP series is as it was. The route is one of the patterns of the route
  tables, or \<open>unmatched\<close>, whatever path was asked for, and the class is one of five; the method is what
  the client sent.\<close>

theorem request_series_bounded:
  assumes "d_metrics D" "run (NewRouter D r) w = Some (res, v)"
  shows "rs_patterns res \<in> set (api_patterns D) \<and>
    (\<exists>d. mx_http_duration (registry v) = (\<lambda>(m, route, cls).
       mx_http_duration (registry w) (m, route, cls) @
         (if m = hr_method r \<and>
             route = (let p = hx_pattern (d_http D) (rs_patterns res) in if p = [] then ''unmatched'' else p) \<and>
             cls = (if 200 \<le> rs_status res \<and> rs_status res < 300 then ''2xx''
                    else if 300 \<le> rs_status res \<and> rs_status res < 400 then ''3xx''
                    else if 400 \<le> rs_status res \<and> rs_status res < 500 then ''4xx''
                    else if 500 \<le> rs_status res then ''5xx'' else ''other'')
          then [d] else [])))"
  using request_observed_once [OF assms] unfolding route_label_def status_class_ranges Let_def by blast

theorem request_series_bounded_witness:
  "\<exists>v d. run (NewRouter demo_api demo_list_apps) demo_random = Some
      (\<lparr>rs_status = 200, rs_body = ApplicationList [NewApplication (se_uuid_text demo_env) demo_shop],
        rs_patterns = [''/admin/*'', ''/applications'']\<rparr>, v) \<and>
    mx_http_duration (registry v) (''GET'', ''/admin/*/applications'', ''2xx'') = [d] \<and>
    mx_http_duration (registry v) (''GET'', ''/v1/*'', ''2xx'') = []"
proof -
  obtain v where v: "run (NewRouter demo_api demo_list_apps) demo_random =
    Some (\<lparr>rs_status = 200, rs_body = ApplicationList [NewApplication (se_uuid_text demo_env) demo_shop],
       rs_patterns = [''/admin/*'', ''/applications'']\<rparr>, v)" by (rule demo_listed)
  have d: "d_metrics demo_api" "hx_pattern (d_http demo_api) = concat" "hr_method demo_list_apps = ''GET''"
    by (simp_all add: demo_api_def demo_http_def demo_get_def)
  have "registry demo_random = NewMetrics" by (simp add: registry_def demo_random_def demo_world_def)
  with request_series_bounded [OF d(1) v] v d(2,3) show ?thesis by (fastforce simp: NewMetrics_def)
qed

end
