(* ===== verification/CreateEndpoint.thy ===== *)
theory CreateEndpoint
  imports FunctionalProperties Router
begin

text \<open>
  What a client of \<open>POST /v1/payments\<close> gets: the answers of the payment service carried through the
  handler to the exact status, error code and body, on every branch of a run on connections that do not
  fail.
\<close>

text \<open>The input the handler makes of a decoded request.\<close>

definition create_input :: "create_payment_request \<Rightarrow> create_payment_input" where
  "create_input q = \<lparr>in_order_id = qc_order_id q, in_amount_minor = qc_amount q, in_currency = qc_currency q,
     in_description = qc_description q, in_return_url = qc_return_url q, in_metadata = qc_metadata q\<rparr>"

text \<open>An error answer: its status, its code, its message and whether the client may retry.\<close>

definition error_answer :: "http_request \<Rightarrow> int \<Rightarrow> string \<Rightarrow> string \<Rightarrow> bool \<Rightarrow> response" where
  "error_answer r status code message retryable =
     \<lparr>rs_status = status, rs_body = ErrorEnvelope \<lparr>eb_code = code, eb_message = message,
       eb_retryable = retryable, eb_request_id = hr_request_id r\<rparr>, rs_patterns = []\<rparr>"

lemma respond_error_answer: "respond_error r s c m b = error_answer r s (api_code_text c) m b"
  by (simp add: respond_error_def error_answer_def JSON_def RequestID_def)

text \<open>An authenticated request with a readable body: the handler does what the operation does, and words
  its result.\<close>

definition create_call :: "api \<Rightarrow> http_request \<Rightarrow> application \<Rightarrow> string \<Rightarrow> create_payment_input \<Rightarrow> bool" where
  "create_call D r app key input \<longleftrightarrow> key = hr_header r ''Idempotency-Key'' \<and>
     (\<exists>a q. hr_auth r = Some a \<and> app = au_application a \<and>
        decode_json (hx_read_payment (d_http D)) r = Inr q \<and> input = create_input q)"

lemma run_create_handler:
  assumes "create_call D r app key input" "run (create E app input key) w = Some (x, v)"
  shows "run (create_payment_handler D E r) w =
    Some (case x of Inl e \<Rightarrow> payments_fail r e | Inr b \<Rightarrow> write_create_result D b, v)"
  using assms
  by (auto simp: create_call_def create_payment_handler_def authenticated_app_def auth_from_def run_answer
      CreatePayment_def create_input_def split: sum.split)

lemma payments_fail_sentinels:
  "payments_fail r (Sentinel PErrIdempotencyConflict) =
     error_answer r 409 ''IDEMPOTENCY_CONFLICT'' ''this Idempotency-Key was used with a different request'' False"
  "payments_fail r (Sentinel PErrActiveAttemptExists) =
     error_answer r 409 ''CONFLICT'' ''an unfinished payment attempt already exists for this order'' False"
  "payments_fail r (Sentinel PErrOrderAlreadySucceeded) =
     error_answer r 409 ''PAYMENT_ALREADY_SUCCEEDED'' ''this order has already been paid'' False"
  "payments_fail r (Sentinel PErrNoProviderAccount) =
     error_answer r 422 ''PROVIDER_NOT_CONFIGURED'' ''no active provider account is configured for this application'' False"
  by (simp_all add: payments_fail_def respond_error_answer)

lemma endpoint_invalid:
  assumes "create_call D r app key input" "validate (se_net E) (service_urls E) app key input = Inl e"
  shows "run (create_payment_handler D E r) w = Some (error_answer r 400 ''INVALID_REQUEST'' (public_message e) False, w)"
  using run_create_handler [OF assms(1) run_create_invalid [OF assms(2)]] validate_refuses [OF assms(2)]
  by (simp add: payments_fail_def respond_error_answer)

lemma endpoint_used_key:
  assumes c: "create_call D r app key input" "calm w" and v: "validate (se_net E) (service_urls E) app key input = Inr i"
    and key: "pg_text key"
    and rq: "one_row (\<lambda>r. i_application_id r = app_id app \<and> i_idempotency_key r = key) (db_idempotency (w_db w)) = Inr rq"
      "i_payment_id rq = Some pid"
    and row: "one_row (\<lambda>r. p_id r = pid \<and> p_application_id r = app_id app) (db_payments (w_db w)) = Inr row"
      "to_payment (se_decode_metadata E) row = Inr p"
  shows "\<exists>v. run (create_payment_handler D E r) w = Some
      (if i_request_hash rq \<noteq> request_hash (se_sha E) i
       then error_answer r 409 ''IDEMPOTENCY_CONFLICT'' ''this Idempotency-Key was used with a different request'' False
       else if \<not> terminal (p_status row) \<and> p_checkout_url row = None
       then JSON 202 (PaymentPendingBody \<lparr>dn_id = id_text D (p_id row), dn_status = status_text (p_status row),
              dn_checkout_url = None, dn_retry_after = 2\<rparr>)
       else JSON 201 (PaymentBody (NewPayment (id_text D) p)), v) \<and> untouched w v"
proof (cases "i_request_hash rq = request_hash (se_sha E) i")
  case True
  have p: "pay_id p = p_id row" "pay_status p = p_status row" "pay_checkout_url p = p_checkout_url row"
    using to_payment_of_row [OF row(2)] by (simp_all add: of_row_def)
  obtain v where "run (create E app input key) w = Some (Inr \<lparr>res_payment = p, res_replayed = True,
      res_pending = (\<not> terminal (pay_status p) \<and> pay_checkout_url p = None), res_retry_after = 2\<rparr>, v)" "untouched w v"
    using run_create_replayed [OF c(2) v key rq True row] by blast
  from run_create_handler [OF c(1) this(1)] this(2) show ?thesis
    using True p by (auto simp: write_create_result_def NewPaymentPending_def)
next
  case False
  then obtain v where "run (create E app input key) w = Some (Inl (Sentinel PErrIdempotencyConflict), v)" "untouched w v"
    using run_create_conflict [OF c(2) v key rq(1)] by blast
  from run_create_handler [OF c(1) this(1)] this(2) False show ?thesis by (auto simp: payments_fail_sentinels)
qed

lemma endpoint_paid:
  assumes c: "create_call D r app key input" "calm w" and v: "validate (se_net E) (service_urls E) app key input = Inr i"
    and "pg_text key" "pg_text (in_order_id i)"
    and "\<forall>r \<in> set (db_idempotency (w_db w)). \<not> (i_application_id r = app_id app \<and> i_idempotency_key r = key)"
    and "x \<in> set (db_payments (w_db w))" "p_application_id x = app_id app" "p_order_id x = in_order_id i"
      "p_status x = StatusSucceeded"
  shows "\<exists>v. run (create_payment_handler D E r) w = Some
      (error_answer r 409 ''PAYMENT_ALREADY_SUCCEEDED'' ''this order has already been paid'' False, v) \<and> untouched w v"
  using run_create_paid [OF c(2) v assms(4-10)] run_create_handler [OF c(1)] by (fastforce simp: payments_fail_sentinels)

lemma endpoint_no_account:
  assumes c: "create_call D r app key input" "calm w" and v: "validate (se_net E) (service_urls E) app key input = Inr i"
    and "order_new (app_id app) key i (w_db w)"
    and "get_default_provider_account (app_id app) Pool (w_db w) = (Inl (Sentinel ErrNoRows), w_db w)"
  shows "\<exists>v. run (create_payment_handler D E r) w = Some
      (error_answer r 422 ''PROVIDER_NOT_CONFIGURED''
         ''no active provider account is configured for this application'' False, v) \<and> untouched w v"
  using run_create_no_account [OF c(2) v assms(4,5)] run_create_handler [OF c(1)]
  by (fastforce simp: payments_fail_sentinels)

lemma endpoint_active:
  assumes c: "create_call D r app key input" "calm w" and v: "validate (se_net E) (service_urls E) app key input = Inr i"
    and "order_new (app_id app) key i (w_db w)"
    and "get_default_provider_account (app_id app) Pool (w_db w) = (Inr account, w_db w)"
    and "new_row E app account i (w_db w) = Inr row" "payment_checks row"
    and "x \<in> set (db_payments (w_db w))" "p_application_id x = app_id app" "p_order_id x = p_order_id row"
      "\<not> terminal (p_status x)"
  shows "\<exists>v n. run (create_payment_handler D E r) w = Some
      (error_answer r 409 ''CONFLICT'' ''an unfinished payment attempt already exists for this order'' False, v) \<and>
    w_wire v = w_wire w \<and> w_db v = (w_db w)\<lparr>db_next := n\<rparr>"
  using run_create_active [OF c(2) v assms(4-11)] run_create_handler [OF c(1)]
  by (fastforce simp: payments_fail_sentinels)

text \<open>A failure of the creation call is worded by its code.\<close>

lemma create_payment_no_sentinel: "yk_create_payment E c req outcome = (out, Inl e) \<Longrightarrow> \<not> err_is e s"
proof -
  assume a: "yk_create_payment E c req outcome = (out, Inl e)"
  have d: "\<not> err_is e' s" if "do_outcome E (Some d) outcome = Inl e'" for d :: "string \<Rightarrow> string + api_payment" and e'
    using that by (auto simp: do_outcome_def network_error_def status_error_def perr_def Let_def
        split: transport.splits if_splits option.splits sum.splits)
  have "\<not> err_is e' s" if "payment_result x = Inl e'" "\<And>y. x = Inl y \<Longrightarrow> \<not> err_is y s" for x e'
    using that by (auto simp: payment_result_def to_provider_payment_def map_status_def perr_def
        split: sum.splits option.splits if_splits)
  with a d show ?thesis by (elim create_payment_cases) (auto simp: perr_def)
qed

lemma payments_fail_definitive:
  assumes "yk_create_payment E c req outcome = (out, Inl e)" "as_provider_error e = Some pe"
    and "definitive (pe_code pe)"
  shows "payments_fail r e = (if pe_code pe = CodeAuthFailed
    then error_answer r 502 ''PROVIDER_AUTH_FAILED'' (pe_message pe) (pe_retryable pe)
    else error_answer r 400 ''INVALID_REQUEST'' (pe_message pe) (pe_retryable pe))"
  using create_payment_no_sentinel [OF assms(1)] assms(2,3)
  by (auto simp: payments_fail_def respond_error_answer providerHTTPStatus_def definitive_def)

text \<open>What the answer to a new order is, given the provider's: the page to pay on, the refusal, or the
  advice to wait.\<close>

definition order_answer :: "api \<Rightarrow> http_request \<Rightarrow> uuid \<Rightarrow> go_err + provider_payment \<Rightarrow> response \<Rightarrow> bool" where
  "order_answer D r pid x res \<longleftrightarrow> (case x of
     Inr pp \<Rightarrow> rs_status res = 201 \<and> (\<exists>y. rs_body res = PaymentBody y \<and> dy_id y = id_text D pid \<and>
       dy_status y = ''pending'' \<and> dy_checkout_url y = Some (pp_checkout_url pp))
   | Inl e \<Rightarrow> (case as_provider_error e of
       Some pe \<Rightarrow>
         if pe_code pe = CodeInvalidRequest
         then res = error_answer r 400 ''INVALID_REQUEST'' (pe_message pe) (pe_retryable pe)
         else if pe_code pe = CodeAuthFailed
         then res = error_answer r 502 ''PROVIDER_AUTH_FAILED'' (pe_message pe) (pe_retryable pe)
         else res = JSON 202 (PaymentPendingBody \<lparr>dn_id = id_text D pid, dn_status = ''creation_unknown'',
           dn_checkout_url = None, dn_retry_after = 2\<rparr>)
     | None \<Rightarrow> False))"

lemma endpoint_new:
  assumes c: "create_call D r app key input" "calm w" and v: "validate (se_net E) (service_urls E) app key input = Inr i"
    and o: "can_order E app key i w account client row p op rq"
    and reply: "yk_create_payment (se_yk E) client (provider_request E (the_local E (w_db w) p op) i)
      (w_replies w (w_calls w)) = (out, x)"
    and st: "storable (w_db w) row x"
  shows "\<exists>v res. run (create_payment_handler D E r) w = Some (res, v) \<and> order_answer D r (p_id row) x res \<and>
    w_wire v = w_wire w @ (case out of None \<Rightarrow> [] | Some q \<Rightarrow> [q])"
proof -
  obtain p' v where v: "run (create E app input key) w = Some (final_answer x p', v)"
    "of_row (final_row E w x row) p'" "w_wire v = w_wire w @ (case out of None \<Rightarrow> [] | Some q \<Rightarrow> [q])"
    using run_create_order [OF c(2) v o reply st] by blast
  let ?res = "case final_answer x p' of Inl e \<Rightarrow> payments_fail r e | Inr b \<Rightarrow> write_create_result D b"
  have none: "p_checkout_url row = None"
    using o by (auto simp: can_order_def order_open_def new_row_def payment_values_def and_then_eq_Inr)
  have "order_answer D r (p_id row) x ?res"
  proof (cases x)
    case (Inr pp)
    then show ?thesis
      using v(2) by (simp add: order_answer_def final_answer_def write_create_result_def NewPayment_def of_row_def
          final_row_def pending_row_def creating_row_def set_created_def)
  next
    case (Inl e)
    then obtain pe where pe: "as_provider_error e = Some pe"
      using create_payment_is_provider_error reply by blast
    then have code: "code_of_error e = pe_code pe" by (simp add: code_of_error_def)
    show ?thesis
    proof (cases "definitive (pe_code pe)")
      case True
      then show ?thesis
        using payments_fail_definitive [OF reply [unfolded Inl] pe True, of r] Inl pe code
        by (auto simp: order_answer_def final_answer_def definitive_def)
    next
      case False
      then show ?thesis
        using v(2) Inl pe code none
        by (auto simp: order_answer_def final_answer_def definitive_def write_create_result_def NewPaymentPending_def
            of_row_def final_row_def Let_def unknown_row_def creating_row_def)
    qed
  qed
  with run_create_handler [OF c(1) v(1)] v(3) show ?thesis by blast
qed

text \<open>C23. What \<open>POST /v1/payments\<close> answers, for an authenticated caller with a readable body.
  A request \<open>validate\<close> refuses is answered 400 INVALID_REQUEST. A key used before is answered with the
  stored payment (202 while it has no checkout page, else 201) when the body has the same fingerprint, and
  409 IDEMPOTENCY_CONFLICT when not. A new request is answered 409 PAYMENT_ALREADY_SUCCEEDED when its
  order is paid, 422 PROVIDER_NOT_CONFIGURED when the application has no default account, and 409 CONFLICT
  when an attempt of the order is open. In all these cases no row changes and nothing is sent. An order
  that can be placed is answered by what the provider says: 201 with the page to pay on, 400
  INVALID_REQUEST or 502 PROVIDER_AUTH_FAILED when it refuses, and 202 with the advice to ask again in
  two seconds when the outcome is unknown.\<close>

theorem create_endpoint_answers:
  assumes "create_call D r app key input" "calm w"
  shows "(\<forall>e. validate (se_net E) (service_urls E) app key input = Inl e \<longrightarrow>
      run (create_payment_handler D E r) w =
        Some (error_answer r 400 ''INVALID_REQUEST'' (public_message e) False, w)) \<and>
    (\<forall>i. validate (se_net E) (service_urls E) app key input = Inr i \<longrightarrow>
      (\<forall>rq pid row p. pg_text key \<and>
         one_row (\<lambda>r. i_application_id r = app_id app \<and> i_idempotency_key r = key) (db_idempotency (w_db w)) = Inr rq \<and>
         i_payment_id rq = Some pid \<and>
         one_row (\<lambda>r. p_id r = pid \<and> p_application_id r = app_id app) (db_payments (w_db w)) = Inr row \<and>
         to_payment (se_decode_metadata E) row = Inr p \<longrightarrow>
         (\<exists>v. run (create_payment_handler D E r) w = Some
            (if i_request_hash rq \<noteq> request_hash (se_sha E) i
             then error_answer r 409 ''IDEMPOTENCY_CONFLICT'' ''this Idempotency-Key was used with a different request'' False
             else if \<not> terminal (p_status row) \<and> p_checkout_url row = None
             then JSON 202 (PaymentPendingBody \<lparr>dn_id = id_text D (p_id row), dn_status = status_text (p_status row),
                    dn_checkout_url = None, dn_retry_after = 2\<rparr>)
             else JSON 201 (PaymentBody (NewPayment (id_text D) p)), v) \<and> untouched w v)) \<and>
      (\<forall>x. pg_text key \<and> pg_text (in_order_id i) \<and>
         (\<forall>q \<in> set (db_idempotency (w_db w)). \<not> (i_application_id q = app_id app \<and> i_idempotency_key q = key)) \<and>
         x \<in> set (db_payments (w_db w)) \<and> p_application_id x = app_id app \<and> p_order_id x = in_order_id i \<and>
         p_status x = StatusSucceeded \<longrightarrow>
         (\<exists>v. run (create_payment_handler D E r) w = Some
            (error_answer r 409 ''PAYMENT_ALREADY_SUCCEEDED'' ''this order has already been paid'' False, v) \<and> untouched w v)) \<and>
      (order_new (app_id app) key i (w_db w) \<and>
         get_default_provider_account (app_id app) Pool (w_db w) = (Inl (Sentinel ErrNoRows), w_db w) \<longrightarrow>
         (\<exists>v. run (create_payment_handler D E r) w = Some
            (error_answer r 422 ''PROVIDER_NOT_CONFIGURED''
               ''no active provider account is configured for this application'' False, v) \<and> untouched w v)) \<and>
      (\<forall>account row x. order_new (app_id app) key i (w_db w) \<and>
         get_default_provider_account (app_id app) Pool (w_db w) = (Inr account, w_db w) \<and>
         new_row E app account i (w_db w) = Inr row \<and> payment_checks row \<and>
         x \<in> set (db_payments (w_db w)) \<and> p_application_id x = app_id app \<and> p_order_id x = p_order_id row \<and>
         \<not> terminal (p_status x) \<longrightarrow>
         (\<exists>v n. run (create_payment_handler D E r) w = Some
            (error_answer r 409 ''CONFLICT'' ''an unfinished payment attempt already exists for this order'' False, v) \<and>
           w_wire v = w_wire w \<and> w_db v = (w_db w)\<lparr>db_next := n\<rparr>)) \<and>
      (\<forall>account client row p op rq out x. can_order E app key i w account client row p op rq \<and>
         yk_create_payment (se_yk E) client (provider_request E (the_local E (w_db w) p op) i)
           (w_replies w (w_calls w)) = (out, x) \<and> storable (w_db w) row x \<longrightarrow>
         (\<exists>v res. run (create_payment_handler D E r) w = Some (res, v) \<and> order_answer D r (p_id row) x res \<and>
           w_wire v = w_wire w @ (case out of None \<Rightarrow> [] | Some q \<Rightarrow> [q]))))"
proof (intro conjI allI impI; (elim conjE)?)
qed (rule endpoint_invalid [OF assms(1)] endpoint_used_key [OF assms] endpoint_paid [OF assms]
    endpoint_no_account [OF assms] endpoint_active [OF assms] endpoint_new [OF assms]; assumption)+

text \<open>The counter of the demo installation: it reads every body as the demo order with a given amount.\<close>

definition demo_http_order :: "int64 \<Rightarrow> http_env" where
  "demo_http_order amount = \<lparr>hx_match = (\<lambda>_ _ _. NoRoute), hx_pattern = concat, hx_uuid_text = se_uuid_text demo_env,
     hx_parse_uuid = (\<lambda>_. None), hx_read_application = (\<lambda>_. JsonBad []), hx_read_api_key = (\<lambda>_. JsonBad []),
     hx_read_attach = (\<lambda>_. JsonBad []), hx_read_payment = (\<lambda>_. JsonValue \<lparr>qc_order_id = ''1'', qc_amount = amount,
       qc_currency = [], qc_description = [], qc_return_url = None, qc_metadata = None\<rparr> []),
     hx_read_attempt = (\<lambda>_. JsonBad [])\<rparr>"

definition demo_counter :: "int64 \<Rightarrow> api" where
  "demo_counter amount = \<lparr>d_http = demo_http_order amount, d_apps = \<lparr>ap_production = True, ap_cipher = demo_cipher,
       ap_sha = (\<lambda>m. m), ap_net = se_net demo_env\<rparr>,
     d_payments = Some demo_env, d_yk = demo_yk_env, d_admin_token = [], d_api_url = [], d_metrics = False\<rparr>"

definition demo_post :: http_request where
  "demo_post = \<lparr>hr_method = ''POST'', hr_path = ''/payments'', hr_header = (\<lambda>_. ''k''), hr_query = (\<lambda>_. []),
     hr_body = [], hr_request_id = ''r'', hr_param = (\<lambda>_. []),
     hr_auth = Some \<lparr>au_application = demo_shop, au_key_id = 1\<rparr>\<rparr>"

lemma demo_create_call: "create_call (demo_counter amount) demo_post demo_shop ''k'' (demo_order\<lparr>in_amount_minor := amount\<rparr>)"
  by (simp add: create_call_def demo_counter_def demo_http_order_def demo_post_def decode_json_def body_text_def
      body_too_large_def create_input_def demo_order_def)

theorem create_endpoint_answers_witness:
  "(\<exists>res v. run (create_payment_handler (demo_counter 100) demo_env demo_post) (demo_later demo_pending) = Some (res, v) \<and>
      rs_status res = 201) \<and>
   (\<exists>v. run (create_payment_handler (demo_counter 1000) demo_env demo_post) (demo_later demo_pending) =
      Some (error_answer demo_post 409 ''IDEMPOTENCY_CONFLICT''
        ''this Idempotency-Key was used with a different request'' False, v)) \<and>
   (\<exists>res v. run (create_payment_handler (demo_counter 100) demo_env demo_post) (demo_world (\<lambda>_. HttpResp 200 ''pending'')) =
      Some (res, v) \<and> rs_status res = 201 \<and> w_wire v = [demo_wire]) \<and>
   (\<exists>v. run (create_payment_handler (demo_counter 100) demo_env demo_post) (demo_world (\<lambda>_. NetFail True ''x'')) =
      Some (JSON 202 (PaymentPendingBody \<lparr>dn_id = ''E'', dn_status = ''creation_unknown'', dn_checkout_url = None,
        dn_retry_after = 2\<rparr>), v))"
proof -
  have same: "demo_order\<lparr>in_amount_minor := 100\<rparr> = demo_order" "demo_order\<lparr>in_amount_minor := 1000\<rparr> = demo_dearer"
    by (simp_all add: demo_order_def demo_dearer_def)
  obtain p where p: "to_payment (se_decode_metadata demo_env) demo_pending = Inr p" using demo_pending_payment by blast
  have key: "pg_text ''k''" by code_simp
  have rq: "one_row (\<lambda>r. i_application_id r = app_id demo_shop \<and> i_idempotency_key r = ''k'')
      (db_idempotency (w_db (demo_later demo_pending))) = Inr demo_request"
    "i_payment_id demo_request = Some 4" "i_request_hash demo_request = [101]"
    "one_row (\<lambda>r. p_id r = 4 \<and> p_application_id r = app_id demo_shop) (db_payments (w_db (demo_later demo_pending)))
      = Inr demo_pending"
    by (simp_all add: one_row_def demo_request_def demo_shop_def)
  note call = demo_create_call [of 100, unfolded same(1)] demo_create_call [of 1000, unfolded same(2)]
  note valid = create_endpoint_answers [where E = demo_env, THEN conjunct2, THEN spec, THEN mp]
  note used = valid [THEN conjunct1, rule_format, OF _ _ _ conjI [OF key conjI [OF rq(1) conjI [OF rq(2) conjI [OF rq(4) p]]]]]
  note placed = valid [THEN conjunct2, THEN conjunct2, THEN conjunct2, THEN conjunct2, rule_format,
      OF call(1) demo_calm demo_validate conjI [OF demo_can_order conjI]]
  have "\<exists>v. run (create_payment_handler (demo_counter 100) demo_env demo_post) (demo_later demo_pending) =
      Some (JSON 201 (PaymentBody (NewPayment (id_text (demo_counter 100)) p)), v)"
    using used [OF call(1) demo_later_sel(1) demo_validate] by (auto simp: rq demo_hash)
  moreover have "\<exists>v. run (create_payment_handler (demo_counter 1000) demo_env demo_post) (demo_later demo_pending) =
      Some (error_answer demo_post 409 ''IDEMPOTENCY_CONFLICT''
        ''this Idempotency-Key was used with a different request'' False, v)"
    using used [OF call(2) demo_later_sel(1) demo_dearer_valid(1)] by (auto simp: rq demo_dearer_valid)
  moreover have "\<exists>res v. run (create_payment_handler (demo_counter 100) demo_env demo_post)
      (demo_world (\<lambda>_. HttpResp 200 ''pending'')) = Some (res, v) \<and> rs_status res = 201 \<and> w_wire v = [demo_wire]"
    using placed [of "\<lambda>_. HttpResp 200 ''pending''", unfolded demo_reply, OF demo_accepted demo_storable]
    by (fastforce simp: order_answer_def)
  moreover have "id_text (demo_counter 100) (p_id demo_row) = ''E''"
    by (simp add: demo_counter_def demo_http_order_def demo_row_def demo_env_def)
  then have "\<exists>v. run (create_payment_handler (demo_counter 100) demo_env demo_post) (demo_world (\<lambda>_. NetFail True ''x'')) =
      Some (JSON 202 (PaymentPendingBody \<lparr>dn_id = ''E'', dn_status = ''creation_unknown'', dn_checkout_url = None,
        dn_retry_after = 2\<rparr>), v)"
    using placed [of "\<lambda>_. NetFail True ''x''", unfolded demo_reply, OF demo_timed_out demo_storable]
    by (fastforce simp: order_answer_def demo_timeout_def)
  ultimately show ?thesis by auto
qed

end
