(* ===== verification/StartProperties.thy ===== *)
theory StartProperties
  imports ComponentProperties ApiProperties
begin

text \<open>
  The start of the API process: what the environment must hold for it to serve, and what of it reaches
  the services.
\<close>

lemma Load_config:
  assumes "Load env = Inr c"
  shows "DatabaseURL c = env ''DATABASE_URL'' \<and> DatabaseURL c \<noteq> [] \<and>
    MasterEncryptionKey c = env ''MASTER_ENCRYPTION_KEY'' \<and> MasterEncryptionKey c \<noteq> [] \<and>
    MasterEncryptionPreviousKeys c = env ''MASTER_ENCRYPTION_PREVIOUS_KEYS'' \<and>
    AdminToken c = env ''ADMIN_TOKEN'' \<and> (IsProduction c \<longleftrightarrow> env ''APP_ENV'' = ''production'')"
proof -
  have "DatabaseURL (base_config env) \<noteq> [] \<and> MasterEncryptionKey (base_config env) \<noteq> [] \<and>
      (\<exists>n p w s. c = (base_config env)\<lparr>WorkerConcurrency := n, PaymentPollInterval := p,
         ProviderIdempotencyWindow := w, ShutdownTimeout := s\<rparr>)"
    using assms unfolding Load_def Let_def by (auto simp: and_then_eq_Inr split: if_splits)
  then show ?thesis
    by (elim conjE exE) (simp add: base_config_def getenv_def IsProduction_def Let_def)
qed

lemma start_api_deps:
  assumes "start_api env L = Inr D"
  obtains c ci where "Load env = Inr c" "D = deps L c ci" "RunMigrations (ln_migrator L) (DatabaseURL c) = None"
    "NewPool L (DatabaseURL c) = None"
    "new_cipher (ln_crypto L) (MasterEncryptionKey c) (MasterEncryptionPreviousKeys c) = Inr ci"
  using assms by (auto simp: start_api_def and_then_eq_Inr split: option.splits)

text \<open>C40. What the API serves is what its environment says. If the process starts, the database URL and
  a well-formed master key were given, the migrations were applied and the database answered; both
  services encrypt with the ring of exactly those keys and hold outbound URLs to the production policy
  (https to public addresses only) exactly when \<open>APP_ENV\<close> is \<open>production\<close>; and if \<open>ADMIN_TOKEN\<close> is
  blank, every request to the administrative API is answered 503 and does nothing.\<close>

theorem api_start_is_guarded:
  assumes "start_api env L = Inr D"
  shows "env ''DATABASE_URL'' \<noteq> [] \<and> env ''MASTER_ENCRYPTION_KEY'' \<noteq> [] \<and>
    RunMigrations (ln_migrator L) (env ''DATABASE_URL'') = None \<and> NewPool L (env ''DATABASE_URL'') = None \<and>
    new_cipher (ln_crypto L) (env ''MASTER_ENCRYPTION_KEY'') (env ''MASTER_ENCRYPTION_PREVIOUS_KEYS'') =
      Inr (ap_cipher (d_apps D)) \<and>
    (\<exists>E. d_payments D = Some E \<and> se_cipher E = ap_cipher (d_apps D) \<and> service_urls E = apps_urls (d_apps D)) \<and>
    (allow_http (apps_urls (d_apps D)) \<longleftrightarrow> env ''APP_ENV'' \<noteq> ''production'') \<and>
    (allow_private (apps_urls (d_apps D)) \<longleftrightarrow> env ''APP_ENV'' \<noteq> ''production'') \<and>
    (trim_space (env ''ADMIN_TOKEN'') = [] \<longrightarrow>
       (\<forall>r w. \<exists>res. run (admin D r) w = Some (res, w) \<and> rs_status res = 503))"
proof -
  obtain c ci where c: "Load env = Inr c" "D = deps L c ci" "RunMigrations (ln_migrator L) (DatabaseURL c) = None"
    "NewPool L (DatabaseURL c) = None"
    "new_cipher (ln_crypto L) (MasterEncryptionKey c) (MasterEncryptionPreviousKeys c) = Inr ci"
    by (rule start_api_deps [OF assms])
  have D: "ap_cipher (d_apps D) = ci" "d_payments D = Some (payments_service L c ci)" "d_admin_token D = AdminToken c"
    "ap_production (d_apps D) = IsProduction c"
    by (simp_all add: c(2) deps_def apps_service_def)
  have admin: "run (admin D r) w = Some (respond_error r 503 InternalError
      ''admin API is disabled: ADMIN_TOKEN is not configured'' False, w)" if "trim_space (env ''ADMIN_TOKEN'') = []" for r w
    using that Load_config [OF c(1)] by (simp add: admin_def RequireAdmin_def D)
  show ?thesis
    using Load_config [OF c(1)] c(3-5) admin
    by (auto simp: D apps_urls_def service_urls_def payments_service_def)
qed

definition demo_environment :: environment where
  "demo_environment v = (if v = ''DATABASE_URL'' then ''postgres://d''
     else if v = ''MASTER_ENCRYPTION_KEY'' then hex_encode demo_old_key
     else if v = ''APP_ENV'' then ''production'' else [])"

definition demo_linked :: linked where
  "demo_linked = \<lparr>ln_http = demo_http, ln_crypto = demo_crypto, ln_net = se_net demo_env, ln_pg = se_pg demo_env,
     ln_yk = demo_yk_env, ln_decode_metadata = se_decode_metadata demo_env,
     ln_migrator = \<lparr>mg_source = None, mg_open = (\<lambda>_. None), mg_up = Some ErrNoChange, mg_down = None,
       mg_version = Inl ErrNilVersion, mg_force = (\<lambda>_. None)\<rparr>,
     ln_parse_config = (\<lambda>_. None), ln_connect = (\<lambda>_. None), ln_ping = None\<rparr>"

theorem api_start_is_guarded_witness:
  "\<exists>D. start_api demo_environment demo_linked = Inr D \<and> \<not> allow_http (apps_urls (d_apps D)) \<and>
     (\<exists>res. run (admin D demo_list_apps) demo_random = Some (res, demo_random) \<and> rs_status res = 503)"
proof -
  have "trim_space [] = []" by simp
  obtain D where D: "start_api demo_environment demo_linked = Inr D"
    by (auto simp: start_api_def Load_def base_config_def Let_def getenv_def getenvInt_def getenvDuration_def
        demo_environment_def hex_key_nonempty RunMigrations_def demo_linked_def NewPool_def new_cipher_def demo_keys_parse)
  have env: "demo_environment ''APP_ENV'' = ''production''" "trim_space (demo_environment ''ADMIN_TOKEN'') = []"
    by (simp_all add: demo_environment_def)
  from api_start_is_guarded [OF D] env have "\<not> allow_http (apps_urls (d_apps D))"
    "\<exists>res. run (admin D demo_list_apps) demo_random = Some (res, demo_random) \<and> rs_status res = 503"
    by blast+
  with D show ?thesis by blast
qed

end
