(* ===== verification/Observations.thy ===== *)
theory Observations
  imports Handlers
begin

text \<open>
  Small facts about corners of the API where the code and its comments or documents disagree.
\<close>

text \<open>A canceled payment is shown with a time at which it was paid.\<close>

lemma canceled_payment_reports_paid_at:
  "to_payment decode (set_canceled t row) = Inr p \<Longrightarrow>
     dy_status (NewPayment txt p) = ''canceled'' \<and> dy_paid_at (NewPayment txt p) = Some t"
  "to_payment decode (apply_status StatusCanceled next t row) = Inr p \<Longrightarrow>
     dy_status (NewPayment txt p) = ''canceled'' \<and> dy_paid_at (NewPayment txt p) = Some t"
  by (auto simp: NewPayment_def set_canceled_def apply_status_def dest!: to_payment_of_row simp: of_row_def)

text \<open>Whatever the check of a provider account failed with, the account needs attention, and is then not
  found as the default account.\<close>

lemma any_check_failure_needs_attention:
  "fst (check_outcome (Some e)) = ProviderStatusNeedsAttention"
  "c_status row = ProviderStatusNeedsAttention \<Longrightarrow> db_accounts d = [row] \<Longrightarrow> own_txs Pool d = [] \<Longrightarrow>
     fst (get_default_provider_account app Pool d) = Inl (Sentinel ErrNoRows)"
  by (simp_all add: check_outcome_def get_default_provider_account_def one_row_def visible_def
      ProviderStatusNeedsAttention_def)

text \<open>A validation error of the payments package keeps its sentinel.\<close>

lemma payments_prefix_shown:
  "public_message (invalid ''x'') = ''payments: validation failed: x''"
  "public_message (app_validation ''x'') = ''x''"
  by code_simp+

end
