(* ===== verification/StepRelations.thy ===== *)
theory StepRelations
  imports Programs
begin

text \<open>
  What every single action of a program does to the state, whatever the state it finds: \<open>every R p\<close>
  says that each action of \<open>p\<close> relates the state before it to the state after it by \<open>R\<close>. No
  assumption on the other programs is needed, so a system of such programs takes only such steps:
  the interface \<open>step_kept\<close> turns the one into the other.
\<close>

inductive every :: "('s \<Rightarrow> 's \<Rightarrow> bool) \<Rightarrow> ('s, 'a) prog \<Rightarrow> bool" for R where
  every_Ret: "every R (Ret a)"
| every_Act: "(\<And>s q t. f s = Some (q, t) \<Longrightarrow> R s t \<and> every R q) \<Longrightarrow> every R (Act f)"

inductive_simps every_simps [simp]: "every R (Ret a)" "every R (Act f)"

lemma every_bindP: "every R p \<Longrightarrow> (\<And>a. every R (k a)) \<Longrightarrow> every R (bindP p k)"
proof (induction rule: every.induct)
  case (every_Act f)
  then show ?case unfolding bindP.simps(2) by (intro every.every_Act) auto
qed simp

lemma every_bindE: "every R p \<Longrightarrow> (\<And>a. every R (k a)) \<Longrightarrow> every R (bindE p k)"
  unfolding bindE_def by (rule every_bindP) (auto split: sum.split)

lemma every_act: "(\<And>s. R s (snd (f s))) \<Longrightarrow> every R (act f)"
  unfolding act_def by (rule every_Act) (auto split: prod.splits, metis snd_conv)

lemma every_act_if: "(\<And>s. g s \<Longrightarrow> R s (snd (f s))) \<Longrightarrow> every R (act_if g f)"
  unfolding act_if_def by (rule every_Act) (auto split: prod.splits if_splits, metis snd_conv)

lemma every_run: "every R p \<Longrightarrow> run p s = Some (a, t) \<Longrightarrow> (\<And>x. R x x) \<Longrightarrow>
    (\<And>x y z. R x y \<Longrightarrow> R y z \<Longrightarrow> R x z) \<Longrightarrow> R s t"
proof (induction arbitrary: s rule: every.induct)
  case (every_Act f)
  from every_Act.prems(1) obtain q u where "f s = Some (q, u)" "run q u = Some (a, t)"
    by (auto simp: run_Act split: option.splits)
  then show ?case
    using every_Act.IH [of s q u] every_Act.prems(2,3) by blast
qed simp

definition all_keep :: "('s \<Rightarrow> 's \<Rightarrow> bool) \<Rightarrow> ('s, 'a) system \<Rightarrow> bool" where
  "all_keep R c \<longleftrightarrow> (\<forall>i p. threads c i = Some p \<longrightarrow> every R p)"

text \<open>The interface: a relation the environment respects.\<close>

locale step_kept =
  fixes R :: "'s \<Rightarrow> 's \<Rightarrow> bool" and env :: "'s \<Rightarrow> 's \<Rightarrow> bool"
  assumes R_refl: "R s s"
    and R_trans: "R s t \<Longrightarrow> R t u \<Longrightarrow> R s u"
    and env_R: "env s t \<Longrightarrow> R s t"
begin

lemma step_keeps:
  assumes "\<And>p. p \<in> progs \<Longrightarrow> every R p" "sys_step progs env c c'" "all_keep R c"
  shows "all_keep R c' \<and> R (shared c) (shared c')"
  using assms(2)
proof cases
  case (step_act i f p s')
  then have "every R (Act f)" using assms(3) unfolding all_keep_def by blast
  then have "R (shared c) s' \<and> every R p" using step_act(3) by simp
  with step_act assms(3) show ?thesis by (auto simp: all_keep_def)
next
  case (step_spawn i p)
  with assms(1,3) show ?thesis by (auto simp: all_keep_def R_refl)
next
  case (step_env s')
  with assms(3) env_R show ?thesis by (auto simp: all_keep_def)
qed

lemma reach_all_keep:
  assumes "\<And>p. p \<in> progs \<Longrightarrow> every R p" "sys_reach progs env s0 c"
  shows "all_keep R c \<and> R s0 (shared c)"
  using assms(2)
proof induction
  case reach_init
  show ?case by (simp add: all_keep_def R_refl)
next
  case (reach_step c c')
  with step_keeps [OF assms(1)] R_trans show ?case by blast
qed

text \<open>From a reachable configuration on.\<close>

lemma later_keeps:
  assumes "\<And>p. p \<in> progs \<Longrightarrow> every R p" "sys_reach progs env s0 c" "(sys_step progs env)\<^sup>*\<^sup>* c c'"
  shows "all_keep R c' \<and> R (shared c) (shared c')"
  using assms(3)
proof (induction rule: rtranclp_induct)
  case base
  show ?case using reach_all_keep [OF assms(1,2)] by (simp add: R_refl)
next
  case (step c1 c2)
  with step_keeps [OF assms(1)] R_trans show ?case by blast
qed

end

end
