(* ===== verification/RecordSteps.thy ===== *)
theory RecordSteps
  imports ApiSystem Alone StepRelations
begin

text \<open>
  Applications, API keys and provider accounts as every statement of the program treats them,
  under any interleaving and with any faults: rows are only added; of a row only the columns that
  have an operation for it change, and a key once revoked stays revoked; and the unique indexes
  hold over the committed rows and those of open transactions together.
\<close>

subsection \<open>What may happen to a row\<close>

definition same_application :: "application_row \<Rightarrow> application_row \<Rightarrow> bool" where
  "same_application r s \<longleftrightarrow>
     s = r\<lparr>a_webhook_secret_encrypted := a_webhook_secret_encrypted s, a_updated_at := a_updated_at s\<rparr>"

definition same_key :: "api_key_row \<Rightarrow> api_key_row \<Rightarrow> bool" where
  "same_key r s \<longleftrightarrow> s = r\<lparr>k_last_used_at := k_last_used_at s, k_revoked_at := k_revoked_at s\<rparr> \<and>
     (k_revoked_at r = None \<or> k_revoked_at s = k_revoked_at r)"

definition same_account :: "account_row \<Rightarrow> account_row \<Rightarrow> bool" where
  "same_account r s \<longleftrightarrow> s = r\<lparr>c_status := c_status s, c_updated_at := c_updated_at s\<rparr>"

text \<open>A table afterwards: its rows, each possibly changed, and new ones behind them.\<close>

definition extends :: "('r \<Rightarrow> 'r \<Rightarrow> bool) \<Rightarrow> 'r list \<Rightarrow> 'r list \<Rightarrow> bool" where
  "extends same old new \<longleftrightarrow> length old \<le> length new \<and> (\<forall>i < length old. same (old ! i) (new ! i))"

definition records_extend :: "database \<Rightarrow> database \<Rightarrow> bool" where
  "records_extend d d' \<longleftrightarrow> extends same_application (db_applications d) (db_applications d') \<and>
     extends same_key (db_api_keys d) (db_api_keys d') \<and> extends same_account (db_accounts d) (db_accounts d')"

text \<open>The unique indexes, over committed and pending rows; transactions have distinct names.\<close>

definition with_pending :: "(database \<Rightarrow> 'r list) \<Rightarrow> (tx \<Rightarrow> 'r list) \<Rightarrow> database \<Rightarrow> 'r list" where
  "with_pending rows pending d = rows d @ concat (map pending (db_txs d))"

definition txs_wf :: "database \<Rightarrow> bool" where
  "txs_wf d \<longleftrightarrow> distinct (map t_id (db_txs d)) \<and> list_all (\<lambda>t. t < db_next d) (map t_id (db_txs d))"

definition names_ok :: "database \<Rightarrow> bool" where
  "names_ok d \<longleftrightarrow> txs_wf d \<and> clash_free application_clash (with_pending db_applications t_applications d) \<and>
     clash_free api_key_clash (with_pending db_api_keys t_api_keys d) \<and>
     clash_free account_clash (with_pending db_accounts t_accounts d)"

definition record_step :: "database \<Rightarrow> database \<Rightarrow> bool" where
  "record_step d d' \<longleftrightarrow> records_extend d d' \<and> (names_ok d \<longrightarrow> names_ok d')"

abbreviation world_step :: "world \<Rightarrow> world \<Rightarrow> bool" where
  "world_step w v \<equiv> record_step (w_db w) (w_db v)"

lemma same_refl [simp]: "same_application r r" "same_key k k" "same_account a a"
  by (simp_all add: same_application_def same_key_def same_account_def)

lemma same_application_trans: "same_application r s \<Longrightarrow> same_application s t \<Longrightarrow> same_application r t"
  by (cases r, cases s, cases t) (simp add: same_application_def)

lemma same_key_trans: "same_key r s \<Longrightarrow> same_key s t \<Longrightarrow> same_key r t"
  by (cases r, cases s, cases t) (auto simp: same_key_def)

lemma same_account_trans: "same_account r s \<Longrightarrow> same_account s t \<Longrightarrow> same_account r t"
  by (cases r, cases s, cases t) (simp add: same_account_def)

lemmas same_trans = same_application_trans same_key_trans same_account_trans

lemma extends_refl [simp]: "(\<And>r. same r r) \<Longrightarrow> extends same rows rows"
  by (simp add: extends_def)

lemma extends_trans:
  "(\<And>r s t. same r s \<Longrightarrow> same s t \<Longrightarrow> same r t) \<Longrightarrow> extends same xs ys \<Longrightarrow> extends same ys zs \<Longrightarrow> extends same xs zs"
  unfolding extends_def by (meson le_trans less_le_trans)

lemma extends_append [simp]: "(\<And>r. same r r) \<Longrightarrow> extends same rows (rows @ new)"
  by (simp add: extends_def nth_append)

lemma extends_map: "(\<And>r. same r (f r)) \<Longrightarrow> extends same rows (map f rows)"
  by (simp add: extends_def)

lemma records_extend_refl [simp]: "records_extend d d"
  by (simp add: records_extend_def)

lemma records_extend_trans: "records_extend d1 d2 \<Longrightarrow> records_extend d2 d3 \<Longrightarrow> records_extend d1 d3"
  unfolding records_extend_def by (blast intro: extends_trans same_trans)

lemma record_step_refl [simp]: "record_step d d"
  by (simp add: record_step_def)

lemma record_step_trans: "record_step d1 d2 \<Longrightarrow> record_step d2 d3 \<Longrightarrow> record_step d1 d3"
  unfolding record_step_def by (blast intro: records_extend_trans)

subsection \<open>Rows of transactions\<close>

lemma pending_split:
  "mset (concat (map f (filter P xs))) + mset (concat (map f (filter (\<lambda>x. \<not> P x) xs))) = mset (concat (map f xs))"
  by (induction xs) auto

lemma update_one:
  assumes "distinct (map t_id txs)"
  obtains "t \<notin> t_id ` set txs" "update_where (\<lambda>x. t_id x = t) f txs = txs"
  | as x bs where "txs = as @ x # bs" "t_id x = t" "update_where (\<lambda>x. t_id x = t) f txs = as @ f x # bs"
proof (cases "t \<in> t_id ` set txs")
  case False
  then have "update_where (\<lambda>x. t_id x = t) f txs = txs"
    unfolding update_where_def by (intro map_idI) auto
  with False that(1) show thesis by blast
next
  case True
  then obtain x where "x \<in> set txs" "t_id x = t" by auto
  then obtain as bs where txs: "txs = as @ x # bs" by (meson split_list)
  have "map (\<lambda>y. if t_id y = t then f y else y) ys = ys" if "t \<notin> t_id ` set ys" for ys
    using that by (intro map_idI) auto
  then have "update_where (\<lambda>x. t_id x = t) f txs = as @ f x # bs"
    using assms \<open>t_id x = t\<close> by (auto simp: txs update_where_def)
  with txs \<open>t_id x = t\<close> that(2) show thesis by blast
qed

context keyed begin

text \<open>A new row free of all others, committed or pending in one transaction; the commit; an end without it.\<close>

lemma put_committed:
  "clash_free clash (rows @ pend) \<Longrightarrow> free_of clash r (rows @ pend) \<Longrightarrow> clash_free clash ((rows @ [r]) @ pend)"
  by (rule permuted [of "(rows @ pend) @ [r]"]) (simp_all only: snoc_iff mset_append add.commute add.left_commute simp_thms)

lemma put_pending:
  assumes "clash_free clash (rows @ concat (map pend txs))" "free_of clash r (rows @ concat (map pend txs))"
    and "distinct (map t_id txs)" "\<And>x. pend (f x) = pend x @ [r]"
  shows "clash_free clash (rows @ concat (map pend (update_where (\<lambda>x. t_id x = t) f txs)))"
  using assms(3)
proof (cases rule: update_one [where t = t and f = f])
  case 1
  then show ?thesis using assms(1) by simp
next
  case (2 as x bs)
  have "clash_free clash ((rows @ concat (map pend txs)) @ [r])"
    unfolding snoc_iff using assms(1,2) by blast
  then show ?thesis
    by (rule permuted [rotated]) (unfold 2(3), simp add: 2(1) assms(4))
qed

lemma commit_pending:
  "clash_free clash (rows @ concat (map pend txs)) \<Longrightarrow>
     clash_free clash ((rows @ concat (map pend (filter P txs))) @ concat (map pend (filter (\<lambda>x. \<not> P x) txs)))"
  by (rule permuted [of "rows @ concat (map pend txs)"]) (simp_all add: pending_split [of pend P txs, symmetric])

lemma drop_pending:
  "clash_free clash (rows @ concat (map pend txs)) \<Longrightarrow> clash_free clash (rows @ concat (map pend (filter P txs)))"
  by (rule part [of _ "rows @ concat (map pend txs)"]) (simp_all add: pending_split [of pend P txs, symmetric])

lemma update_rows:
  "clash_free clash (rows @ pend) \<Longrightarrow> (\<And>r s. clash (f r) s \<longleftrightarrow> clash r s) \<Longrightarrow> clash_free clash (map f rows @ pend)"
proof -
  assume rows: "clash_free clash (rows @ pend)" and f: "\<And>r s. clash (f r) s \<longleftrightarrow> clash r s"
  have "clash r s" if "clash (f r) (f s)" for r s
  proof -
    have "clash (f s) r" by (rule sym) (use that f in simp)
    then have "clash s r" using f by simp
    then show ?thesis by (rule sym)
  qed
  then show ?thesis using rows map_clash_free [of rows f] by (auto simp: append_iff f)
qed

end

lemma free_with_pending:
  "free_of clash r (visible rows pend c d) \<Longrightarrow> free_of clash r (foreign pend c d) \<Longrightarrow>
     free_of clash r (with_pending rows pend d)"
  by (auto simp: free_of_def list_all_iff visible_def foreign_def with_pending_def own_txs_def other_txs_def)

subsection \<open>Statements\<close>

text \<open>Most statements leave these tables and their pending rows alone.\<close>

definition apart :: "database \<Rightarrow> database \<Rightarrow> bool" where
  "apart d d' \<longleftrightarrow> db_applications d' = db_applications d \<and> db_api_keys d' = db_api_keys d \<and>
     db_accounts d' = db_accounts d \<and> db_next d \<le> db_next d' \<and> map t_id (db_txs d') = map t_id (db_txs d) \<and>
     map t_applications (db_txs d') = map t_applications (db_txs d) \<and>
     map t_api_keys (db_txs d') = map t_api_keys (db_txs d) \<and>
     map t_accounts (db_txs d') = map t_accounts (db_txs d)"

lemma apart_step:
  assumes "apart d d'"
  shows "record_step d d'"
proof -
  have "txs_wf d \<longrightarrow> txs_wf d'"
    using assms by (auto simp: txs_wf_def apart_def list_all_iff less_le_trans)
  then show ?thesis
    using assms by (auto simp: record_step_def records_extend_def names_ok_def with_pending_def apart_def)
qed

lemma apart_refl [simp]: "apart d d"
  by (simp add: apart_def)

lemma apart_trans: "apart d1 d2 \<Longrightarrow> apart d2 d3 \<Longrightarrow> apart d1 d3"
  by (simp add: apart_def)

lemma apart_in_tx:
  "(\<And>x. t_id (f x) = t_id x \<and> t_applications (f x) = t_applications x \<and> t_api_keys (f x) = t_api_keys x \<and>
      t_accounts (f x) = t_accounts x) \<Longrightarrow> apart d (in_tx t f d)"
  by (simp add: apart_def in_tx_def update_where_def comp_def)

lemma apart_columns [simp]:
  "apart d (d\<lparr>db_next := Suc (db_next d)\<rparr>)" "apart d (d\<lparr>db_payments := ps\<rparr>)"
  "apart d (d\<lparr>db_operations := os\<rparr>)" "apart d (d\<lparr>db_clock := t\<rparr>)"
  by (simp_all add: apart_def)

lemma apart_put [simp]:
  "apart d (put_payment c p d)" "apart d (put_operation c x d)" "apart d (put_idempotency c i d)"
  "apart d (put_links c ls d)"
  by (auto simp: put_payment_def put_operation_def put_idempotency_def put_links_def split: conn.split
      intro!: apart_in_tx) (simp_all add: apart_def)

lemma apart_after [simp]:
  "apart d (put_payment c p (d\<lparr>db_next := Suc (db_next d)\<rparr>))" "apart d (put_operation c x (d\<lparr>db_next := Suc (db_next d)\<rparr>))"
  "apart d (put_idempotency c i (d\<lparr>db_next := Suc (db_next d)\<rparr>))"
  by (rule apart_trans [OF apart_columns(1)], simp)+

definition step_ok_effect :: "'a effect \<Rightarrow> bool" where
  "step_ok_effect eff \<longleftrightarrow> (\<forall>d. record_step d (snd (eff d)))"

definition step_ok_when :: "(database \<Rightarrow> bool) \<Rightarrow> 'a effect \<Rightarrow> bool" where
  "step_ok_when ready eff \<longleftrightarrow> (\<forall>d. ready d \<longrightarrow> record_step d (snd (eff d)))"

named_theorems kept \<open>programs that keep the records\<close>

lemma kept_ready: "step_ok_effect eff \<Longrightarrow> step_ok_when ready eff"
  by (simp add: step_ok_effect_def step_ok_when_def)

lemma kept_reads: "(\<And>d. snd (eff d) = d) \<Longrightarrow> step_ok_effect eff"
  by (simp add: step_ok_effect_def)

lemma kept_apart: "(\<And>d. apart d (snd (eff d))) \<Longrightarrow> step_ok_effect eff"
  by (simp add: step_ok_effect_def apart_step)

lemma kept_answers [kept]: "step_ok_effect (\<lambda>d. (f d, d))"
  by (rule kept_reads) simp

lemma kept_with_text [kept]: "step_ok_effect eff \<Longrightarrow> step_ok_effect (with_text s eff)"
  by (auto simp: step_ok_effect_def with_text_def split: sum.split)

lemma kept_with_text_opt [kept]: "step_ok_effect eff \<Longrightarrow> step_ok_effect (with_text_opt s eff)"
  by (auto simp: with_text_opt_def intro: kept_with_text split: option.split)

lemma kept_queries [kept]:
  "step_ok_effect (get_payment_for_application pid app c)" "step_ok_effect (get_idempotency_request app key c)"
  "step_ok_effect (order_has_succeeded_payment app order c)" "step_ok_effect (next_attempt_number app order c)"
  "step_ok_effect (list_payments_for_application app opt n c)" "step_ok_effect (count_unfinished_payments c)"
  "step_ok_effect (get_application app c)" "step_ok_effect (list_applications c)"
  "step_ok_effect (get_api_key_by_prefix pre c)" "step_ok_effect (list_api_keys app c)"
  "step_ok_effect (get_provider_account account c)" "step_ok_effect (get_provider_account_by_shop pr sh en c)"
  "step_ok_effect (get_default_provider_account app c)" "step_ok_effect (list_provider_accounts app c)"
  "step_ok_effect ping_query"
  by (rule kept_reads; simp add: get_payment_for_application_def get_idempotency_request_def
      order_has_succeeded_payment_def next_attempt_number_def list_payments_for_application_def
      count_unfinished_payments_def get_application_def list_applications_def get_api_key_by_prefix_def
      list_api_keys_def get_provider_account_def get_provider_account_by_shop_def get_default_provider_account_def
      list_provider_accounts_def ping_query_def with_text_def with_text_opt_def split: sum.split option.split)+

lemma kept_payment_writes [kept]:
  "step_ok_effect (lock_order_for_payment P txt order c)" "step_ok_effect (create_payment P pay c)"
  "step_ok_effect (create_payment_operation P oper c)" "step_ok_effect (create_idempotency_request app key hash pido c)"
  "step_ok_effect (start_payment_operation oid)" "step_ok_effect (complete_payment_operation oid st err)"
  "step_ok_effect (update_payments cond f)" "step_ok_effect (attach_provider_account app account b c)"
  "step_ok_effect (clear_default_provider app c)"
  by (rule kept_apart; auto simp: lock_order_for_payment_def with_text_def create_payment_def
      create_payment_operation_def create_idempotency_request_def start_payment_operation_def
      complete_payment_operation_def update_operations_def update_payments_def attach_provider_account_def
      clear_default_provider_def fresh_id_def Let_def apart_in_tx split: sum.split conn.split)+

text \<open>The statements on the three tables.\<close>

lemma pending_update [simp]:
  "(\<And>x. pend (f x) = pend x) \<Longrightarrow> map pend (update_where cond f txs) = map pend txs"
  by (simp add: update_where_def)

lemma put_others [simp]:
  "with_pending db_api_keys t_api_keys (put_application c a d) = with_pending db_api_keys t_api_keys d"
  "with_pending db_accounts t_accounts (put_application c a d) = with_pending db_accounts t_accounts d"
  "with_pending db_applications t_applications (put_api_key c k d) = with_pending db_applications t_applications d"
  "with_pending db_accounts t_accounts (put_api_key c k d) = with_pending db_accounts t_accounts d"
  "with_pending db_applications t_applications (put_account c r d) = with_pending db_applications t_applications d"
  "with_pending db_api_keys t_api_keys (put_account c r d) = with_pending db_api_keys t_api_keys d"
  by (simp_all add: with_pending_def put_application_def put_api_key_def put_account_def in_tx_def split: conn.split)

lemma put_next [simp]:
  "db_next (put_application c a d) = db_next d" "db_next (put_api_key c k d) = db_next d"
  "db_next (put_account c r d) = db_next d"
  by (simp_all add: put_application_def put_api_key_def put_account_def in_tx_def split: conn.split)

lemma put_extends [simp]:
  "records_extend d (put_application c a d)" "records_extend d (put_api_key c k d)" "records_extend d (put_account c r d)"
  by (simp_all add: records_extend_def put_application_def put_api_key_def put_account_def in_tx_def split: conn.split)

lemma put_free_application:
  assumes "txs_wf d" "clash_free application_clash (with_pending db_applications t_applications d)"
    and "free_of application_clash a (with_pending db_applications t_applications d)"
  shows "clash_free application_clash (with_pending db_applications t_applications (put_application c a d))"
proof (cases c)
  case Pool
  with appl.put_committed [OF assms(2,3) [unfolded with_pending_def]] show ?thesis
    by (simp add: put_application_def with_pending_def)
next
  case (Tx t)
  with appl.put_pending [OF assms(2,3) [unfolded with_pending_def]] assms(1) show ?thesis
    by (simp add: put_application_def with_pending_def in_tx_def txs_wf_def)
qed

lemma put_free_key:
  assumes "txs_wf d" "clash_free api_key_clash (with_pending db_api_keys t_api_keys d)"
    and "free_of api_key_clash k (with_pending db_api_keys t_api_keys d)"
  shows "clash_free api_key_clash (with_pending db_api_keys t_api_keys (put_api_key c k d))"
proof (cases c)
  case Pool
  with akey.put_committed [OF assms(2,3) [unfolded with_pending_def]] show ?thesis
    by (simp add: put_api_key_def with_pending_def)
next
  case (Tx t)
  with akey.put_pending [OF assms(2,3) [unfolded with_pending_def]] assms(1) show ?thesis
    by (simp add: put_api_key_def with_pending_def in_tx_def txs_wf_def)
qed

lemma put_free_account:
  assumes "txs_wf d" "clash_free account_clash (with_pending db_accounts t_accounts d)"
    and "free_of account_clash r (with_pending db_accounts t_accounts d)"
  shows "clash_free account_clash (with_pending db_accounts t_accounts (put_account c r d))"
proof (cases c)
  case Pool
  with acct.put_committed [OF assms(2,3) [unfolded with_pending_def]] show ?thesis
    by (simp add: put_account_def with_pending_def)
next
  case (Tx t)
  with acct.put_pending [OF assms(2,3) [unfolded with_pending_def]] assms(1) show ?thesis
    by (simp add: put_account_def with_pending_def in_tx_def txs_wf_def)
qed

lemma step_put:
  "free_of application_clash a (with_pending db_applications t_applications d) \<Longrightarrow> record_step d (put_application c a d)"
  "free_of api_key_clash k (with_pending db_api_keys t_api_keys d) \<Longrightarrow> record_step d (put_api_key c k d)"
  "free_of account_clash r (with_pending db_accounts t_accounts d) \<Longrightarrow> record_step d (put_account c r d)"
  by (simp_all add: record_step_def names_ok_def put_free_application put_free_key put_free_account) (simp_all add: txs_wf_def)

lemma step_inserted:
  assumes "\<And>d. with_pending rows pend (d\<lparr>db_next := Suc (db_next d)\<rparr>) = with_pending rows pend d"
    and "\<And>d. free_of clash r (with_pending rows pend d) \<Longrightarrow> record_step d (put d)"
    and "free_of clash r (visible rows pend c d)" "free_of clash r (foreign pend c d)"
  shows "record_step d (put (d\<lparr>db_next := Suc (db_next d)\<rparr>))"
  by (rule record_step_trans [OF apart_step [OF apart_columns(1)]])
    (rule assms(2), unfold assms(1), rule free_with_pending [OF assms(3,4)])

lemma kept_create_application [kept]: "step_ok_when (create_application_ready ca c) (create_application ca c)"
  by (auto simp: step_ok_when_def create_application_ready_def create_application_def fresh_id_def apart_step
      intro!: step_inserted [where put = "put_application c r" for r] step_put(1) split: sum.split)
    (simp_all add: with_pending_def)

lemma kept_create_api_key [kept]: "step_ok_when (create_api_key_ready ka c) (create_api_key ka c)"
  by (auto simp: step_ok_when_def create_api_key_ready_def create_api_key_def fresh_id_def apart_step
      intro!: step_inserted [where put = "put_api_key c r" for r] step_put(2) split: sum.split)
    (simp_all add: with_pending_def)

lemma kept_create_account [kept]: "step_ok_when (create_account_ready aa c) (create_provider_account aa c)"
  by (auto simp: step_ok_when_def create_account_ready_def create_provider_account_def fresh_id_def apart_step
      intro!: step_inserted [where put = "put_account c r" for r] step_put(3) split: sum.split)
    (simp_all add: with_pending_def)

text \<open>The updates: of columns outside the unique indexes.\<close>

lemma step_update_applications:
  assumes "\<And>r. same_application r (f r)" "\<And>r s. application_clash (f r) s \<longleftrightarrow> application_clash r s"
  shows "record_step d (d\<lparr>db_applications := map f (db_applications d)\<rparr>)"
  using appl.update_rows [OF _ assms(2)] extends_map [of same_application f, OF assms(1)]
  by (simp add: record_step_def records_extend_def names_ok_def txs_wf_def with_pending_def)

lemma step_update_keys:
  assumes "\<And>r. same_key r (f r)" "\<And>r s. api_key_clash (f r) s \<longleftrightarrow> api_key_clash r s"
  shows "record_step d (d\<lparr>db_api_keys := map f (db_api_keys d)\<rparr>)"
  using akey.update_rows [OF _ assms(2)] extends_map [of same_key f, OF assms(1)]
  by (simp add: record_step_def records_extend_def names_ok_def txs_wf_def with_pending_def)

lemma step_update_accounts:
  assumes "\<And>r. same_account r (f r)" "\<And>r s. account_clash (f r) s \<longleftrightarrow> account_clash r s"
  shows "record_step d (d\<lparr>db_accounts := map f (db_accounts d)\<rparr>)"
  using acct.update_rows [OF _ assms(2)] extends_map [of same_account f, OF assms(1)]
  by (simp add: record_step_def records_extend_def names_ok_def txs_wf_def with_pending_def)

lemma kept_updates [kept]:
  "step_ok_effect (update_application_webhook_secret app sec)" "step_ok_effect (revoke_api_key key app)"
  "step_ok_effect (touch_api_key_last_used key)" "step_ok_effect (update_provider_account_status account st)"
  by (auto simp: step_ok_effect_def update_application_webhook_secret_def revoke_api_key_def Let_def
      touch_api_key_last_used_def update_provider_account_status_def update_where_def
      same_application_def same_key_def same_account_def application_clash_def api_key_clash_def account_clash_def
      intro!: step_update_applications step_update_keys step_update_accounts split: sum.splits if_splits)

subsection \<open>Actions and programs\<close>

abbreviation keeps_records :: "'a action \<Rightarrow> bool" where
  "keeps_records \<equiv> every world_step"

interpretation records: step_kept world_step environment
proof
  fix w v :: world
  assume "environment w v"
  then obtain t where "w_db v = (w_db w)\<lparr>db_clock := t\<rparr>" by (auto simp: environment_def)
  then show "world_step w v" using apart_step [OF apart_columns(4)] by simp
qed (auto intro: record_step_trans)

lemma step_statement:
  fixes w :: world
  shows "record_step (w_db w) (snd (eff (w_db w))) \<Longrightarrow> world_step w (snd (statement c eff w))"
  by (auto simp: statement_def Let_def split: fault.split)

lemma kept_exec [kept]: "step_ok_effect eff \<Longrightarrow> keeps_records (exec c eff)"
  unfolding exec_def by (rule every_act) (simp add: step_statement step_ok_effect_def)

lemma kept_exec_when [kept]: "step_ok_when ready eff \<Longrightarrow> keeps_records (exec_when ready c eff)"
  unfolding exec_when_def
proof (rule every_act_if)
  fix w :: world
  assume "step_ok_when ready eff"
    and "(case w_faults w (w_stmts w) of LostRequest _ \<Rightarrow> True | _ \<Rightarrow> False) \<or> ready (w_db w)"
  then show "world_step w (snd (statement c eff w))"
    by (cases "w_faults w (w_stmts w)") (auto simp: statement_def Let_def step_ok_when_def)
qed

lemmas kept_payment_writes_ready [kept] = kept_payment_writes [THEN kept_ready]

lemma step_open: "record_step d (snd (open_tx d))"
  by (auto simp: record_step_def names_ok_def records_extend_def with_pending_def txs_wf_def open_tx_def new_tx_def
      list_all_iff)

lemma step_close: "record_step d (close_tx t d)"
  by (auto simp: record_step_def names_ok_def records_extend_def with_pending_def close_tx_def txs_wf_def list_all_iff
      distinct_map_filter intro: appl.drop_pending akey.drop_pending acct.drop_pending)

lemma step_commit: "record_step d (commit_tx t d)"
proof -
  have own: "own_txs (Tx t) d = filter (\<lambda>x. t_id x = t) (db_txs d)"
    unfolding own_txs_def by (rule filter_cong) auto
  have "txs_wf d \<Longrightarrow> txs_wf (commit_tx t d)"
    by (simp add: txs_wf_def commit_tx_def close_tx_def distinct_map_filter list_all_iff)
  then show ?thesis
    using appl.commit_pending [of "db_applications d" t_applications "db_txs d" "\<lambda>x. t_id x = t"]
      akey.commit_pending [of "db_api_keys d" t_api_keys "db_txs d" "\<lambda>x. t_id x = t"]
      acct.commit_pending [of "db_accounts d" t_accounts "db_txs d" "\<lambda>x. t_id x = t"]
    by (simp add: record_step_def names_ok_def records_extend_def with_pending_def commit_tx_def close_tx_def
        visible_def own)
qed

lemma kept_transactions [kept]: "keeps_records begin_tx" "keeps_records (commit t)" "keeps_records (rollback t)"
proof -
  show "keeps_records begin_tx"
    unfolding begin_tx_def using step_open
    by (intro every_act) (auto simp: Let_def split: fault.split prod.split, metis snd_conv)
  show "keeps_records (commit t)"
    unfolding commit_def by (rule kept_exec) (simp add: step_ok_effect_def step_commit)
  show "keeps_records (rollback t)"
    unfolding rollback_def by (rule every_act) (simp add: step_close)
qed

lemma kept_act: "(\<And>w :: world. w_db (snd (f w)) = w_db w) \<Longrightarrow> keeps_records (act f)"
  by (rule every_act) simp

lemma kept_actions [kept]:
  "keeps_records get_time" "keeps_records (rand_read n)" "keeps_records (record_metric m)"
  "keeps_records (provider_call g)" "keeps_records new_uuid"
proof -
  show "keeps_records (provider_call g)"
    unfolding provider_call_def by (rule kept_act) (auto split: prod.split option.split)
  show "keeps_records new_uuid"
    unfolding new_uuid_def by (rule every_act) (simp add: fresh_id_def apart_step)
qed (simp_all add: get_time_def rand_read_def record_metric_def kept_act)

end
