(* ===== verification/ApiRecords.thy ===== *)
theory ApiRecords
  imports RecordSteps
begin

text \<open>
  Every request to the router takes record steps only (\<open>RecordSteps\<close>): the programs of both services,
  the handlers and the router, action by action. So the running API never loses or rewrites an
  application, an API key or a provider account, its unique indexes hold in every configuration, and
  the revocation of a key is final.
\<close>

subsection \<open>Programs from their parts\<close>

lemma kept_Ret [kept]: "keeps_records (Ret a)"
  by (rule every_Ret)

lemma kept_bindP [kept]: "keeps_records p \<Longrightarrow> (\<And>a. keeps_records (k a)) \<Longrightarrow> keeps_records (bindP p k)"
  by (rule every_bindP)

lemma kept_bindE [kept]: "keeps_records p \<Longrightarrow> (\<And>a. keeps_records (k a)) \<Longrightarrow> keeps_records (bindE p k)"
  by (rule every_bindE)

lemma kept_case_sum [kept]:
  "(\<And>e. keeps_records (f e)) \<Longrightarrow> (\<And>a. keeps_records (g a)) \<Longrightarrow> keeps_records (case r of Inl e \<Rightarrow> f e | Inr a \<Rightarrow> g a)"
  by (cases r) auto

lemma kept_case_option [kept]:
  "keeps_records f \<Longrightarrow> (\<And>a. keeps_records (g a)) \<Longrightarrow> keeps_records (case r of None \<Rightarrow> f | Some a \<Rightarrow> g a)"
  by (cases r) auto

lemma kept_case_prod [kept]: "(\<And>a b. keeps_records (f a b)) \<Longrightarrow> keeps_records (case r of (a, b) \<Rightarrow> f a b)"
  by (cases r) auto

lemma kept_if [kept]: "keeps_records p \<Longrightarrow> keeps_records q \<Longrightarrow> keeps_records (if b then p else q)"
  by simp

lemma kept_Let [kept]: "keeps_records (f a) \<Longrightarrow> keeps_records (let x = a in f x)"
  by simp

lemma kept_proceed [kept]: "(\<And>a. keeps_records (k a)) \<Longrightarrow> keeps_records (proceed x k)"
  by (cases x) (auto intro: kept_Ret)

lemma kept_answer [kept]: "keeps_records p \<Longrightarrow> keeps_records (answer fail ok p)"
  by (auto simp: answer_def intro: kept_bindP)

lemma kept_issue_key [kept]: "keeps_records (issue_key A c app name e)"
  unfolding issue_key_def by (intro kept)

lemma kept_payment_updates [kept]:
  "keeps_records (mark_payment_creating pid)" "keeps_records (set_payment_created pid p u t)"
  "keeps_records (set_payment_creation_unknown pid t)" "keeps_records (set_payment_canceled pid)"
  "keeps_records (apply_provider_status pid st t)"
proof -
  have "keeps_records (exec_update cond f)" "keeps_records (exec_update_at cond g)" for cond f g
  proof -
    show "keeps_records (exec_update cond f)" unfolding exec_update_def by (intro kept)
    have "step_ok_effect (\<lambda>d. update_payments cond (g (db_clock d)) d)"
      using kept_payment_writes(7) by (simp add: step_ok_effect_def)
    then show "keeps_records (exec_update_at cond g)"
      unfolding exec_update_at_def by (intro kept_exec_when kept_ready)
  qed
  note [kept] = this
  show "keeps_records (mark_payment_creating pid)" "keeps_records (set_payment_created pid p u t)"
    "keeps_records (set_payment_creation_unknown pid t)" "keeps_records (set_payment_canceled pid)"
    "keeps_records (apply_provider_status pid st t)"
    unfolding mark_payment_creating_def set_payment_created_def set_payment_creation_unknown_def
      set_payment_canceled_def apply_provider_status_def
    by (intro kept)+
qed

subsection \<open>Payments\<close>

lemma kept_recorder [kept]: "keeps_records (record_creation E res)" "keeps_records (record_provider_call E op err t)"
  unfolding record_creation_def record_provider_call_def by (intro kept)+

lemma kept_credentials [kept]: "keeps_records (provider_credentials E account)" "keeps_records (account_credentials A account)"
  unfolding provider_credentials_def account_credentials_def by (intro kept)+

lemma kept_get_payment_row [kept]: "keeps_records (get_payment_row E app pid)"
  unfolding get_payment_row_def by (intro kept)

lemma kept_replay [kept]: "keeps_records (replay E app row hash)"
  unfolding replay_def by (intro kept)

lemma kept_local [kept]:
  "keeps_records (local_checks E app key i t)" "keeps_records (local_payment E app account i t)"
  "keeps_records (local_records E app key hash i t p)"
  unfolding local_checks_def local_payment_def local_records_def by (intro kept)+

lemma kept_create_local [kept]: "keeps_records (create_local E app account key hash i)"
  unfolding create_local_def by (intro kept)

lemma kept_complete [kept]: "keeps_records (complete_operation oid st err)"
  unfolding complete_operation_def by (intro kept)

lemma kept_call_provider [kept]: "keeps_records (call_provider E loc i)"
  unfolding call_provider_def charge_provider_def handle_create_failure_def record_created_def by (intro kept)

lemma kept_create [kept]: "keeps_records (create E app input key)"
  unfolding create_def create_new_def create_with_account_def by (intro kept)

lemma kept_payments [kept]:
  "keeps_records (CreatePayment E app key input)" "keeps_records (CreateAttempt E app order key input)"
  "keeps_records (GetPayment E app' pid)" "keeps_records (ListPayments E app' query)" "keeps_records UnfinishedCount"
  unfolding CreatePayment_def CreateAttempt_def GetPayment_def maybe_refresh_def refresh_def
    apply_provider_state_def ListPayments_def UnfinishedCount_def
  by (intro kept)+

subsection \<open>Applications\<close>

lemma kept_secrets [kept]:
  "keeps_records generate_webhook_secret" "keeps_records (random_hex n)" "keeps_records (encrypt_secret A sec)"
  unfolding generate_webhook_secret_def random_hex_def encrypt_secret_def by (intro kept)+

lemma kept_create_application_tx [kept]: "keeps_records (create_application_tx A slug name i sec)"
  unfolding create_application_tx_def insert_application_def by (intro kept)

lemma kept_allocate [kept]: "keeps_records (allocate_slug n A base name i sec first)"
proof (induction n arbitrary: first)
  case (Suc n)
  then show ?case unfolding allocate_slug.simps attempt_slug_def by (intro kept)
qed (simp add: kept_Ret)

lemma kept_attach [kept]: "keeps_records (attach_in_tx A t app i)"
  unfolding attach_in_tx_def find_or_create_account_def by (intro kept)

lemma kept_applications [kept]:
  "keeps_records (CreateApplication A input)" "keeps_records (GetApplication app)" "keeps_records ListApplications"
  "keeps_records (IssueAPIKey A app name e)" "keeps_records (ListAPIKeys app)" "keeps_records (RevokeAPIKey app key)"
  "keeps_records (Authenticate A presented)" "keeps_records (AttachProviderAccount A app att)"
  "keeps_records (ListProviderAccounts app)" "keeps_records (SetProviderStatus account st)"
  "keeps_records (RotateWebhookSecret A app)"
  unfolding CreateApplication_def GetApplication_def ListApplications_def IssueAPIKey_def ListAPIKeys_def
    RevokeAPIKey_def Authenticate_def AttachProviderAccount_def ListProviderAccounts_def SetProviderStatus_def
    RotateWebhookSecret_def
  by (intro kept)+

subsection \<open>Requests\<close>

lemma kept_payment_handlers [kept]:
  "keeps_records (create_payment_handler D E r)" "keeps_records (create_attempt_handler D E r)"
  "keeps_records (get_payment_handler D E r)" "keeps_records (list_payments_handler D E r)" "keeps_records (Me D r)"
  unfolding create_payment_handler_def create_attempt_handler_def get_payment_handler_def
    list_payments_handler_def Me_def
  by (intro kept)+

lemma kept_admin_handlers [kept]:
  "keeps_records (createApplication D r)" "keeps_records (listApplications D r)" "keeps_records (getApplication D r)"
  "keeps_records (createAPIKey D r)" "keeps_records (listAPIKeys D r)" "keeps_records (revokeAPIKey D r)"
  "keeps_records (rotateWebhookSecret D r)" "keeps_records (attachProvider D r)" "keeps_records (listProviders D r)"
  "keeps_records (testProvider D r)"
  unfolding createApplication_def listApplications_def getApplication_def createAPIKey_def listAPIKeys_def
    revokeAPIKey_def rotateWebhookSecret_def attachProvider_def listProviders_def testProvider_def
  by (intro kept)+

lemma kept_health [kept]: "keeps_records (Live r)" "keeps_records (Ready r)" "keeps_records (metrics_handler r)"
  unfolding Live_def Ready_def Ping_def metrics_handler_def by (intro kept | rule kept_act, simp)+

lemma kept_mux: "(\<And>m p h r. (m, p, h) \<in> set t \<Longrightarrow> keeps_records (h r)) \<Longrightarrow> keeps_records (mux X t r)"
proof -
  assume h: "\<And>m p h r. (m, p, h) \<in> set t \<Longrightarrow> keeps_records (h r)"
  have "keeps_records (snd (snd (t ! i)) r)" if "i < length t" for i r
    by (rule h [of "fst (t ! i)" "fst (snd (t ! i))"]) (use that in simp)
  then show ?thesis
    by (auto simp: mux_def not_found_def method_not_allowed_def split: route_match.split prod.split
        intro!: kept_Ret kept_bindP) (metis snd_conv)
qed

lemma kept_guards:
  "(\<And>r. keeps_records (h r)) \<Longrightarrow> keeps_records (RequireApplication (Authenticate A) h r)"
  "(\<And>r. keeps_records (h r)) \<Longrightarrow> keeps_records (RequireAdmin token h r)"
  unfolding RequireApplication_def RequireAdmin_def by (auto intro!: kept split: option.split)

lemma kept_NewRouter: "keeps_records (NewRouter D r)"
proof -
  have v1: "keeps_records (v1 D r)" for r
    unfolding v1_def
    by (intro kept_guards kept_mux)
      (auto simp: v1_routes_def payments_register_def split: option.splits intro: kept)
  have admin: "keeps_records (admin D r)" for r
    unfolding admin_def
    by (intro kept_guards kept_mux) (auto simp: admin_register_def intro: kept)
  have "keeps_records (mux (d_http D) (root_routes D) r)" for r
    by (rule kept_mux) (auto simp: root_routes_def mount_def split: if_splits intro: v1 admin kept)
  then show ?thesis unfolding NewRouter_def Metrics_def by (auto intro!: kept)
qed

end
