(* ===== verification/RecordProperties.thy ===== *)
theory RecordProperties
  imports ApiRecords ApiProperties
begin

text \<open>
  What the running API keeps of applications, API keys and provider accounts under any interleaving of
  requests to any route, with any faults, and what follows for revoked keys.
\<close>

lemma api_program_kept: "p \<in> range (api_program D) \<Longrightarrow> keeps_records p"
  by (auto simp: api_program_def intro!: kept kept_NewRouter)

lemma api_later:
  assumes "api_reachable D w0 c" "(api_step D)\<^sup>*\<^sup>* c c'"
  shows "world_step w0 (shared c)" "world_step (shared c) (shared c')"
  using records.reach_all_keep [OF api_program_kept [of _ D] assms(1) [unfolded api_reachable_def]]
    records.later_keeps [OF api_program_kept [of _ D] assms(1) [unfolded api_reachable_def] assms(2) [unfolded api_step_def]]
  by blast+

lemma extends_member: "extends same old new \<Longrightarrow> r \<in> set old \<Longrightarrow> \<exists>s \<in> set new. same r s"
  unfolding extends_def by (metis in_set_conv_nth less_le_trans)

lemma same_key_fields:
  "same_key k l \<Longrightarrow> k_key_prefix l = k_key_prefix k \<and> (k_revoked_at k \<noteq> None \<longrightarrow> k_revoked_at l = k_revoked_at k)"
  by (cases k, cases l) (auto simp: same_key_def)

lemma names_ok_keys: "names_ok d \<Longrightarrow> clash_free api_key_clash (db_api_keys d)"
  by (simp add: names_ok_def with_pending_def akey.append_iff)

text \<open>A revoked key is refused, whatever fails.\<close>

lemma revoked_refused:
  assumes "clash_free api_key_clash (db_api_keys (w_db w))" "k \<in> set (db_api_keys (w_db w))"
    and "k_revoked_at k \<noteq> None" "prefix_of s = k_key_prefix k"
  shows "\<exists>e v. run (Authenticate A s) w = Some (Inl e, v) \<and> w_db v = w_db w"
proof (cases "looks_valid s")
  case False
  then show ?thesis by (simp add: Authenticate_def)
next
  case True
  let ?get = "get_api_key_by_prefix (prefix_of s) Pool"
  obtain r v where v: "statement Pool ?get w = (r, v)" by fastforce
  note reads = statement_reads [OF get_api_key_by_prefix_reads v]
  have "\<not> key_usable A s (w_now v) row" if "r = Inr row" for row
  proof -
    have "fst (?get (w_db w)) = Inr row" using reads that by blast
    then have row: "row \<in> set (db_api_keys (w_db w))" "k_key_prefix row = prefix_of s"
      by (auto simp: get_api_key_by_prefix_def with_text_def visible_def own_txs_def dest: one_row_Inr split: sum.splits)
    then have "row = k"
      using akey.no_two [OF assms(1) row(1) assms(2)] assms(4) by (simp add: api_key_clash_def)
    then show ?thesis using assms(3) by (simp add: key_usable_def)
  qed
  then show ?thesis
    using True v reads by (cases r) (auto simp: Authenticate_def run_bindP run_exec_Pool get_time_def)
qed

text \<open>The demo installation with a key that has been revoked.\<close>

definition demo_revoked :: api_key_row where
  "demo_revoked = \<lparr>k_id = 3, k_application_id = 1, k_key_prefix = ''app_live_AAAAAAA'', k_key_hash = [7],
     k_name = ''n'', k_permissions = [], k_expires_at = None, k_last_used_at = None, k_revoked_at = Some 0,
     k_created_at = 0\<rparr>"

definition demo_revoked_world :: world where
  "demo_revoked_world = demo_random\<lparr>w_db := demo_db\<lparr>db_api_keys := [demo_revoked], db_next := 4\<rparr>\<rparr>"

lemma demo_revoked_names: "names_ok (w_db demo_revoked_world)"
  by (simp add: demo_revoked_world_def demo_db_def names_ok_def txs_wf_def with_pending_def free_of_def)

lemma demo_later:
  obtains c c' :: api_system where "api_reachable demo_api demo_revoked_world c" "(api_step demo_api)\<^sup>*\<^sup>* c c'"
    "shared c = demo_revoked_world" "threads c' 0 = Some (api_program demo_api demo_list_apps)"
proof -
  let ?c = "\<lparr>threads = (\<lambda>_. None), shared = demo_revoked_world\<rparr> :: api_system"
  let ?c' = "\<lparr>threads = (threads ?c)(0 := Some (api_program demo_api demo_list_apps)), shared = shared ?c\<rparr>"
  have "api_reachable demo_api demo_revoked_world ?c" unfolding api_reachable_def by (rule reach_init)
  moreover have "api_step demo_api ?c ?c'" unfolding api_step_def by (rule step_spawn) simp_all
  ultimately show thesis by (intro that [of ?c ?c']) (auto intro: r_into_rtranclp)
qed

text \<open>C7. The running API never loses or rewrites an application, an API key or a provider account. From a
  configuration whose tables satisfy their unique indexes, whatever requests to whatever routes
  interleave and whatever fails: the rows of the three tables keep their places and all columns but
  the webhook secret, the last use and revocation, and the status; a key that is revoked stays revoked
  at the same time; and slugs, key prefixes and shops stay unique, over committed rows and the rows of
  open transactions together.\<close>

theorem api_keeps_records:
  assumes "names_ok (w_db w0)" "api_reachable D w0 c" "(api_step D)\<^sup>*\<^sup>* c c'"
  shows "names_ok (w_db (shared c')) \<and> records_extend (w_db (shared c)) (w_db (shared c'))"
  using api_later [OF assms(2,3)] assms(1) by (simp add: record_step_def)

theorem api_keeps_records_witness:
  "\<exists>c' :: api_system. threads c' 0 = Some (api_program demo_api demo_list_apps) \<and>
     names_ok (w_db (shared c')) \<and> records_extend (w_db demo_revoked_world) (w_db (shared c'))"
proof -
  obtain c c' where c: "api_reachable demo_api demo_revoked_world c" "(api_step demo_api)\<^sup>*\<^sup>* c c'"
    "shared c = demo_revoked_world" "threads c' 0 = Some (api_program demo_api demo_list_apps)" by (rule demo_later)
  from api_keeps_records [OF demo_revoked_names c(1,2)] c(3,4) show ?thesis by auto
qed

text \<open>C8. The revocation of a key is final. Once its row says it is revoked, then in every configuration the
  API can reach from there, with any requests and any faults in between, a request to \<open>/v1\<close> that
  presents a string with the key's prefix is answered 401 (500 if the check itself fails), reaches no
  handler and changes nothing in the database.\<close>

theorem revocation_is_final:
  assumes "names_ok (w_db w0)" "api_reachable D w0 c" "(api_step D)\<^sup>*\<^sup>* c c'"
    and "k \<in> set (db_api_keys (w_db (shared c)))" "k_revoked_at k \<noteq> None"
    and "bearer_token r = Some s" "prefix_of s = k_key_prefix k"
  shows "\<exists>res v. run (v1 D r) (shared c') = Some (res, v) \<and> rs_status res \<in> {401, 500} \<and>
    w_db v = w_db (shared c')"
proof -
  have ok: "names_ok (w_db (shared c'))" "extends same_key (db_api_keys (w_db (shared c))) (db_api_keys (w_db (shared c')))"
    using api_later [OF assms(2,3)] assms(1) by (auto simp: record_step_def records_extend_def)
  obtain k' where k': "k' \<in> set (db_api_keys (w_db (shared c')))" "same_key k k'"
    using extends_member [OF ok(2) assms(4)] by blast
  then have rev: "k_revoked_at k' \<noteq> None" and pre: "prefix_of s = k_key_prefix k'"
    using same_key_fields [OF k'(2)] assms(5,7) by simp_all
  obtain e v where "run (Authenticate (d_apps D) s) (shared c') = Some (Inl e, v)" "w_db v = w_db (shared c')"
    using revoked_refused [OF names_ok_keys [OF ok(1)] k'(1) rev pre] by blast
  then show ?thesis
    using assms(6) by (auto simp: v1_def RequireApplication_def run_bindP)
qed

theorem revocation_is_final_witness:
  "\<exists>(c' :: api_system) res v. threads c' 0 = Some (api_program demo_api demo_list_apps) \<and>
     run (v1 demo_api (demo_get ''/me'' ''Bearer app_live_AAAAAAAA'')) (shared c') = Some (res, v) \<and>
     rs_status res \<in> {401, 500} \<and> w_db v = w_db (shared c')"
proof -
  obtain c c' where c: "api_reachable demo_api demo_revoked_world c" "(api_step demo_api)\<^sup>*\<^sup>* c c'"
    "shared c = demo_revoked_world" "threads c' 0 = Some (api_program demo_api demo_list_apps)" by (rule demo_later)
  have key: "demo_revoked \<in> set (db_api_keys (w_db (shared c)))" "k_revoked_at demo_revoked \<noteq> None"
    by (simp_all add: c(3) demo_revoked_world_def demo_revoked_def)
  have "trim_space ''app_live_AAAAAAAA'' = ''app_live_AAAAAAAA''" by code_simp
  then have token: "bearer_token (demo_get ''/me'' ''Bearer app_live_AAAAAAAA'') = Some ''app_live_AAAAAAAA''"
    by (intro bearer_token_of) (simp_all add: demo_get_def)
  have "prefix_of ''app_live_AAAAAAAA'' = k_key_prefix demo_revoked" by code_simp
  from revocation_is_final [OF demo_revoked_names c(1,2) key token this] c(4) show ?thesis by blast
qed

end
