(* ===== verification/AttachRace.thy ===== *)
theory AttachRace
  imports KeyProperties AttachRuns
begin

text \<open>
  Two connections of the same account at once. \<open>AttachProviderAccount\<close> decides the default flag from
  the links it reads at the start of its transaction, and READ COMMITTED lets another transaction
  change them before it writes: the application can be left without a default account. Alone the
  operation keeps one (\<open>attach_keeps_one_default\<close>).
\<close>

subsection \<open>An application with two accounts\<close>

definition race_account :: account_row where
  "race_account = \<lparr>c_id = 5, c_provider = ''yookassa'', c_shop_id = ''10'',
     c_encrypted_secret_key = 1 # replicate 16 0 @ bytes_of ''s'', c_environment = ''test'', c_status = ''active'',
     c_created_at = 0, c_updated_at = 0\<rparr>"

definition race_db :: database where
  "race_db = demo_db\<lparr>db_accounts := db_accounts demo_db @ [race_account],
     db_links := db_links demo_db @
       [\<lparr>l_application_id = 1, l_provider_account_id = 5, l_is_default = False, l_created_at = 0\<rparr>],
     db_next := 6\<rparr>"

definition race_world :: world where
  "race_world = demo_random\<lparr>w_db := race_db\<rparr>"

text \<open>One request makes the second account the default, the other attaches it again.\<close>

definition race_take :: attach_provider_input where
  "race_take = \<lparr>at_provider = ''yookassa'', at_shop_id = ''10'', at_secret_key = ''s'',
     at_environment = ''test'', at_is_default = True\<rparr>"

definition race_again :: attach_provider_input where
  "race_again = race_take\<lparr>at_is_default := False\<rparr>"

text \<open>The database as the requests move it: the second has read the links in its transaction 6 before
  the first runs in its transaction 7.\<close>

definition race_read :: database where "race_read = snd (open_tx race_db)"
definition race_open :: database where "race_open = snd (open_tx race_read)"
definition race_cleared :: database where "race_cleared = snd (clear_default_provider 1 (Tx 7) race_open)"
definition race_taken :: database where "race_taken = snd (attach_provider_account 1 5 True (Tx 7) race_cleared)"
definition race_between :: database where "race_between = close_tx 7 (commit_tx 7 race_taken)"
definition race_again_db :: database where
  "race_again_db = snd (attach_provider_account 1 5 False (Tx 6) race_between)"
definition race_end :: database where "race_end = close_tx 6 (commit_tx 6 race_again_db)"

definition race_existing :: "(account_row \<times> bool) list" where
  "race_existing = [(hd (db_accounts demo_db), True), (race_account, False)]"

lemma race_effects:
  "fst (open_tx race_db) = 6" "fst (open_tx race_read) = 7"
  "get_application 1 Pool race_db = (Inr (hd (db_applications demo_db)), race_db)"
  "get_application 1 Pool race_read = (Inr (hd (db_applications demo_db)), race_read)"
  "list_provider_accounts 1 (Tx 6) race_read = (Inr race_existing, race_read)"
  "list_provider_accounts 1 (Tx 7) race_open = (Inr race_existing, race_open)"
  by code_simp+

lemma race_effects_taken:
  "get_provider_account_by_shop ''yookassa'' ''10'' ''test'' (Tx 7) race_open = (Inr race_account, race_open)"
  "clear_default_ready 1 (Tx 7) race_open" "fst (clear_default_provider 1 (Tx 7) race_open) = Inr ()"
  "attach_ready 1 5 True (Tx 7) race_cleared" "fst (attach_provider_account 1 5 True (Tx 7) race_cleared) = Inr ()"
  by code_simp+

lemma race_effects_again:
  "get_provider_account_by_shop ''yookassa'' ''10'' ''test'' (Tx 6) race_between = (Inr race_account, race_between)"
  "attach_ready 1 5 False (Tx 6) race_between" "fst (attach_provider_account 1 5 False (Tx 6) race_between) = Inr ()"
  by code_simp+

lemma race_conns:
  "conn_open (Tx 6) race_read" "conn_open (Tx 6) race_between" "conn_open (Tx 6) race_again_db"
  "conn_open (Tx 7) race_open" "conn_open (Tx 7) race_cleared" "conn_open (Tx 7) race_taken"
  by code_simp+

lemma race_secret: "assert_same_secret demo_apps race_account ''s'' = Inr ()"
  by code_simp

lemma race_after:
  "db_txs race_end = []" "list_all (\<lambda>l. \<not> l_is_default l) (db_links race_end)" "length (db_links race_end) = 2"
  "fst (get_default_provider_account 1 Pool race_end) = Inl (Sentinel ErrNoRows)"
  by code_simp+

lemma race_inputs:
  "race_take\<lparr>at_provider := trim_space (at_provider race_take), at_shop_id := trim_space (at_shop_id race_take),
     at_environment := trim_space (at_environment race_take)\<rparr> = race_take"
  "race_again\<lparr>at_provider := trim_space (at_provider race_again), at_shop_id := trim_space (at_shop_id race_again),
     at_environment := trim_space (at_environment race_again)\<rparr> = race_again"
  "validate_provider_input race_take = Inr ()" "validate_provider_input race_again = Inr ()"
  "make_default (at_is_default race_take) race_existing 5 = True"
  "make_default (at_is_default race_again) race_existing 5 = False"
  by code_simp+

lemma race_fields:
  "at_provider race_take = ''yookassa''" "at_shop_id race_take = ''10''" "at_environment race_take = ''test''"
  "at_secret_key race_take = ''s''"
  "at_provider race_again = ''yookassa''" "at_shop_id race_again = ''10''" "at_environment race_again = ''test''"
  "at_secret_key race_again = ''s''" "c_id race_account = 5"
  by (simp_all add: race_take_def race_again_def race_account_def)

lemma race_account_answer: "\<exists>a. to_provider_account race_account b = Inr a"
  by (simp add: to_provider_account_def)

lemma run_commit [calm_run]:
  "calm w \<Longrightarrow> conn_open (Tx t) d \<Longrightarrow> run (commit t) (at n d w) = Some (Inr (), at (Suc n) (commit_tx t d) w)"
  by (simp add: commit_def run_exec)

lemma run_race_found:
  "calm w \<Longrightarrow> conn_open (Tx t) d \<Longrightarrow> at_secret_key i = ''s'' \<Longrightarrow>
   get_provider_account_by_shop (at_provider i) (at_shop_id i) (at_environment i) (Tx t) d = (Inr race_account, d) \<Longrightarrow>
   run (find_or_create_account demo_apps t i) (at n d w) = Some (Inr race_account, at (Suc n) d w)"
  by (simp add: find_or_create_account_def run_bindP calm_run race_secret)

lemma run_race_take:
  assumes "calm w"
  shows "\<exists>a n'. run (AttachProviderAccount demo_apps 1 race_take) (at n race_read w) = Some (Inr a, at n' race_between w)"
proof -
  obtain a where a: "to_provider_account race_account True = Inr a" using race_account_answer by blast
  have "run (attach_in_tx demo_apps 7 1 race_take) (at m race_open w) =
      Some (Inr a, at (Suc (Suc (Suc (Suc (Suc m))))) (commit_tx 7 race_taken) w)" for m
    using assms by (simp del: One_nat_def add: attach_in_tx_def run_bindE run_bindP calm_run race_conns race_effects race_effects_taken
        run_race_found race_fields race_inputs Let_def a race_cleared_def [symmetric] race_taken_def [symmetric])
  then show ?thesis
    using assms unfolding AttachProviderAccount_def race_inputs Let_def
    by (simp del: One_nat_def add: run_bindE run_bindP calm_run race_effects race_inputs race_open_def [symmetric] race_between_def)
      (rule exI, rule refl)
qed

lemma run_race_again:
  "\<exists>k. attach_in_tx demo_apps 6 1 race_again = bindE (exec (Tx 6) (list_provider_accounts 1 (Tx 6))) k \<and>
     (\<forall>w m. calm w \<longrightarrow> (\<exists>a. run (k race_existing) (at m race_between w) =
        Some (Inr a, at (Suc (Suc (Suc m))) (commit_tx 6 race_again_db) w)))"
proof -
  obtain a where a: "to_provider_account race_account False = Inr a" using race_account_answer by blast
  show ?thesis
    by (rule exI, rule conjI, rule attach_in_tx_def)
      (simp del: One_nat_def add: a run_bindE run_bindP calm_run race_conns race_effects_again run_race_found
        race_fields race_inputs Let_def race_again_db_def [symmetric])
qed

text \<open>The other request up to its reading of the links, and from there.\<close>

lemma race_again_reads:
  assumes "calm w" "sys_reach progs env s0 c" "threads c i = Some (AttachProviderAccount demo_apps 1 race_again)"
    and "shared c = at n race_db w"
  shows "\<exists>c' k m. sys_reach progs env s0 c' \<and> threads c' i = Some (k (Inr race_existing)) \<and>
    shared c' = at m race_read w \<and> (\<forall>j. j \<noteq> i \<longrightarrow> threads c' j = threads c j) \<and>
    (\<forall>m. \<exists>a m'. run (k (Inr race_existing)) (at m race_between w) = Some (Inr a, at m' race_end w))"
proof -
  let ?found = "\<lambda>r :: go_err + application_row. case r of Inl e \<Rightarrow> Ret (Inl (map_not_found e)) | Inr _ \<Rightarrow>
      bindP begin_tx (\<lambda>r. case r of Inl e \<Rightarrow> Ret (Inl (Prefixed ''applications: begin'' e))
        | Inr t \<Rightarrow> bindP (attach_in_tx demo_apps t 1 race_again) (\<lambda>res. bindP (rollback t) (\<lambda>_. Ret res)))"
  let ?get = "exec Pool (get_application 1 Pool)"
  have t0: "threads c i = Some (bindP ?get ?found)"
    using assms(3) unfolding AttachProviderAccount_def race_inputs Let_def by (simp del: One_nat_def add: race_inputs bindE_def)
  have r0: "run ?get (at n race_db w) = Some (Inr (hd (db_applications demo_db)), at (Suc n) race_db w)"
    using assms(1) by (simp del: One_nat_def add: calm_run race_effects)
  obtain c1 where c1: "sys_reach progs env s0 c1"
    "threads c1 i = Some (?found (Inr (hd (db_applications demo_db))))" "shared c1 = at (Suc n) race_db w"
    "\<forall>j. j \<noteq> i \<longrightarrow> threads c1 j = threads c j"
    using run_prefix [OF r0 assms(2) t0 assms(4)] by blast
  let ?begun = "\<lambda>r. case r of Inl e \<Rightarrow> Ret (Inl (Prefixed ''applications: begin'' e))
        | Inr t \<Rightarrow> bindP (attach_in_tx demo_apps t 1 race_again) (\<lambda>res. bindP (rollback t) (\<lambda>_. Ret res))"
  have r1: "run begin_tx (at (Suc n) race_db w) = Some (Inr 6, at (Suc (Suc n)) race_read w)"
    using assms(1) by (simp add: calm_run race_effects race_read_def)
  have t1: "threads c1 i = Some (bindP begin_tx ?begun)" using c1(2) by (simp del: One_nat_def)
  obtain c2 where c2: "sys_reach progs env s0 c2" "threads c2 i = Some (?begun (Inr 6))"
    "shared c2 = at (Suc (Suc n)) race_read w" "\<forall>j. j \<noteq> i \<longrightarrow> threads c2 j = threads c1 j"
    using run_prefix [OF r1 c1(1) t1 c1(3)] by blast
  let ?list = "exec (Tx 6) (list_provider_accounts 1 (Tx 6))"
  obtain k where k: "attach_in_tx demo_apps 6 1 race_again = bindE ?list k"
    and late: "\<And>m. \<exists>a. run (k race_existing) (at m race_between w) =
      Some (Inr a, at (Suc (Suc (Suc m))) (commit_tx 6 race_again_db) w)"
    using run_race_again assms(1) by blast
  let ?rest = "\<lambda>r. bindP (case r of Inl e \<Rightarrow> Ret (Inl e) | Inr a \<Rightarrow> k a) (\<lambda>res. bindP (rollback 6) (\<lambda>_. Ret res))"
  have t2: "threads c2 i = Some (bindP ?list ?rest)"
    using c2(2) by (simp del: One_nat_def add: k bindE_def bindP_assoc)
  have r2: "run ?list (at (Suc (Suc n)) race_read w) = Some (Inr race_existing, at (Suc (Suc (Suc n))) race_read w)"
    using assms(1) by (simp del: One_nat_def add: calm_run race_effects race_conns)
  obtain c3 where c3: "sys_reach progs env s0 c3" "threads c3 i = Some (?rest (Inr race_existing))"
    "shared c3 = at (Suc (Suc (Suc n))) race_read w" "\<forall>j. j \<noteq> i \<longrightarrow> threads c3 j = threads c2 j"
    using run_prefix [OF r2 c2(1) t2 c2(3)] by blast
  have "\<exists>a m'. run (?rest (Inr race_existing)) (at m race_between w) = Some (Inr a, at m' race_end w)" for m
    using late [of m] by (auto simp: run_bindP calm_run race_end_def)
  with c1(4) c2(4) c3 show ?thesis by (intro exI [of _ c3] exI [of _ ?rest]) auto
qed

lemma race_links_ok: "links_ok race_db"
  by (auto simp: links_ok_def default_links_def race_db_def demo_db_def free_of_def link_clash_def race_account_def)

lemma race_reached:
  "\<exists>c a b m. sys_reach {AttachProviderAccount demo_apps 1 race_take, AttachProviderAccount demo_apps 1 race_again}
       environment race_world c \<and>
     threads c 0 = Some (Ret (Inr a)) \<and> threads c 1 = Some (Ret (Inr b)) \<and> shared c = at m race_end race_world"
proof -
  let ?progs = "{AttachProviderAccount demo_apps 1 race_take, AttachProviderAccount demo_apps 1 race_again}"
  let ?reach = "sys_reach ?progs environment race_world"
  let ?s = "\<lparr>threads = (\<lambda>_. None), shared = race_world\<rparr> :: (world, go_err + provider_account) system"
  have calm: "calm race_world" "race_world = at 0 race_db race_world"
    by (simp_all add: race_world_def calm_def at_def demo_random_def demo_world_def)
  let ?s0 = "\<lparr>threads = (threads ?s)(0 := Some (AttachProviderAccount demo_apps 1 race_take)), shared = shared ?s\<rparr>"
  let ?s1 = "\<lparr>threads = (threads ?s0)(1 := Some (AttachProviderAccount demo_apps 1 race_again)), shared = shared ?s0\<rparr>"
  have "?reach ?s0" by (rule reach_step [OF reach_init]) (rule step_spawn, simp_all)
  then have s1: "?reach ?s1" by (rule reach_step) (rule step_spawn, simp_all)
  have t1: "threads ?s1 1 = Some (AttachProviderAccount demo_apps 1 race_again)" by simp
  have "shared ?s1 = at 0 race_db race_world" using calm(2) by simp
  from race_again_reads [OF calm(1) s1 t1 this]
  obtain c2 k m where c2: "?reach c2" "threads c2 1 = Some (k (Inr race_existing))"
    "shared c2 = at m race_read race_world" "\<forall>j. j \<noteq> 1 \<longrightarrow> threads c2 j = threads ?s1 j"
    and late: "\<forall>m. \<exists>a m'. run (k (Inr race_existing)) (at m race_between race_world) =
      Some (Inr a, at m' race_end race_world)"
    by blast
  obtain a m1 where a: "run (AttachProviderAccount demo_apps 1 race_take) (at m race_read race_world) =
      Some (Inr a, at m1 race_between race_world)"
    using run_race_take [OF calm(1)] by blast
  have t2: "threads c2 0 = Some (AttachProviderAccount demo_apps 1 race_take)" using c2(4) by simp
  obtain c3 where c3: "?reach c3" "threads c3 0 = Some (Ret (Inr a))" "shared c3 = at m1 race_between race_world"
    "\<forall>j. j \<noteq> 0 \<longrightarrow> threads c3 j = threads c2 j"
    using run_reach [OF a c2(1) t2 c2(3)] by blast
  obtain b m2 where b: "run (k (Inr race_existing)) (at m1 race_between race_world) = Some (Inr b, at m2 race_end race_world)"
    using late by blast
  have t3: "threads c3 1 = Some (k (Inr race_existing))" using c3(4) c2(2) by simp
  obtain c4 where c4: "?reach c4" "threads c4 1 = Some (Ret (Inr b))" "shared c4 = at m2 race_end race_world"
    "\<forall>j. j \<noteq> 1 \<longrightarrow> threads c4 j = threads c3 j"
    using run_reach [OF b c3(1) t3 c3(3)] by blast
  have "threads c4 0 = Some (Ret (Inr a))" using c4(4) c3(2) by simp
  then show ?thesis using c4(1-3) by (intro exI [of _ c4] exI [of _ a] exI [of _ b] exI [of _ m2] conjI)
qed

text \<open>C12. Concurrent connections can leave an application without a default account. Two requests attach
  an account that is already linked, one of them making it the default; the other reads the links
  before the first has written and writes after it has committed. Both answer with success, and then
  the application has accounts and no default one: its payments are refused.\<close>

theorem attach_race_loses_default:
  "\<exists>c a b. sys_reach {AttachProviderAccount demo_apps 1 race_take, AttachProviderAccount demo_apps 1 race_again}
       environment race_world c \<and>
     threads c 0 = Some (Ret (Inr a)) \<and> threads c 1 = Some (Ret (Inr b)) \<and>
     links_ok (w_db race_world) \<and> db_txs (w_db (shared c)) = [] \<and>
     length (db_links (w_db (shared c))) = 2 \<and> list_all (\<lambda>l. \<not> l_is_default l) (db_links (w_db (shared c))) \<and>
     fst (get_default_provider_account 1 Pool (w_db (shared c))) = Inl (Sentinel ErrNoRows)"
proof -
  have "links_ok (w_db race_world)" using race_links_ok by (simp add: race_world_def)
  with race_reached race_after show ?thesis by (fastforce simp del: One_nat_def)
qed

end
