(* ===== verification/Spec2Isabelle.thy ===== *)
theory Spec2Isabelle
  imports SafetyProperties FunctionalProperties ComponentProperties KeyProperties AppProperties ApiProperties
    CreateEndpoint StartProperties Observations RecordProperties AttachRace
begin

text \<open>
  Kazna, a payment service: applications create payments for their orders over an HTTP API, the service
  charges them through a provider (YooKassa) and keeps their state in PostgreSQL. This development
  models the Go code under \<open>internal/\<close> and \<open>cmd/\<close> as Isabelle definitions and proves what makes it
  correct.

  THE PROGRAM AND ITS PARTS. A request enters the router (\<open>internal/http/router.go\<close>), passes the
  request metrics and the guard of its subtree (an API key for \<open>/v1\<close>, the admin token for \<open>/admin\<close>,
  \<open>internal/auth\<close>), and reaches a handler (\<open>internal/http/handlers\<close>), which decodes it
  (\<open>internal/http/respond\<close>, \<open>dto\<close>) and calls one of two services. The application service
  (\<open>internal/applications\<close>) keeps applications, their API keys (\<open>internal/credentials\<close>), webhook secrets
  and provider accounts, whose secrets it encrypts (\<open>internal/security/cipher.go\<close>); it holds outbound
  URLs to a policy (\<open>urlcheck.go\<close>). The payment service (\<open>internal/payments\<close>) creates payments in
  three steps (a local transaction under an advisory lock, the call to the provider, the record of its
  outcome) and refreshes them when they are read; it calls the provider through the adapter
  \<open>internal/providers/yookassa\<close>. Both services run the generated queries of
  \<open>internal/database/sqlcgen\<close>. \<open>cmd/api\<close> wires all of it from the environment (\<open>internal/config\<close>).

  THE MODEL. The state of the world is the record \<open>world\<close> (theory \<open>Database\<close>): the database (committed
  rows, open transactions with their pending rows and locks, clock, identifiers), the requests sent to
  the provider and the replies it will give, the random source, the faults of connections, the events
  recorded as metrics. A program is a value of \<open>prog\<close> (theory \<open>Programs\<close>): a result, or one action on
  the state followed by a program, where an action may have to wait. \<open>run\<close> executes a program alone;
  \<open>sys_step\<close> and \<open>sys_reach\<close> interleave any number of programs, action by action, with steps of the
  environment. Each statement of the code that touches the database, the provider, the clock or the
  random source is one action; Go errors are values of \<open>go_err\<close> (\<open>Errors\<close>), fallible code returns
  \<open>go_err + 'a\<close>. Each theory of the model is named with its source file:

    \<open>GoStrings\<close>, \<open>GoNumbers\<close>, \<open>Encoding\<close>, \<open>JsonText\<close>: the functions of Go's standard library the code
      uses (strings on bytes, strconv, hex and base64, UTF-8 and JSON strings).
    \<open>Credentials\<close>, \<open>Cipher\<close>, \<open>UrlCheck\<close>: \<open>credentials.go\<close>, \<open>cipher.go\<close>, \<open>urlcheck.go\<close>.
    \<open>Schema\<close>, \<open>Database\<close>, \<open>PaymentQueries\<close>, \<open>AppQueries\<close>: rows and constraints of the migrations,
      PostgreSQL as it is used, the queries \<open>payments.sql.go\<close> and \<open>applications.sql.go\<close>. A unique index is
      a relation between rows (\<open>clash\<close>); a query that writes waits for the rows of other transactions.
    \<open>PaymentStates\<close>, \<open>Validation\<close>, \<open>PaymentService\<close>: \<open>state_machine.go\<close>, \<open>models.go\<close>,
      \<open>validation.go\<close>, \<open>repository.go\<close>, \<open>service.go\<close>, \<open>recorder.go\<close> of \<open>internal/payments\<close>.
    \<open>Yookassa\<close>, \<open>YookassaClient\<close>: \<open>internal/providers\<close> and the adapter.
    \<open>AppModels\<close>, \<open>Slug\<close>, \<open>ApplicationService\<close>: \<open>models.go\<close>, \<open>repository.go\<close>, \<open>service.go\<close> of
      \<open>internal/applications\<close>.
    \<open>MetricsModel\<close>: \<open>internal/metrics\<close>. \<open>Dto\<close>, \<open>HttpTypes\<close>: \<open>dto\<close> and \<open>respond\<close>.
    \<open>AuthMiddleware\<close>, \<open>Handlers\<close>, \<open>Router\<close>: \<open>internal/auth\<close>, \<open>internal/http/handlers\<close>, \<open>router.go\<close>
      with \<open>middleware/metrics.go\<close>. A handler maps a request to a program that returns the response.
    \<open>Startup\<close>, \<open>Wiring\<close>: \<open>internal/config\<close>, \<open>internal/logging\<close>, \<open>internal/database/database.go\<close>,
      \<open>cmd/migrate\<close>, \<open>internal/version\<close>, and \<open>cmd/api\<close> and \<open>cmd/worker\<close> up to the point where they serve.

  Code outside the repository is a parameter: \<open>crypto\<close> and \<open>aead\<close> (SHA-256, AES-GCM), \<open>net_env\<close>
  (url.Parse, the DNS), \<open>pg_env\<close> (jsonb input, the lock hash), \<open>yk_env\<close> (JSON of the provider),
  \<open>http_env\<close> (the chi mux, UUID texts, JSON of requests), \<open>migrator\<close> and \<open>linked\<close>.

  WHAT IS SHOWN.
    Under any interleaving (\<open>PaymentInvariant\<close>, \<open>PaymentActions\<close>, \<open>PaymentUpdates\<close>, \<open>PaymentFlows\<close>,
      \<open>PaymentSafety\<close>, \<open>ApiSystem\<close>; properties in \<open>SafetyProperties\<close>, \<open>ApiProperties\<close>): the locale
      \<open>rely_guarantee\<close> of \<open>Programs\<close>, interpreted by the service's invariant and guarantee, gives that one
      unfinished payment per order, one charge per payment, idempotent creation, legal transitions
      and isolation hold in every reachable configuration, with faults anywhere, for the payment
      service and for the API with all its routes.
    Alone, whatever fails (\<open>Alone\<close>, \<open>Liveness\<close>, \<open>AppRuns\<close>, \<open>AttachRuns\<close>; \<open>AppProperties\<close>): every
      request is answered and closes its transaction; creating an application is all or nothing;
      attaching an account keeps one default per application. \<open>AttachRace\<close> shows two interleaved
      requests that break the latter.
    Of every single action, whatever the others do (\<open>StepRelations\<close>, \<open>RecordSteps\<close>, \<open>ApiRecords\<close>;
      \<open>RecordProperties\<close>): applications, API keys and accounts are only added and their names stay
      unique, a revocation is final.
    Alone without faults (\<open>CalmRuns\<close>, \<open>ChargeRuns\<close>, \<open>ReadRuns\<close>, \<open>KeyStore\<close>, \<open>KeyLifecycle\<close>;
      \<open>FunctionalProperties\<close>, \<open>CreateEndpoint\<close>, \<open>KeyProperties\<close>): the exact outcome of the operations,
      the status, code and body \<open>POST /v1/payments\<close> answers on each branch, and that the operations on API
      keys refine an abstract key ring (\<open>ring_step\<close>).
    Of any answer (\<open>Responses\<close>, \<open>RoutePatterns\<close>, \<open>Metering\<close>, \<open>ApiAccess\<close>): status, code and body are
      among those of the code's tables, a request is observed once and in a series of a registered route,
      and without a credential nothing changes and nothing private is shown.
    Of single components (\<open>ComponentProperties\<close>, \<open>Fingerprint\<close>, \<open>StartProperties\<close>, \<open>Observations\<close>):
      the vault and its key rotation, the URL guard as labels of names and address blocks, amounts and
      their round trip and overflow, error classification, validation against its own limits (bytes) and
      those of the API document (characters), fingerprints, the start of the process. Slugs are described
      by the words of the name (\<open>Slug\<close>, \<open>slug_words\<close>).
  Where the code and \<open>api/openapi.yaml\<close> differ (statuses, the code of an open attempt, character limits,
  the mandatory currency) the model and the properties follow the code.
  The interfaces are locales with interpretations on the model: \<open>keyed\<close> (tables with unique indexes),
  the codecs of \<open>Encoding\<close>, \<open>rely_guarantee\<close>, \<open>step_kept\<close> (relations every step respects), and \<open>authenticator\<close> (what the
  middleware relies on).
  \<open>Demo\<close> and \<open>DemoRuns\<close> are the installation the witnesses run on.

  BOUNDS. No fuel is used. Loops of the code are structural recursion: \<open>allocate_slug\<close> over the five
  attempts the code makes, list traversals, parsers; \<open>duration_parts\<close> recurs on a rest shown to be
  shorter. Amounts are 64-bit words, other integers are checked against their width where they are
  parsed or stored. Times and durations count microseconds (configuration: nanoseconds).

  NOT MODELLED. The middlewares of chi (request id, real IP, panic recovery, the 30 second deadline:
  a deadline is one of the faults of a statement) and the request log; signals, listening, shutdown,
  tickers; of \<open>cmd/worker\<close> the wait for its end (it has no jobs yet); the embedded SQL files, of which the schema's constraints are in \<open>Schema\<close>; log lines. Identifiers never repeat
  (\<open>gen_random_uuid\<close>, \<open>uuid.New\<close>). Deadlocks between transactions are not detected: a program that has
  to wait stays waiting.
\<close>

end
